(* ===== verification/Sakn_Prelude.thy ===== *)
theory Sakn_Prelude
  imports Main
begin

text \<open>
  Shared vocabulary of the development: the Python string operations the backend uses,
  written out on \<open>string\<close> (a list of code points below 256, Latin-1), decimal printing and
  parsing, time in microseconds, and the exceptions and results that the endpoint and
  service models return.  The named collections gather the facts the component theories
  rewrite with.
\<close>

named_theorems pystr_simps \<open>evaluation and algebra of the Python string operations\<close>
named_theorems model_simps \<open>component lookup and update facts\<close>

section \<open>Time\<close>

text \<open>
  \<open>time.time()\<close> and aware UTC datetimes are both read as integer microseconds since the
  epoch; \<open>sec\<close> converts the second-valued windows and durations of the code.
\<close>

type_synonym tstamp = int

definition sec :: "int \<Rightarrow> tstamp" where
  "sec n = n * 1000000"

lemma sec_mono [simp]: "sec a \<le> sec b \<longleftrightarrow> a \<le> b"
  by (simp add: sec_def)

lemma sec_less [simp]: "sec a < sec b \<longleftrightarrow> a < b"
  by (simp add: sec_def)

lemma sec_nonneg [simp]: "0 \<le> sec a \<longleftrightarrow> 0 \<le> a"
  by (simp add: sec_def)

lemma sec_pos [simp]: "0 < sec a \<longleftrightarrow> 0 < a"
  by (simp add: sec_def)

section \<open>Python strings\<close>

definition py_isspace :: "char \<Rightarrow> bool" where
  "py_isspace c = (let n = (of_char c :: nat) in
     9 \<le> n \<and> n \<le> 13 \<or> 28 \<le> n \<and> n \<le> 32 \<or> n = 133 \<or> n = 160)"

definition py_lstrip :: "string \<Rightarrow> string" where
  "py_lstrip s = dropWhile py_isspace s"

definition py_rstrip :: "string \<Rightarrow> string" where
  "py_rstrip s = rev (dropWhile py_isspace (rev s))"

definition py_strip :: "string \<Rightarrow> string" where
  "py_strip s = py_rstrip (py_lstrip s)"

text \<open>\<open>s.rstrip(c)\<close> for one character.\<close>

definition py_rstrip_char :: "char \<Rightarrow> string \<Rightarrow> string" where
  "py_rstrip_char c s = rev (dropWhile (\<lambda>x. x = c) (rev s))"

text \<open>\<open>str.lower\<close> on Latin-1: the ASCII capitals and the accented block 192--222 but 215.\<close>

definition lower_char :: "char \<Rightarrow> char" where
  "lower_char c = (let n = (of_char c :: nat) in
     if 65 \<le> n \<and> n \<le> 90 \<or> 192 \<le> n \<and> n \<le> 222 \<and> n \<noteq> 215 then char_of (n + 32) else c)"

definition py_lower :: "string \<Rightarrow> string" where
  "py_lower s = map lower_char s"

fun py_startswith :: "string \<Rightarrow> string \<Rightarrow> bool" where
  "py_startswith s [] = True"
| "py_startswith [] (p # ps) = False"
| "py_startswith (c # cs) (p # ps) = (c = p \<and> py_startswith cs ps)"

definition py_endswith :: "string \<Rightarrow> string \<Rightarrow> bool" where
  "py_endswith s p = py_startswith (rev s) (rev p)"

text \<open>\<open>p in s\<close> for strings.\<close>

fun py_contains :: "string \<Rightarrow> string \<Rightarrow> bool" where
  "py_contains [] p = (p = [])"
| "py_contains (c # cs) p = (py_startswith (c # cs) p \<or> py_contains cs p)"

text \<open>\<open>s.split(c)\<close> and \<open>s.split(c, maxsplit=n)\<close> for a one-character separator.\<close>

fun py_split :: "char \<Rightarrow> string \<Rightarrow> string list" where
  "py_split sep [] = [[]]"
| "py_split sep (c # cs) =
     (if c = sep then [] # py_split sep cs
      else (case py_split sep cs of [] \<Rightarrow> [[c]] | p # ps \<Rightarrow> (c # p) # ps))"

fun py_split_max :: "char \<Rightarrow> nat \<Rightarrow> string \<Rightarrow> string list" where
  "py_split_max sep 0 s = [s]"
| "py_split_max sep (Suc n) [] = [[]]"
| "py_split_max sep (Suc n) (c # cs) =
     (if c = sep then [] # py_split_max sep n cs
      else (case py_split_max sep (Suc n) cs of [] \<Rightarrow> [[c]] | p # ps \<Rightarrow> (c # p) # ps))"

text \<open>\<open>s.split()\<close>: maximal runs of non-space characters.\<close>

fun py_words_aux :: "string \<Rightarrow> string \<Rightarrow> string list" where
  "py_words_aux acc [] = (if acc = [] then [] else [rev acc])"
| "py_words_aux acc (c # cs) =
     (if py_isspace c then (if acc = [] then py_words_aux [] cs else rev acc # py_words_aux [] cs)
      else py_words_aux (c # acc) cs)"

definition py_words :: "string \<Rightarrow> string list" where
  "py_words s = py_words_aux [] s"

text \<open>\<open>sep.join(parts)\<close>.\<close>

fun py_join :: "string \<Rightarrow> string list \<Rightarrow> string" where
  "py_join sep [] = []"
| "py_join sep [p] = p"
| "py_join sep (p # q # ps) = p @ sep @ py_join sep (q # ps)"

text \<open>\<open>s.partition(c)\<close>: the part before, whether \<open>c\<close> occurs, the part after.\<close>

fun py_partition :: "char \<Rightarrow> string \<Rightarrow> string \<times> bool \<times> string" where
  "py_partition sep [] = ([], False, [])"
| "py_partition sep (c # cs) =
     (if c = sep then ([], True, cs)
      else (case py_partition sep cs of (a, f, b) \<Rightarrow> (c # a, f, b)))"

text \<open>\<open>str.splitlines()\<close>: the Latin-1 line boundaries, with CR LF as one.\<close>

definition is_linebreak :: "char \<Rightarrow> bool" where
  "is_linebreak c = (let n = (of_char c :: nat) in 10 \<le> n \<and> n \<le> 13 \<or> 28 \<le> n \<and> n \<le> 30 \<or> n = 133)"

fun py_splitlines_aux :: "string \<Rightarrow> string \<Rightarrow> string list" where
  "py_splitlines_aux acc [] = (if acc = [] then [] else [rev acc])"
| "py_splitlines_aux acc [c] = (if is_linebreak c then [rev acc] else [rev (c # acc)])"
| "py_splitlines_aux acc (c # d # cs) =
     (if c = char_of (13::nat) \<and> d = char_of (10::nat) then rev acc # py_splitlines_aux [] cs
      else if is_linebreak c then rev acc # py_splitlines_aux [] (d # cs)
      else py_splitlines_aux (c # acc) (d # cs))"

definition py_splitlines :: "string \<Rightarrow> string list" where
  "py_splitlines s = py_splitlines_aux [] s"

section \<open>Decimal numbers\<close>

definition digit_char :: "nat \<Rightarrow> char" where
  "digit_char d = char_of (48 + d)"

definition is_digit :: "char \<Rightarrow> bool" where
  "is_digit c = (let n = (of_char c :: nat) in 48 \<le> n \<and> n \<le> 57)"

definition digit_val :: "char \<Rightarrow> nat" where
  "digit_val c = of_char c - 48"

fun str_of_nat :: "nat \<Rightarrow> string" where
  "str_of_nat n = (if n < 10 then [digit_char n] else str_of_nat (n div 10) @ [digit_char (n mod 10)])"

declare str_of_nat.simps [simp del]

definition str_of_int :: "int \<Rightarrow> string" where
  "str_of_int i = (if i < 0 then CHR ''-'' # str_of_nat (nat (- i)) else str_of_nat (nat i))"

definition nat_of_digits :: "string \<Rightarrow> nat" where
  "nat_of_digits s = foldl (\<lambda>acc c. acc * 10 + digit_val c) 0 s"

text \<open>
  \<open>int(s)\<close> for a string: surrounding white space, one optional sign, then digits in which
  single underscores may separate digits.  \<open>None\<close> is \<open>ValueError\<close>.
\<close>

fun strip_underscores :: "string \<Rightarrow> string option" where
  "strip_underscores [] = None"
| "strip_underscores [c] = (if is_digit c then Some [c] else None)"
| "strip_underscores (c # d # cs) =
     (if \<not> is_digit c then None
      else map_option ((#) c) (strip_underscores (if d = CHR ''_'' then cs else d # cs)))"

definition py_int :: "string \<Rightarrow> int option" where
  "py_int s = (let t = py_strip s in
     case t of [] \<Rightarrow> None
     | c # cs \<Rightarrow>
        if c = CHR ''-'' then map_option (\<lambda>d. - int (nat_of_digits d)) (strip_underscores cs)
        else if c = CHR ''+'' then map_option (\<lambda>d. int (nat_of_digits d)) (strip_underscores cs)
        else map_option (\<lambda>d. int (nat_of_digits d)) (strip_underscores t))"

lemma digit_char_is_digit [simp]: "d < 10 \<Longrightarrow> is_digit (digit_char d)"
  by (simp add: is_digit_def digit_char_def Let_def)

lemma digit_val_digit_char [simp]: "d < 10 \<Longrightarrow> digit_val (digit_char d) = d"
  by (simp add: digit_val_def digit_char_def)

lemma str_of_nat_digits: "list_all is_digit (str_of_nat n)"
proof (induction n rule: str_of_nat.induct)
  case (1 n)
  then show ?case by (cases "n < 10") (simp_all add: str_of_nat.simps [of n])
qed

lemma str_of_nat_nonempty [simp]: "str_of_nat n \<noteq> []"
  by (subst str_of_nat.simps) simp

lemma nat_of_digits_append:
  "nat_of_digits (s @ [c]) = nat_of_digits s * 10 + digit_val c"
  by (simp add: nat_of_digits_def)

lemma nat_of_digits_str_of_nat [simp]: "nat_of_digits (str_of_nat n) = n"
proof (induction n rule: str_of_nat.induct)
  case (1 n)
  show ?case
  proof (cases "n < 10")
    case True
    then show ?thesis by (simp add: str_of_nat.simps [of n] nat_of_digits_def)
  next
    case False
    with 1 show ?thesis by (simp add: str_of_nat.simps [of n] nat_of_digits_append)
  qed
qed

section \<open>String facts\<close>

lemma py_startswith_iff: "py_startswith s p \<longleftrightarrow> (\<exists>t. s = p @ t)"
  by (induction s p rule: py_startswith.induct) auto

lemma py_startswith_append [simp]: "py_startswith (p @ s) p"
  by (auto simp: py_startswith_iff)

lemma py_split_nonempty [simp]: "py_split c s \<noteq> []"
  by (induction s) (auto split: list.splits)

lemma py_split_append_sep: "py_split c (s @ c # t) = py_split c s @ py_split c t"
  by (induction c s rule: py_split.induct) (auto split: list.splits dest: py_split_nonempty [THEN notE])

lemma py_split_no_sep: "sep \<notin> set s \<Longrightarrow> py_split sep s = [s]"
  by (induction s) auto

lemma py_split_append:
  "sep \<notin> set s \<Longrightarrow> py_split sep (s @ sep # t) = s # py_split sep t"
  by (induction s) auto

lemma py_join_split: "py_join [sep] (py_split sep s) = s"
proof (induction s)
  case Nil
  then show ?case by simp
next
  case (Cons c cs)
  obtain p ps where sp: "py_split sep cs = p # ps"
    by (cases "py_split sep cs") auto
  show ?case
  proof (cases "c = sep")
    case True
    with Cons.IH sp show ?thesis by simp
  next
    case False
    with Cons.IH sp show ?thesis by (cases ps) auto
  qed
qed

lemma py_split_parts_no_sep: "p \<in> set (py_split sep s) \<Longrightarrow> sep \<notin> set p"
  by (induction s arbitrary: p) (auto split: list.splits if_splits)

lemma py_lstrip_nonspace:
  "py_lstrip s = c # cs \<Longrightarrow> \<not> py_isspace c"
  unfolding py_lstrip_def by (metis hd_dropWhile list.distinct(1) list.sel(1))

lemma py_strip_subset: "set (py_strip s) \<subseteq> set s"
  by (auto simp: py_strip_def py_rstrip_def py_lstrip_def dest!: set_dropWhileD)

lemma dropWhile_idem: "dropWhile P (dropWhile P xs) = dropWhile P xs"
  by (induction xs) auto

lemma py_rstrip_idem: "py_rstrip (py_rstrip s) = py_rstrip s"
  by (simp add: py_rstrip_def dropWhile_idem)

lemma dropWhile_append_last:
  "\<not> P y \<Longrightarrow> dropWhile P (xs @ [y]) = dropWhile P xs @ [y]"
  by (induction xs) auto

lemma py_rstrip_lstripped:
  "s = [] \<or> \<not> py_isspace (hd s) \<Longrightarrow>
   py_rstrip s = [] \<or> \<not> py_isspace (hd (py_rstrip s))"
  by (cases s) (auto simp: py_rstrip_def dropWhile_append_last)

lemma lstrip_id: "s = [] \<or> \<not> py_isspace (hd s) \<Longrightarrow> py_lstrip s = s"
  by (cases s) (auto simp: py_lstrip_def)

lemma py_strip_idem [simp]: "py_strip (py_strip s) = py_strip s"
proof -
  have "py_lstrip s = [] \<or> \<not> py_isspace (hd (py_lstrip s))"
    by (metis list.collapse py_lstrip_nonspace)
  then have "py_lstrip (py_strip s) = py_strip s"
    unfolding py_strip_def by (intro lstrip_id py_rstrip_lstripped)
  then show ?thesis
    by (metis py_strip_def py_rstrip_idem)
qed

lemma lower_char_idem [simp]: "lower_char (lower_char c) = lower_char c"
  by (auto simp: lower_char_def Let_def)

lemma py_lower_idem [simp]: "py_lower (py_lower s) = py_lower s"
  by (simp add: py_lower_def)

lemma int_of_char_of:
  assumes "m < 256"
  shows "(of_char (char_of (m :: nat) :: char) :: int) = int m"
proof -
  have "(of_char (char_of m :: char) :: int) = int (of_char (char_of m :: char))"
    by (rule of_nat_of_char [symmetric])
  also have "(of_char (char_of m :: char) :: nat) = m"
    using assms by (simp only: of_char_of mod_less)
  finally show ?thesis .
qed

section \<open>Association lists\<close>

text \<open>
  A Python dict that keeps its insertion order: lookup is \<open>map_of\<close>; assigning an existing
  key updates it in place, a new key goes to the end.
\<close>

fun dict_set :: "'k \<Rightarrow> 'v \<Rightarrow> ('k \<times> 'v) list \<Rightarrow> ('k \<times> 'v) list" where
  "dict_set k v [] = [(k, v)]"
| "dict_set k v ((k', v') # kvs) = (if k = k' then (k, v) # kvs else (k', v') # dict_set k v kvs)"

definition dict_del :: "'k \<Rightarrow> ('k \<times> 'v) list \<Rightarrow> ('k \<times> 'v) list" where
  "dict_del k d = filter (\<lambda>kv. fst kv \<noteq> k) d"

definition dict_get :: "'k \<Rightarrow> 'v \<Rightarrow> ('k \<times> 'v) list \<Rightarrow> 'v" where
  "dict_get k dflt d = (case map_of d k of None \<Rightarrow> dflt | Some v \<Rightarrow> v)"

lemma map_of_dict_set [model_simps]: "map_of (dict_set k v d) = (map_of d)(k \<mapsto> v)"
  by (induction d) (auto simp: fun_eq_iff)

lemma dom_map_of_dict_set: "dom (map_of (dict_set k v d)) = insert k (dom (map_of d))"
  by (simp add: map_of_dict_set)

lemma fst_dict_set: "fst ` set (dict_set k v d) = insert k (fst ` set d)"
  using dom_map_of_dict_set [of k v d] by (simp add: dom_map_of_conv_image_fst)

lemma distinct_dict_set: "distinct (map fst d) \<Longrightarrow> distinct (map fst (dict_set k v d))"
proof (induction d)
  case (Cons kv d)
  then show ?case
    using fst_dict_set [of k v d] by (cases kv) auto
qed simp

lemma dict_set_new: "k \<notin> fst ` set d \<Longrightarrow> dict_set k v d = d @ [(k, v)]"
  by (induction d) auto

lemma map_of_dict_del [model_simps]: "map_of (dict_del k d) = (map_of d)(k := None)"
  by (induction d) (auto simp: dict_del_def fun_eq_iff)

section \<open>Lists filtered by a threshold\<close>

lemma filter_gt_twice:
  "(a::int) \<le> b \<Longrightarrow> filter (\<lambda>t. t > b) (filter (\<lambda>t. t > a) ts) = filter (\<lambda>t. t > b) ts"
  by (induction ts) auto

lemma length_filter_le_filter:
  "(\<And>t. t \<in> set ts \<Longrightarrow> P t \<Longrightarrow> Q t) \<Longrightarrow> length (filter P ts) \<le> length (filter Q ts)"
proof (induction ts)
  case (Cons t ts)
  have "length (filter P ts) \<le> length (filter Q ts)"
    by (rule Cons.IH) (use Cons.prems in auto)
  moreover have "P t \<Longrightarrow> Q t"
    using Cons.prems by simp
  ultimately show ?case
    by auto
qed simp

end
