(* ===== verification/Ipaddress.thy ===== *)
theory Ipaddress
  imports Sakn_Prelude "HOL-Library.Word"
begin

text \<open>
  The part of Python's standard \<open>ipaddress\<close> module that the backend relies on:
  \<open>ip_address\<close> (dotted IPv4 with no leading zeros, IPv6 with one \<open>::\<close>, an optional
  dotted suffix and an optional scope id), \<open>str\<close> of an address, and membership in an
  \<open>ip_network\<close>.  Addresses are machine words of 32 and 128 bits.
\<close>

unbundle bit_operations_syntax

section \<open>Addresses and networks\<close>

datatype ip_addr = IPv4Address "32 word" | IPv6Address "128 word" "string option"

datatype ip_net = IPv4Network "32 word" nat | IPv6Network "128 word" nat

text \<open>\<open>IPv4Address._parse_octet\<close>; \<open>None\<close> is \<open>ValueError\<close>.\<close>

definition parse_octet :: "string \<Rightarrow> nat option" where
  "parse_octet s =
     (if s = [] then None
      else if \<not> list_all is_digit s then None
      else if length s > 3 then None
      else if s \<noteq> ''0'' \<and> hd s = CHR ''0'' then None
      else (let n = nat_of_digits s in if n > 255 then None else Some n))"

definition v4_word :: "nat \<Rightarrow> nat \<Rightarrow> nat \<Rightarrow> nat \<Rightarrow> 32 word" where
  "v4_word a b c d = word_of_int (((int a * 256 + int b) * 256 + int c) * 256 + int d)"

definition ip4_of_string :: "string \<Rightarrow> (32 word) option" where
  "ip4_of_string s =
     (if CHR ''/'' \<in> set s then None
      else case py_split (CHR ''.'') s of
        [a, b, c, d] \<Rightarrow>
          (case (parse_octet a, parse_octet b, parse_octet c, parse_octet d) of
             (Some a', Some b', Some c', Some d') \<Rightarrow> Some (v4_word a' b' c' d')
           | _ \<Rightarrow> None)
      | _ \<Rightarrow> None)"

text \<open>Hexadecimal digits, \<open>_parse_hextet\<close> and \<open>'%x' % n\<close>.\<close>

definition hex_val :: "char \<Rightarrow> int option" where
  "hex_val ch = (let n = (of_char ch :: int) in
     if 48 \<le> n \<and> n \<le> 57 then Some (n - 48)
     else if 97 \<le> n \<and> n \<le> 102 then Some (n - 87)
     else if 65 \<le> n \<and> n \<le> 70 then Some (n - 55)
     else None)"

definition parse_hextet :: "string \<Rightarrow> int option" where
  "parse_hextet s =
     (if s = [] \<or> length s > 4 then None
      else map_option (foldl (\<lambda>acc h. acc * 16 + h) 0) (those (map hex_val s)))"

definition hex_char :: "int \<Rightarrow> char" where
  "hex_char d = (if d < 10 then char_of (48 + d) else char_of (87 + d))"

function hex_of_int :: "int \<Rightarrow> string" where
  "hex_of_int n = (if n < 16 then [hex_char n] else hex_of_int (n div 16) @ [hex_char (n mod 16)])"
  by pat_completeness auto
termination
  by (relation "measure nat") auto

declare hex_of_int.simps [simp del]

text \<open>\<open>_split_scope_id\<close>: the address and the scope, \<open>None\<close> for a malformed scope.\<close>

definition split_scope_id :: "string \<Rightarrow> (string \<times> string option) option" where
  "split_scope_id s =
     (case py_partition (CHR ''%'') s of (addr, found, scope) \<Rightarrow>
        if \<not> found then Some (addr, None)
        else if scope = [] \<or> CHR ''%'' \<in> set scope then None
        else Some (addr, Some scope))"

text \<open>
  \<open>IPv6Address._ip_int_from_string\<close>: the parts between the colons, a dotted suffix turned
  into two hextets, at most one empty part inside (the \<open>::\<close>), and the number of hextets
  before and after it.
\<close>

definition expand_v4_suffix :: "string list \<Rightarrow> string list option" where
  "expand_v4_suffix parts =
     (if CHR ''.'' \<in> set (last parts)
      then map_option
             (\<lambda>w. butlast parts @ [hex_of_int (uint w div 65536), hex_of_int (uint w mod 65536)])
             (ip4_of_string (last parts))
      else Some parts)"

definition hextets_int :: "int \<Rightarrow> int list \<Rightarrow> int" where
  "hextets_int acc hs = foldl (\<lambda>a h. a * 65536 + h) acc hs"

definition ip6_int_of_parts :: "string list \<Rightarrow> int option" where
  "ip6_int_of_parts parts =
     (let n = length parts;
          skips = filter (\<lambda>i. parts ! i = []) [1..<n - 1]
      in case skips of
           [] \<Rightarrow>
             if n \<noteq> 8 \<or> hd parts = [] \<or> last parts = [] then None
             else map_option (hextets_int 0) (those (map parse_hextet parts))
         | [k] \<Rightarrow>
             let lead = (hd parts = []); trail = (last parts = []);
                 hi = (if lead then k - 1 else k);
                 lo = (if trail then n - k - 1 - 1 else n - k - 1)
             in if lead \<and> hi \<noteq> 0 then None
                else if trail \<and> lo \<noteq> 0 then None
                else if hi + lo > 7 then None
                else (case (those (map parse_hextet (take hi parts)),
                            those (map parse_hextet (drop (n - lo) parts))) of
                        (Some hs, Some ls) \<Rightarrow>
                          Some (hextets_int (hextets_int 0 hs * 65536 ^ (8 - (hi + lo))) ls)
                      | _ \<Rightarrow> None)
         | _ \<Rightarrow> None)"

definition ip6_of_string :: "string \<Rightarrow> (128 word \<times> string option) option" where
  "ip6_of_string s =
     (if CHR ''/'' \<in> set s then None
      else case split_scope_id s of
        None \<Rightarrow> None
      | Some (addr, scope) \<Rightarrow>
          if addr = [] then None
          else (let parts = py_split_max (CHR '':'') 9 addr in
                if length parts < 3 then None
                else (case expand_v4_suffix parts of
                        None \<Rightarrow> None
                      | Some parts' \<Rightarrow>
                          if length parts' > 9 then None
                          else map_option (\<lambda>n. (word_of_int n, scope)) (ip6_int_of_parts parts'))))"

text \<open>\<open>ipaddress.ip_address\<close>: IPv4 first, then IPv6; \<open>None\<close> is \<open>ValueError\<close>.\<close>

definition ip_address :: "string \<Rightarrow> ip_addr option" where
  "ip_address s =
     (case ip4_of_string s of
        Some w \<Rightarrow> Some (IPv4Address w)
      | None \<Rightarrow> map_option (\<lambda>(w, sc). IPv6Address w sc) (ip6_of_string s))"

section \<open>Printing\<close>

definition octet :: "nat \<Rightarrow> 32 word \<Rightarrow> nat" where
  "octet i w = nat (uint (drop_bit (8 * i) w) mod 256)"

definition str_ip4 :: "32 word \<Rightarrow> string" where
  "str_ip4 w = py_join ''.'' (map (\<lambda>i. str_of_nat (octet i w)) [3, 2, 1, 0])"

text \<open>\<open>_compress_hextets\<close>: the first longest run of at least two \<open>0\<close> parts becomes \<open>::\<close>.\<close>

fun best_zero_run :: "nat \<Rightarrow> nat option \<Rightarrow> nat \<Rightarrow> nat \<Rightarrow> nat \<Rightarrow> string list \<Rightarrow> nat \<times> nat" where
  "best_zero_run i start len bstart blen [] = (bstart, blen)"
| "best_zero_run i start len bstart blen (h # hs) =
     (if h = ''0'' then
        (let len' = len + 1; st = (case start of None \<Rightarrow> i | Some s \<Rightarrow> s) in
         if len' > blen then best_zero_run (i + 1) (Some st) len' st len' hs
         else best_zero_run (i + 1) (Some st) len' bstart blen hs)
      else best_zero_run (i + 1) None 0 bstart blen hs)"

definition compress_hextets :: "string list \<Rightarrow> string list" where
  "compress_hextets hs =
     (case best_zero_run 0 None 0 0 0 hs of (bs, bl) \<Rightarrow>
        if bl > 1 then
          (let hs1 = (if bs + bl = length hs then hs @ [''''] else hs);
               hs2 = take bs hs1 @ [''''] @ drop (bs + bl) hs1
           in if bs = 0 then '''' # hs2 else hs2)
        else hs)"

definition hextet :: "nat \<Rightarrow> 128 word \<Rightarrow> int" where
  "hextet i w = uint (drop_bit (16 * i) w) mod 65536"

definition string_from_ip6_int :: "128 word \<Rightarrow> string" where
  "string_from_ip6_int w =
     py_join '':'' (compress_hextets (map (\<lambda>i. hex_of_int (hextet i w)) [7, 6, 5, 4, 3, 2, 1, 0]))"

definition ipv4_mapped :: "128 word \<Rightarrow> (32 word) option" where
  "ipv4_mapped w = (if drop_bit 32 w = 0xFFFF then Some (ucast w) else None)"

definition str_ip :: "ip_addr \<Rightarrow> string" where
  "str_ip ip = (case ip of
     IPv4Address w \<Rightarrow> str_ip4 w
   | IPv6Address w sc \<Rightarrow>
       (let base = (case ipv4_mapped w of
                      None \<Rightarrow> string_from_ip6_int w
                    | Some m \<Rightarrow> string_from_ip6_int (drop_bit 32 w) @ '':'' @ str_ip4 m)
        in case sc of None \<Rightarrow> base | Some z \<Rightarrow> base @ ''%'' @ z))"

section \<open>Network membership\<close>

text \<open>
  \<open>ip in net\<close>: the same version, and the address masked with the netmask (all ones shifted
  left by the host bits) equals the network address.  The scope id plays no part.
\<close>

fun ip_in_net :: "ip_addr \<Rightarrow> ip_net \<Rightarrow> bool" where
  "ip_in_net (IPv4Address w) (IPv4Network n p) = (w AND NOT (mask (32 - p)) = n)"
| "ip_in_net (IPv6Address w sc) (IPv6Network n p) = (w AND NOT (mask (128 - p)) = n)"
| "ip_in_net _ _ = False"

text \<open>\<open>ip_network\<close> in its default strict mode refuses a network address with host bits set.\<close>

fun net_strict :: "ip_net \<Rightarrow> bool" where
  "net_strict (IPv4Network n p) = (p \<le> 32 \<and> n AND NOT (mask (32 - p)) = n)"
| "net_strict (IPv6Network n p) = (p \<le> 128 \<and> n AND NOT (mask (128 - p)) = n)"

lemma and_not_mask_eq: "(w :: 'a::len word) AND NOT (mask k) = push_bit k (drop_bit k w)"
  by (rule bit_word_eqI) (auto simp: bit_simps)

lemma masked_eq_iff:
  fixes w n :: "'a::len word"
  assumes "n AND NOT (mask k) = n"
  shows "w AND NOT (mask k) = n \<longleftrightarrow> unat w div 2 ^ k = unat n div 2 ^ k"
proof -
  have "w AND NOT (mask k) = n \<longleftrightarrow> drop_bit k w = drop_bit k n"
  proof
    assume "w AND NOT (mask k) = n"
    then have "n = push_bit k (drop_bit k w)"
      by (simp add: and_not_mask_eq)
    then show "drop_bit k w = drop_bit k n"
      by (intro bit_word_eqI) (auto simp: bit_simps dest: bit_imp_le_length)
  next
    assume "drop_bit k w = drop_bit k n"
    then show "w AND NOT (mask k) = n"
      using assms by (simp add: and_not_mask_eq)
  qed
  also have "\<dots> \<longleftrightarrow> unat (drop_bit k w) = unat (drop_bit k n)"
    by (rule word_unat_eq_iff)
  finally show ?thesis
    unfolding unat_drop_bit_eq by (simp only: drop_bit_eq_div)
qed

section \<open>Round trips of dotted addresses\<close>

lemma digit_char_0: "digit_char 0 = CHR ''0''"
  by code_simp

lemma nat_of_digits_0: "nat_of_digits ''0'' = 0"
  by code_simp

lemma str_of_nat_lt10: "n < 10 \<Longrightarrow> str_of_nat n = [digit_char n]"
  by (simp add: str_of_nat.simps)

lemma str_of_nat_ge10: "\<not> n < 10 \<Longrightarrow> str_of_nat n = str_of_nat (n div 10) @ [digit_char (n mod 10)]"
  by (simp add: str_of_nat.simps)

lemma length_str_of_nat_le3: "n < 1000 \<Longrightarrow> length (str_of_nat n) \<le> 3"
proof -
  assume "n < 1000"
  then have "n div 10 div 10 < 10" by simp
  then show ?thesis
    by (cases "n < 10"; cases "n div 10 < 10")
       (simp_all add: str_of_nat_lt10 str_of_nat_ge10)
qed

lemma hd_str_of_nat: "0 < n \<Longrightarrow> hd (str_of_nat n) \<noteq> CHR ''0''"
proof (induction n rule: str_of_nat.induct)
  case (1 n)
  show ?case
  proof (cases "n < 10")
    case True
    have "of_char (digit_char n) = 48 + n"
      using True by (simp add: digit_char_def)
    moreover have "of_char (CHR ''0'') = (48 :: nat)"
      by simp
    ultimately have "digit_char n \<noteq> CHR ''0''"
      using 1(2) by (metis add_eq_self_zero neq0_conv)
    then show ?thesis
      by (simp add: str_of_nat_lt10 [OF True])
  next
    case False
    then have "hd (str_of_nat (n div 10)) \<noteq> CHR ''0''"
      using "1.IH" by simp
    then show ?thesis
      by (simp add: str_of_nat_ge10 [OF False])
  qed
qed

lemma parse_octet_str_of_nat [pystr_simps]: "n < 256 \<Longrightarrow> parse_octet (str_of_nat n) = Some n"
  using length_str_of_nat_le3 [of n] hd_str_of_nat [of n] str_of_nat_digits [of n]
  by (cases "n = 0") (auto simp: parse_octet_def Let_def str_of_nat_lt10 digit_char_0 nat_of_digits_0)

lemma parse_octet_bound: "parse_octet s = Some n \<Longrightarrow> n < 256"
  by (auto simp: parse_octet_def Let_def split: if_splits)

lemma digit_char_val: "is_digit c \<Longrightarrow> digit_char (digit_val c) = c"
  by (auto simp: is_digit_def digit_char_def digit_val_def Let_def)

lemma digit_val_lt10: "is_digit c \<Longrightarrow> digit_val c < 10"
  by (auto simp: is_digit_def digit_val_def Let_def)

lemma nat_of_digits_pos:
  "list_all is_digit s \<Longrightarrow> s \<noteq> [] \<Longrightarrow> hd s \<noteq> CHR ''0'' \<Longrightarrow> 0 < nat_of_digits s"
proof (induction s rule: rev_induct)
  case (snoc c s)
  show ?case
  proof (cases "s = []")
    case True
    with snoc.prems have "digit_char (digit_val c) \<noteq> CHR ''0''"
      by (simp add: digit_char_val)
    then have "0 < digit_val c"
      by (cases "digit_val c") (simp_all add: digit_char_0)
    with True show ?thesis
      by (simp add: nat_of_digits_def)
  next
    case False
    with snoc show ?thesis
      by (simp add: nat_of_digits_append)
  qed
qed simp

lemma str_of_nat_nat_of_digits:
  "list_all is_digit s \<Longrightarrow> s \<noteq> [] \<Longrightarrow> s = ''0'' \<or> hd s \<noteq> CHR ''0'' \<Longrightarrow>
   str_of_nat (nat_of_digits s) = s"
proof (induction s rule: rev_induct)
  case (snoc c s)
  have c: "is_digit c" "digit_val c < 10" "digit_char (digit_val c) = c"
    using snoc.prems by (simp_all add: digit_val_lt10 digit_char_val)
  show ?case
  proof (cases "s = []")
    case True
    with c show ?thesis
      by (simp add: nat_of_digits_def str_of_nat_lt10)
  next
    case False
    then have hd: "hd s \<noteq> CHR ''0''"
      using snoc.prems(3) by (cases s) auto
    have s: "list_all is_digit s"
      using snoc.prems(1) by simp
    have "0 < nat_of_digits s"
      by (rule nat_of_digits_pos [OF s False hd])
    then have "\<not> nat_of_digits s * 10 + digit_val c < 10"
      by simp
    then show ?thesis
      using c snoc.IH [OF s False] hd
      by (simp add: nat_of_digits_append str_of_nat_ge10)
  qed
qed simp

lemma parse_octet_inj [pystr_simps]: "parse_octet s = Some n \<Longrightarrow> str_of_nat n = s"
  using str_of_nat_nat_of_digits [of s]
  by (auto simp: parse_octet_def Let_def split: if_splits)

lemma digits_no_punct: "list_all is_digit s \<Longrightarrow> CHR ''.'' \<notin> set s \<and> CHR ''/'' \<notin> set s"
  by (auto simp: list_all_iff is_digit_def Let_def)

definition dotted :: "nat \<Rightarrow> nat \<Rightarrow> nat \<Rightarrow> nat \<Rightarrow> string" where
  "dotted a b c d =
     str_of_nat a @ ''.'' @ str_of_nat b @ ''.'' @ str_of_nat c @ ''.'' @ str_of_nat d"

lemma py_split_dotted:
  "py_split (CHR ''.'') (dotted a b c d) = [str_of_nat a, str_of_nat b, str_of_nat c, str_of_nat d]"
  using digits_no_punct [OF str_of_nat_digits]
  by (simp add: dotted_def py_split_append py_split_no_sep)

lemma ip4_of_string_dotted [pystr_simps]:
  assumes "a < 256" "b < 256" "c < 256" "d < 256"
  shows "ip4_of_string (dotted a b c d) = Some (v4_word a b c d)"
proof -
  have "CHR ''/'' \<notin> set (dotted a b c d)"
    using digits_no_punct [OF str_of_nat_digits] by (simp add: dotted_def)
  then show ?thesis
    by (simp add: ip4_of_string_def py_split_dotted parse_octet_str_of_nat assms)
qed

lemma ip_address_dotted [pystr_simps]:
  "a < 256 \<Longrightarrow> b < 256 \<Longrightarrow> c < 256 \<Longrightarrow> d < 256 \<Longrightarrow>
   ip_address (dotted a b c d) = Some (IPv4Address (v4_word a b c d))"
  by (simp add: ip_address_def ip4_of_string_dotted)

lemma v4_int_nat:
  "((int a * 256 + int b) * 256 + int c) * 256 + int d = int (((a * 256 + b) * 256 + c) * 256 + d)"
  by simp

lemma unat_v4_word:
  assumes "a < 256" "b < 256" "c < 256" "d < 256"
  shows "unat (v4_word a b c d) = ((a * 256 + b) * 256 + c) * 256 + d"
proof -
  have "((a * 256 + b) * 256 + c) * 256 + d < 2 ^ LENGTH(32)"
    using assms by simp
  then show ?thesis
    unfolding v4_word_def v4_int_nat of_int_of_nat_eq
    by (simp only: unsigned_of_nat take_bit_nat_eq_self of_nat_id)
qed

lemma octet_eq: "octet i w = unat w div 2 ^ (8 * i) mod 256"
proof -
  have "octet i w = unat (drop_bit (8 * i) w) mod 256"
    by (simp add: octet_def nat_mod_distrib)
  then show ?thesis
    unfolding unat_drop_bit_eq by (simp only: drop_bit_eq_div)
qed

lemma octet_v4_word:
  assumes "a < 256" "b < 256" "c < 256" "d < 256"
  shows "octet 3 (v4_word a b c d) = a" "octet 2 (v4_word a b c d) = b"
    "octet (Suc 0) (v4_word a b c d) = c" "octet 0 (v4_word a b c d) = d"
proof -
  let ?n = "((a * 256 + b) * 256 + c) * 256 + d"
  have n1: "?n div 256 = (a * 256 + b) * 256 + c"
    using assms by simp
  have n2: "?n div 65536 = a * 256 + b"
    using assms n1 div_mult2_eq [of ?n 256 256] by simp
  have n3: "?n div 16777216 = a"
    using assms n2 div_mult2_eq [of ?n 65536 256] by simp
  note u = octet_eq unat_v4_word [OF assms]
  have m: "(x * 256 + y) mod 256 = y" if "y < 256" for x y :: nat
    using that by (simp only: mod_mult_self3 mod_less)
  show "octet 3 (v4_word a b c d) = a"
    using n3 assms by (simp add: u)
  have "octet 2 (v4_word a b c d) = (a * 256 + b) mod 256"
    using n2 by (simp only: u) simp
  then show "octet 2 (v4_word a b c d) = b"
    by (simp only: m [OF assms(2)])
  have "octet (Suc 0) (v4_word a b c d) = ((a * 256 + b) * 256 + c) mod 256"
    using n1 by (simp only: u) simp
  then show "octet (Suc 0) (v4_word a b c d) = c"
    by (simp only: m [OF assms(3)])
  have "octet 0 (v4_word a b c d) = (((a * 256 + b) * 256 + c) * 256 + d) mod 256"
    by (simp only: u) simp
  then show "octet 0 (v4_word a b c d) = d"
    by (simp only: m [OF assms(4)])
qed

lemma str_ip4_v4_word [pystr_simps]:
  "a < 256 \<Longrightarrow> b < 256 \<Longrightarrow> c < 256 \<Longrightarrow> d < 256 \<Longrightarrow> str_ip4 (v4_word a b c d) = dotted a b c d"
  by (simp add: str_ip4_def octet_v4_word dotted_def)

lemma ip4_of_stringE:
  assumes "ip4_of_string s = Some w"
  obtains a b c d where "a < 256" "b < 256" "c < 256" "d < 256"
    "w = v4_word a b c d" "s = dotted a b c d"
proof -
  from assms obtain sa sb sc sd a b c d where
    sp: "py_split (CHR ''.'') s = [sa, sb, sc, sd]" and
    po: "parse_octet sa = Some a" "parse_octet sb = Some b"
        "parse_octet sc = Some c" "parse_octet sd = Some d" and
    w: "w = v4_word a b c d"
    by (auto simp: ip4_of_string_def split: if_splits list.splits option.splits)
  have "s = py_join ''.'' [sa, sb, sc, sd]"
    using py_join_split [of "CHR ''.''" s] sp by simp
  also have "\<dots> = dotted a b c d"
    using po by (simp add: dotted_def parse_octet_inj)
  finally show ?thesis
    using that [of a b c d] po w parse_octet_bound by blast
qed

text \<open>A dotted address is canonical: printing what was parsed gives the text back.\<close>

lemma str_ip4_parse [pystr_simps]: "ip4_of_string s = Some w \<Longrightarrow> str_ip4 w = s"
  by (elim ip4_of_stringE) (simp add: str_ip4_v4_word)

lemma ip_address_IPv4_str: "ip_address s = Some (IPv4Address w) \<Longrightarrow> str_ip (IPv4Address w) = s"
  by (auto simp: ip_address_def str_ip_def str_ip4_parse split: option.splits)

end
