(* ===== verification/Address_Filter.thy ===== *)
theory Address_Filter
  imports Ipaddress
begin

text \<open>
  \<open>app/security/address_filter.py\<close>: the block list every tool target passes through, the
  alias-walking resolver and \<open>filter_target\<close>.  The DNS service and dnspython's name
  canonicalisation are a parameter (\<open>dns_service\<close>): a query returns the rendered record
  set, NXDOMAIN or some other exception, and may answer anything.
\<close>

section \<open>The block list\<close>

definition BLOCKED_NETWORKS :: "ip_net list" where
  "BLOCKED_NETWORKS =
    [IPv4Network (v4_word 0 0 0 0) 8,
     IPv4Network (v4_word 10 0 0 0) 8,
     IPv4Network (v4_word 100 64 0 0) 10,
     IPv4Network (v4_word 127 0 0 0) 8,
     IPv4Network (v4_word 169 254 0 0) 16,
     IPv4Network (v4_word 172 16 0 0) 12,
     IPv4Network (v4_word 172 17 0 0) 16,
     IPv4Network (v4_word 172 18 0 0) 16,
     IPv4Network (v4_word 192 0 2 0) 24,
     IPv4Network (v4_word 192 168 0 0) 16,
     IPv4Network (v4_word 198 18 0 0) 15,
     IPv4Network (v4_word 198 51 100 0) 24,
     IPv4Network (v4_word 203 0 113 0) 24,
     IPv4Network (v4_word 224 0 0 0) 4,
     IPv4Network (v4_word 240 0 0 0) 4,
     IPv4Network (v4_word 255 255 255 255) 32,
     IPv6Network 1 128,
     IPv6Network 0xFFFF00000000 96,
     IPv6Network 0xFC000000000000000000000000000000 7,
     IPv6Network 0xFE800000000000000000000000000000 10,
     IPv6Network 0xFF000000000000000000000000000000 8]"

definition CNAME_MAX_HOPS :: nat where
  "CNAME_MAX_HOPS = 16"

definition is_ip_blocked :: "string \<Rightarrow> bool" where
  "is_ip_blocked target_ip =
     (case ip_address target_ip of
        None \<Rightarrow> True
      | Some ip \<Rightarrow> list_ex (ip_in_net ip) BLOCKED_NETWORKS)"

section \<open>Resolution\<close>

datatype dns_answer = Answer "string list" | NXDOMAIN | DnsError

text \<open>
  \<open>dns_query d resolver name rtype\<close> is what \<open>resolver.resolve(name, rtype)\<close> gives: the
  rendered items of the record set (empty: no record set), NXDOMAIN or another exception;
  \<open>canonical_name\<close> is \<open>_canonical_name\<close>, \<open>None\<close> for a \<open>DNSException\<close>.
\<close>

record dns_service =
  dns_query :: "string \<Rightarrow> string \<Rightarrow> string \<Rightarrow> dns_answer"
  canonical_name :: "string \<Rightarrow> string option"

definition check_ips :: "string list \<Rightarrow> string list option" where
  "check_ips ips = (if list_ex is_ip_blocked ips then None else Some ips)"

text \<open>One turn of the hop loop: return a list, or follow an alias.\<close>

datatype hop = Done "string list" | Follow string

definition checked :: "string list \<Rightarrow> string list" where
  "checked ips = (case check_ips ips of Some r \<Rightarrow> r | None \<Rightarrow> [])"

definition cname_hop :: "dns_service \<Rightarrow> string \<Rightarrow> string \<Rightarrow> hop" where
  "cname_hop d resolver current =
     (case dns_query d resolver current ''CNAME'' of
        NXDOMAIN \<Rightarrow> Done []
      | DnsError \<Rightarrow> Done []
      | Answer [] \<Rightarrow> Done []
      | Answer (target # _) \<Rightarrow>
          (case canonical_name d target of None \<Rightarrow> Done [] | Some t \<Rightarrow> Follow t))"

definition aaaa_hop :: "dns_service \<Rightarrow> string \<Rightarrow> string \<Rightarrow> hop" where
  "aaaa_hop d resolver current =
     (case dns_query d resolver current ''AAAA'' of
        NXDOMAIN \<Rightarrow> Done []
      | DnsError \<Rightarrow> cname_hop d resolver current
      | Answer [] \<Rightarrow> cname_hop d resolver current
      | Answer ips \<Rightarrow> Done (checked ips))"

definition resolve_hop :: "dns_service \<Rightarrow> string \<Rightarrow> string \<Rightarrow> hop" where
  "resolve_hop d resolver current =
     (case dns_query d resolver current ''A'' of
        NXDOMAIN \<Rightarrow> Done []
      | DnsError \<Rightarrow> aaaa_hop d resolver current
      | Answer [] \<Rightarrow> aaaa_hop d resolver current
      | Answer ips \<Rightarrow> Done (checked ips))"

fun resolve_walk :: "dns_service \<Rightarrow> string \<Rightarrow> nat \<Rightarrow> string \<Rightarrow> string list \<Rightarrow> string list" where
  "resolve_walk d resolver 0 current seen = []"
| "resolve_walk d resolver (Suc n) current seen =
     (case resolve_hop d resolver current of
        Done ips \<Rightarrow> ips
      | Follow t \<Rightarrow>
          if t \<in> set seen then [] else resolve_walk d resolver n t (t # seen))"

definition resolve_hostname_inner ::
    "dns_service \<Rightarrow> string \<Rightarrow> string \<Rightarrow> string option \<Rightarrow> string list" where
  "resolve_hostname_inner d default_resolver hostname resolver_ip =
     (let resolver = (case resolver_ip of None \<Rightarrow> default_resolver
                      | Some r \<Rightarrow> if r = [] then default_resolver else r)
      in case canonical_name d hostname of
           None \<Rightarrow> []
         | Some current \<Rightarrow> resolve_walk d resolver CNAME_MAX_HOPS current [current])"

text \<open>The outer deadline: \<open>timed_out\<close> is whether \<open>asyncio.wait_for\<close> raised.\<close>

definition resolve_hostname ::
    "dns_service \<Rightarrow> bool \<Rightarrow> string \<Rightarrow> string \<Rightarrow> string option \<Rightarrow> string list" where
  "resolve_hostname d timed_out default_resolver hostname resolver_ip =
     (if timed_out then [] else resolve_hostname_inner d default_resolver hostname resolver_ip)"

definition filter_target ::
    "dns_service \<Rightarrow> bool \<Rightarrow> string \<Rightarrow> string \<Rightarrow> string \<times> string option" where
  "filter_target d timed_out default_resolver target =
     (case ip_address target of
        Some ip \<Rightarrow>
          (let ip_str = str_ip ip in
           if is_ip_blocked ip_str then ([], Some ''errors.target_not_allowed'') else (ip_str, None))
      | None \<Rightarrow>
          (case resolve_hostname d timed_out default_resolver target None of
             [] \<Rightarrow> ([], Some ''errors.dns_resolution_failed'')
           | ip # ips \<Rightarrow>
               if list_ex is_ip_blocked (ip # ips)
               then ([], Some ''errors.target_not_allowed'') else (ip, None)))"

section \<open>The block list read as address ranges\<close>

text \<open>Every literal in the list is accepted by the strict \<open>ip_network\<close> constructor.\<close>

lemma blocked_networks_strict: "list_all net_strict BLOCKED_NETWORKS"
  by (simp add: BLOCKED_NETWORKS_def v4_word_def and_not_mask_eq)

lemmas strict_nets = blocked_networks_strict [unfolded BLOCKED_NETWORKS_def list.pred_inject]

lemma ip4_net_iff:
  assumes "net_strict (IPv4Network n p)"
  shows "ip_in_net (IPv4Address w) (IPv4Network n p) \<longleftrightarrow> unat w div 2 ^ (32 - p) = unat n div 2 ^ (32 - p)"
  using assms masked_eq_iff [of n "32 - p" w] by simp

text \<open>The reference description of a forbidden dotted address, octet by octet.\<close>

fun octets_blocked :: "nat \<Rightarrow> nat \<Rightarrow> nat \<Rightarrow> nat \<Rightarrow> bool" where
  "octets_blocked a b c d \<longleftrightarrow>
     a = 0 \<or> a = 10 \<or> a = 127 \<or> a \<ge> 224
   \<or> (a = 100 \<and> 64 \<le> b \<and> b < 128)
   \<or> (a = 169 \<and> b = 254)
   \<or> (a = 172 \<and> 16 \<le> b \<and> b < 32)
   \<or> (a = 192 \<and> b = 168)
   \<or> (a = 192 \<and> b = 0 \<and> c = 2)
   \<or> (a = 198 \<and> (b = 18 \<or> b = 19))
   \<or> (a = 198 \<and> b = 51 \<and> c = 100)
   \<or> (a = 203 \<and> b = 0 \<and> c = 113)"

text \<open>Dividing the address value by a power of two keeps the leading octets.\<close>

lemma octets_div:
  fixes a b c d :: nat
  assumes "a < 256" "b < 256" "c < 256" "d < 256"
  defines "n \<equiv> ((a * 256 + b) * 256 + c) * 256 + d"
  shows "n div 256 = (a * 256 + b) * 256 + c" "n div 65536 = a * 256 + b" "n div 16777216 = a"
    "n div 131072 = a * 128 + b div 2" "n div 1048576 = a * 16 + b div 16"
    "n div 4194304 = a * 4 + b div 64" "n div 268435456 = a div 16"
proof -
  show n1: "n div 256 = (a * 256 + b) * 256 + c"
    using assms by simp
  show n2: "n div 65536 = a * 256 + b"
    using assms n1 div_mult2_eq [of n 256 256] by simp
  show n3: "n div 16777216 = a"
    using assms n2 div_mult2_eq [of n 65536 256] by simp
  show "n div 131072 = a * 128 + b div 2"
    using n2 div_mult2_eq [of n 65536 2] by simp
  show "n div 1048576 = a * 16 + b div 16"
    using n2 div_mult2_eq [of n 65536 16] by simp
  show "n div 4194304 = a * 4 + b div 64"
    using n2 div_mult2_eq [of n 65536 64] by simp
  show "n div 268435456 = a div 16"
    using n3 div_mult2_eq [of n 16777216 16] by simp
qed

lemma v4_in_net_iff:
  assumes "a < 256" "b < 256" "c < 256" "d < 256" "net_strict (IPv4Network (v4_word e f g h) p)"
    and "e < 256" "f < 256" "g < 256" "h < 256"
  shows "ip_in_net (IPv4Address (v4_word a b c d)) (IPv4Network (v4_word e f g h) p) \<longleftrightarrow>
    (((a * 256 + b) * 256 + c) * 256 + d) div 2 ^ (32 - p) =
    (((e * 256 + f) * 256 + g) * 256 + h) div 2 ^ (32 - p)"
  by (simp only: ip4_net_iff [OF assms(5)] unat_v4_word assms)

lemma split_eq: "(y :: nat) < m \<Longrightarrow> x * m + y = k \<longleftrightarrow> x = k div m \<and> y = k mod m"
  by (auto simp: div_mult_mod_eq)

lemma octet_ranges:
  fixes a b c :: nat
  assumes "a < 256" "b < 256" "c < 256"
  shows "a * 4 + b div 64 = 401 \<longleftrightarrow> a = 100 \<and> 64 \<le> b \<and> b < 128"
    "a * 16 + b div 16 = 2753 \<longleftrightarrow> a = 172 \<and> 16 \<le> b \<and> b < 32"
    "a * 128 + b div 2 = 25353 \<longleftrightarrow> a = 198 \<and> (b = 18 \<or> b = 19)"
    "a * 256 + b = 43518 \<longleftrightarrow> a = 169 \<and> b = 254"
    "a * 256 + b = 44049 \<longleftrightarrow> a = 172 \<and> b = 17"
    "a * 256 + b = 44050 \<longleftrightarrow> a = 172 \<and> b = 18"
    "a * 256 + b = 49320 \<longleftrightarrow> a = 192 \<and> b = 168"
    "(a * 256 + b) * 256 + c = 12582914 \<longleftrightarrow> a = 192 \<and> b = 0 \<and> c = 2"
    "(a * 256 + b) * 256 + c = 12989284 \<longleftrightarrow> a = 198 \<and> b = 51 \<and> c = 100"
    "(a * 256 + b) * 256 + c = 13303921 \<longleftrightarrow> a = 203 \<and> b = 0 \<and> c = 113"
    "a div 16 = 14 \<longleftrightarrow> 224 \<le> a \<and> a < 240"
    "a div 16 = 15 \<longleftrightarrow> 240 \<le> a"
proof -
  have "b div 64 < 4" "b div 16 < 16" "b div 2 < 128"
    using assms(2) by simp_all
  note q = this [THEN split_eq] split_eq [OF assms(2)] split_eq [OF assms(3)]
  show "a * 4 + b div 64 = 401 \<longleftrightarrow> a = 100 \<and> 64 \<le> b \<and> b < 128"
    "a * 16 + b div 16 = 2753 \<longleftrightarrow> a = 172 \<and> 16 \<le> b \<and> b < 32"
    "a * 128 + b div 2 = 25353 \<longleftrightarrow> a = 198 \<and> (b = 18 \<or> b = 19)"
    by (auto simp: q)
  show "a * 256 + b = 43518 \<longleftrightarrow> a = 169 \<and> b = 254"
    "a * 256 + b = 44049 \<longleftrightarrow> a = 172 \<and> b = 17"
    "a * 256 + b = 44050 \<longleftrightarrow> a = 172 \<and> b = 18"
    "a * 256 + b = 49320 \<longleftrightarrow> a = 192 \<and> b = 168"
    "(a * 256 + b) * 256 + c = 12582914 \<longleftrightarrow> a = 192 \<and> b = 0 \<and> c = 2"
    "(a * 256 + b) * 256 + c = 12989284 \<longleftrightarrow> a = 198 \<and> b = 51 \<and> c = 100"
    "(a * 256 + b) * 256 + c = 13303921 \<longleftrightarrow> a = 203 \<and> b = 0 \<and> c = 113"
    by (simp_all add: q del: distrib_right_numeral add_mult_distrib)
  show "a div 16 = 14 \<longleftrightarrow> 224 \<le> a \<and> a < 240" "a div 16 = 15 \<longleftrightarrow> 240 \<le> a"
    using assms(1) by auto
qed

text \<open>
  The masks of the code are exactly these octet ranges: a dotted address is refused when and
  only when \<open>octets_blocked\<close> says so (the two Docker bridges lie inside \<open>172.16.0.0/12\<close>).
\<close>

lemma blocked_dotted:
  assumes "a < 256" "b < 256" "c < 256" "d < 256"
  shows "is_ip_blocked (dotted a b c d) \<longleftrightarrow> octets_blocked a b c d"
proof -
  define n where "n = ((a * 256 + b) * 256 + c) * 256 + d"
  have div: "n div 256 = (a * 256 + b) * 256 + c" "n div 65536 = a * 256 + b" "n div 16777216 = a"
    "n div 131072 = a * 128 + b div 2" "n div 1048576 = a * 16 + b div 16"
    "n div 4194304 = a * 4 + b div 64" "n div 268435456 = a div 16"
    by (rule octets_div [OF assms, folded n_def])+
  have top: "n = 4294967295 \<Longrightarrow> 224 \<le> a"
    using div(3) by simp
  have "is_ip_blocked (dotted a b c d) \<longleftrightarrow>
      n div 16777216 = 0 \<or> n div 16777216 = 10 \<or> n div 4194304 = 401 \<or> n div 16777216 = 127
    \<or> n div 65536 = 43518 \<or> n div 1048576 = 2753 \<or> n div 65536 = 44049 \<or> n div 65536 = 44050
    \<or> n div 256 = 12582914 \<or> n div 65536 = 49320 \<or> n div 131072 = 25353
    \<or> n div 256 = 12989284 \<or> n div 256 = 13303921
    \<or> n div 268435456 = 14 \<or> n div 268435456 = 15 \<or> n = 4294967295"
    by (simp add: is_ip_blocked_def ip_address_dotted assms BLOCKED_NETWORKS_def strict_nets
          v4_in_net_iff [OF assms, folded n_def] del: ip_in_net.simps(1) net_strict.simps)
  moreover have "224 \<le> a \<longleftrightarrow> (224 \<le> a \<and> a < 240) \<or> 240 \<le> a"
    and "b = 17 \<Longrightarrow> 16 \<le> b \<and> b < 32" and "b = 18 \<Longrightarrow> 16 \<le> b \<and> b < 32"
    by auto
  ultimately show ?thesis
    unfolding div octet_ranges [OF assms(1-3)] octets_blocked.simps
    using top by argo
qed

section \<open>What the resolver returns\<close>

lemma checked_eq: "checked ips = (if list_ex is_ip_blocked ips then [] else ips)"
  by (simp add: checked_def check_ips_def)

lemma resolve_hop_Done_unblocked:
  "resolve_hop d r cur = Done ips \<Longrightarrow> ips \<noteq> [] \<Longrightarrow>
   \<not> list_ex is_ip_blocked ips \<and>
   (dns_query d r cur ''A'' = Answer ips \<or> dns_query d r cur ''AAAA'' = Answer ips)"
  by (auto simp: resolve_hop_def aaaa_hop_def cname_hop_def checked_eq
      split: dns_answer.splits list.splits option.splits if_splits)

text \<open>
  \<open>alias_after d r n cur\<close> follows \<open>n\<close> aliases from \<open>cur\<close> with no bound and no record of the
  names seen: the declarative reading of a CNAME chain.
\<close>

fun alias_after :: "dns_service \<Rightarrow> string \<Rightarrow> nat \<Rightarrow> string \<Rightarrow> string option" where
  "alias_after d r 0 cur = Some cur"
| "alias_after d r (Suc n) cur =
     (case resolve_hop d r cur of Done _ \<Rightarrow> None | Follow t \<Rightarrow> alias_after d r n t)"

lemma alias_after_add:
  "alias_after d r (m + n) cur =
   (case alias_after d r m cur of None \<Rightarrow> None | Some t \<Rightarrow> alias_after d r n t)"
  by (induction m arbitrary: cur) (auto split: hop.splits)

lemma alias_after_Done:
  "alias_after d r k cur = Some p \<Longrightarrow> resolve_hop d r p = Done ips \<Longrightarrow> k < n \<Longrightarrow>
   alias_after d r n cur = None"
proof -
  assume k: "alias_after d r k cur = Some p" "resolve_hop d r p = Done ips" "k < n"
  then obtain m where "n = k + Suc m"
    using less_natE by auto
  with k show ?thesis
    by (simp only: alias_after_add) simp
qed

text \<open>A chain that ends in a record set never repeats a name.\<close>

lemma alias_chain_distinct:
  assumes "alias_after d r k cur = Some p" "resolve_hop d r p = Done ips"
    and "i < j" "j \<le> k" "alias_after d r i cur = Some q" "alias_after d r j cur = Some q"
  shows False
proof -
  have "alias_after d r (k - j) q = Some p"
    using assms alias_after_add [of d r j "k - j" cur] by simp
  then have "alias_after d r (i + (k - j)) cur = Some p"
    using assms alias_after_add [of d r i "k - j" cur] by simp
  moreover have "i + (k - j) < k"
    using assms by simp
  ultimately have "alias_after d r k cur = None"
    using assms(2) alias_after_Done by blast
  with assms(1) show False by simp
qed

lemma resolve_walk_sound:
  "resolve_walk d r n cur seen = ips \<Longrightarrow> ips \<noteq> [] \<Longrightarrow>
   \<exists>k < n. \<exists>p. alias_after d r k cur = Some p \<and> resolve_hop d r p = Done ips"
proof (induction n arbitrary: cur seen)
  case (Suc n)
  show ?case
  proof (cases "resolve_hop d r cur")
    case (Done x)
    with Suc.prems have "alias_after d r 0 cur = Some cur \<and> resolve_hop d r cur = Done ips"
      by simp
    then show ?thesis by blast
  next
    case (Follow t)
    with Suc obtain k p where "k < n" "alias_after d r k t = Some p" "resolve_hop d r p = Done ips"
      by (fastforce split: if_splits)
    with Follow have "Suc k < Suc n \<and> alias_after d r (Suc k) cur = Some p \<and> resolve_hop d r p = Done ips"
      by simp
    then show ?thesis by blast
  qed
qed simp

lemma resolve_walk_complete:
  "alias_after d r k cur = Some p \<Longrightarrow> resolve_hop d r p = Done ips \<Longrightarrow> k < n \<Longrightarrow>
   (\<And>j q. 0 < j \<Longrightarrow> j \<le> k \<Longrightarrow> alias_after d r j cur = Some q \<Longrightarrow> q \<notin> set seen) \<Longrightarrow>
   resolve_walk d r n cur seen = ips"
proof (induction k arbitrary: cur n seen)
  case 0
  then show ?case by (cases n) auto
next
  case (Suc k)
  then obtain t m where t: "resolve_hop d r cur = Follow t" and m: "n = Suc m"
    by (cases n) (auto split: hop.splits)
  have t_fresh: "t \<notin> set seen"
    using Suc.prems(4) [of 1 t] t by simp
  have later: "q \<notin> set (t # seen)" if "0 < j" "j \<le> k" "alias_after d r j t = Some q" for j q
  proof -
    have "q \<notin> set seen"
      using Suc.prems(4) [of "Suc j" q] that t by simp
    moreover have "q \<noteq> t"
      using alias_chain_distinct [of d r "Suc k" cur p ips 1 "Suc j" t] that t Suc.prems(1,2) by auto
    ultimately show ?thesis by simp
  qed
  have "resolve_walk d r m t (t # seen) = ips"
    by (rule Suc.IH) (use Suc.prems t m later in auto)
  with t m t_fresh show ?case by simp
qed

text \<open>
  The resolver returns a non-empty list exactly when some alias chain of fewer than 16
  steps ends in that (unblocked) record set: the seen-set loses no legitimate chain.
\<close>

lemma resolve_hostname_inner_iff:
  assumes "ips \<noteq> []"
  shows "resolve_hostname_inner d r host None = ips \<longleftrightarrow>
    (\<exists>cur. canonical_name d host = Some cur \<and>
      (\<exists>k < CNAME_MAX_HOPS. \<exists>p. alias_after d r k cur = Some p \<and> resolve_hop d r p = Done ips))"
proof
  assume "resolve_hostname_inner d r host None = ips"
  then show "\<exists>cur. canonical_name d host = Some cur \<and>
      (\<exists>k < CNAME_MAX_HOPS. \<exists>p. alias_after d r k cur = Some p \<and> resolve_hop d r p = Done ips)"
    using assms resolve_walk_sound
    by (fastforce simp: resolve_hostname_inner_def split: option.splits)
next
  assume "\<exists>cur. canonical_name d host = Some cur \<and>
      (\<exists>k < CNAME_MAX_HOPS. \<exists>p. alias_after d r k cur = Some p \<and> resolve_hop d r p = Done ips)"
  then obtain cur k p where c: "canonical_name d host = Some cur" "k < CNAME_MAX_HOPS"
      "alias_after d r k cur = Some p" "resolve_hop d r p = Done ips"
    by blast
  have "q \<notin> set [cur]" if "0 < j" "j \<le> k" "alias_after d r j cur = Some q" for j q
    using alias_chain_distinct [OF c(3,4), of 0 j cur] that by auto
  then have "resolve_walk d r CNAME_MAX_HOPS cur [cur] = ips"
    using c by (intro resolve_walk_complete)
  with c show "resolve_hostname_inner d r host None = ips"
    by (simp add: resolve_hostname_inner_def)
qed

lemma resolve_hostname_unblocked:
  "resolve_hostname d to r host None = ips \<Longrightarrow> \<not> list_ex is_ip_blocked ips"
proof (cases "ips = []")
  case False
  assume "resolve_hostname d to r host None = ips"
  with False have "resolve_hostname_inner d r host None = ips"
    by (auto simp: resolve_hostname_def split: if_splits)
  with False show ?thesis
    using resolve_hop_Done_unblocked by (auto simp: resolve_hostname_inner_iff)
qed simp

lemma not_blocked_parses:
  "\<not> is_ip_blocked s \<Longrightarrow> \<exists>ip. ip_address s = Some ip \<and> (\<forall>net \<in> set BLOCKED_NETWORKS. \<not> ip_in_net ip net)"
  by (auto simp: is_ip_blocked_def list_ex_iff split: option.splits)

section \<open>Properties\<close>

text \<open>
  C1: the address filter is sound.  Whatever the DNS answers, an accepted target is an
  address that parses and lies in none of the blocked networks; it is the literal target in
  canonical form or the first record of a record set all of whose members are unblocked.  A
  refused target yields the empty address.
\<close>

theorem filter_target_sound:
  "(\<exists>err. filter_target d timed_out r target = ([], Some err)) \<or>
   (\<exists>addr ip. filter_target d timed_out r target = (addr, None) \<and> ip_address addr = Some ip \<and>
      list_all (\<lambda>net. \<not> ip_in_net ip net) BLOCKED_NETWORKS \<and>
      (map_option str_ip (ip_address target) = Some addr \<or>
       (\<exists>more. resolve_hostname d timed_out r target None = addr # more \<and>
          list_all (\<lambda>x. \<not> is_ip_blocked x) more)))"
proof (cases "ip_address target")
  case (Some ip)
  then show ?thesis
    using not_blocked_parses [of "str_ip ip"] by (auto simp: filter_target_def Let_def list_all_iff)
next
  case None
  then show ?thesis
    using not_blocked_parses by (auto simp: filter_target_def list_ex_iff list_all_iff split: list.splits)
qed

text \<open>
  On a dotted IPv4 target the filter decides by the octets alone: the address comes back
  unchanged unless it lies in one of the private, loopback, link-local, documentation,
  benchmarking, carrier-grade NAT, multicast or reserved ranges.
\<close>

lemma filter_target_dotted:
  "\<forall>a \<in> {..<256}. \<forall>b \<in> {..<256}. \<forall>c \<in> {..<256}. \<forall>e \<in> {..<256}.
     filter_target d timed_out r (dotted a b c e) =
       (if octets_blocked a b c e then ([], Some ''errors.target_not_allowed'')
        else (dotted a b c e, None))"
  by (simp add: filter_target_def ip_address_dotted str_ip_def str_ip4_v4_word blocked_dotted
      del: octets_blocked.simps)

lemma filter_target_dotted_witness:
  "filter_target \<lparr>dns_query = \<lambda>_ _ _. NXDOMAIN, canonical_name = Some\<rparr> False ''1.1.1.1'' (dotted 8 8 4 4)
     = (dotted 8 8 4 4, None)
   \<and> filter_target \<lparr>dns_query = \<lambda>_ _ _. NXDOMAIN, canonical_name = Some\<rparr> False ''1.1.1.1'' (dotted 10 1 2 3)
     = ([], Some ''errors.target_not_allowed'')"
  using filter_target_dotted [of "\<lparr>dns_query = \<lambda>_ _ _. NXDOMAIN, canonical_name = Some\<rparr>" False "''1.1.1.1''"]
  by (simp add: Ball_def)

text \<open>
  Name resolution follows aliases to exactly the reachable record sets.  A non-empty
  answer is returned if and only if fewer than 16 aliases lead from the canonical host name
  to a name whose A records (or AAAA records, when it has no A records) are that answer and
  hold no blocked address; loops and longer chains give nothing.
\<close>

lemma resolve_hostname_chain:
  "resolve_hostname d False r host None = ip # ips \<longleftrightarrow>
    (\<exists>cur k p. canonical_name d host = Some cur \<and> k < CNAME_MAX_HOPS \<and>
       alias_after d r k cur = Some p \<and> resolve_hop d r p = Done (ip # ips))"
  using resolve_hostname_inner_iff [of "ip # ips" d r host]
  by (simp add: resolve_hostname_def)

text \<open>
  C12: a name that only ever leads to further aliases never resolves: if every name of a set
  closed under aliases answers with an alias, resolution returns no address, so a CNAME loop
  cannot pass the filter.
\<close>

theorem alias_loop_unresolved:
  assumes "canonical_name d host = Some cur" "cur \<in> S"
    and "\<forall>x \<in> S. \<exists>t \<in> S. resolve_hop d r x = Follow t"
    and "ip_address host = None"
  shows "filter_target d timed_out r host = ([], Some ''errors.dns_resolution_failed'')"
proof -
  have stay: "\<exists>t \<in> S. alias_after d r k x = Some t" if "x \<in> S" for k x
    using that assms(3) by (induction k arbitrary: x) fastforce+
  have "resolve_hostname_inner d r host None = []"
  proof (rule ccontr)
    assume "resolve_hostname_inner d r host None \<noteq> []"
    then obtain k p where "alias_after d r k cur = Some p"
        "resolve_hop d r p = Done (resolve_hostname_inner d r host None)"
      using resolve_hostname_inner_iff [THEN iffD1, OF _ refl] assms(1) by fastforce
    with stay [OF assms(2), of k] assms(3) show False by fastforce
  qed
  then show ?thesis
    using assms(4) by (simp add: filter_target_def resolve_hostname_def)
qed

theorem alias_loop_unresolved_witness:
  "filter_target
     \<lparr>dns_query = \<lambda>_ name rt. if rt = ''CNAME'' then Answer [if name = ''a'' then ''b'' else ''a''] else Answer [],
      canonical_name = Some\<rparr> False ''1.1.1.1'' ''a''
   = ([], Some ''errors.dns_resolution_failed'')"
proof -
  let ?d = "\<lparr>dns_query = \<lambda>_ name rt. if rt = ''CNAME'' then Answer [if name = ''a'' then ''b'' else ''a''] else Answer [],
      canonical_name = Some\<rparr>"
  have "ip_address ''a'' = None"
    by code_simp
  then show ?thesis
    by (intro alias_loop_unresolved [of ?d "''a''" "''a''" "{''a'', ''b''}" "''1.1.1.1''"])
       (simp_all add: resolve_hop_def aaaa_hop_def cname_hop_def)
qed

text \<open>Parsing of some IPv6 literals, evaluated.\<close>

lemma ipv6_parses:
  "ip_address ''::'' = Some (IPv6Address 0 None)"
  "ip_address ''::1'' = Some (IPv6Address 1 None)"
  "ip_address ''64:ff9b::a00:1'' = Some (IPv6Address 0x64FF9B00000000000000000A000001 None)"
  "ip_address ''::ffff:8.8.8.8'' = Some (IPv6Address 0xFFFF08080808 None)"
  "ip_address ''fe80::1%eth0'' = Some (IPv6Address 0xFE800000000000000000000000000001 (Some ''eth0''))"
  by code_simp+

text \<open>
  Two gaps of the IPv6 half of the list.  The unspecified address \<open>::\<close> (which Linux
  connects to the local host) and the NAT64 image of \<open>10.0.0.1\<close> pass the block list, while
  the loopback, link-local and IPv4-mapped addresses are refused.
\<close>

lemma ipv6_gaps:
  "\<not> is_ip_blocked ''::'' \<and> \<not> is_ip_blocked ''64:ff9b::a00:1'' \<and> is_ip_blocked ''::1''
   \<and> is_ip_blocked ''::ffff:8.8.8.8'' \<and> is_ip_blocked ''fe80::1%eth0''"
  by (simp add: is_ip_blocked_def ipv6_parses BLOCKED_NETWORKS_def and_not_mask_eq)

end
