(* ===== verification/Rate_Store.thy ===== *)
theory Rate_Store
  imports Sakn_Prelude
begin

text \<open>
  \<open>app/redis/rate_limit_store.py\<close>: the sliding-window limiter with its two backends, the Lua
  script on a Redis sorted set and the in-memory dictionary, and the result record both
  build.  The locale \<open>window_limiter\<close> is the contract a counter keeps towards its callers
  (admit only below the limit, remember what was admitted); the window bound is proved once
  from it and both backends are interpretations.
\<close>

section \<open>Results\<close>

record rl_result =
  rl_allowed :: bool
  rl_soft_count :: int
  rl_hard_count :: int
  rl_soft_limit :: int
  rl_hard_limit :: int
  rl_soft_window_s :: int
  rl_hard_window_s :: int
  rl_retry_after :: int
  rl_limit_type :: string

definition mk_result :: "bool \<Rightarrow> int \<Rightarrow> int \<Rightarrow> int \<Rightarrow> int \<Rightarrow> int \<Rightarrow> int \<Rightarrow> int \<Rightarrow> string \<Rightarrow> rl_result" where
  "mk_result al sc hc sl hl sw hw ra lt =
     \<lparr>rl_allowed = al, rl_soft_count = sc, rl_hard_count = hc, rl_soft_limit = sl,
      rl_hard_limit = hl, rl_soft_window_s = sw, rl_hard_window_s = hw,
      rl_retry_after = ra, rl_limit_type = lt\<rparr>"

definition compute_result ::
    "int \<Rightarrow> int \<Rightarrow> int \<Rightarrow> int \<Rightarrow> int \<Rightarrow> int \<Rightarrow> bool option \<Rightarrow> rl_result" where
  "compute_result sc hc sl hl sw hw already_allowed =
     (case already_allowed of
        Some True \<Rightarrow> mk_result True sc hc sl hl sw hw 0 ''none''
      | Some False \<Rightarrow>
          if sl > 0 \<and> sc \<ge> sl then mk_result False sc hc sl hl sw hw sw ''soft''
          else mk_result False sc hc sl hl sw hw hw ''hard''
      | None \<Rightarrow>
          if sl > 0 \<and> sc \<ge> sl then mk_result False sc hc sl hl sw hw sw ''soft''
          else if hl > 0 \<and> hc > hl then mk_result False sc hc sl hl sw hw hw ''hard''
          else mk_result True sc hc sl hl sw hw 0 ''none'')"

definition rate_limit_key :: "string \<Rightarrow> string \<Rightarrow> string" where
  "rate_limit_key key_type identifier = ''ratelimit:'' @ key_type @ '':'' @ identifier"

text \<open>The rejection test shared by the script and the fallback; a limit of 0 is no limit.\<close>

definition over_limit :: "int \<Rightarrow> int \<Rightarrow> int \<Rightarrow> int \<Rightarrow> bool" where
  "over_limit sl sc hl hc \<longleftrightarrow> (sl > 0 \<and> sc \<ge> sl) \<or> (hl > 0 \<and> hc \<ge> hl)"

section \<open>The Redis backend\<close>

text \<open>
  A sorted set is its list of (member, score) pairs with the absolute expiry the last
  \<open>EXPIRE\<close> gave the key; a key past its expiry reads as missing, and a set that becomes
  empty loses its key.
\<close>

record zkey =
  zmembers :: "(string \<times> tstamp) list"
  zexpire :: tstamp

type_synonym zstore = "string \<rightharpoonup> zkey"

definition zread :: "zstore \<Rightarrow> tstamp \<Rightarrow> string \<Rightarrow> (string \<times> tstamp) list" where
  "zread st now key =
     (case st key of None \<Rightarrow> [] | Some z \<Rightarrow> if zexpire z \<le> now then [] else zmembers z)"

definition zremrangebyscore :: "(string \<times> tstamp) list \<Rightarrow> tstamp \<Rightarrow> (string \<times> tstamp) list" where
  "zremrangebyscore ms hi = filter (\<lambda>ms. \<not> snd ms \<le> hi) ms"

definition zcount :: "(string \<times> tstamp) list \<Rightarrow> tstamp \<Rightarrow> int" where
  "zcount ms lo = int (length (filter (\<lambda>ms. lo \<le> snd ms) ms))"

definition zadd :: "(string \<times> tstamp) list \<Rightarrow> tstamp \<Rightarrow> string \<Rightarrow> (string \<times> tstamp) list" where
  "zadd ms score member = dict_set member score ms"

definition lua_rate_limit ::
    "zstore \<Rightarrow> string \<Rightarrow> tstamp \<Rightarrow> tstamp \<Rightarrow> tstamp \<Rightarrow> string \<Rightarrow> int \<Rightarrow> int \<Rightarrow> int \<Rightarrow>
     (int \<times> int \<times> int) \<times> zstore" where
  "lua_rate_limit st key now soft_cutoff hard_cutoff member ttl soft_limit hard_limit =
     (let ms = zremrangebyscore (zread st now key) hard_cutoff;
          soft_count = zcount ms soft_cutoff;
          hard_count = zcount ms hard_cutoff
      in if over_limit soft_limit soft_count hard_limit hard_count
         then ((0, soft_count, hard_count),
               st(key := if ms = [] then None else map_option (zmembers_update (\<lambda>_. ms)) (st key)))
         else ((1, soft_count + 1, hard_count + 1),
               st(key \<mapsto> \<lparr>zmembers = zadd ms now member, zexpire = now + sec ttl\<rparr>)))"

section \<open>The in-memory backend\<close>

type_synonym memstore = "(string \<times> tstamp list) list"

definition mem_times :: "memstore \<Rightarrow> string \<Rightarrow> tstamp list" where
  "mem_times db key = dict_get key [] db"

definition count_after :: "tstamp \<Rightarrow> tstamp list \<Rightarrow> int" where
  "count_after cutoff ts = int (length (filter (\<lambda>t. t > cutoff) ts))"

text \<open>The periodic cleanup: above 10000 keys, drop the first 1000 empty ones.\<close>

definition drop_stale :: "memstore \<Rightarrow> memstore" where
  "drop_stale db =
     (if length db > 10000
      then (let stale = take 1000 (map fst (filter (\<lambda>kv. snd kv = []) db))
            in filter (\<lambda>kv. fst kv \<notin> set stale) db)
      else db)"

definition check_db ::
    "tstamp \<Rightarrow> memstore \<Rightarrow> string \<Rightarrow> string \<Rightarrow> int \<Rightarrow> int \<Rightarrow> int \<Rightarrow> int \<Rightarrow> rl_result \<times> memstore" where
  "check_db now db key_type identifier soft_limit hard_limit soft_window_s hard_window_s =
     (let key = rate_limit_key key_type identifier;
          db0 = (if map_of db key = None then db @ [(key, [])] else db);
          soft_cutoff = now - sec soft_window_s;
          hard_cutoff = now - sec hard_window_s;
          pruned = filter (\<lambda>t. t > hard_cutoff) (mem_times db0 key);
          db1 = dict_set key pruned db0;
          soft_count = count_after soft_cutoff pruned;
          hard_count = int (length pruned)
      in if over_limit soft_limit soft_count hard_limit hard_count
         then (compute_result soft_count hard_count soft_limit hard_limit
                 soft_window_s hard_window_s (Some False), db1)
         else (compute_result (soft_count + 1) (hard_count + 1) soft_limit hard_limit
                 soft_window_s hard_window_s (Some True),
               drop_stale (dict_set key (pruned @ [now]) db1)))"

section \<open>The limiter\<close>

record limiter =
  lim_redis :: zstore
  lim_mem :: memstore

text \<open>
  \<open>redis_up\<close> is whether the connection and the \<open>EVAL\<close> succeed; \<open>member\<close> is the fresh
  \<open>uuid7\<close>.  Any failure of the Redis path falls back to the in-memory store.
\<close>

definition check_redis ::
    "bool \<Rightarrow> tstamp \<Rightarrow> string \<Rightarrow> limiter \<Rightarrow> string \<Rightarrow> string \<Rightarrow> int \<Rightarrow> int \<Rightarrow> int \<Rightarrow> int \<Rightarrow>
     rl_result \<times> limiter" where
  "check_redis redis_up now member lim key_type identifier soft_limit hard_limit soft_window_s hard_window_s =
     (if redis_up then
        (case lua_rate_limit (lim_redis lim) (rate_limit_key key_type identifier) now
                (now - sec soft_window_s) (now - sec hard_window_s) member
                (max (hard_window_s * 2) 7200) soft_limit hard_limit of
           ((allowed_raw, soft_count, hard_count), st) \<Rightarrow>
             (compute_result soft_count hard_count soft_limit hard_limit soft_window_s hard_window_s
                (Some (allowed_raw = 1)), lim\<lparr>lim_redis := st\<rparr>))
      else
        (case check_db now (lim_mem lim) key_type identifier soft_limit hard_limit
                soft_window_s hard_window_s of
           (r, db) \<Rightarrow> (r, lim\<lparr>lim_mem := db\<rparr>)))"

definition limiter_check ::
    "string \<Rightarrow> bool \<Rightarrow> tstamp \<Rightarrow> string \<Rightarrow> limiter \<Rightarrow> string \<Rightarrow> string \<Rightarrow> int \<Rightarrow> int \<Rightarrow> int \<Rightarrow> int \<Rightarrow>
     rl_result \<times> limiter" where
  "limiter_check storage redis_up now member lim key_type identifier soft_limit hard_limit soft_window_s hard_window_s =
     (if storage = ''database'' then
        (case check_db now (lim_mem lim) key_type identifier soft_limit hard_limit
                soft_window_s hard_window_s of
           (r, db) \<Rightarrow> (r, lim\<lparr>lim_mem := db\<rparr>))
      else check_redis redis_up now member lim key_type identifier soft_limit hard_limit
             soft_window_s hard_window_s)"

definition get_current_counts ::
    "tstamp \<Rightarrow> limiter \<Rightarrow> string \<Rightarrow> string \<Rightarrow> int \<Rightarrow> int \<Rightarrow> int \<times> int" where
  "get_current_counts now lim key_type identifier soft_window_s hard_window_s =
     (let ts = mem_times (lim_mem lim) (rate_limit_key key_type identifier)
      in (count_after (now - sec soft_window_s) ts, count_after (now - sec hard_window_s) ts))"

definition clear_for_tests :: "limiter \<Rightarrow> limiter" where
  "clear_for_tests lim = lim\<lparr>lim_mem := []\<rparr>"

section \<open>The contract of a sliding-window counter\<close>

text \<open>
  \<open>admitted step at s rs\<close> runs a sequence of requests and lists the times of the admitted
  ones; \<open>in_window w t ts\<close> counts those in the half-open window of length \<open>w\<close> ending at \<open>t\<close>.
\<close>

fun admitted :: "('s \<Rightarrow> 'r \<Rightarrow> bool \<times> 's) \<Rightarrow> ('r \<Rightarrow> tstamp) \<Rightarrow> 's \<Rightarrow> 'r list \<Rightarrow> tstamp list" where
  "admitted step at s [] = []"
| "admitted step at s (r # rs) =
     (if fst (step s r) then at r # admitted step at (snd (step s r)) rs
      else admitted step at (snd (step s r)) rs)"

definition in_window :: "tstamp \<Rightarrow> tstamp \<Rightarrow> tstamp list \<Rightarrow> int" where
  "in_window w t ts = int (length (filter (\<lambda>x. t - w < x \<and> x \<le> t) ts))"

lemma in_window_snoc:
  assumes "int (length (filter (\<lambda>x. now - w < x) past)) < limit" "in_window w t past \<le> limit"
  shows "in_window w t (past @ [now]) \<le> limit"
proof (cases "t - w < now \<and> now \<le> t")
  case True
  have "length (filter (\<lambda>x. t - w < x \<and> x \<le> t) past) \<le> length (filter (\<lambda>x. now - w < x) past)"
    by (rule length_filter_le_filter) (use True in auto)
  with assms(1) True show ?thesis
    by (simp add: in_window_def)
next
  case False
  then have "filter (\<lambda>x. t - w < x \<and> x \<le> t) (past @ [now]) = filter (\<lambda>x. t - w < x \<and> x \<le> t) past"
    by auto
  with assms(2) show ?thesis
    by (simp add: in_window_def)
qed

text \<open>
  The contract: \<open>live s t\<close> are the recorded times a query at time \<open>t\<close> still counts.  A
  request is admitted only while fewer than \<open>limit\<close> are live, an admitted request joins the
  live ones, and nothing leaves them before it is older than the window.  \<open>ok s rs\<close> is what
  the counter needs of the requests still to come (time does not go backwards, fresh names).
\<close>

locale window_limiter =
  fixes step :: "'s \<Rightarrow> 'r \<Rightarrow> bool \<times> 's"
    and at :: "'r \<Rightarrow> tstamp"
    and live :: "'s \<Rightarrow> tstamp \<Rightarrow> tstamp list"
    and ok :: "'s \<Rightarrow> 'r list \<Rightarrow> bool"
    and limit :: int
    and window :: tstamp
  assumes admit_below: "ok s (r # rs) \<Longrightarrow> fst (step s r) \<Longrightarrow> int (length (live s (at r))) < limit"
    and live_admit: "ok s (r # rs) \<Longrightarrow> fst (step s r) \<Longrightarrow> at r \<le> t \<Longrightarrow>
      live (snd (step s r)) t = filter (\<lambda>x. t - window < x) (live s (at r) @ [at r])"
    and live_reject: "ok s (r # rs) \<Longrightarrow> \<not> fst (step s r) \<Longrightarrow> at r \<le> t \<Longrightarrow>
      live (snd (step s r)) t = filter (\<lambda>x. t - window < x) (live s (at r))"
    and ok_step: "ok s (r # rs) \<Longrightarrow> ok (snd (step s r)) rs"
    and ok_time: "ok s (r # r' # rs) \<Longrightarrow> at r \<le> at r'"
begin

text \<open>What is live now was admitted earlier and within the window.\<close>

lemma admitted_times:
  "ok s rs \<Longrightarrow> (\<And>r rs'. rs = r # rs' \<Longrightarrow> lb \<le> at r) \<Longrightarrow> x \<in> set (admitted step at s rs) \<Longrightarrow> lb \<le> x"
proof (induction rs arbitrary: s lb)
  case (Cons r rs)
  have lb: "lb \<le> at r"
    using Cons.prems(2) by simp
  have later: "\<And>r' rs'. rs = r' # rs' \<Longrightarrow> lb \<le> at r'"
    using Cons.prems(1) lb ok_time by fastforce
  show ?case
    using Cons.prems(3) lb Cons.IH [OF ok_step [OF Cons.prems(1)] later] by (auto split: if_splits)
qed simp

lemma bound_extend:
  assumes "ok s rs"
    and "\<And>r rs' t. rs = r # rs' \<Longrightarrow> at r \<le> t \<Longrightarrow> live s t = filter (\<lambda>x. t - window < x) past"
    and "\<And>r rs' x. rs = r # rs' \<Longrightarrow> x \<in> set past \<Longrightarrow> x \<le> at r"
    and "\<And>t. in_window window t past \<le> limit"
  shows "in_window window t (past @ admitted step at s rs) \<le> limit"
  using assms
proof (induction rs arbitrary: s past)
  case Nil
  then show ?case by simp
next
  case (Cons r rs)
  note live = Cons.prems(2) [OF refl]
  note before = Cons.prems(3) [OF refl]
  note step_ok = ok_step [OF Cons.prems(1)]
  have live_eq: "filter (\<lambda>x. t - window < x) (live s (at r)) = filter (\<lambda>x. t - window < x) past"
    if "at r \<le> t" for t
    using that live [of "at r"] filter_gt_twice [of "at r - window" "t - window" past] by simp
  show ?case
  proof (cases "fst (step s r)")
    case False
    have "in_window window t (past @ admitted step at (snd (step s r)) rs) \<le> limit"
    proof (rule Cons.IH [OF step_ok])
      fix r' rs' t assume rs: "rs = r' # rs'" and t: "at r' \<le> t"
      then have "at r \<le> t"
        using ok_time [of s r r' rs'] Cons.prems(1) by simp
      then show "live (snd (step s r)) t = filter (\<lambda>x. t - window < x) past"
        using live_reject [OF Cons.prems(1) False] live_eq by simp
    next
      fix r' rs' x assume "rs = r' # rs'" "x \<in> set past"
      then show "x \<le> at r'"
        using before ok_time [of s r r' rs'] Cons.prems(1) by fastforce
    qed (rule Cons.prems(4))
    with False show ?thesis by simp
  next
    case True
    have below: "int (length (filter (\<lambda>x. at r - window < x) past)) < limit"
      using admit_below [OF Cons.prems(1) True] live by simp
    have "in_window window t ((past @ [at r]) @ admitted step at (snd (step s r)) rs) \<le> limit"
    proof (rule Cons.IH [OF step_ok])
      fix r' rs' t assume rs: "rs = r' # rs'" and t: "at r' \<le> t"
      then have "at r \<le> t"
        using ok_time [of s r r' rs'] Cons.prems(1) by simp
      then show "live (snd (step s r)) t = filter (\<lambda>x. t - window < x) (past @ [at r])"
        using live_admit [OF Cons.prems(1) True] live_eq by simp
    next
      fix r' rs' x assume "rs = r' # rs'" "x \<in> set (past @ [at r])"
      then show "x \<le> at r'"
        using before ok_time [of s r r' rs'] Cons.prems(1) by fastforce
    next
      show "in_window window t (past @ [at r]) \<le> limit" for t
        by (rule in_window_snoc [OF below Cons.prems(4)])
    qed
    with True show ?thesis by simp
  qed
qed

text \<open>From a state with nothing live, no window ever holds more than \<open>limit\<close> admissions.\<close>

lemma window_bound:
  assumes "ok s rs" and "\<And>t. live s t = []" and "0 \<le> limit"
  shows "in_window window t (admitted step at s rs) \<le> limit"
  using bound_extend [of s rs "[]" t] assms by (simp add: in_window_def)

end

section \<open>Redis keeps the contract\<close>

text \<open>One limiter check against Redis as a step on the store, for fixed key and limits.\<close>

definition redis_step ::
    "string \<Rightarrow> int \<Rightarrow> int \<Rightarrow> int \<Rightarrow> int \<Rightarrow> zstore \<Rightarrow> tstamp \<times> string \<Rightarrow> bool \<times> zstore" where
  "redis_step key sl hl sw hw st r =
     (case lua_rate_limit st key (fst r) (fst r - sec sw) (fst r - sec hw) (snd r)
             (max (hw * 2) 7200) sl hl of
        ((allowed, _, _), st') \<Rightarrow> (allowed = 1, st'))"

definition redis_live :: "string \<Rightarrow> int \<Rightarrow> zstore \<Rightarrow> tstamp \<Rightarrow> tstamp list" where
  "redis_live key w st t = map snd (filter (\<lambda>ms. t - sec w < snd ms) (zread st t key))"

definition redis_ok :: "string \<Rightarrow> int \<Rightarrow> int \<Rightarrow> int \<Rightarrow> zstore \<Rightarrow> (tstamp \<times> string) list \<Rightarrow> bool" where
  "redis_ok key lim sw hw st rs \<longleftrightarrow>
     0 < lim \<and> 0 \<le> sw \<and> sw \<le> hw \<and> sorted (map fst rs) \<and> distinct (map snd rs) \<and>
     (case st key of None \<Rightarrow> True
      | Some z \<Rightarrow> \<forall>ms \<in> set (zmembers z). fst ms \<notin> snd ` set rs \<and> snd ms + sec hw \<le> zexpire z \<and>
                   (\<forall>r \<in> set rs. snd ms \<le> fst r))"

lemma dict_set_fresh: "k \<notin> fst ` set d \<Longrightarrow> dict_set k v d = d @ [(k, v)]"
  by (induction d) auto

lemma zread_subset: "st key = Some z \<Longrightarrow> set (zread st now key) \<subseteq> set (zmembers z)"
  by (simp add: zread_def)

lemma zread_None: "st key = None \<Longrightarrow> zread st now key = []"
  by (simp add: zread_def)

lemma zread_entry:
  assumes "redis_ok key lim sw hw st ((now, m) # rs)" "ms \<in> set (zread st now key)"
  shows "fst ms \<noteq> m" "snd ms \<le> now" "fst ms \<notin> snd ` set rs"
    and "\<exists>z. st key = Some z \<and> snd ms + sec hw \<le> zexpire z"
  using assms by (auto simp: redis_ok_def zread_def split: option.splits if_splits)

text \<open>The two outcomes of the script, as updates of the store.\<close>

lemma redis_step_eq:
  "redis_step key sl hl sw hw st (now, m) =
     (let ms = zremrangebyscore (zread st now key) (now - sec hw);
          over = over_limit sl (zcount ms (now - sec sw)) hl (int (length ms))
      in if over
         then (False, st(key := if ms = [] then None else map_option (zmembers_update (\<lambda>_. ms)) (st key)))
         else (True, st(key \<mapsto> \<lparr>zmembers = zadd ms now m, zexpire = now + sec (max (hw * 2) 7200)\<rparr>)))"
proof -
  let ?ms = "zremrangebyscore (zread st now key) (now - sec hw)"
  have "filter (\<lambda>ms. now - sec hw \<le> snd ms) ?ms = ?ms"
    by (auto simp: zremrangebyscore_def intro: filter_cong)
  then have "zcount ?ms (now - sec hw) = int (length ?ms)"
    by (simp add: zcount_def)
  then show ?thesis
    by (simp add: redis_step_def lua_rate_limit_def Let_def)
qed

lemma redis_step_admit:
  assumes "fst (redis_step key sl hl sw hw st (now, m))"
  shows "snd (redis_step key sl hl sw hw st (now, m)) =
      st(key \<mapsto> \<lparr>zmembers = zadd (zremrangebyscore (zread st now key) (now - sec hw)) now m,
                zexpire = now + sec (max (hw * 2) 7200)\<rparr>)"
    and "\<not> over_limit sl (zcount (zremrangebyscore (zread st now key) (now - sec hw)) (now - sec sw))
             hl (int (length (zremrangebyscore (zread st now key) (now - sec hw))))"
proof -
  define ms where "ms = zremrangebyscore (zread st now key) (now - sec hw)"
  define over where "over = over_limit sl (zcount ms (now - sec sw)) hl (int (length ms))"
  show "snd (redis_step key sl hl sw hw st (now, m)) =
      st(key \<mapsto> \<lparr>zmembers = zadd (zremrangebyscore (zread st now key) (now - sec hw)) now m,
                zexpire = now + sec (max (hw * 2) 7200)\<rparr>)"
    and "\<not> over_limit sl (zcount (zremrangebyscore (zread st now key) (now - sec hw)) (now - sec sw))
             hl (int (length (zremrangebyscore (zread st now key) (now - sec hw))))"
    using assms unfolding redis_step_eq Let_def ms_def [symmetric] over_def [symmetric]
    by (simp_all split: if_split_asm)
qed

lemma redis_step_reject:
  assumes "\<not> fst (redis_step key sl hl sw hw st (now, m))"
  defines "ms \<equiv> zremrangebyscore (zread st now key) (now - sec hw)"
  shows "snd (redis_step key sl hl sw hw st (now, m)) =
      st(key := if ms = [] then None else map_option (zmembers_update (\<lambda>_. ms)) (st key))"
    and "over_limit sl (zcount ms (now - sec sw)) hl (int (length ms))"
proof -
  define over where "over = over_limit sl (zcount ms (now - sec sw)) hl (int (length ms))"
  show "snd (redis_step key sl hl sw hw st (now, m)) =
      st(key := if ms = [] then None else map_option (zmembers_update (\<lambda>_. ms)) (st key))"
    and "over_limit sl (zcount ms (now - sec sw)) hl (int (length ms))"
    using assms(1) unfolding redis_step_eq Let_def ms_def [symmetric] over_def [symmetric]
    by (auto split: if_split_asm)
qed

lemma cut_filter:
  "now \<le> t \<Longrightarrow> w \<le> hw \<Longrightarrow>
   filter (\<lambda>ms. t - sec w < snd ms) (zremrangebyscore zs (now - sec hw)) =
   filter (\<lambda>ms. t - sec w < snd ms) (filter (\<lambda>ms. now - sec w < snd ms) zs)"
  by (induction zs) (auto simp: zremrangebyscore_def sec_def)

lemma redis_admit_live:
  assumes ok: "redis_ok key lim sw hw st ((now, m) # rs)" and w: "0 \<le> w" "w \<le> hw"
    and adm: "fst (redis_step key sl hl sw hw st (now, m))" and t: "now \<le> t"
  shows "redis_live key w (snd (redis_step key sl hl sw hw st (now, m))) t =
    filter (\<lambda>x. t - sec w < x) (redis_live key w st now @ [now])"
proof -
  let ?zs = "zread st now key"
  let ?ms = "zremrangebyscore ?zs (now - sec hw)"
  have fresh: "m \<notin> fst ` set ?ms"
    using zread_entry(1) [OF ok] by (auto simp: zremrangebyscore_def)
  have st': "snd (redis_step key sl hl sw hw st (now, m)) key =
      Some \<lparr>zmembers = ?ms @ [(m, now)], zexpire = now + sec (max (hw * 2) 7200)\<rparr>"
    by (simp add: redis_step_admit(1) [OF adm] zadd_def dict_set_fresh [OF fresh])
  have old: "x \<le> now" if "x \<in> snd ` set ?zs" for x
    using that zread_entry(2) [OF ok] by auto
  show ?thesis
  proof (cases "now + sec (max (hw * 2) 7200) \<le> t")
    case True
    then have "filter (\<lambda>x. t - sec w < x) (redis_live key w st now @ [now]) = []"
      using old w by (force simp: redis_live_def filter_empty_conv sec_def)
    moreover have "redis_live key w (snd (redis_step key sl hl sw hw st (now, m))) t = []"
      using True st' by (simp add: redis_live_def zread_def)
    ultimately show ?thesis by simp
  next
    case False
    with st' cut_filter [OF t w(2), of ?zs] show ?thesis
      by (simp add: redis_live_def zread_def filter_map comp_def)
  qed
qed

lemma redis_reject_live:
  assumes ok: "redis_ok key lim sw hw st ((now, m) # rs)" and w: "0 \<le> w" "w \<le> hw"
    and rej: "\<not> fst (redis_step key sl hl sw hw st (now, m))" and t: "now \<le> t"
  shows "redis_live key w (snd (redis_step key sl hl sw hw st (now, m))) t =
    filter (\<lambda>x. t - sec w < x) (redis_live key w st now)"
proof -
  let ?zs = "zread st now key"
  let ?ms = "zremrangebyscore ?zs (now - sec hw)"
  have st': "snd (redis_step key sl hl sw hw st (now, m)) key =
      (if ?ms = [] then None else map_option (zmembers_update (\<lambda>_. ?ms)) (st key))"
    by (simp add: redis_step_reject(1) [OF rej])
  note cut = cut_filter [OF t w(2), of ?zs]
  show ?thesis
  proof (cases "?ms = []")
    case True
    with st' cut show ?thesis
      by (simp add: redis_live_def zread_def filter_map comp_def)
  next
    case False
    then obtain e where e: "e \<in> set ?zs"
      by (auto simp: zremrangebyscore_def filter_empty_conv)
    obtain z where z: "st key = Some z"
      using zread_entry(4) [OF ok e] by blast
    show ?thesis
    proof (cases "zexpire z \<le> t")
      case True
      have "\<not> t - sec w < snd ms" if "ms \<in> set ?zs" for ms
        using zread_entry(4) [OF ok that] True w z by (auto simp: sec_def)
      then have "filter (\<lambda>x. t - sec w < x) (redis_live key w st now) = []"
        by (auto simp: redis_live_def filter_empty_conv)
      with st' False z True show ?thesis
        by (simp add: redis_live_def zread_def)
    next
      case alive: False
      with st' False z cut show ?thesis
        by (simp add: redis_live_def zread_def filter_map comp_def)
    qed
  qed
qed

lemma redis_ok_step:
  assumes ok: "redis_ok key lim sw hw st ((now, m) # rs)"
  shows "redis_ok key lim sw hw (snd (redis_step key sl hl sw hw st (now, m))) rs"
proof (cases "fst (redis_step key sl hl sw hw st (now, m))")
  case True
  let ?ms = "zremrangebyscore (zread st now key) (now - sec hw)"
  have fresh: "m \<notin> fst ` set ?ms"
    using zread_entry(1) [OF ok] by (auto simp: zremrangebyscore_def)
  have later: "m \<notin> snd ` set rs" "\<forall>r \<in> set rs. now \<le> fst r"
    using ok by (auto simp: redis_ok_def)
  have "fst ms \<notin> snd ` set rs \<and> snd ms \<le> now \<and> (\<forall>r \<in> set rs. snd ms \<le> fst r)"
    if "ms \<in> set ?ms" for ms
    using that zread_entry(2,3) [OF ok, of ms] later by (fastforce simp: zremrangebyscore_def)
  moreover have "x + sec hw \<le> now + sec (max (hw * 2) 7200)" if "x \<le> now" for x
    using that ok by (auto simp: redis_ok_def sec_def)
  ultimately show ?thesis
    using ok later unfolding redis_ok_def redis_step_admit(1) [OF True] zadd_def dict_set_fresh [OF fresh]
    by auto
next
  case False
  have sub: "ms \<in> set (zmembers z)"
    if "ms \<in> set (zremrangebyscore (zread st now key) (now - sec hw))" "st key = Some z" for ms z
    using that zread_subset [of st key z now] by (auto simp: zremrangebyscore_def)
  show ?thesis
    using ok sub by (auto simp: redis_ok_def redis_step_reject(1) [OF False] split: option.splits)
qed

lemma redis_live_length:
  "int (length (redis_live key hw st now)) =
   int (length (zremrangebyscore (zread st now key) (now - sec hw)))"
  by (simp add: redis_live_def zremrangebyscore_def not_le)

lemma redis_soft_length:
  "0 \<le> sw \<Longrightarrow> sw \<le> hw \<Longrightarrow>
   int (length (redis_live key sw st now)) \<le>
   zcount (zremrangebyscore (zread st now key) (now - sec hw)) (now - sec sw)"
  unfolding redis_live_def zremrangebyscore_def zcount_def length_map of_nat_le_iff filter_filter
  by (rule length_filter_le_filter) (auto simp: sec_def)

interpretation redis_hard: window_limiter
  "redis_step key sl hl sw hw" fst "redis_live key hw" "redis_ok key hl sw hw" hl "sec hw"
  for key sl hl sw hw
proof unfold_locales
  fix st and r :: "tstamp \<times> string" and rs
  obtain now m where r: "r = (now, m)" by (cases r)
  assume ok: "redis_ok key hl sw hw st (r # rs)"
  then have w: "0 \<le> hw" "0 < hl"
    by (auto simp: redis_ok_def)
  show "int (length (redis_live key hw st (fst r))) < hl" if "fst (redis_step key sl hl sw hw st r)"
    using redis_step_admit(2) [of key sl hl sw hw st now m] that w
    by (simp add: r redis_live_length over_limit_def)
  show "redis_live key hw (snd (redis_step key sl hl sw hw st r)) t =
      filter (\<lambda>x. t - sec hw < x) (redis_live key hw st (fst r) @ [fst r])"
    if "fst (redis_step key sl hl sw hw st r)" "fst r \<le> t" for t
    using redis_admit_live ok w that unfolding r by simp
  show "redis_live key hw (snd (redis_step key sl hl sw hw st r)) t =
      filter (\<lambda>x. t - sec hw < x) (redis_live key hw st (fst r))"
    if "\<not> fst (redis_step key sl hl sw hw st r)" "fst r \<le> t" for t
    using redis_reject_live ok w that unfolding r by simp
  show "redis_ok key hl sw hw (snd (redis_step key sl hl sw hw st r)) rs"
    using redis_ok_step ok unfolding r by simp
qed (auto simp: redis_ok_def)

interpretation redis_soft: window_limiter
  "redis_step key sl hl sw hw" fst "redis_live key sw" "redis_ok key sl sw hw" sl "sec sw"
  for key sl hl sw hw
proof unfold_locales
  fix st and r :: "tstamp \<times> string" and rs
  obtain now m where r: "r = (now, m)" by (cases r)
  assume ok: "redis_ok key sl sw hw st (r # rs)"
  then have w: "0 \<le> sw" "sw \<le> hw" "0 < sl"
    by (auto simp: redis_ok_def)
  show "int (length (redis_live key sw st (fst r))) < sl" if "fst (redis_step key sl hl sw hw st r)"
    using redis_step_admit(2) [of key sl hl sw hw st now m] that w redis_soft_length [of sw hw key st now]
    by (simp add: r over_limit_def)
  show "redis_live key sw (snd (redis_step key sl hl sw hw st r)) t =
      filter (\<lambda>x. t - sec sw < x) (redis_live key sw st (fst r) @ [fst r])"
    if "fst (redis_step key sl hl sw hw st r)" "fst r \<le> t" for t
    using redis_admit_live ok w that unfolding r by simp
  show "redis_live key sw (snd (redis_step key sl hl sw hw st r)) t =
      filter (\<lambda>x. t - sec sw < x) (redis_live key sw st (fst r))"
    if "\<not> fst (redis_step key sl hl sw hw st r)" "fst r \<le> t" for t
    using redis_reject_live ok w that unfolding r by simp
  show "redis_ok key sl sw hw (snd (redis_step key sl hl sw hw st r)) rs"
    using redis_ok_step ok unfolding r by simp
qed (auto simp: redis_ok_def)

section \<open>The in-memory store keeps the contract\<close>

definition mem_step ::
    "string \<Rightarrow> string \<Rightarrow> int \<Rightarrow> int \<Rightarrow> int \<Rightarrow> int \<Rightarrow> memstore \<Rightarrow> tstamp \<Rightarrow> bool \<times> memstore" where
  "mem_step kt ident sl hl sw hw db now =
     (case check_db now db kt ident sl hl sw hw of (r, db') \<Rightarrow> (rl_allowed r, db'))"

definition mem_live :: "string \<Rightarrow> int \<Rightarrow> memstore \<Rightarrow> tstamp \<Rightarrow> tstamp list" where
  "mem_live key w db t = filter (\<lambda>x. t - sec w < x) (mem_times db key)"

definition mem_ok :: "int \<Rightarrow> int \<Rightarrow> int \<Rightarrow> memstore \<Rightarrow> tstamp list \<Rightarrow> bool" where
  "mem_ok lim sw hw db rs \<longleftrightarrow> 0 < lim \<and> 0 \<le> sw \<and> sw \<le> hw \<and> sorted rs \<and> distinct (map fst db)"

lemma mem_times_set [model_simps]:
  "mem_times (dict_set k v db) k' = (if k' = k then v else mem_times db k')"
  by (simp add: mem_times_def dict_get_def map_of_dict_set)

lemma mem_times_snoc_new:
  "map_of db k = None \<Longrightarrow> mem_times (db @ [(k, [])]) k' = mem_times db k'"
  by (auto simp: mem_times_def dict_get_def map_add_def split: option.splits)

lemma map_of_filter_keys:
  "map_of (filter (\<lambda>kv. fst kv \<notin> S) db) k = (if k \<in> S then None else map_of db k)"
  by (induction db) auto

text \<open>The cleanup never loses a recorded time: it only removes keys whose list is empty.\<close>

lemma mem_times_drop_stale:
  assumes "distinct (map fst db)"
  shows "mem_times (drop_stale db) k = mem_times db k"
proof -
  have "mem_times db k = []" if "k \<in> set (map fst (filter (\<lambda>kv. snd kv = []) db))"
    using that assms by (auto simp: mem_times_def dict_get_def)
  then show ?thesis
    by (auto simp: drop_stale_def Let_def mem_times_def dict_get_def map_of_filter_keys
        dest: in_set_takeD split: option.splits)
qed

lemma distinct_drop_stale: "distinct (map fst db) \<Longrightarrow> distinct (map fst (drop_stale db))"
  by (simp add: drop_stale_def Let_def distinct_map_filter)

text \<open>The fallback on its own key, with the cleanup and the key creation folded away.\<close>

lemma check_db_eq:
  fixes kt ident :: string and now :: tstamp and sl hl sw hw :: int
  assumes "distinct (map fst db)"
  defines "key \<equiv> rate_limit_key kt ident"
  defines "pruned \<equiv> filter (\<lambda>t. t > now - sec hw) (mem_times db key)"
  defines "over \<equiv> over_limit sl (count_after (now - sec sw) pruned) hl (int (length pruned))"
  obtains db' where
    "check_db now db kt ident sl hl sw hw =
       (if over then compute_result (count_after (now - sec sw) pruned) (int (length pruned)) sl hl sw hw (Some False)
        else compute_result (count_after (now - sec sw) pruned + 1) (int (length pruned) + 1) sl hl sw hw (Some True), db')"
    "mem_times db' key = (if over then pruned else pruned @ [now])"
    "distinct (map fst db')"
    "\<And>k. k \<noteq> key \<Longrightarrow> mem_times db' k = mem_times db k"
proof -
  define db0 where "db0 = (if map_of db key = None then db @ [(key, [])] else db)"
  have t0: "mem_times db0 k = mem_times db k" for k
    using mem_times_snoc_new by (simp add: db0_def)
  have d0: "distinct (map fst db0)"
    using assms(1) by (auto simp: db0_def map_of_eq_None_iff)
  define db1 where "db1 = dict_set key pruned db0"
  have t1: "mem_times db1 k = (if k = key then pruned else mem_times db k)" for k
    by (simp add: db1_def mem_times_set t0)
  have d1: "distinct (map fst db1)"
    using d0 by (simp add: db1_def distinct_dict_set)
  define db2 where "db2 = drop_stale (dict_set key (pruned @ [now]) db1)"
  have d2: "distinct (map fst (dict_set key (pruned @ [now]) db1))"
    using d1 by (rule distinct_dict_set)
  have t2: "mem_times db2 k = (if k = key then pruned @ [now] else mem_times db k)" for k
    by (simp add: db2_def mem_times_drop_stale [OF d2] mem_times_set t1)
  have d2': "distinct (map fst db2)"
    using d2 by (simp add: db2_def distinct_drop_stale)
  have eq: "check_db now db kt ident sl hl sw hw =
       (if over then compute_result (count_after (now - sec sw) pruned) (int (length pruned)) sl hl sw hw (Some False)
        else compute_result (count_after (now - sec sw) pruned + 1) (int (length pruned) + 1) sl hl sw hw (Some True),
        if over then db1 else db2)"
    unfolding check_db_def Let_def key_def [symmetric] db0_def [symmetric] t0 pruned_def [symmetric]
      db1_def [symmetric] db2_def [symmetric] over_def [symmetric]
    by simp
  show thesis
    by (rule that [OF eq]) (auto simp: t1 t2 d1 d2')
qed

lemma mem_step_eq:
  fixes kt ident :: string and now :: tstamp and sl hl sw hw :: int
  assumes "mem_ok lim sw hw db (now # rs)"
  defines "key \<equiv> rate_limit_key kt ident"
  defines "pruned \<equiv> filter (\<lambda>t. t > now - sec hw) (mem_times db key)"
  shows "fst (mem_step kt ident sl hl sw hw db now) \<longleftrightarrow>
      \<not> over_limit sl (count_after (now - sec sw) pruned) hl (int (length pruned))"
    and "mem_times (snd (mem_step kt ident sl hl sw hw db now)) key =
      (if fst (mem_step kt ident sl hl sw hw db now) then pruned @ [now] else pruned)"
    and "distinct (map fst (snd (mem_step kt ident sl hl sw hw db now)))"
proof -
  have d: "distinct (map fst db)"
    using assms(1) by (simp add: mem_ok_def)
  show "fst (mem_step kt ident sl hl sw hw db now) \<longleftrightarrow>
      \<not> over_limit sl (count_after (now - sec sw) pruned) hl (int (length pruned))"
    and "mem_times (snd (mem_step kt ident sl hl sw hw db now)) key =
      (if fst (mem_step kt ident sl hl sw hw db now) then pruned @ [now] else pruned)"
    and "distinct (map fst (snd (mem_step kt ident sl hl sw hw db now)))"
    unfolding mem_step_def key_def pruned_def
    by (rule check_db_eq [OF d, where kt = kt and ident = ident and now = now and sl = sl and hl = hl
          and sw = sw and hw = hw]; simp add: compute_result_def mk_result_def)+
qed

lemma mem_live_prune:
  "now \<le> t \<Longrightarrow> w \<le> hw \<Longrightarrow>
   filter (\<lambda>x. t - sec w < x) (filter (\<lambda>t. t > now - sec hw) ts) =
   filter (\<lambda>x. t - sec w < x) (filter (\<lambda>x. now - sec w < x) ts)"
  by (induction ts) (auto simp: sec_def)

lemma mem_live_step:
  assumes ok: "mem_ok lim sw hw db (now # rs)" and w: "w \<le> hw" and t: "now \<le> t"
  shows "mem_live (rate_limit_key kt ident) w (snd (mem_step kt ident sl hl sw hw db now)) t =
    filter (\<lambda>x. t - sec w < x)
      (if fst (mem_step kt ident sl hl sw hw db now)
       then mem_live (rate_limit_key kt ident) w db now @ [now]
       else mem_live (rate_limit_key kt ident) w db now)"
  using mem_live_prune [OF t w]
  by (simp add: mem_live_def mem_step_eq(2) [OF ok])

lemma mem_ok_step:
  "mem_ok lim sw hw db (now # rs) \<Longrightarrow> mem_ok lim sw hw (snd (mem_step kt ident sl hl sw hw db now)) rs"
  using mem_step_eq(3) [of lim sw hw db now rs kt ident sl hl] by (simp add: mem_ok_def)

interpretation mem_hard: window_limiter
  "mem_step kt ident sl hl sw hw" "\<lambda>now. now" "mem_live (rate_limit_key kt ident) hw"
  "mem_ok hl sw hw" hl "sec hw"
  for kt ident sl hl sw hw
proof unfold_locales
  fix db now rs
  assume ok: "mem_ok hl sw hw db (now # rs)"
  show "int (length (mem_live (rate_limit_key kt ident) hw db now)) < hl"
    if "fst (mem_step kt ident sl hl sw hw db now)"
    using that ok by (simp add: mem_step_eq(1) [OF ok] over_limit_def mem_live_def mem_ok_def)
qed (auto simp: mem_live_step mem_ok_step, simp_all add: mem_ok_def)

interpretation mem_soft: window_limiter
  "mem_step kt ident sl hl sw hw" "\<lambda>now. now" "mem_live (rate_limit_key kt ident) sw"
  "mem_ok sl sw hw" sl "sec sw"
  for kt ident sl hl sw hw
proof unfold_locales
  fix db now rs
  assume ok: "mem_ok sl sw hw db (now # rs)"
  then have "sw \<le> hw" "0 < sl"
    by (simp_all add: mem_ok_def)
  then show "int (length (mem_live (rate_limit_key kt ident) sw db now)) < sl"
    if "fst (mem_step kt ident sl hl sw hw db now)"
    using that mem_live_prune [of now now sw hw "mem_times db (rate_limit_key kt ident)"]
    by (simp add: mem_step_eq(1) [OF ok] over_limit_def mem_live_def count_after_def)
  show "mem_live (rate_limit_key kt ident) sw (snd (mem_step kt ident sl hl sw hw db now)) t =
      filter (\<lambda>x. t - sec sw < x) (mem_live (rate_limit_key kt ident) sw db now @ [now])"
    if "fst (mem_step kt ident sl hl sw hw db now)" "now \<le> t" for t
    using mem_live_step [OF ok \<open>sw \<le> hw\<close>] that by simp
  show "mem_live (rate_limit_key kt ident) sw (snd (mem_step kt ident sl hl sw hw db now)) t =
      filter (\<lambda>x. t - sec sw < x) (mem_live (rate_limit_key kt ident) sw db now)"
    if "\<not> fst (mem_step kt ident sl hl sw hw db now)" "now \<le> t" for t
    using mem_live_step [OF ok \<open>sw \<le> hw\<close>] that by simp
qed (auto simp: mem_ok_step, simp_all add: mem_ok_def)

section \<open>Properties\<close>

text \<open>
  C5: the Lua limiter never over-admits.  For any sequence of checks on a key that starts
  unset, with a clock that does not run backwards and fresh member names, every window of
  \<open>hard_window_s\<close> holds at most \<open>hard_limit\<close> admissions and every window of \<open>soft_window_s\<close>
  at most \<open>soft_limit\<close>; key expiry and the script's pruning never make it forget one.
\<close>

theorem redis_window_bound:
  assumes "0 \<le> sw" "sw \<le> hw" "sorted (map fst rs)" "distinct (map snd rs)" "st key = None"
  shows "(0 < hl \<longrightarrow> in_window (sec hw) t (admitted (redis_step key sl hl sw hw) fst st rs) \<le> hl) \<and>
         (0 < sl \<longrightarrow> in_window (sec sw) t (admitted (redis_step key sl hl sw hw) fst st rs) \<le> sl)"
  using redis_hard.window_bound [of key hl sw hw st rs t sl] redis_soft.window_bound [of key sl sw hw st rs t hl] assms
  by (simp add: redis_ok_def redis_live_def zread_None)

theorem redis_window_bound_witness:
  "in_window (sec 3600) (sec 12)
     (admitted (redis_step ''k'' 0 2 1 3600) fst Map.empty
        [(sec 1, ''a''), (sec 5, ''b''), (sec 5, ''c''), (sec 12, ''d'')]) \<le> 2"
  using redis_window_bound [of 1 3600 "[(sec 1, ''a''), (sec 5, ''b''), (sec 5, ''c''), (sec 12, ''d'')]"
      Map.empty "''k''" 2 "sec 12" 0]
  by (simp add: sec_def)

text \<open>
  C6: the in-memory fallback keeps the same bound, starting from any dictionary that has no
  times for the key; the cleanup above 10000 keys does not weaken it.
\<close>

theorem mem_window_bound:
  assumes "0 \<le> sw" "sw \<le> hw" "sorted ts" "distinct (map fst db)"
    and "mem_times db (rate_limit_key kt ident) = []"
  shows "(0 < hl \<longrightarrow> in_window (sec hw) t (admitted (mem_step kt ident sl hl sw hw) (\<lambda>now. now) db ts) \<le> hl) \<and>
         (0 < sl \<longrightarrow> in_window (sec sw) t (admitted (mem_step kt ident sl hl sw hw) (\<lambda>now. now) db ts) \<le> sl)"
  using mem_hard.window_bound [of hl sw hw db ts kt ident t sl] mem_soft.window_bound [of sl sw hw db ts kt ident t hl] assms
  by (simp add: mem_ok_def mem_live_def)

theorem mem_window_bound_witness:
  "in_window (sec 3600) (sec 12)
     (admitted (mem_step ''ip'' ''1.2.3.4'' 0 2 1 3600) (\<lambda>now. now) [] [sec 1, sec 5, sec 5, sec 12]) \<le> 2"
  using mem_window_bound [of 1 3600 "[sec 1, sec 5, sec 5, sec 12]" "[]" "''ip''" "''1.2.3.4''" 2 "sec 12" 0]
  by (simp add: sec_def mem_times_def dict_get_def)

text \<open>
  C13: the two backends decide alike.  When the sorted set and the dictionary hold the same
  times for a key and none of them lies exactly on the soft cutoff, the Redis check and the
  database-mode check return the same result, and the stores again hold the same times.
\<close>

theorem backends_agree:
  fixes lim :: limiter and kt ident m :: string and now :: tstamp and sl hl sw hw :: int
  assumes rel: "map snd (zread (lim_redis lim) now (rate_limit_key kt ident)) =
      mem_times (lim_mem lim) (rate_limit_key kt ident)"
    and edge: "now - sec sw \<notin> set (mem_times (lim_mem lim) (rate_limit_key kt ident))"
    and fresh: "m \<notin> fst ` set (zread (lim_redis lim) now (rate_limit_key kt ident))"
    and keys: "distinct (map fst (lim_mem lim))"
  defines "viaRedis \<equiv> limiter_check ''redis'' True now m lim kt ident sl hl sw hw"
    and "viaDb \<equiv> limiter_check ''database'' True now m lim kt ident sl hl sw hw"
  shows "fst viaRedis = fst viaDb \<and>
    map snd (zread (lim_redis (snd viaRedis)) now (rate_limit_key kt ident)) =
    mem_times (lim_mem (snd viaDb)) (rate_limit_key kt ident)"
proof -
  define key where "key = rate_limit_key kt ident"
  define ms where "ms = zremrangebyscore (zread (lim_redis lim) now key) (now - sec hw)"
  define pruned where "pruned = filter (\<lambda>t. t > now - sec hw) (mem_times (lim_mem lim) key)"
  have ms: "map snd ms = pruned"
    using rel by (simp add: ms_def pruned_def key_def zremrangebyscore_def filter_map comp_def not_le flip: rel)
  have hard: "zcount ms (now - sec hw) = int (length pruned)"
    unfolding ms [symmetric] zcount_def ms_def zremrangebyscore_def filter_filter length_map
    by (intro arg_cong [where f = int] arg_cong [where f = length] filter_cong) auto
  have "filter (\<lambda>ms. now - sec sw \<le> snd ms) ms = filter (\<lambda>ms. now - sec sw < snd ms) ms"
    using edge by (intro filter_cong) (auto simp: ms_def zremrangebyscore_def key_def order.order_iff_strict simp flip: rel)
  then have soft: "zcount ms (now - sec sw) = count_after (now - sec sw) pruned"
    by (simp add: zcount_def count_after_def filter_map comp_def flip: ms)
  define over where "over = over_limit sl (count_after (now - sec sw) pruned) hl (int (length pruned))"
  have new: "map snd (zadd ms now m) = pruned @ [now]"
    using fresh ms by (subst zadd_def, subst dict_set_fresh) (auto simp: ms_def zremrangebyscore_def key_def)
  obtain db' where db: "check_db now (lim_mem lim) kt ident sl hl sw hw =
       (if over then compute_result (count_after (now - sec sw) pruned) (int (length pruned)) sl hl sw hw (Some False)
        else compute_result (count_after (now - sec sw) pruned + 1) (int (length pruned) + 1) sl hl sw hw (Some True), db')"
      "mem_times db' key = (if over then pruned else pruned @ [now])"
    using check_db_eq [OF keys, where kt = kt and ident = ident and now = now and sl = sl and hl = hl
        and sw = sw and hw = hw] unfolding over_def pruned_def key_def by metis
  have alive: "lim_redis lim key = Some z \<Longrightarrow> ms \<noteq> [] \<Longrightarrow> \<not> zexpire z \<le> now" for z
    by (auto simp: ms_def zread_def zremrangebyscore_def)
  have gone: "lim_redis lim key = None \<Longrightarrow> ms = []"
    by (simp add: ms_def zread_def zremrangebyscore_def)
  have ttl: "\<not> now + sec (max (hw * 2) 7200) \<le> now"
    by (simp add: sec_def)
  show ?thesis
    unfolding viaRedis_def viaDb_def limiter_check_def check_redis_def lua_rate_limit_def Let_def
      key_def [symmetric] ms_def [symmetric] hard soft over_def [symmetric] db(1)
    using ms new ttl alive gone by (cases over; cases "ms = []"; cases "lim_redis lim key")
      (auto simp: db(2) zread_def)
qed

theorem backends_agree_witness:
  "fst (limiter_check ''redis'' True (sec 100) ''m'' \<lparr>lim_redis = Map.empty, lim_mem = []\<rparr> ''ip'' ''h'' 1 5 1 60)
   = fst (limiter_check ''database'' True (sec 100) ''m'' \<lparr>lim_redis = Map.empty, lim_mem = []\<rparr> ''ip'' ''h'' 1 5 1 60)"
  using backends_agree [of "\<lparr>lim_redis = Map.empty, lim_mem = []\<rparr>" "sec 100" "''ip''" "''h''" 1 "''m''" 1 5 60]
  by (simp add: zread_def mem_times_def dict_get_def)

text \<open>
  The boundary on which they differ.  An entry exactly \<open>soft_window_s\<close> old is still
  counted by the script (its \<open>ZCOUNT\<close> bound is inclusive) and no longer by the fallback.
\<close>

lemma soft_boundary_differs:
  "let lim = \<lparr>lim_redis = [''ratelimit:ip:h'' \<mapsto> \<lparr>zmembers = [(''a'', sec 99)], zexpire = sec 9999\<rparr>],
              lim_mem = [(''ratelimit:ip:h'', [sec 99])]\<rparr>
   in \<not> rl_allowed (fst (limiter_check ''redis'' True (sec 100) ''b'' lim ''ip'' ''h'' 1 5 1 60))
    \<and> rl_allowed (fst (limiter_check ''database'' True (sec 100) ''b'' lim ''ip'' ''h'' 1 5 1 60))"
  by (simp add: limiter_check_def check_redis_def lua_rate_limit_def check_db_def rate_limit_key_def
      zread_def zremrangebyscore_def zcount_def over_limit_def mem_times_def dict_get_def count_after_def
      compute_result_def mk_result_def sec_def)

lemma check_db_rejected:
  fixes kt ident :: string and now :: tstamp and sl hl sw hw :: int
  assumes "distinct (map fst db)" "check_db now db kt ident sl hl sw hw = (r, db')" "\<not> rl_allowed r"
  shows "mem_times db' (rate_limit_key kt ident) =
      filter (\<lambda>t. t > now - sec hw) (mem_times db (rate_limit_key kt ident))"
    and "distinct (map fst db')"
    and "rl_limit_type r = ''soft'' \<and> rl_retry_after r = sw \<or> rl_limit_type r = ''hard'' \<and> rl_retry_after r = hw"
proof -
  from check_db_eq [OF assms(1), where kt = kt and ident = ident and now = now and sl = sl and hl = hl
      and sw = sw and hw = hw]
  obtain d where d:
    "check_db now db kt ident sl hl sw hw =
       (if over_limit sl (count_after (now - sec sw) (filter (\<lambda>t. t > now - sec hw) (mem_times db (rate_limit_key kt ident))))
             hl (int (length (filter (\<lambda>t. t > now - sec hw) (mem_times db (rate_limit_key kt ident)))))
        then compute_result (count_after (now - sec sw) (filter (\<lambda>t. t > now - sec hw) (mem_times db (rate_limit_key kt ident))))
               (int (length (filter (\<lambda>t. t > now - sec hw) (mem_times db (rate_limit_key kt ident))))) sl hl sw hw (Some False)
        else compute_result (count_after (now - sec sw) (filter (\<lambda>t. t > now - sec hw) (mem_times db (rate_limit_key kt ident))) + 1)
               (int (length (filter (\<lambda>t. t > now - sec hw) (mem_times db (rate_limit_key kt ident)))) + 1) sl hl sw hw (Some True), d)"
    "mem_times d (rate_limit_key kt ident) =
       (if over_limit sl (count_after (now - sec sw) (filter (\<lambda>t. t > now - sec hw) (mem_times db (rate_limit_key kt ident))))
             hl (int (length (filter (\<lambda>t. t > now - sec hw) (mem_times db (rate_limit_key kt ident)))))
        then filter (\<lambda>t. t > now - sec hw) (mem_times db (rate_limit_key kt ident))
        else filter (\<lambda>t. t > now - sec hw) (mem_times db (rate_limit_key kt ident)) @ [now])"
    "distinct (map fst d)"
    by metis
  with assms show "mem_times db' (rate_limit_key kt ident) =
      filter (\<lambda>t. t > now - sec hw) (mem_times db (rate_limit_key kt ident))"
    and "distinct (map fst db')"
    and "rl_limit_type r = ''soft'' \<and> rl_retry_after r = sw \<or> rl_limit_type r = ''hard'' \<and> rl_retry_after r = hw"
    by (auto simp: compute_result_def mk_result_def split: if_splits)
qed

text \<open>A limiter that has recorded nothing for a key after a time, and what a refusal then says.\<close>

definition limiter_past :: "string \<Rightarrow> tstamp \<Rightarrow> limiter \<Rightarrow> bool" where
  "limiter_past key now lim \<longleftrightarrow> distinct (map fst (lim_mem lim)) \<and>
     (\<forall>t \<in> set (mem_times (lim_mem lim) key). t \<le> now) \<and>
     (\<forall>z. lim_redis lim key = Some z \<longrightarrow> (\<forall>ms \<in> set (zmembers z). snd ms \<le> now))"

definition refusal_at :: "tstamp \<Rightarrow> tstamp \<Rightarrow> int \<Rightarrow> int \<Rightarrow> rl_result \<Rightarrow> bool" where
  "refusal_at newest t sw hw r \<longleftrightarrow>
     (rl_limit_type r = ''soft'' \<and> rl_retry_after r = sw \<and> t \<le> newest + sec sw) \<or>
     (rl_limit_type r = ''hard'' \<and> rl_retry_after r = hw \<and> t \<le> newest + sec hw)"

lemma refusal_result:
  assumes "over_limit sl sc hl hc" "0 < sc \<Longrightarrow> t \<le> newest + sec sw" "0 < hc \<Longrightarrow> t \<le> newest + sec hw"
  shows "refusal_at newest t sw hw (compute_result sc hc sl hl sw hw (Some False))"
  using assms by (auto simp: refusal_at_def over_limit_def compute_result_def mk_result_def)

lemma some_after: "0 < count_after c ts \<Longrightarrow> \<exists>t \<in> set ts. c < t"
  by (auto simp: count_after_def filter_empty_conv)

lemma db_refused:
  assumes "distinct (map fst db)" "\<forall>x \<in> set (mem_times db (rate_limit_key kt ident)). x \<le> newest"
    and "check_db t db kt ident sl hl sw hw = (r, db')" "\<not> rl_allowed r"
  shows "refusal_at newest t sw hw r" "distinct (map fst db')"
    "\<forall>x \<in> set (mem_times db' (rate_limit_key kt ident)). x \<le> newest"
proof -
  let ?ts = "filter (\<lambda>x. x > t - sec hw) (mem_times db (rate_limit_key kt ident))"
  note kept = check_db_rejected [OF assms(1,3,4)]
  show "distinct (map fst db')" "\<forall>x \<in> set (mem_times db' (rate_limit_key kt ident)). x \<le> newest"
    using kept(1,2) assms(2) by auto
  have "over_limit sl (count_after (t - sec sw) ?ts) hl (int (length ?ts)) \<and>
      r = compute_result (count_after (t - sec sw) ?ts) (int (length ?ts)) sl hl sw hw (Some False)"
    by (rule check_db_eq [OF assms(1), where kt = kt and ident = ident and now = t and sl = sl and hl = hl
          and sw = sw and hw = hw])
      (use assms(3,4) in \<open>auto simp: compute_result_def mk_result_def split: if_splits\<close>)
  moreover have "t \<le> newest + sec sw" if pos: "0 < count_after (t - sec sw) ?ts"
  proof -
    obtain x where "x \<in> set ?ts" "t - sec sw < x"
      using some_after [OF pos] by blast
    then show ?thesis
      using assms(2) by fastforce
  qed
  moreover have "t \<le> newest + sec hw" if "0 < int (length ?ts)"
    using that assms(2) by (fastforce simp: filter_empty_conv)
  ultimately show "refusal_at newest t sw hw r"
    using refusal_result by blast
qed

lemma redis_refused:
  assumes "\<forall>z. st key = Some z \<longrightarrow> (\<forall>ms \<in> set (zmembers z). snd ms \<le> newest)"
    and "lua_rate_limit st key t (t - sec sw) (t - sec hw) m ttl sl hl = ((allowed, sc, hc), st')" "allowed \<noteq> 1"
  shows "refusal_at newest t sw hw (compute_result sc hc sl hl sw hw (Some False))"
    "\<forall>z. st' key = Some z \<longrightarrow> (\<forall>ms \<in> set (zmembers z). snd ms \<le> newest)"
proof -
  let ?ms = "zremrangebyscore (zread st t key) (t - sec hw)"
  have old: "snd ms \<le> newest" if "ms \<in> set ?ms" for ms
    using that assms(1) by (cases "st key") (auto simp: zremrangebyscore_def zread_def split: if_splits)
  have over: "over_limit sl (zcount ?ms (t - sec sw)) hl (zcount ?ms (t - sec hw))"
    and counts: "sc = zcount ?ms (t - sec sw)" "hc = zcount ?ms (t - sec hw)"
    and st': "st' = st(key := if ?ms = [] then None else map_option (zmembers_update (\<lambda>_. ?ms)) (st key))"
    using assms(2,3) by (auto simp: lua_rate_limit_def Let_def split: if_splits)
  have "t \<le> newest + sec w" if "0 < zcount ?ms (t - sec w)" for w
    using that old by (fastforce simp: zcount_def filter_empty_conv)
  then show "refusal_at newest t sw hw (compute_result sc hc sl hl sw hw (Some False))"
    unfolding counts by (intro refusal_result over) blast+
  show "\<forall>z. st' key = Some z \<longrightarrow> (\<forall>ms \<in> set (zmembers z). snd ms \<le> newest)"
    using old by (auto simp: st' split: if_splits)
qed

lemma limiter_refused:
  assumes "limiter_past (rate_limit_key kt ident) newest lim"
    and "limiter_check storage up t m lim kt ident sl hl sw hw = (r, lim')" "\<not> rl_allowed r"
  shows "limiter_past (rate_limit_key kt ident) newest lim'"
    and "rl_limit_type r = ''soft'' \<and> rl_retry_after r = sw \<and> t \<le> newest + sec sw \<or>
      rl_limit_type r = ''hard'' \<and> rl_retry_after r = hw \<and> t \<le> newest + sec hw"
proof -
  have "limiter_past (rate_limit_key kt ident) newest lim' \<and> refusal_at newest t sw hw r"
  proof (cases "storage = ''database'' \<or> \<not> up")
    case True
    then obtain db where "check_db t (lim_mem lim) kt ident sl hl sw hw = (r, db)" "lim' = lim\<lparr>lim_mem := db\<rparr>"
      using assms(2) by (auto simp: limiter_check_def check_redis_def split: if_splits prod.splits)
    moreover have "distinct (map fst (lim_mem lim))" "\<forall>x \<in> set (mem_times (lim_mem lim) (rate_limit_key kt ident)). x \<le> newest"
      using assms(1) by (simp_all add: limiter_past_def)
    ultimately show ?thesis
      using db_refused [of "lim_mem lim" kt ident newest t sl hl sw hw r db] assms(1,3) by (simp add: limiter_past_def)
  next
    case False
    then obtain al sc hc st where lua: "lua_rate_limit (lim_redis lim) (rate_limit_key kt ident) t (t - sec sw) (t - sec hw) m
          (max (hw * 2) 7200) sl hl = ((al, sc, hc), st)"
      and r: "r = compute_result sc hc sl hl sw hw (Some (al = 1))" "lim' = lim\<lparr>lim_redis := st\<rparr>"
      using assms(2) by (auto simp: limiter_check_def check_redis_def split: prod.splits)
    have "al \<noteq> 1"
      using assms(3) r(1) by (auto simp: compute_result_def mk_result_def)
    moreover have "\<forall>z. lim_redis lim (rate_limit_key kt ident) = Some z \<longrightarrow> (\<forall>ms \<in> set (zmembers z). snd ms \<le> newest)"
      using assms(1) by (simp add: limiter_past_def)
    ultimately show ?thesis
      using redis_refused [OF _ lua, of newest] assms(1) by (simp add: limiter_past_def r)
  qed
  then show "limiter_past (rate_limit_key kt ident) newest lim'"
    and "rl_limit_type r = ''soft'' \<and> rl_retry_after r = sw \<and> t \<le> newest + sec sw \<or>
      rl_limit_type r = ''hard'' \<and> rl_retry_after r = hw \<and> t \<le> newest + sec hw"
    by (simp_all add: refusal_at_def)
qed

lemma count_after_none: "(\<And>t. t \<in> set ts \<Longrightarrow> t \<le> c) \<Longrightarrow> count_after c ts = 0"
  by (auto simp: count_after_def filter_empty_conv not_less)

text \<open>
  C14: the advertised retry times lead in.  Take a limiter of either backend that recorded
  nothing from the future, and a caller who is refused, waits longer than the \<open>retry_after\<close> he is
  told and asks again, with no other request of the same key in between.  He is admitted, except
  that after a refusal for the soft limit the hard limit may refuse him once more; then waiting
  longer than the second \<open>retry_after\<close> gets him in.  So a refusal for the hard limit is lifted by
  the time it advertises, and following the advice at most twice is always enough.
\<close>

theorem retry_after_suffices:
  assumes past: "limiter_past (rate_limit_key kt ident) now lim"
    and win: "0 \<le> sw" "sw \<le> hw"
    and first: "limiter_check storage up now m lim kt ident sl hl sw hw = (r, lim')" "\<not> rl_allowed r"
      "now + sec (rl_retry_after r) < now'"
    and second: "limiter_check storage up now' m' lim' kt ident sl hl sw hw = (r', lim'')"
  shows "rl_allowed r' \<or>
    rl_limit_type r = ''soft'' \<and> rl_limit_type r' = ''hard'' \<and>
    (\<forall>now'' m''. now' + sec (rl_retry_after r') < now'' \<longrightarrow>
       rl_allowed (fst (limiter_check storage up now'' m'' lim'' kt ident sl hl sw hw)))"
proof (cases "rl_allowed r'")
  case False
  note one = limiter_refused [OF past first(1,2)]
  note two = limiter_refused [OF one(1) second False]
  have windows: "sec sw \<le> sec hw" "0 \<le> sec sw"
    using win by (simp_all add: sec_def)
  have types: "rl_limit_type r = ''soft'' \<and> rl_limit_type r' = ''hard'' \<and> rl_retry_after r' = hw"
    using one(2) two(2) first(3) windows by (elim disjE conjE) simp_all
  have "rl_allowed (fst (limiter_check storage up now'' m'' lim'' kt ident sl hl sw hw))"
    if "now' + sec (rl_retry_after r') < now''" for now'' m''
  proof (rule ccontr)
    assume refused: "\<not> rl_allowed (fst (limiter_check storage up now'' m'' lim'' kt ident sl hl sw hw))"
    obtain r'' l where third: "limiter_check storage up now'' m'' lim'' kt ident sl hl sw hw = (r'', l)"
      by (rule prod.exhaust)
    have "\<not> rl_allowed r''"
      using refused third by simp
    from limiter_refused(2) [OF two(1) third this] have "now'' \<le> now + sec hw"
      using windows by (elim disjE conjE) linarith+
    moreover have "now \<le> now'"
      using first(3) one(2) windows(2) order_trans [OF windows(2,1)] by (elim disjE conjE) (simp_all del: sec_nonneg sec_mono)
    ultimately show False
      using that types by simp
  qed
  with types show ?thesis
    by blast
qed simp

definition busy_limiter :: limiter where
  "busy_limiter = \<lparr>lim_redis = Map.empty, lim_mem = [(''ratelimit:ip:h'', [sec 99, sec 100])]\<rparr>"

theorem retry_after_suffices_witness:
  "let check = (\<lambda>t l. limiter_check ''database'' True (sec t) ''m'' l ''ip'' ''h'' 1 2 1 60);
       (r, l) = check 100 busy_limiter; (r', l') = check 102 l
   in rl_limit_type r = ''soft'' \<and> rl_limit_type r' = ''hard'' \<and> rl_allowed (fst (check 163 l'))"
proof -
  let ?check = "\<lambda>t l. limiter_check ''database'' True (sec t) ''m'' l ''ip'' ''h'' 1 2 1 60"
  have one: "?check 100 busy_limiter = (mk_result False 1 2 1 2 1 60 1 ''soft'', busy_limiter)"
    and two: "?check 102 busy_limiter = (mk_result False 0 2 1 2 1 60 60 ''hard'', busy_limiter)"
    by (simp_all add: limiter_check_def check_db_def busy_limiter_def rate_limit_key_def mem_times_def dict_get_def
        count_after_def over_limit_def compute_result_def mk_result_def sec_def Let_def)
  have "rl_allowed (fst (?check 163 busy_limiter))"
    using retry_after_suffices [where kt = "''ip''" and ident = "''h''" and now = "sec 100" and lim = busy_limiter, OF _ _ _ one _ _ two]
    by (simp add: mk_result_def sec_def limiter_past_def busy_limiter_def rate_limit_key_def mem_times_def dict_get_def)
  then show ?thesis
    by (simp add: one two mk_result_def)
qed

text \<open>
  The counters the administrators see never include what Redis counted.  A check that
  Redis answers leaves every value of \<open>get_current_counts\<close> unchanged, whatever it decides.
\<close>

lemma status_counts_miss_redis:
  "get_current_counts t (snd (limiter_check ''redis'' True now m lim kt ident sl hl sw hw)) kt' ident' sw' hw'
   = get_current_counts t lim kt' ident' sw' hw'"
  by (simp add: limiter_check_def check_redis_def get_current_counts_def split: prod.split)

text \<open>
  The legacy branch of \<open>_compute_result\<close> (no decision supplied) admits at the hard limit
  where the rejection test of the backends refuses.
\<close>

lemma legacy_hard_limit_off_by_one:
  "rl_allowed (compute_result 0 5 0 5 1 60 None) \<and> over_limit 0 0 5 5"
  by (simp add: compute_result_def mk_result_def over_limit_def)

end
