(* ===== verification/Models.thy ===== *)
theory Models
  imports Sakn_Prelude
begin

text \<open>
  \<open>app/models/*.py\<close>, \<open>app/constants/roles.py\<close> and \<open>app/database.py\<close>: the tables as lists of row
  records (in insertion order), the queries the services use on them, the foreign-key actions
  of a deletion, and the exceptions that cross the services.  A handler is a function to
  \<open>exn + 'a\<close> and the database as last committed: a raise before the first commit gives the
  database back unchanged, as the rollback of \<open>get_session\<close> does.
\<close>

section \<open>Exceptions\<close>

text \<open>
  \<open>AppError status code message_key\<close>, FastAPI's \<open>HTTPException\<close> (status), SQLAlchemy's
  \<open>MultipleResultsFound\<close> and \<open>IntegrityError\<close>, and any other Python exception by its name.
\<close>

datatype exn =
    AppError int string string
  | HTTPException int
  | MultipleResultsFound
  | IntegrityError
  | PyError string

section \<open>Roles\<close>

definition ROLE_VISITOR :: string where "ROLE_VISITOR = ''visitor''"
definition ROLE_AUTHENTICATED :: string where "ROLE_AUTHENTICATED = ''authenticated''"
definition ROLE_ADMINISTRATOR :: string where "ROLE_ADMINISTRATOR = ''administrator''"

lemmas roles = ROLE_VISITOR_def ROLE_AUTHENTICATED_def ROLE_ADMINISTRATOR_def

section \<open>Rows\<close>

record user =
  u_id :: string
  u_email :: string
  u_password_hash :: string
  u_role :: string
  u_status :: string
  u_failed_login_attempts :: int
  u_locked_until :: "tstamp option"
  u_admin_notes :: "string option"
  u_first_name :: "string option"
  u_last_name :: "string option"
  u_email_verified_at :: "tstamp option"
  u_created_at :: tstamp
  u_updated_at :: tstamp

record session_row =
  s_id :: string
  s_user_id :: "string option"
  s_token_hash :: string
  s_ip_address :: string
  s_user_agent :: "string option"
  s_expires_at :: tstamp
  s_last_activity_at :: tstamp
  s_created_at :: tstamp

record user_preference =
  up_id :: string
  up_user_id :: "string option"
  up_session_id :: "string option"
  up_key :: string
  up_value :: string

text \<open>\<open>EmailVerification\<close> and \<open>PasswordReset\<close> have the same columns.\<close>

record mail_token =
  mt_id :: string
  mt_user_id :: string
  mt_token_hash :: string
  mt_expires_at :: tstamp
  mt_used :: bool
  mt_created_at :: tstamp

record global_setting =
  gs_id :: string
  gs_key :: string
  gs_value :: string

record tool_module =
  tm_id :: string
  tm_name :: string
  tm_display_name_key :: string
  tm_description_key :: string
  tm_enabled :: bool
  tm_version :: string

record role_tool_permission =
  rp_id :: string
  rp_role :: string
  rp_tool_id :: string
  rp_allowed :: bool

record rate_limit_config =
  rc_id :: string
  rc_role :: string
  rc_tool_id :: "string option"
  rc_soft_limit :: int
  rc_hard_limit :: int
  rc_window_seconds :: int

record dns_server_preset =
  dp_id :: string
  dp_tool_module_id :: string
  dp_ip_address :: string
  dp_description :: string
  dp_sort_order :: int

record tool_execution_log =
  el_id :: string
  el_user_id :: "string option"
  el_session_id :: "string option"
  el_source_ip :: string
  el_tool_name :: string
  el_parameters :: string
  el_result :: string
  el_duration_ms :: int
  el_error_message :: "string option"
  el_created_at :: tstamp

record security_event_log =
  ev_id :: string
  ev_event_type :: string
  ev_source_ip :: string
  ev_user_id :: "string option"
  ev_details :: string
  ev_created_at :: tstamp

record audit_log =
  au_id :: string
  au_admin_id :: string
  au_action :: string
  au_entity_type :: string
  au_entity_id :: string
  au_old_value :: "string option"
  au_new_value :: string
  au_created_at :: tstamp

record db =
  db_users :: "user list"
  db_sessions :: "session_row list"
  db_preferences :: "user_preference list"
  db_verifications :: "mail_token list"
  db_resets :: "mail_token list"
  db_settings :: "global_setting list"
  db_tools :: "tool_module list"
  db_permissions :: "role_tool_permission list"
  db_rate_limits :: "rate_limit_config list"
  db_presets :: "dns_server_preset list"
  db_exec_logs :: "tool_execution_log list"
  db_events :: "security_event_log list"
  db_audit :: "audit_log list"

definition empty_db :: db where
  "empty_db = \<lparr>db_users = [], db_sessions = [], db_preferences = [], db_verifications = [],
     db_resets = [], db_settings = [], db_tools = [], db_permissions = [], db_rate_limits = [],
     db_presets = [], db_exec_logs = [], db_events = [], db_audit = []\<rparr>"

section \<open>Queries\<close>

text \<open>\<open>Result.scalar_one_or_none\<close>: more than one row is an error.\<close>

fun scalar_one_or_none :: "'a list \<Rightarrow> exn + 'a option" where
  "scalar_one_or_none [] = Inr None"
| "scalar_one_or_none [x] = Inr (Some x)"
| "scalar_one_or_none (x # y # xs) = Inl MultipleResultsFound"

lemma scalar_one_or_none_filter:
  "distinct (map f xs) \<Longrightarrow> scalar_one_or_none (filter (\<lambda>x. f x = k) xs) = Inr (find (\<lambda>x. f x = k) xs)"
proof (induction xs)
  case (Cons x xs)
  then have "f x = k \<Longrightarrow> filter (\<lambda>x. f x = k) xs = []"
    by (auto simp: filter_empty_conv image_iff dest: sym)
  with Cons show ?case by auto
qed simp

text \<open>Assignment to the attributes of the row with a given primary key.\<close>

definition update_where :: "('a \<Rightarrow> bool) \<Rightarrow> ('a \<Rightarrow> 'a) \<Rightarrow> 'a list \<Rightarrow> 'a list" where
  "update_where p f xs = map (\<lambda>x. if p x then f x else x) xs"

lemma length_update_where [simp]: "length (update_where p f xs) = length xs"
  by (simp add: update_where_def)

lemma map_update_where: "(\<And>x. p x \<Longrightarrow> g (f x) = g x) \<Longrightarrow> map g (update_where p f xs) = map g xs"
  by (auto simp: update_where_def)

lemma update_where_none: "(\<And>x. x \<in> set xs \<Longrightarrow> \<not> p x) \<Longrightarrow> update_where p f xs = xs"
  by (induction xs) (auto simp: update_where_def)

lemma set_update_where: "set (update_where p f xs) = {x \<in> set xs. \<not> p x} \<union> f ` {x \<in> set xs. p x}"
  by (auto simp: update_where_def image_iff split: if_splits)

lemma find_update_where:
  "(\<And>x. p x \<Longrightarrow> q (f x) = q x) \<Longrightarrow>
   find q (update_where p f xs) = map_option (\<lambda>x. if p x then f x else x) (find q xs)"
  by (induction xs) (auto simp: update_where_def)

lemma find_Some_in: "find p xs = Some x \<Longrightarrow> x \<in> set xs \<and> p x"
  by (auto simp: find_Some_iff)

lemma scalar_Inr_iff:
  "scalar_one_or_none xs = Inr None \<longleftrightarrow> xs = []" "scalar_one_or_none xs = Inr (Some x) \<longleftrightarrow> xs = [x]"
  by (cases xs rule: scalar_one_or_none.cases; auto)+

section \<open>Foreign keys\<close>

text \<open>The user and the session a new row names must exist.\<close>

definition references_ok :: "db \<Rightarrow> string option \<Rightarrow> string option \<Rightarrow> bool" where
  "references_ok d user_id session_id \<longleftrightarrow>
     (user_id = None \<or> user_id \<in> set (map (Some \<circ> u_id) (db_users d))) \<and>
     (session_id = None \<or> session_id \<in> set (map (Some \<circ> s_id) (db_sessions d)))"


text \<open>
  Deleting a session: preferences and execution logs that name it are kept with a null
  reference.  Deleting users goes through their sessions, preferences and mail tokens
  (\<open>CASCADE\<close>) and clears the references of the logs (\<open>SET NULL\<close>); an audit row's \<open>admin_id\<close> is
  declared both \<open>SET NULL\<close> and \<open>NOT NULL\<close>, so a deletion that reaches one fails.
\<close>

definition delete_sessions :: "(session_row \<Rightarrow> bool) \<Rightarrow> db \<Rightarrow> db" where
  "delete_sessions p d =
     (let gone = map s_id (filter p (db_sessions d));
          clear = (\<lambda>r. case r of None \<Rightarrow> None | Some i \<Rightarrow> if i \<in> set gone then None else Some i)
      in d\<lparr>db_sessions := filter (\<lambda>s. \<not> p s) (db_sessions d),
           db_preferences := map (up_session_id_update clear) (db_preferences d),
           db_exec_logs := map (el_session_id_update clear) (db_exec_logs d)\<rparr>)"

definition delete_users :: "(user \<Rightarrow> bool) \<Rightarrow> db \<Rightarrow> exn + db" where
  "delete_users p d =
     (let gone = map u_id (filter p (db_users d));
          clear = (\<lambda>r. case r of None \<Rightarrow> None | Some i \<Rightarrow> if i \<in> set gone then None else Some i);
          hit = (\<lambda>r. case r of None \<Rightarrow> False | Some i \<Rightarrow> i \<in> set gone)
      in if list_ex (\<lambda>a. au_admin_id a \<in> set gone) (db_audit d) then Inl IntegrityError
         else Inr ((delete_sessions (\<lambda>s. hit (s_user_id s)) d)
           \<lparr>db_users := filter (\<lambda>u. \<not> p u) (db_users d),
            db_preferences := filter (\<lambda>x. \<not> hit (up_user_id x))
              (db_preferences (delete_sessions (\<lambda>s. hit (s_user_id s)) d)),
            db_verifications := filter (\<lambda>x. mt_user_id x \<notin> set gone) (db_verifications d),
            db_resets := filter (\<lambda>x. mt_user_id x \<notin> set gone) (db_resets d),
            db_exec_logs := map (el_user_id_update clear)
              (db_exec_logs (delete_sessions (\<lambda>s. hit (s_user_id s)) d)),
            db_events := map (ev_user_id_update clear) (db_events d)\<rparr>))"

section \<open>The request session\<close>

text \<open>
  \<open>get_session\<close>: with the database marked unavailable every handler is refused before it
  runs; otherwise the handler's committed state is kept.
\<close>

definition with_session :: "bool \<Rightarrow> (db \<Rightarrow> (exn + 'a) \<times> db) \<Rightarrow> db \<Rightarrow> (exn + 'a) \<times> db" where
  "with_session db_available handler d =
     (if db_available then handler d
      else (Inl (AppError 503 ''DATABASE_UNAVAILABLE'' ''errors.database_unavailable''), d))"

end
