(* ===== verification/Rate_Service.thy ===== *)
theory Rate_Service
  imports Models Rate_Store
begin

text \<open>
  \<open>app/services/rate_limit_service.py\<close>: the limits in force for a role and a tool, the check of
  a tool request (visitors are counted by session and by address), and the counters of the
  authentication endpoints.
\<close>

section \<open>Effective limits\<close>

definition DEFAULT_LIMITS :: "(string \<times> (int \<times> int)) list" where
  "DEFAULT_LIMITS =
     [(ROLE_VISITOR, (1, 200)), (ROLE_AUTHENTICATED, (1, 500)), (ROLE_ADMINISTRATOR, (0, 3600))]"

record limits =
  soft_limit :: int
  hard_limit :: int
  window_seconds :: int

definition effective :: "int \<Rightarrow> int \<Rightarrow> int" where
  "effective a b = (if a = 0 then b else if b = 0 then a else min a b)"

definition get_effective_limits :: "db \<Rightarrow> string \<Rightarrow> string option \<Rightarrow> exn + limits" where
  "get_effective_limits d role tool_id =
     (case scalar_one_or_none (filter (\<lambda>c. rc_role c = role \<and> rc_tool_id c = None) (db_rate_limits d)) of
        Inl e \<Rightarrow> Inl e
      | Inr global_config \<Rightarrow>
          (let defaults = dict_get role (0, 0) DEFAULT_LIMITS;
               global_soft = (case global_config of Some c \<Rightarrow> rc_soft_limit c | None \<Rightarrow> fst defaults);
               global_hard = (case global_config of Some c \<Rightarrow> rc_hard_limit c | None \<Rightarrow> snd defaults);
               global_window = (case global_config of Some c \<Rightarrow> rc_window_seconds c | None \<Rightarrow> 3600);
               tool_rows =
                 (case tool_id of
                    None \<Rightarrow> []
                  | Some t \<Rightarrow> if t = [] then []
                      else filter (\<lambda>c. rc_role c = role \<and> rc_tool_id c = Some t) (db_rate_limits d))
           in case scalar_one_or_none tool_rows of
                Inl e \<Rightarrow> Inl e
              | Inr tool_config \<Rightarrow>
                  (let per_tool_soft = (case tool_config of Some c \<Rightarrow> rc_soft_limit c | None \<Rightarrow> 0);
                       per_tool_hard = (case tool_config of Some c \<Rightarrow> rc_hard_limit c | None \<Rightarrow> 0)
                   in Inr \<lparr>soft_limit = effective global_soft per_tool_soft,
                           hard_limit = effective global_hard per_tool_hard,
                           window_seconds = global_window\<rparr>)))"

text \<open>A value that \<open>int()\<close> rejects is skipped and the default stays.\<close>

definition get_visitor_ip_limits :: "db \<Rightarrow> int \<times> int" where
  "get_visitor_ip_limits d =
     fold (\<lambda>s (soft, hard).
         case py_int (gs_value s) of
           None \<Rightarrow> (soft, hard)
         | Some val \<Rightarrow> if gs_key s = ''visitor_ip_soft_limit'' then (val, hard)
             else if gs_key s = ''visitor_ip_hard_limit'' then (soft, val) else (soft, hard))
       (filter (\<lambda>s. gs_key s \<in> set [''visitor_ip_soft_limit'', ''visitor_ip_hard_limit'']) (db_settings d))
       (5, 500)"

section \<open>The check of a tool request\<close>

text \<open>The world a request sees: the storage setting, whether Redis answers, the time and two
  fresh member names.\<close>

record rl_env =
  env_storage :: string
  env_redis_up :: bool
  env_now :: tstamp
  env_member1 :: string
  env_member2 :: string

definition check_tool_rate_limit ::
    "rl_env \<Rightarrow> db \<Rightarrow> limiter \<Rightarrow> string \<Rightarrow> string option \<Rightarrow> string \<Rightarrow> string \<Rightarrow> string option \<Rightarrow>
     (exn + rl_result) \<times> limiter" where
  "check_tool_rate_limit e d lim role user_id session_id source_ip tool_id =
     (case get_effective_limits d role tool_id of
        Inl x \<Rightarrow> (Inl x, lim)
      | Inr limits \<Rightarrow>
          (let soft_limit = soft_limit limits;
               hard_limit = hard_limit limits;
               soft_window_s = 1;
               hard_window_s = window_seconds limits
           in if role = ROLE_VISITOR then
                (case limiter_check (env_storage e) (env_redis_up e) (env_now e) (env_member1 e) lim
                        ''session'' session_id soft_limit hard_limit soft_window_s hard_window_s of
                   (session_result, lim1) \<Rightarrow>
                     if \<not> rl_allowed session_result then (Inr session_result, lim1)
                     else
                       (case get_visitor_ip_limits d of
                          (ip_soft, ip_hard) \<Rightarrow>
                            (case limiter_check (env_storage e) (env_redis_up e) (env_now e) (env_member2 e) lim1
                                    ''ip'' source_ip ip_soft ip_hard soft_window_s hard_window_s of
                               (ip_result, lim2) \<Rightarrow>
                                 if \<not> rl_allowed ip_result then (Inr ip_result, lim2)
                                 else (Inr session_result, lim2))))
              else
                (let named = (user_id \<noteq> None \<and> user_id \<noteq> Some []);
                     key_id = (if named then the user_id else session_id);
                     key_type = (if named then ''user'' else ''session'')
                 in case limiter_check (env_storage e) (env_redis_up e) (env_now e) (env_member1 e) lim
                           key_type key_id soft_limit hard_limit soft_window_s hard_window_s of
                      (r, lim1) \<Rightarrow> (Inr r, lim1))))"

section \<open>The counters of the authentication endpoints\<close>

text \<open>\<open>_auth_counters\<close> is a \<open>defaultdict\<close>: reading a missing key creates it.\<close>

definition AUTH_LIMITS :: "(string \<times> (int \<times> int)) list" where
  "AUTH_LIMITS = [(''login'', (10, 60)), (''register'', (3, 3600)), (''reset'', (3, 86400)),
                  (''resend'', (5, 86400))]"

type_synonym auth_counters = "(string \<times> tstamp list) list"

definition prune_auth :: "tstamp \<Rightarrow> auth_counters \<Rightarrow> string \<Rightarrow> int \<Rightarrow> auth_counters" where
  "prune_auth now ac key window =
     dict_set key (filter (\<lambda>t. t > now - sec window) (dict_get key [] ac)) ac"

definition auth_check :: "tstamp \<Rightarrow> auth_counters \<Rightarrow> string \<Rightarrow> string \<Rightarrow> bool \<times> auth_counters" where
  "auth_check now ac key limit_key =
     (case map_of AUTH_LIMITS limit_key of
        None \<Rightarrow> (True, ac)
      | Some (maxi, window) \<Rightarrow>
          (let ac' = prune_auth now ac key window
           in (int (length (dict_get key [] ac')) < maxi, ac')))"

definition auth_record :: "tstamp \<Rightarrow> auth_counters \<Rightarrow> string \<Rightarrow> string \<Rightarrow> auth_counters" where
  "auth_record now ac key limit_key =
     (if map_of AUTH_LIMITS limit_key \<noteq> None then dict_set key (dict_get key [] ac @ [now]) ac else ac)"

definition auth_remaining :: "tstamp \<Rightarrow> auth_counters \<Rightarrow> string \<Rightarrow> string \<Rightarrow> int \<times> auth_counters" where
  "auth_remaining now ac key limit_key =
     (case map_of AUTH_LIMITS limit_key of
        None \<Rightarrow> (999, ac)
      | Some (maxi, window) \<Rightarrow>
          (let ac' = prune_auth now ac key window
           in (max 0 (maxi - int (length (dict_get key [] ac'))), ac')))"

text \<open>\<open>_enforce_rate_limit\<close> of \<open>app/api/v1/endpoints/auth.py\<close>: refuse with 429 or record.\<close>

definition enforce_rate_limit :: "tstamp \<Rightarrow> auth_counters \<Rightarrow> string \<Rightarrow> string \<Rightarrow> (exn + unit) \<times> auth_counters" where
  "enforce_rate_limit now ac key limit_name =
     (case auth_check now ac key limit_name of
        (ok, ac') \<Rightarrow>
          if \<not> ok then (Inl (AppError 429 ''RATE_LIMIT_EXCEEDED'' ''errors.rate_limit_exceeded''), ac')
          else (Inr (), auth_record now ac' key limit_name))"

section \<open>The limits as bounds\<close>

text \<open>The number of requests a configured limit leaves room for another one after; 0 is no limit.\<close>

definition room :: "int \<Rightarrow> int \<Rightarrow> bool" where
  "room n limit \<longleftrightarrow> limit = 0 \<or> n < limit"

lemma room_effective:
  "0 \<le> a \<Longrightarrow> 0 \<le> b \<Longrightarrow> room n (effective a b) \<longleftrightarrow> room n a \<and> room n b"
  by (auto simp: effective_def room_def)

lemma over_limit_room:
  "0 \<le> sl \<Longrightarrow> 0 \<le> hl \<Longrightarrow> over_limit sl sc hl hc \<longleftrightarrow> \<not> (room sc sl \<and> room hc hl)"
  by (auto simp: over_limit_def room_def)

definition limit_row :: "db \<Rightarrow> string \<Rightarrow> string option \<Rightarrow> rate_limit_config option" where
  "limit_row d role tool = find (\<lambda>c. (rc_role c, rc_tool_id c) = (role, tool)) (db_rate_limits d)"

definition unique_limits :: "db \<Rightarrow> bool" where
  "unique_limits d \<longleftrightarrow> distinct (map (\<lambda>c. (rc_role c, rc_tool_id c)) (db_rate_limits d))"

lemma scalar_limit_row:
  "unique_limits d \<Longrightarrow>
   scalar_one_or_none (filter (\<lambda>c. rc_role c = role \<and> rc_tool_id c = tool) (db_rate_limits d))
   = Inr (limit_row d role tool)"
  using scalar_one_or_none_filter [of "\<lambda>c. (rc_role c, rc_tool_id c)" "db_rate_limits d" "(role, tool)"]
  by (simp add: unique_limits_def limit_row_def)

section \<open>Visitors behind one address\<close>

text \<open>
  A visitor request in database mode, from one address and any session; a check that raises
  lets the request through, as the middleware does.
\<close>

definition visitor_step :: "db \<Rightarrow> string \<Rightarrow> limiter \<Rightarrow> tstamp \<times> string \<Rightarrow> bool \<times> limiter" where
  "visitor_step d ip lim r =
     (case check_tool_rate_limit
             \<lparr>env_storage = ''database'', env_redis_up = False, env_now = fst r, env_member1 = [], env_member2 = []\<rparr>
             d lim ROLE_VISITOR None (snd r) ip None of
        (Inl _, lim') \<Rightarrow> (True, lim')
      | (Inr res, lim') \<Rightarrow> (rl_allowed res, lim'))"

definition visitor_ok :: "db \<Rightarrow> limits \<Rightarrow> limiter \<Rightarrow> (tstamp \<times> string) list \<Rightarrow> bool" where
  "visitor_ok d L lim rs \<longleftrightarrow>
     get_effective_limits d ROLE_VISITOR None = Inr L \<and> 1 \<le> window_seconds L \<and>
     0 < snd (get_visitor_ip_limits d) \<and> sorted (map fst rs) \<and> distinct (map fst (lim_mem lim))"

lemma session_key_neq_ip: "rate_limit_key ''session'' x \<noteq> rate_limit_key ''ip'' y"
  by (simp add: rate_limit_key_def)

text \<open>What one visitor request does to the address counter.\<close>

lemma visitor_step_ip:
  fixes lim :: limiter and now :: tstamp and sid ip :: string
  assumes ok: "visitor_ok d L lim ((now, sid) # rs)"
  defines "key \<equiv> rate_limit_key ''ip'' ip"
  defines "hw \<equiv> window_seconds L"
  shows "distinct (map fst (lim_mem (snd (visitor_step d ip lim (now, sid)))))"
    and "\<not> fst (visitor_step d ip lim (now, sid)) \<Longrightarrow>
      mem_times (lim_mem (snd (visitor_step d ip lim (now, sid)))) key = mem_times (lim_mem lim) key \<or>
      mem_times (lim_mem (snd (visitor_step d ip lim (now, sid)))) key =
        filter (\<lambda>t. t > now - sec hw) (mem_times (lim_mem lim) key)"
    and "fst (visitor_step d ip lim (now, sid)) \<Longrightarrow>
      mem_times (lim_mem (snd (visitor_step d ip lim (now, sid)))) key =
        filter (\<lambda>t. t > now - sec hw) (mem_times (lim_mem lim) key) @ [now] \<and>
      int (length (filter (\<lambda>t. t > now - sec hw) (mem_times (lim_mem lim) key))) < snd (get_visitor_ip_limits d)"
proof -
  obtain s h where sh: "get_visitor_ip_limits d = (s, h)" by (rule prod.exhaust)
  from ok have L: "get_effective_limits d ROLE_VISITOR None = Inr L" and d0: "distinct (map fst (lim_mem lim))"
    and h: "0 < h"
    by (simp_all add: visitor_ok_def sh)
  obtain r1 db1 where c1: "check_db now (lim_mem lim) ''session'' sid (soft_limit L) (hard_limit L) 1 hw = (r1, db1)"
    by (rule prod.exhaust)
  obtain r2 db2 where c2: "check_db now db1 ''ip'' ip s h 1 hw = (r2, db2)"
    by (rule prod.exhaust)
  have neq: "key \<noteq> rate_limit_key ''session'' sid"
    using session_key_neq_ip [of sid ip] unfolding key_def by (rule not_sym)
  obtain db1' where "db1' = db1" "distinct (map fst db1')" "mem_times db1' key = mem_times (lim_mem lim) key"
    by (rule check_db_eq [OF d0, where kt = "''session''" and ident = sid and now = now and sl = "soft_limit L"
          and hl = "hard_limit L" and sw = 1 and hw = hw]) (use c1 neq in simp)
  then have d1: "distinct (map fst db1)" and t1: "mem_times db1 key = mem_times (lim_mem lim) key"
    by simp_all
  have two: "distinct (map fst db2) \<and> mem_times db2 key =
       filter (\<lambda>t. t > now - sec hw) (mem_times (lim_mem lim) key) @ (if rl_allowed r2 then [now] else []) \<and>
     (rl_allowed r2 \<longrightarrow>
       int (length (filter (\<lambda>t. t > now - sec hw) (mem_times (lim_mem lim) key))) < h)"
    by (rule check_db_eq [OF d1, where kt = "''ip''" and ident = ip and now = now and sl = s and hl = h
          and sw = 1 and hw = hw])
       (use c2 h in \<open>simp add: t1 key_def [symmetric] over_limit_def compute_result_def mk_result_def split: if_splits\<close>)
  have step: "visitor_step d ip lim (now, sid) =
      (if rl_allowed r1 then (rl_allowed r2, lim\<lparr>lim_mem := db2\<rparr>) else (False, lim\<lparr>lim_mem := db1\<rparr>))"
    using c1 c2 by (simp add: visitor_step_def check_tool_rate_limit_def L sh limiter_check_def Let_def hw_def)
  show "distinct (map fst (lim_mem (snd (visitor_step d ip lim (now, sid)))))"
    using d1 two by (simp add: step)
  show "mem_times (lim_mem (snd (visitor_step d ip lim (now, sid)))) key = mem_times (lim_mem lim) key \<or>
      mem_times (lim_mem (snd (visitor_step d ip lim (now, sid)))) key =
        filter (\<lambda>t. t > now - sec hw) (mem_times (lim_mem lim) key)"
    if "\<not> fst (visitor_step d ip lim (now, sid))"
    using that t1 two by (simp add: step split: if_splits)
  show "mem_times (lim_mem (snd (visitor_step d ip lim (now, sid)))) key =
        filter (\<lambda>t. t > now - sec hw) (mem_times (lim_mem lim) key) @ [now] \<and>
      int (length (filter (\<lambda>t. t > now - sec hw) (mem_times (lim_mem lim) key))) < snd (get_visitor_ip_limits d)"
    if "fst (visitor_step d ip lim (now, sid))"
    using that two by (simp add: step sh split: if_splits)
qed

interpretation visitors: window_limiter
  "visitor_step d ip" fst "\<lambda>lim. mem_live (rate_limit_key ''ip'' ip) (window_seconds L) (lim_mem lim)"
  "visitor_ok d L" "snd (get_visitor_ip_limits d)" "sec (window_seconds L)"
  for d ip L
proof unfold_locales
  fix lim :: limiter and r :: "tstamp \<times> string" and rs
  obtain now sid where r: "r = (now, sid)" by (rule prod.exhaust)
  let ?live = "\<lambda>lim. mem_live (rate_limit_key ''ip'' ip) (window_seconds L) (lim_mem lim)"
  assume "visitor_ok d L lim (r # rs)"
  note step = visitor_step_ip [OF this [unfolded r], where ip = ip] and ok = this
  show "int (length (?live lim (fst r))) < snd (get_visitor_ip_limits d)" if "fst (visitor_step d ip lim r)"
    using step(3) that by (simp add: r mem_live_def)
  show "?live (snd (visitor_step d ip lim r)) t =
      filter (\<lambda>x. t - sec (window_seconds L) < x) (?live lim (fst r) @ [fst r])"
    if "fst (visitor_step d ip lim r)" "fst r \<le> t" for t
    using step(3) that by (simp add: r mem_live_def)
  show "?live (snd (visitor_step d ip lim r)) t =
      filter (\<lambda>x. t - sec (window_seconds L) < x) (?live lim (fst r))"
    if "\<not> fst (visitor_step d ip lim r)" "fst r \<le> t" for t
    using step(2) that filter_gt_twice [of "now - sec (window_seconds L)" "t - sec (window_seconds L)"]
    by (auto simp: r mem_live_def)
  show "visitor_ok d L (snd (visitor_step d ip lim r)) rs"
    using ok step(1) by (simp add: visitor_ok_def r)
qed (simp add: visitor_ok_def)

section \<open>The authentication counters keep the contract\<close>

definition auth_step :: "string \<Rightarrow> string \<Rightarrow> auth_counters \<Rightarrow> tstamp \<Rightarrow> bool \<times> auth_counters" where
  "auth_step key limit_name ac now =
     (case enforce_rate_limit now ac key limit_name of (res, ac') \<Rightarrow> (res = Inr (), ac'))"

lemma auth_step_eq:
  assumes "map_of AUTH_LIMITS limit_name = Some (maxi, window)"
  shows "fst (auth_step key limit_name ac now) \<longleftrightarrow>
      int (length (filter (\<lambda>t. t > now - sec window) (dict_get key [] ac))) < maxi"
    and "dict_get key [] (snd (auth_step key limit_name ac now)) =
      filter (\<lambda>t. t > now - sec window) (dict_get key [] ac)
        @ (if fst (auth_step key limit_name ac now) then [now] else [])"
  using assms by (auto simp: auth_step_def enforce_rate_limit_def auth_check_def auth_record_def
      prune_auth_def dict_get_def map_of_dict_set Let_def)

interpretation auth: window_limiter
  "auth_step key limit_name" "\<lambda>now. now"
  "\<lambda>ac t. filter (\<lambda>x. t - sec window < x) (dict_get key [] ac)"
  "\<lambda>ac rs. map_of AUTH_LIMITS limit_name = Some (maxi, window) \<and> 0 < maxi \<and> sorted rs" maxi "sec window"
  for key limit_name maxi window
  by unfold_locales (auto simp: auth_step_eq)

section \<open>Properties\<close>

text \<open>
  One address cannot multiply its quota by opening sessions.  Whatever sessions the
  visitor requests from an address use, in every window of the configured length at most the
  configured number of them pass the check, because the address counter is only skipped by
  requests that the session counter already refused.
\<close>

lemma visitor_ip_bound:
  assumes "get_effective_limits d ROLE_VISITOR None = Inr L" "1 \<le> window_seconds L"
    and "get_visitor_ip_limits d = (soft, hard)" "0 < hard"
    and "sorted (map fst rs)" "distinct (map fst (lim_mem lim))"
    and "mem_times (lim_mem lim) (rate_limit_key ''ip'' ip) = []"
  shows "in_window (sec (window_seconds L)) t (admitted (visitor_step d ip) fst lim rs) \<le> hard"
  using visitors.window_bound [of d L lim rs ip t] assms
  by (simp add: visitor_ok_def mem_live_def)

lemma visitor_ip_bound_witness:
  "let d = empty_db\<lparr>db_settings := [\<lparr>gs_id = ''1'', gs_key = ''visitor_ip_hard_limit'', gs_value = ''2''\<rparr>]\<rparr>
   in in_window (sec 3600) (sec 30)
        (admitted (visitor_step d ''1.2.3.4'') fst \<lparr>lim_redis = Map.empty, lim_mem = []\<rparr>
           [(sec 10, ''a''), (sec 20, ''b''), (sec 30, ''c'')]) \<le> 2"
proof -
  let ?d = "empty_db\<lparr>db_settings := [\<lparr>gs_id = ''1'', gs_key = ''visitor_ip_hard_limit'', gs_value = ''2''\<rparr>]\<rparr>"
  have "py_int ''2'' = Some 2"
    by code_simp
  then have "get_visitor_ip_limits ?d = (5, 2)"
    by (simp add: get_visitor_ip_limits_def)
  moreover have "get_effective_limits ?d ROLE_VISITOR None =
      Inr \<lparr>soft_limit = 1, hard_limit = 200, window_seconds = 3600\<rparr>"
    by (simp add: get_effective_limits_def empty_db_def DEFAULT_LIMITS_def dict_get_def effective_def Let_def)
  ultimately show ?thesis
    using visitor_ip_bound [of ?d "\<lparr>soft_limit = 1, hard_limit = 200, window_seconds = 3600\<rparr>" 5 2
        "[(sec 10, ''a''), (sec 20, ''b''), (sec 30, ''c'')]" "\<lparr>lim_redis = Map.empty, lim_mem = []\<rparr>"
        "''1.2.3.4''" "sec 30"]
    by (simp add: Let_def sec_def mem_times_def dict_get_def)
qed

text \<open>
  The limits in force for a role and a tool are the stricter of the two configured ones.
  A request passes the effective pair exactly when it would pass the global pair (the role's
  row, or the defaults when it has none) and the tool's pair (unlimited when it has no row).
\<close>

lemma effective_limits_strictest:
  fixes d :: db and role tool :: string
  assumes "unique_limits d" "tool \<noteq> []"
    and "list_all (\<lambda>c. 0 \<le> rc_soft_limit c \<and> 0 \<le> rc_hard_limit c) (db_rate_limits d)"
  defines "global \<equiv> case limit_row d role None of
      Some c \<Rightarrow> (rc_soft_limit c, rc_hard_limit c) | None \<Rightarrow> dict_get role (0, 0) DEFAULT_LIMITS"
  defines "per_tool \<equiv> case limit_row d role (Some tool) of
      Some c \<Rightarrow> (rc_soft_limit c, rc_hard_limit c) | None \<Rightarrow> (0, 0)"
  shows "\<exists>L. get_effective_limits d role (Some tool) = Inr L \<and>
    over_limit (soft_limit L) sc (hard_limit L) hc =
      (over_limit (fst global) sc (snd global) hc \<or> over_limit (fst per_tool) sc (snd per_tool) hc)"
proof -
  have pos: "0 \<le> rc_soft_limit c \<and> 0 \<le> rc_hard_limit c" if "limit_row d role t = Some c" for t c
    using assms(3) that by (auto simp: limit_row_def list_all_iff dest: find_Some_in)
  have g: "0 \<le> fst global" "0 \<le> snd global"
    using pos [of None] by (auto simp: global_def DEFAULT_LIMITS_def dict_get_def split: option.split)
  have p: "0 \<le> fst per_tool" "0 \<le> snd per_tool"
    using pos [of "Some tool"] by (auto simp: per_tool_def split: option.split)
  have "\<exists>L. get_effective_limits d role (Some tool) = Inr L \<and>
      soft_limit L = effective (fst global) (fst per_tool) \<and> hard_limit L = effective (snd global) (snd per_tool)"
    using assms(2) by (auto simp: get_effective_limits_def scalar_limit_row [OF assms(1)] Let_def
        global_def per_tool_def split: option.split)
  then obtain L where L: "get_effective_limits d role (Some tool) = Inr L"
      "soft_limit L = effective (fst global) (fst per_tool)" "hard_limit L = effective (snd global) (snd per_tool)"
    by blast
  have eff: "0 \<le> effective a b" if "0 \<le> a" "0 \<le> b" for a b
    using that by (simp add: effective_def)
  show ?thesis
    using L(1) by (intro exI [of _ L])
      (simp add: L(2,3) over_limit_room eff g p room_effective, argo)
qed

lemma effective_limits_strictest_witness:
  "\<exists>L. get_effective_limits
       (empty_db\<lparr>db_rate_limits := [\<lparr>rc_id = ''1'', rc_role = ''visitor'', rc_tool_id = Some ''t'',
          rc_soft_limit = 0, rc_hard_limit = 20, rc_window_seconds = 60\<rparr>]\<rparr>) ''visitor'' (Some ''t'') = Inr L
     \<and> over_limit (soft_limit L) 0 (hard_limit L) 20 \<and> \<not> over_limit (soft_limit L) 0 (hard_limit L) 19"
  using effective_limits_strictest [of "empty_db\<lparr>db_rate_limits := [\<lparr>rc_id = ''1'', rc_role = ''visitor'',
       rc_tool_id = Some ''t'', rc_soft_limit = 0, rc_hard_limit = 20, rc_window_seconds = 60\<rparr>]\<rparr>" "''t''" "''visitor''" 0 20]
    effective_limits_strictest [of "empty_db\<lparr>db_rate_limits := [\<lparr>rc_id = ''1'', rc_role = ''visitor'',
       rc_tool_id = Some ''t'', rc_soft_limit = 0, rc_hard_limit = 20, rc_window_seconds = 60\<rparr>]\<rparr>" "''t''" "''visitor''" 0 19]
  by (auto simp: unique_limits_def limit_row_def over_limit_def DEFAULT_LIMITS_def dict_get_def roles empty_db_def)

text \<open>
  Each authentication limit on its own is a true sliding window.  For requests to one
  key under one limit name, every window of its length holds at most its maximum of accepted
  requests.
\<close>

lemma auth_window_bound:
  assumes "map_of AUTH_LIMITS limit_name = Some (maxi, window)" "sorted rs"
    and "dict_get key [] ac = []"
  shows "in_window (sec window) t (admitted (auth_step key limit_name) (\<lambda>now. now) ac rs) \<le> maxi"
proof -
  have "0 < maxi"
    using assms(1) by (auto simp: AUTH_LIMITS_def split: if_splits)
  then show ?thesis
    using auth.window_bound [of limit_name maxi window rs key ac t] assms by simp
qed

lemma auth_window_bound_witness:
  "in_window (sec 3600) (sec 9)
     (admitted (auth_step ''ip:h'' ''register'') (\<lambda>now. now) [] [sec 1, sec 2, sec 3, sec 9]) \<le> 3"
  using auth_window_bound [of "''register''" 3 3600 "[sec 1, sec 2, sec 3, sec 9]" "''ip:h''" "[]" "sec 9"]
  by (simp add: AUTH_LIMITS_def sec_def dict_get_def)

text \<open>
  The limits of one address interfere.  Login and registration share the key of the
  address; a login prunes it to its own minute, so after it a fourth registration within the
  hour is accepted, while three logins alone already exhaust the registrations.
\<close>

lemma auth_limits_interfere:
  "let reg = (\<lambda>t ac. enforce_rate_limit t ac ''ip:h'' ''register'');
       login = (\<lambda>t ac. enforce_rate_limit t ac ''ip:h'' ''login'');
       three = snd (reg (sec 3) (snd (reg (sec 2) (snd (reg (sec 1) [])))))
   in fst (reg (sec 70) three) = Inl (AppError 429 ''RATE_LIMIT_EXCEEDED'' ''errors.rate_limit_exceeded'')
    \<and> fst (reg (sec 70) (snd (login (sec 69) three))) = Inr ()
    \<and> fst (reg (sec 70) (snd (login (sec 3) (snd (login (sec 2) (snd (login (sec 1) []))))))) =
        Inl (AppError 429 ''RATE_LIMIT_EXCEEDED'' ''errors.rate_limit_exceeded'')"
  by (simp add: enforce_rate_limit_def auth_check_def auth_record_def prune_auth_def AUTH_LIMITS_def
      dict_get_def sec_def Let_def)

end
