(* ===== verification/Http.thy ===== *)
theory Http
  imports Models
begin

text \<open>
  Requests and responses, and the parts of \<open>app/security\<close>, \<open>app/middleware\<close> and
  \<open>app/api/errors.py\<close> that only read one and write the other: session cookie names, the CSRF
  check, trusted proxies, request identifiers, security headers, the administrator guard and
  the error handlers.
\<close>

section \<open>Requests and responses\<close>

text \<open>
  \<open>st_role\<close>, \<open>st_user_id\<close>, \<open>st_session_id\<close> are the attributes of \<open>request.state\<close>, \<open>None\<close> while
  unset (a \<open>user_id\<close> set to \<open>None\<close> reads the same).  Header names are in lower case.
\<close>

record req_state =
  st_role :: "string option"
  st_user_id :: "string option"
  st_session_id :: "string option"
  st_token_hash :: "string option"
  st_request_id :: "string option"

definition no_state :: req_state where
  "no_state = \<lparr>st_role = None, st_user_id = None, st_session_id = None, st_token_hash = None, st_request_id = None\<rparr>"

record request =
  rq_type :: string
  rq_method :: string
  rq_path :: string
  rq_scheme :: string
  rq_client :: "(string \<times> int) option"
  rq_headers :: "(string \<times> string) list"
  rq_cookies :: "(string \<times> string) list"
  rq_state :: req_state

record cookie =
  ck_name :: string
  ck_value :: string
  ck_httponly :: bool
  ck_secure :: bool
  ck_path :: string
  ck_max_age :: "int option"

text \<open>\<open>rs_error\<close> is the \<open>code\<close> and \<open>message_key\<close> of an error body.\<close>

record response =
  rs_status :: int
  rs_headers :: "(string \<times> string) list"
  rs_cookies :: "cookie list"
  rs_error :: "(string \<times> string) option"

definition header :: "string \<Rightarrow> request \<Rightarrow> string option" where
  "header name r = map_of (rq_headers r) name"

definition set_headers :: "(string \<times> string) list \<Rightarrow> response \<Rightarrow> response" where
  "set_headers hs r = r\<lparr>rs_headers := fold (\<lambda>(k, v). dict_set k v) hs (rs_headers r)\<rparr>"

text \<open>Python truth of an optional string: present and not empty.\<close>

fun truthy :: "string option \<Rightarrow> bool" where
  "truthy None = False"
| "truthy (Some s) = (s \<noteq> [])"

definition client_host :: "request \<Rightarrow> string" where
  "client_host r = (case rq_client r of Some (h, _) \<Rightarrow> h | None \<Rightarrow> ''unknown'')"

section \<open>Session cookies\<close>

definition SESSION_COOKIE_NAMES :: "string list" where
  "SESSION_COOKIE_NAMES = [''__Host-sakn_session'', ''sakn_session'']"

definition session_cookie_name :: "bool \<Rightarrow> string" where
  "session_cookie_name secure = (if secure then ''__Host-sakn_session'' else ''sakn_session'')"

definition get_session_token :: "request \<Rightarrow> string option" where
  "get_session_token r =
     (case filter truthy (map (map_of (rq_cookies r)) SESSION_COOKIE_NAMES) of
        [] \<Rightarrow> None
      | t # _ \<Rightarrow> t)"

section \<open>CSRF\<close>

definition CSRF_COOKIE :: string where "CSRF_COOKIE = ''sakn_csrf''"
definition CSRF_HEADER :: string where "CSRF_HEADER = ''x-csrf-token''"
definition SAFE_METHODS :: "string list" where "SAFE_METHODS = [''GET'', ''HEAD'', ''OPTIONS'', ''TRACE'']"

definition set_csrf_cookie :: "string \<Rightarrow> bool \<Rightarrow> response \<Rightarrow> response" where
  "set_csrf_cookie token secure r =
     r\<lparr>rs_cookies := rs_cookies r @ [\<lparr>ck_name = CSRF_COOKIE, ck_value = token, ck_httponly = False,
         ck_secure = secure, ck_path = ''/'', ck_max_age = None\<rparr>]\<rparr>"

definition set_session_cookie :: "string \<Rightarrow> bool \<Rightarrow> response \<Rightarrow> response" where
  "set_session_cookie token secure r =
     r\<lparr>rs_cookies := rs_cookies r @ [\<lparr>ck_name = session_cookie_name secure, ck_value = token, ck_httponly = True,
         ck_secure = secure, ck_path = ''/'', ck_max_age = Some 86400\<rparr>]\<rparr>"

text \<open>\<open>delete_cookie\<close>: an empty value that has expired, without the flags of the cookie it is to delete.\<close>

definition delete_session_cookie :: "bool \<Rightarrow> response \<Rightarrow> response" where
  "delete_session_cookie secure r =
     r\<lparr>rs_cookies := rs_cookies r @ [\<lparr>ck_name = session_cookie_name secure, ck_value = [], ck_httponly = False,
         ck_secure = False, ck_path = ''/'', ck_max_age = Some 0\<rparr>]\<rparr>"

definition validate_csrf :: "request \<Rightarrow> bool" where
  "validate_csrf r =
     (let cookie_token = map_of (rq_cookies r) CSRF_COOKIE;
          header_token = header CSRF_HEADER r
      in if \<not> truthy cookie_token \<or> \<not> truthy header_token then False
         else cookie_token = header_token)"

definition csrf_required :: "request \<Rightarrow> exn + unit" where
  "csrf_required r =
     (if rq_method r \<in> set SAFE_METHODS then Inr ()
      else if \<not> validate_csrf r then Inl (AppError 403 ''CSRF_MISMATCH'' ''errors.csrf_mismatch'')
      else Inr ())"

section \<open>The administrator guard\<close>

definition require_admin :: "request \<Rightarrow> exn + unit" where
  "require_admin r =
     (let role = (case st_role (rq_state r) of Some role \<Rightarrow> role | None \<Rightarrow> ROLE_VISITOR)
      in if role \<noteq> ROLE_ADMINISTRATOR then Inl (HTTPException 403) else Inr ())"

section \<open>Trusted proxies\<close>

text \<open>The loop over the headers keeps the last value of each name.\<close>

definition last_header :: "string \<Rightarrow> request \<Rightarrow> string" where
  "last_header name r = fold (\<lambda>(k, v) acc. if k = name then v else acc) (rq_headers r) []"

definition xff_hops :: "string \<Rightarrow> string list" where
  "xff_hops raw = filter (\<lambda>h. h \<noteq> []) (map py_strip (py_split CHR '','' raw))"

definition ascii_only :: "string \<Rightarrow> string" where
  "ascii_only s = filter (\<lambda>c. of_char c < (128 :: nat)) s"

definition proxy_scheme :: "request \<Rightarrow> string" where
  "proxy_scheme r =
     (let proto_raw = last_header ''x-forwarded-proto'' r;
          proto = py_lower (py_strip (last (py_split CHR '','' (ascii_only proto_raw))))
      in if proto_raw \<noteq> [] \<and> (proto = ''http'' \<or> proto = ''https'') then
           (if rq_type r = ''websocket'' then (if proto = ''https'' then ''wss'' else ''ws'') else proto)
         else rq_scheme r)"

definition proxy_client :: "int \<Rightarrow> request \<Rightarrow> (string \<times> int) option" where
  "proxy_client trusted_hops r =
     (let xff_raw = last_header ''x-forwarded-for'' r;
          hops = xff_hops xff_raw
      in if xff_raw \<noteq> [] \<and> trusted_hops \<le> int (length hops)
         then Some (hops ! (length hops - nat trusted_hops),
                    case rq_client r of Some (_, port) \<Rightarrow> port | None \<Rightarrow> 0)
         else rq_client r)"

definition trusted_proxy :: "int \<Rightarrow> request \<Rightarrow> request" where
  "trusted_proxy hops_setting r =
     (let trusted_hops = max 0 hops_setting
      in if rq_type r \<in> set [''http'', ''websocket''] \<and> trusted_hops > 0
         then r\<lparr>rq_scheme := proxy_scheme r, rq_client := proxy_client trusted_hops r\<rparr>
         else r)"

section \<open>Request identifiers and security headers\<close>

text \<open>\<open>new_id\<close> is the fresh \<open>uuid7\<close>; \<open>k\<close> is the rest of the application.\<close>

definition request_id_dispatch :: "string \<Rightarrow> (request \<Rightarrow> response \<times> 'w) \<Rightarrow> request \<Rightarrow> response \<times> 'w" where
  "request_id_dispatch new_id k r =
     (let request_id = (case header ''x-request-id'' r of Some i \<Rightarrow> i | None \<Rightarrow> new_id)
      in case k (r\<lparr>rq_state := (rq_state r)\<lparr>st_request_id := Some request_id\<rparr>\<rparr>) of
           (resp, w) \<Rightarrow> (set_headers [(''x-request-id'', request_id)] resp, w))"

text \<open>
  What \<open>app/logs/logger.py\<close> adds to an event: the identifiers of the request and of the user, as
  the two context variables hold them.
\<close>

definition add_request_context :: "string \<Rightarrow> string option \<Rightarrow> (string \<times> string) list \<Rightarrow> (string \<times> string) list" where
  "add_request_context rid uid event_dict =
     (let with_rid = (if rid \<noteq> [] then dict_set ''request_id'' rid event_dict else event_dict)
      in if truthy uid then dict_set ''user_id'' (the uid) with_rid else with_rid)"

definition EXEMPT_PATHS :: "string list" where
  "EXEMPT_PATHS = [''/docs'', ''/redoc'', ''/openapi.json'']"

definition CSP_HEADER :: string where
  "CSP_HEADER = ''default-src 'self'; script-src 'self'; style-src-elem 'self'; ''
     @ ''style-src-attr 'unsafe-inline'; img-src 'self' data:; ''
     @ ''connect-src 'self' ws: wss:; form-action 'self'; ''
     @ ''object-src 'none'; base-uri 'self'; frame-ancestors 'none'' @ [CHR 0x27]"

definition security_headers :: "string \<Rightarrow> (string \<times> string) list" where
  "security_headers environment =
     [(''content-security-policy'', CSP_HEADER),
      (''x-content-type-options'', ''nosniff''),
      (''x-frame-options'', ''DENY''),
      (''referrer-policy'', ''strict-origin-when-cross-origin''),
      (''permissions-policy'', ''camera=(), microphone=(), geolocation=()''),
      (''cross-origin-opener-policy'', ''same-origin''),
      (''cross-origin-embedder-policy'', ''unsafe-none'')]
     @ (if environment = ''production''
        then [(''strict-transport-security'', ''max-age=63072000; includeSubDomains'')] else [])"

definition security_headers_dispatch :: "string \<Rightarrow> (request \<Rightarrow> response \<times> 'w) \<Rightarrow> request \<Rightarrow> response \<times> 'w" where
  "security_headers_dispatch environment k r =
     (case k r of (resp, w) \<Rightarrow>
        (if rq_path r \<in> set EXEMPT_PATHS then resp else set_headers (security_headers environment) resp, w))"

section \<open>Error handlers\<close>

text \<open>What FastAPI answers to an exception of an endpoint; anything unhandled is a bare 500.\<close>

fun error_response :: "exn \<Rightarrow> response" where
  "error_response (AppError status code key) =
     \<lparr>rs_status = status, rs_headers = [], rs_cookies = [], rs_error = Some (code, key)\<rparr>"
| "error_response (HTTPException status) =
     \<lparr>rs_status = status, rs_headers = [], rs_cookies = [], rs_error = None\<rparr>"
| "error_response MultipleResultsFound = \<lparr>rs_status = 500, rs_headers = [], rs_cookies = [], rs_error = None\<rparr>"
| "error_response IntegrityError = \<lparr>rs_status = 500, rs_headers = [], rs_cookies = [], rs_error = None\<rparr>"
| "error_response (PyError _) = \<lparr>rs_status = 500, rs_headers = [], rs_cookies = [], rs_error = None\<rparr>"

definition PYDANTIC_ERROR_MESSAGE_KEYS :: "(string \<times> string) list" where
  "PYDANTIC_ERROR_MESSAGE_KEYS =
     [(''missing'', ''errors.field_required''), (''string_type'', ''errors.invalid_type''),
      (''int_type'', ''errors.invalid_type''), (''float_type'', ''errors.invalid_type''),
      (''bool_type'', ''errors.invalid_type''), (''list_type'', ''errors.invalid_type''),
      (''dict_type'', ''errors.invalid_type''), (''string_too_short'', ''errors.too_short''),
      (''string_too_long'', ''errors.too_long''), (''value_error'', ''errors.invalid_value'')]"

definition PYDANTIC_ERROR_MESSAGES :: "(string \<times> string) list" where
  "PYDANTIC_ERROR_MESSAGES =
     [(''missing'', ''This field is required.''), (''string_type'', ''Invalid type.''),
      (''int_type'', ''Invalid type.''), (''float_type'', ''Invalid type.''),
      (''bool_type'', ''Invalid type.''), (''list_type'', ''Invalid type.''),
      (''dict_type'', ''Invalid type.''), (''string_too_short'', ''Too short.''),
      (''string_too_long'', ''Too long.''), (''value_error'', ''Invalid value.'')]"

text \<open>One entry of pydantic's error list: its location path, type and message.\<close>

record field_error =
  fe_loc :: "string list"
  fe_type :: "string option"
  fe_msg :: "string option"

definition or_default :: "'a option \<Rightarrow> 'a \<Rightarrow> 'a" where
  "or_default v d = (case v of Some x \<Rightarrow> x | None \<Rightarrow> d)"

definition field_entry :: "field_error \<Rightarrow> string \<times> string" where
  "field_entry err =
     (let error_type = or_default (fe_type err) ''value_error''
      in (dict_get error_type ''errors.invalid_value'' PYDANTIC_ERROR_MESSAGE_KEYS,
          dict_get error_type (or_default (fe_msg err) ''Invalid value.'') PYDANTIC_ERROR_MESSAGES))"

definition field_step ::
    "field_error \<Rightarrow> (string \<times> (string \<times> string)) list \<Rightarrow> (string \<times> (string \<times> string)) list" where
  "field_step err seen =
     (case fe_loc err of
        kind # field_name # _ \<Rightarrow>
          if kind \<noteq> ''body'' \<or> map_of seen field_name \<noteq> None then seen
          else dict_set field_name (field_entry err) seen
      | _ \<Rightarrow> seen)"

definition build_field_errors :: "field_error list \<Rightarrow> (string \<times> (string \<times> string)) list" where
  "build_field_errors errors = fold field_step errors []"

section \<open>Lemmas\<close>

lemma map_of_fold_dict_set:
  "map_of (fold (\<lambda>(k, v). dict_set k v) hs d) = map_of d ++ map_of (rev hs)"
proof (induction hs arbitrary: d)
  case (Cons h hs)
  then show ?case
    by (cases h) (auto simp: map_of_dict_set fun_eq_iff map_add_def split: option.splits)
qed simp

lemma map_of_set_headers:
  "map_of (rs_headers (set_headers hs r)) = map_of (rs_headers r) ++ map_of (rev hs)"
  by (simp add: set_headers_def map_of_fold_dict_set)

lemma set_headers_same [simp]:
  "rs_status (set_headers hs r) = rs_status r" "rs_cookies (set_headers hs r) = rs_cookies r"
  "rs_error (set_headers hs r) = rs_error r"
  by (simp_all add: set_headers_def)

lemma last_header_snoc:
  "rq_headers r' = rq_headers r @ [(name, v)] \<Longrightarrow> last_header name r' = v"
  by (simp add: last_header_def)

text \<open>A name a proxy appends: no comma, no surrounding space, not empty.\<close>

definition plain_hop :: "string \<Rightarrow> bool" where
  "plain_hop h \<longleftrightarrow> h \<noteq> [] \<and> CHR '','' \<notin> set h \<and> py_strip h = h"

lemma py_strip_space: "py_strip (CHR '' '' # h) = py_strip h"
  by (simp add: py_strip_def py_lstrip_def py_isspace_def)

lemma xff_hops_append: "xff_hops (p @ CHR '','' # q) = xff_hops p @ xff_hops q"
  by (simp add: xff_hops_def py_split_append_sep)

lemma xff_hops_space: "xff_hops (CHR '' '' # q) = xff_hops q"
proof -
  obtain x xs where "py_split CHR '','' q = x # xs"
    using py_split_nonempty by (cases "py_split CHR '','' q") auto
  then show ?thesis
    by (simp add: xff_hops_def py_strip_space)
qed

lemma xff_hops_join:
  "hs \<noteq> [] \<Longrightarrow> list_all plain_hop hs \<Longrightarrow> xff_hops (py_join '', '' hs) = hs"
proof (induction hs)
  case (Cons h hs)
  then have h: "xff_hops h = [h]"
    by (simp add: plain_hop_def xff_hops_def py_split_no_sep)
  show ?case
  proof (cases hs)
    case (Cons h' hs')
    with Cons.IH Cons.prems h show ?thesis
      by (simp add: xff_hops_append xff_hops_space)
  qed (simp add: h)
qed simp

lemma field_step_lookup:
  "map_of (field_step e seen) field =
     (case map_of seen field of Some v \<Rightarrow> Some v | None \<Rightarrow>
        if take 2 (fe_loc e) = [''body'', field] then Some (field_entry e) else None)"
  by (auto simp: field_step_def map_of_dict_set split: list.split option.split)

lemma field_fold_lookup:
  "map_of (fold field_step errors seen) field =
     (case map_of seen field of Some v \<Rightarrow> Some v | None \<Rightarrow>
        map_option field_entry (find (\<lambda>e. take 2 (fe_loc e) = [''body'', field]) errors))"
  by (induction errors arbitrary: seen) (auto simp: field_step_lookup split: option.split)

section \<open>Properties\<close>

text \<open>
  C11: the trusted-proxy policy cannot be spoofed.  When the last \<open>X-Forwarded-For\<close> value ends
  in the entries of the \<open>n\<close> trusted proxies, the client address is the entry of the outermost
  of them, whatever the client wrote to their left and whatever earlier headers of that name
  it sent.
\<close>

theorem trusted_proxy_unspoofable:
  assumes "hs \<noteq> []" "list_all plain_hop hs" "rq_type r = ''http'' \<or> rq_type r = ''websocket''"
    and "rq_headers r = before @ (''x-forwarded-for'', forged @ '','' @ py_join '', '' hs) # after"
    and "list_all (\<lambda>h. fst h \<noteq> ''x-forwarded-for'') after"
  shows "client_host (trusted_proxy (int (length hs)) r) = hd hs"
proof -
  have skip: "fold (\<lambda>(k, v) acc. if k = n then v else acc) hs' a = a" if "list_all (\<lambda>h. fst h \<noteq> n) hs'"
    for hs' n and a :: string
    using that by (induction hs') auto
  have raw: "last_header ''x-forwarded-for'' r = forged @ CHR '','' # py_join '', '' hs"
    using assms(4,5) skip by (simp add: last_header_def)
  have hops: "xff_hops (forged @ CHR '','' # py_join '', '' hs) = xff_hops forged @ hs"
    using assms(1,2) by (simp add: xff_hops_append xff_hops_join)
  have "(xff_hops forged @ hs) ! length (xff_hops forged) = hd hs"
    using assms(1) by (simp add: nth_append hd_conv_nth)
  then show ?thesis
    using assms(1,3) by (auto simp: trusted_proxy_def proxy_client_def client_host_def raw hops Let_def max_def)
qed

theorem trusted_proxy_unspoofable_witness:
  "client_host (trusted_proxy 2 \<lparr>rq_type = ''http'', rq_method = ''GET'', rq_path = ''/'', rq_scheme = ''http'',
      rq_client = Some (''172.18.0.2'', 99),
      rq_headers = [(''x-forwarded-for'', ''127.0.0.1,8.8.8.8, 10.0.0.1'')], rq_cookies = [], rq_state = no_state\<rparr>)
   = ''8.8.8.8''"
  using trusted_proxy_unspoofable [of "[''8.8.8.8'', ''10.0.0.1'']" "\<lparr>rq_type = ''http'', rq_method = ''GET'',
      rq_path = ''/'', rq_scheme = ''http'', rq_client = Some (''172.18.0.2'', 99),
      rq_headers = [(''x-forwarded-for'', ''127.0.0.1,8.8.8.8, 10.0.0.1'')], rq_cookies = [], rq_state = no_state\<rparr>"
      "[]" "''127.0.0.1''" "[]"]
  by (simp add: plain_hop_def py_strip_def py_rstrip_def py_lstrip_def py_isspace_def)

text \<open>Only the request is ever added: nothing sets the variable of the user, which starts as \<open>None\<close>.\<close>

lemma context_adds_request_only:
  "map_of (add_request_context rid None event_dict) =
     (if rid = [] then map_of event_dict else (map_of event_dict)(''request_id'' \<mapsto> rid))"
  by (simp add: add_request_context_def map_of_dict_set)

text \<open>
  A rejected body reports each field once, with its first error.  The entry of a field is
  made from the first error located at that body field, and a field without one has no entry.
\<close>

lemma field_errors_first:
  "map_of (build_field_errors errors) field =
     map_option field_entry (find (\<lambda>e. take 2 (fe_loc e) = [''body'', field]) errors)"
  by (simp add: build_field_errors_def field_fold_lookup)

end
