(* ===== verification/Sessions.thy ===== *)
theory Sessions
  imports Http "HOL-Library.List_Lexorder" "HOL-Library.Char_ord"
begin

text \<open>
  \<open>app/redis/session_store.py\<close>, \<open>app/services/session_service.py\<close>, the lookups of
  \<open>app/middleware/session.py\<close> and the clean-up services: sessions live in a database table and
  in a Redis cache, one hash per token and one set of token hashes per user.
\<close>

section \<open>The Redis cache\<close>

record redis_hash =
  rh_fields :: "(string \<times> string) list"
  rh_expire :: "tstamp option"

record sess_redis =
  sr_hashes :: "string \<rightharpoonup> redis_hash"
  sr_sets :: "string \<Rightarrow> string list"

text \<open>
  What a request finds outside the program: whether Redis answers and the database was found
  at startup, the clock, the ISO rendering of a time, the keyed token hash, and the fresh
  values it draws, by purpose.
\<close>

record env =
  e_redis_up :: bool
  e_db_up :: bool
  e_now :: tstamp
  e_iso :: "tstamp \<Rightarrow> string"
  e_hash :: "string \<Rightarrow> string"
  e_fresh :: "string \<Rightarrow> string"

definition MAX_CONCURRENT_SESSIONS :: int where "MAX_CONCURRENT_SESSIONS = 10"

definition int_setting :: "string \<Rightarrow> int \<Rightarrow> db \<Rightarrow> int" where
  "int_setting key dflt d =
     (case scalar_one_or_none (filter (\<lambda>s. gs_key s = key) (db_settings d)) of
        Inr (Some row) \<Rightarrow> (case py_int (gs_value row) of Some n \<Rightarrow> n | None \<Rightarrow> dflt)
      | _ \<Rightarrow> dflt)"

definition get_max_sessions :: "db \<Rightarrow> int" where
  "get_max_sessions d = int_setting ''max_concurrent_sessions'' MAX_CONCURRENT_SESSIONS d"

definition session_key :: "string \<Rightarrow> string" where
  "session_key token_hash = ''session:'' @ token_hash"

definition user_sessions_key :: "string \<Rightarrow> string" where
  "user_sessions_key user_id = ''user_sessions:'' @ user_id"

definition hgetall :: "tstamp \<Rightarrow> sess_redis \<Rightarrow> string \<Rightarrow> (string \<times> string) list" where
  "hgetall now r key =
     (case sr_hashes r key of
        None \<Rightarrow> []
      | Some h \<Rightarrow> (case rh_expire h of
          None \<Rightarrow> rh_fields h
        | Some t \<Rightarrow> if t \<le> now then [] else rh_fields h))"

text \<open>\<open>HSET\<close> of several fields followed by \<open>EXPIRE\<close>.\<close>

definition hset_expire ::
    "tstamp \<Rightarrow> sess_redis \<Rightarrow> string \<Rightarrow> (string \<times> string) list \<Rightarrow> int \<Rightarrow> sess_redis" where
  "hset_expire now r key data ttl =
     r\<lparr>sr_hashes := (sr_hashes r)(key \<mapsto>
        \<lparr>rh_fields = fold (\<lambda>(k, v). dict_set k v) data (hgetall now r key),
         rh_expire = Some (now + sec ttl)\<rparr>)\<rparr>"

definition redis_create_session ::
    "env \<Rightarrow> sess_redis \<Rightarrow> string \<Rightarrow> (string \<times> string) list \<Rightarrow> int \<Rightarrow> sess_redis" where
  "redis_create_session e r token_hash data ttl =
     (if \<not> e_redis_up e then r
      else (let r1 = hset_expire (e_now e) r (session_key token_hash) data ttl;
                user_id = dict_get ''user_id'' [] data
            in if user_id \<noteq> []
               then r1\<lparr>sr_sets := (sr_sets r1)(user_sessions_key user_id :=
                      List.insert token_hash (sr_sets r1 (user_sessions_key user_id)))\<rparr>
               else r1))"

definition redis_get_session :: "env \<Rightarrow> sess_redis \<Rightarrow> string \<Rightarrow> (string \<times> string) list option" where
  "redis_get_session e r token_hash =
     (if \<not> e_redis_up e then None
      else (let data = hgetall (e_now e) r (session_key token_hash)
            in if data = [] then None else Some data))"

definition redis_delete_session :: "env \<Rightarrow> sess_redis \<Rightarrow> string \<Rightarrow> sess_redis" where
  "redis_delete_session e r token_hash =
     (if \<not> e_redis_up e then r
      else (let data = hgetall (e_now e) r (session_key token_hash);
                user_id = dict_get ''user_id'' [] data;
                r1 = (if user_id \<noteq> []
                      then r\<lparr>sr_sets := (sr_sets r)(user_sessions_key user_id :=
                             removeAll token_hash (sr_sets r (user_sessions_key user_id)))\<rparr>
                      else r)
            in r1\<lparr>sr_hashes := (sr_hashes r1)(session_key token_hash := None)\<rparr>))"

definition count_user_sessions :: "env \<Rightarrow> sess_redis \<Rightarrow> string \<Rightarrow> int" where
  "count_user_sessions e r user_id =
     (if \<not> e_redis_up e then 0 else int (length (sr_sets r (user_sessions_key user_id))))"

definition update_activity :: "env \<Rightarrow> sess_redis \<Rightarrow> string \<Rightarrow> int \<Rightarrow> sess_redis" where
  "update_activity e r token_hash ttl =
     (if \<not> e_redis_up e then r
      else hset_expire (e_now e) r (session_key token_hash)
             [(''last_activity_at'', e_iso e (e_now e))] ttl)"

text \<open>The creation time a cached session shows; a hash that has expired shows none and sorts first.\<close>

definition created_of :: "env \<Rightarrow> sess_redis \<Rightarrow> string \<Rightarrow> string" where
  "created_of e r th = dict_get ''created_at'' [] (hgetall (e_now e) r (session_key th))"

definition enforce_concurrent_limit ::
    "env \<Rightarrow> sess_redis \<Rightarrow> string \<Rightarrow> int \<Rightarrow> string list option \<times> sess_redis" where
  "enforce_concurrent_limit e r user_id max_sessions =
     (if \<not> e_redis_up e then (None, r)
      else (let token_hashes = sr_sets r (user_sessions_key user_id)
            in if int (length token_hashes) \<le> max_sessions then (None, r)
               else (let to_revoke = take (nat (int (length token_hashes) - max_sessions))
                           (sort_key (created_of e r) token_hashes)
                     in (Some to_revoke, fold (\<lambda>th r. redis_delete_session e r th) to_revoke r))))"

section \<open>The session service\<close>

definition SESSION_DURATION_HOURS :: int where "SESSION_DURATION_HOURS = 24"

definition get_session_duration :: "db \<Rightarrow> int" where
  "get_session_duration d = int_setting ''session_duration_hours'' SESSION_DURATION_HOURS d"

text \<open>\<open>db.add\<close> and \<open>flush\<close> of a session: primary key, unique hash and owner are checked.\<close>

definition insert_session :: "session_row \<Rightarrow> db \<Rightarrow> exn + db" where
  "insert_session s d =
     (if s_id s \<in> set (map s_id (db_sessions d)) \<or> s_token_hash s \<in> set (map s_token_hash (db_sessions d))
         \<or> (s_user_id s \<noteq> None \<and> s_user_id s \<notin> set (map (Some \<circ> u_id) (db_users d)))
      then Inl IntegrityError else Inr (d\<lparr>db_sessions := db_sessions d @ [s]\<rparr>))"

definition session_create ::
    "env \<Rightarrow> db \<times> sess_redis \<Rightarrow> string option \<Rightarrow> string \<Rightarrow> string option \<Rightarrow>
     (exn + string \<times> session_row) \<times> db \<times> sess_redis" where
  "session_create e w user_id ip_address user_agent =
     (case w of (d, r) \<Rightarrow>
       (let token = e_fresh e ''session_token'';
            token_hash = e_hash e token;
            now = e_now e;
            duration_hours = get_session_duration d;
            expires_at = now + sec (duration_hours * 3600);
            r1 = (case user_id of
                    Some u \<Rightarrow> if u = [] then r else snd (enforce_concurrent_limit e r u (get_max_sessions d))
                  | None \<Rightarrow> r);
            session = \<lparr>s_id = e_fresh e ''session_id'', s_user_id = user_id, s_token_hash = token_hash,
                       s_ip_address = ip_address, s_user_agent = user_agent, s_expires_at = expires_at,
                       s_last_activity_at = now, s_created_at = now\<rparr>
        in case insert_session session d of
             Inl x \<Rightarrow> (Inl x, d, r1)
           | Inr d1 \<Rightarrow>
               (Inr (token, session), d1,
                redis_create_session e r1 token_hash
                  [(''session_id'', s_id session),
                   (''user_id'', or_default user_id []),
                   (''ip_address'', ip_address),
                   (''user_agent'', or_default user_agent []),
                   (''created_at'', e_iso e now),
                   (''last_activity_at'', e_iso e now),
                   (''expires_at'', e_iso e expires_at)]
                  (duration_hours * 3600))))"

definition session_by_hash :: "db \<Rightarrow> string \<Rightarrow> exn + session_row option" where
  "session_by_hash d token_hash =
     scalar_one_or_none (filter (\<lambda>s. s_token_hash s = token_hash) (db_sessions d))"

definition unexpired :: "tstamp \<Rightarrow> session_row option \<Rightarrow> session_row option" where
  "unexpired now s = (case s of Some x \<Rightarrow> if s_expires_at x > now then Some x else None | None \<Rightarrow> None)"

definition lookup_session :: "env \<Rightarrow> db \<times> sess_redis \<Rightarrow> string \<Rightarrow> exn + session_row option" where
  "lookup_session e w token_hash =
     (case w of (d, r) \<Rightarrow>
       (case redis_get_session e r token_hash of
          Some redis_data \<Rightarrow>
            (case session_by_hash d token_hash of
               Inl x \<Rightarrow> Inl x
             | Inr s \<Rightarrow> Inr (unexpired (e_now e) s))
        | None \<Rightarrow>
            (case session_by_hash d token_hash of
               Inl x \<Rightarrow> Inl x
             | Inr s \<Rightarrow> Inr (unexpired (e_now e) s))))"

definition session_get :: "env \<Rightarrow> db \<times> sess_redis \<Rightarrow> string \<Rightarrow> exn + session_row option" where
  "session_get e w session_token = lookup_session e w (e_hash e session_token)"

definition session_touch :: "env \<Rightarrow> sess_redis \<Rightarrow> string \<Rightarrow> sess_redis" where
  "session_touch e r token_hash = update_activity e r token_hash (SESSION_DURATION_HOURS * 3600)"

definition session_revoke :: "env \<Rightarrow> db \<times> sess_redis \<Rightarrow> string \<Rightarrow> (exn + string option) \<times> db \<times> sess_redis" where
  "session_revoke e w session_id =
     (case w of (d, r) \<Rightarrow>
       (case scalar_one_or_none (filter (\<lambda>s. s_id s = session_id) (db_sessions d)) of
          Inl x \<Rightarrow> (Inl x, d, r)
        | Inr None \<Rightarrow> (Inr None, d, r)
        | Inr (Some session) \<Rightarrow>
            (let token_hash = s_token_hash session;
                 d1 = (if s_user_id session = None
                       then d\<lparr>db_preferences := filter (\<lambda>p. \<not> (up_session_id p = Some session_id \<and> up_user_id p = None))
                                (db_preferences d)\<rparr>
                       else d);
                 d2 = delete_sessions (\<lambda>s. s_id s = session_id) d1
             in (Inr (Some token_hash), d2, redis_delete_session e r token_hash))))"

record session_view =
  sv_id :: string
  sv_ip_address :: string
  sv_user_agent :: "string option"
  sv_created_at :: tstamp
  sv_last_activity_at :: tstamp
  sv_current :: bool

text \<open>\<open>ORDER BY last_activity_at DESC\<close> of the owner's unexpired sessions.\<close>

definition list_for_user :: "tstamp \<Rightarrow> db \<Rightarrow> string \<Rightarrow> string option \<Rightarrow> session_view list" where
  "list_for_user now d user_id current_token_hash =
     map (\<lambda>s. \<lparr>sv_id = s_id s, sv_ip_address = s_ip_address s, sv_user_agent = s_user_agent s,
               sv_created_at = s_created_at s, sv_last_activity_at = s_last_activity_at s,
               sv_current = (truthy current_token_hash \<and> Some (s_token_hash s) = current_token_hash)\<rparr>)
       (sort_key (\<lambda>s. - s_last_activity_at s)
          (filter (\<lambda>s. s_user_id s = Some user_id \<and> s_expires_at s > now) (db_sessions d)))"

definition revoke_all_for_user ::
    "env \<Rightarrow> db \<times> sess_redis \<Rightarrow> string \<Rightarrow> string option \<Rightarrow> int \<times> db \<times> sess_redis" where
  "revoke_all_for_user e w user_id except_token_hash =
     (case w of (d, r) \<Rightarrow>
       (let goes = (\<lambda>s. s_user_id s = Some user_id \<and>
                      \<not> (truthy except_token_hash \<and> Some (s_token_hash s) = except_token_hash));
            gone = filter goes (db_sessions d)
        in (int (length gone), delete_sessions goes d,
            fold (\<lambda>s r. redis_delete_session e r (s_token_hash s)) gone r)))"

section \<open>Lookups of the session middleware\<close>

definition resolve_role :: "env \<Rightarrow> db \<Rightarrow> string option \<Rightarrow> string" where
  "resolve_role e d user_id =
     (if \<not> truthy user_id then ROLE_VISITOR
      else if \<not> e_db_up e then ROLE_AUTHENTICATED
      else (case scalar_one_or_none (map u_role (filter (\<lambda>u. Some (u_id u) = user_id) (db_users d))) of
              Inr (Some role) \<Rightarrow> if role \<noteq> [] then role else ROLE_AUTHENTICATED
            | _ \<Rightarrow> ROLE_AUTHENTICATED))"

definition resolve_session ::
    "env \<Rightarrow> db \<times> sess_redis \<Rightarrow> string \<Rightarrow> (string \<times> string option) option \<times> sess_redis" where
  "resolve_session e w token_hash =
     (case w of (d, r) \<Rightarrow>
       (case redis_get_session e r token_hash of
          Some redis_data \<Rightarrow>
            (Some (dict_get ''session_id'' token_hash redis_data,
                   if truthy (map_of redis_data ''user_id'') then map_of redis_data ''user_id'' else None),
             update_activity e r token_hash 86400)
        | None \<Rightarrow>
            (if \<not> e_db_up e then (None, r)
             else (case session_by_hash d token_hash of
                     Inr (Some s) \<Rightarrow> (Some (s_id s, s_user_id s), r)
                   | _ \<Rightarrow> (None, r)))))"

definition create_anonymous_session ::
    "env \<Rightarrow> db \<times> sess_redis \<Rightarrow> request \<Rightarrow> (string \<times> string) option \<times> db \<times> sess_redis" where
  "create_anonymous_session e w r =
     (if \<not> e_db_up e then (None, w)
      else (case session_create e w None (client_host r) (header ''user-agent'' r) of
              (Inl _, _, redis) \<Rightarrow> (None, fst w, redis)
            | (Inr (token, session), w') \<Rightarrow> (Some (token, s_id session), w')))"

section \<open>Clean-up jobs\<close>

text \<open>The three scheduled deletions; each gives the number of rows deleted.\<close>

definition cleanup_unverified_accounts :: "tstamp \<Rightarrow> int \<Rightarrow> db \<Rightarrow> exn + int \<times> db" where
  "cleanup_unverified_accounts now retention_days d =
     (let p = (\<lambda>u. u_email_verified_at u = None \<and> u_created_at u < now - sec (retention_days * 86400))
      in case delete_users p d of
           Inl x \<Rightarrow> Inl x
         | Inr d' \<Rightarrow> Inr (int (length (filter p (db_users d))), d'))"

definition cleanup_expired_anonymous_sessions :: "tstamp \<Rightarrow> db \<Rightarrow> int \<times> db" where
  "cleanup_expired_anonymous_sessions now d =
     (let p = (\<lambda>s. s_user_id s = None \<and> s_expires_at s < now)
      in (int (length (filter p (db_sessions d))), delete_sessions p d))"

definition orphan_preference :: "user_preference \<Rightarrow> bool" where
  "orphan_preference p \<longleftrightarrow> up_user_id p = None \<and> up_session_id p = None"

definition cleanup_orphan_preferences :: "db \<Rightarrow> int \<times> db" where
  "cleanup_orphan_preferences d =
     (int (length (filter orphan_preference (db_preferences d))),
      d\<lparr>db_preferences := filter (\<lambda>p. \<not> orphan_preference p) (db_preferences d)\<rparr>)"

section \<open>The cache under its operations\<close>

lemma session_key_inj [simp]: "session_key a = session_key b \<longleftrightarrow> a = b"
  by (simp add: session_key_def)

lemma user_sessions_key_inj [simp]: "user_sessions_key a = user_sessions_key b \<longleftrightarrow> a = b"
  by (simp add: user_sessions_key_def)

lemma hgetall_delete:
  "e_redis_up e \<Longrightarrow> hgetall now (redis_delete_session e r th) k =
     (if k = session_key th then [] else hgetall now r k)"
  by (simp add: redis_delete_session_def hgetall_def Let_def)

lemma hgetall_delete_fold:
  "e_redis_up e \<Longrightarrow> hgetall now (fold (\<lambda>th r. redis_delete_session e r th) ths r) k =
     (if k \<in> session_key ` set ths then [] else hgetall now r k)"
  by (induction ths arbitrary: r) (auto simp: hgetall_delete)

lemma fold_map_delete:
  "fold (\<lambda>s r. redis_delete_session e r (f s)) xs r = fold (\<lambda>th r. redis_delete_session e r th) (map f xs) r"
  by (simp add: fold_map comp_def)

lemma redis_get_cong:
  "hgetall (e_now e) r (session_key th) = hgetall (e_now e) r' (session_key th) \<Longrightarrow>
   redis_get_session e r th = redis_get_session e r' th"
  by (simp add: redis_get_session_def)

lemma members_delete:
  "set (sr_sets (redis_delete_session e r th) k) \<subseteq> set (sr_sets r k)"
  by (auto simp: redis_delete_session_def Let_def)

lemma members_delete_fold:
  "set (sr_sets (fold (\<lambda>th r. redis_delete_session e r th) ths r) k) \<subseteq> set (sr_sets r k)"
  by (induction ths arbitrary: r) (use members_delete in fastforce)+

lemma length_members_delete:
  "distinct (sr_sets r k) \<Longrightarrow> distinct (sr_sets (redis_delete_session e r th) k)"
  by (auto simp: redis_delete_session_def Let_def distinct_removeAll)

section \<open>Well-formed session tables\<close>

definition sessions_wf :: "db \<Rightarrow> bool" where
  "sessions_wf d \<longleftrightarrow> distinct (map s_id (db_sessions d)) \<and> distinct (map s_token_hash (db_sessions d))"

lemma session_by_hash_eq:
  "sessions_wf d \<Longrightarrow> session_by_hash d h = Inr (find (\<lambda>s. s_token_hash s = h) (db_sessions d))"
  by (simp add: session_by_hash_def scalar_one_or_none_filter sessions_wf_def)

lemma find_unique:
  "distinct (map f xs) \<Longrightarrow> x \<in> set xs \<Longrightarrow> find (\<lambda>y. f y = f x) xs = Some x"
  by (induction xs) auto

lemma find_filter_none:
  "(\<And>x. x \<in> set xs \<Longrightarrow> q x \<Longrightarrow> \<not> p x) \<Longrightarrow> find q (filter p xs) = None"
  by (auto simp: find_None_iff)

lemma find_filter_keep:
  "(\<And>x. x \<in> set xs \<Longrightarrow> q x \<Longrightarrow> p x) \<Longrightarrow> find q (filter p xs) = find q xs"
  by (induction xs) auto

lemma distinct_filter_map: "distinct (map f xs) \<Longrightarrow> distinct (map f (filter p xs))"
  by (simp add: distinct_map_filter)

lemma delete_sessions_rows [simp]:
  "db_sessions (delete_sessions p d) = filter (\<lambda>s. \<not> p s) (db_sessions d)"
  "db_users (delete_sessions p d) = db_users d"
  "db_settings (delete_sessions p d) = db_settings d"
  by (simp_all add: delete_sessions_def Let_def)

lemma sessions_wf_delete: "sessions_wf d \<Longrightarrow> sessions_wf (delete_sessions p d)"
  by (simp add: sessions_wf_def distinct_filter_map)

lemma hash_inj:
  "sessions_wf d \<Longrightarrow> s \<in> set (db_sessions d) \<Longrightarrow> s' \<in> set (db_sessions d) \<Longrightarrow>
   s_token_hash s = s_token_hash s' \<Longrightarrow> s = s'"
  by (auto simp: sessions_wf_def distinct_map dest: inj_onD)

lemma id_inj:
  "sessions_wf d \<Longrightarrow> s \<in> set (db_sessions d) \<Longrightarrow> s' \<in> set (db_sessions d) \<Longrightarrow> s_id s = s_id s' \<Longrightarrow> s = s'"
  by (auto simp: sessions_wf_def distinct_map dest: inj_onD)

text \<open>
  Deleting the rows of a predicate and the cached hashes of the same rows ends exactly those
  sessions; the two revocations below are instances.
\<close>

lemma deleted_unresolved:
  assumes "sessions_wf d" "e_redis_up e" "s \<in> set (db_sessions d)" "p s"
    and "hgetall (e_now e) r' (session_key (s_token_hash s)) = []"
  shows "fst (resolve_session e (delete_sessions p d, r') (s_token_hash s)) = None"
proof -
  have "find (\<lambda>x. s_token_hash x = s_token_hash s) (filter (\<lambda>s. \<not> p s) (db_sessions d)) = None"
    using hash_inj [OF assms(1) _ assms(3)] assms(4) by (intro find_filter_none) auto
  then show ?thesis
    using assms(2,5) session_by_hash_eq [OF sessions_wf_delete [OF assms(1)]]
    by (simp add: resolve_session_def redis_get_session_def)
qed

lemma kept_resolved:
  assumes "sessions_wf d"
    and "\<And>s. s \<in> set (db_sessions d) \<Longrightarrow> s_token_hash s = h \<Longrightarrow> \<not> p s"
    and "hgetall (e_now e) r' (session_key h) = hgetall (e_now e) r (session_key h)"
  shows "fst (resolve_session e (delete_sessions p d, r') h) = fst (resolve_session e (d, r) h)"
proof -
  have "find (\<lambda>x. s_token_hash x = h) (filter (\<lambda>s. \<not> p s) (db_sessions d)) =
      find (\<lambda>x. s_token_hash x = h) (db_sessions d)"
    using assms(2) by (intro find_filter_keep) auto
  then show ?thesis
    using redis_get_cong [OF assms(3)] session_by_hash_eq [OF assms(1)]
      session_by_hash_eq [OF sessions_wf_delete [OF assms(1)]]
    by (simp add: resolve_session_def split: option.split)
qed

lemma resolve_ignores_preferences:
  "fst (resolve_session e (d\<lparr>db_preferences := ps\<rparr>, r) h) = fst (resolve_session e (d, r) h)"
  by (simp add: resolve_session_def session_by_hash_def split: option.split sum.split)

lemma sessions_wf_preferences [simp]: "sessions_wf (d\<lparr>db_preferences := ps\<rparr>) = sessions_wf d"
  by (simp add: sessions_wf_def)

lemma revoke_eq:
  assumes "sessions_wf d" "s \<in> set (db_sessions d)"
  obtains ps where "session_revoke e (d, r) (s_id s) =
     (Inr (Some (s_token_hash s)),
      delete_sessions (\<lambda>x. s_id x = s_id s) (d\<lparr>db_preferences := ps\<rparr>),
      redis_delete_session e r (s_token_hash s))"
proof -
  have "scalar_one_or_none (filter (\<lambda>x. s_id x = s_id s) (db_sessions d)) = Inr (Some s)"
    using assms by (simp add: scalar_one_or_none_filter find_unique sessions_wf_def)
  then show thesis
    by (cases "s_user_id s = None")
       (auto simp: session_revoke_def Let_def intro: that [of "db_preferences d"] that)
qed

section \<open>The concurrency limit\<close>

definition live_sessions :: "env \<Rightarrow> sess_redis \<Rightarrow> string \<Rightarrow> string list" where
  "live_sessions e r u =
     filter (\<lambda>th. hgetall (e_now e) r (session_key th) \<noteq> []) (sr_sets r (user_sessions_key u))"

lemma distinct_members_fold:
  "distinct (sr_sets r k) \<Longrightarrow> distinct (sr_sets (fold (\<lambda>th r. redis_delete_session e r th) ths r) k)"
  by (induction ths arbitrary: r) (auto simp: length_members_delete)

text \<open>Evicting the first \<open>n\<close> of the sorted members leaves live ones only among the others.\<close>

lemma live_after_evict:
  assumes "e_redis_up e" "set sorted_ths = set (sr_sets r (user_sessions_key u))"
  shows "set (live_sessions e (fold (\<lambda>th r. redis_delete_session e r th) (take n sorted_ths) r) u)
    \<subseteq> set (drop n sorted_ths)"
proof
  fix x assume x: "x \<in> set (live_sessions e (fold (\<lambda>th r. redis_delete_session e r th) (take n sorted_ths) r) u)"
  have "x \<in> set (sr_sets r (user_sessions_key u))"
    using x members_delete_fold [of e "take n sorted_ths" r "user_sessions_key u"]
    by (auto simp: live_sessions_def)
  moreover have "x \<notin> set (take n sorted_ths)"
    using x assms(1) by (auto simp: live_sessions_def hgetall_delete_fold split: if_splits)
  ultimately show "x \<in> set (drop n sorted_ths)"
    using assms(2) by (metis Un_iff append_take_drop_id set_append)
qed

lemma enforce_limit:
  assumes "e_redis_up e" "distinct (sr_sets r (user_sessions_key u))" "0 \<le> maxi"
    and "enforce_concurrent_limit e r u maxi = (revoked, r')"
  shows "int (length (live_sessions e r' u)) \<le> maxi"
    and "distinct (sr_sets r' (user_sessions_key u))"
    and "v \<in> set (or_default revoked []) \<Longrightarrow> k \<in> set (live_sessions e r' u) \<Longrightarrow>
      created_of e r v \<le> created_of e r k"
proof -
  let ?ths = "sr_sets r (user_sessions_key u)"
  let ?sorted = "sort_key (created_of e r) ?ths"
  let ?n = "nat (int (length ?ths) - maxi)"
  have res: "(revoked, r') = (if int (length ?ths) \<le> maxi then (None, r)
      else (Some (take ?n ?sorted), fold (\<lambda>th r. redis_delete_session e r th) (take ?n ?sorted) r))"
    using assms(1) by (simp add: assms(4) [symmetric] enforce_concurrent_limit_def Let_def)
  show d: "distinct (sr_sets r' (user_sessions_key u))"
    using res assms(2) by (auto split: if_splits intro: distinct_members_fold)
  have live: "distinct (live_sessions e r' u)"
    using d by (simp add: live_sessions_def)
  show "int (length (live_sessions e r' u)) \<le> maxi"
  proof (cases "int (length ?ths) \<le> maxi")
    case True
    have "length (live_sessions e r u) \<le> length ?ths"
      by (simp add: live_sessions_def)
    with True res show ?thesis by simp
  next
    case False
    with res have "set (live_sessions e r' u) \<subseteq> set (drop ?n ?sorted)"
      using live_after_evict [OF assms(1), of ?sorted r u ?n] by simp
    then have "card (set (live_sessions e r' u)) \<le> length (drop ?n ?sorted)"
      by (meson card_length card_mono finite_set le_trans)
    then have "length (live_sessions e r' u) \<le> length ?ths - ?n"
      by (simp add: distinct_card [OF live])
    with False assms(3) show ?thesis by linarith
  qed
  show "created_of e r v \<le> created_of e r k"
    if "v \<in> set (or_default revoked [])" "k \<in> set (live_sessions e r' u)"
  proof -
    have big: "\<not> int (length ?ths) \<le> maxi"
      using res that(1) by (auto simp: or_default_def split: if_splits)
    with res have v: "v \<in> set (take ?n ?sorted)" and k: "k \<in> set (drop ?n ?sorted)"
      using that live_after_evict [OF assms(1), of ?sorted r u ?n] by (auto simp: or_default_def)
    have "sorted (map (created_of e r) (take ?n ?sorted @ drop ?n ?sorted))"
      by simp
    with v k show ?thesis
      unfolding map_append sorted_append by simp
  qed
qed

lemma hgetall_hset:
  "0 < ttl \<Longrightarrow> hgetall now (hset_expire now r key data ttl) k =
     (if k = key then fold (\<lambda>(k, v). dict_set k v) data (hgetall now r key) else hgetall now r k)"
  by (simp add: hset_expire_def hgetall_def sec_def)

lemma live_create:
  assumes "e_redis_up e" "0 < ttl" "dict_get ''user_id'' [] data = u" "u \<noteq> []"
  shows "set (live_sessions e (redis_create_session e r th data ttl) u) \<subseteq> insert th (set (live_sessions e r u))"
  using assms by (auto simp: live_sessions_def redis_create_session_def Let_def hgetall_hset hset_expire_def
      hgetall_def split: if_splits)

text \<open>Every preference without a user belongs to an anonymous session that still exists.\<close>

definition prefs_reachable :: "db \<Rightarrow> bool" where
  "prefs_reachable d \<longleftrightarrow> list_all (\<lambda>p. up_user_id p \<noteq> None \<or>
     list_ex (\<lambda>s. Some (s_id s) = up_session_id p \<and> s_user_id s = None) (db_sessions d)) (db_preferences d)"

lemma prefs_reachableI:
  "(\<And>q. q \<in> set (db_preferences d) \<Longrightarrow> up_user_id q = None \<Longrightarrow>
     \<exists>s \<in> set (db_sessions d). Some (s_id s) = up_session_id q \<and> s_user_id s = None) \<Longrightarrow>
   prefs_reachable d"
  by (auto simp: prefs_reachable_def list_all_iff list_ex_iff)

lemma prefs_reachableE:
  assumes "prefs_reachable d" "q \<in> set (db_preferences d)" "up_user_id q = None"
  obtains s where "s \<in> set (db_sessions d)" "up_session_id q = Some (s_id s)" "s_user_id s = None"
  using assms unfolding prefs_reachable_def list_all_iff list_ex_iff by metis

text \<open>The preferences after a deletion: the deleted identifiers are cleared.\<close>

lemma delete_sessions_preferences:
  "db_preferences (delete_sessions p d) =
     map (\<lambda>q. if up_session_id q \<in> Some ` s_id ` {s \<in> set (db_sessions d). p s}
              then q\<lparr>up_session_id := None\<rparr> else q) (db_preferences d)"
proof -
  let ?gone = "s_id ` {s \<in> set (db_sessions d). p s}"
  have "up_session_id_update (\<lambda>r. case r of None \<Rightarrow> None | Some i \<Rightarrow> if i \<in> ?gone then None else Some i) q =
      (if up_session_id q \<in> Some ` ?gone then q\<lparr>up_session_id := None\<rparr> else q)" for q :: user_preference
    by (cases q; cases "up_session_id q") auto
  then show ?thesis
    by (simp add: delete_sessions_def Let_def)
qed

lemma prefs_reachable_delete:
  assumes "prefs_reachable d" "\<And>x. x \<in> set (db_sessions d) \<Longrightarrow> p x \<Longrightarrow> s_user_id x \<noteq> None" "sessions_wf d"
  shows "prefs_reachable (delete_sessions p d)"
proof (rule prefs_reachableI)
  fix q' assume "q' \<in> set (db_preferences (delete_sessions p d))" and none: "up_user_id q' = None"
  then obtain q where q: "q \<in> set (db_preferences d)" and q': "q' =
      (if up_session_id q \<in> Some ` s_id ` {s \<in> set (db_sessions d). p s} then q\<lparr>up_session_id := None\<rparr> else q)"
    by (auto simp: delete_sessions_preferences)
  from none q' have "up_user_id q = None"
    by (simp split: if_splits)
  with assms(1) q obtain s where s: "s \<in> set (db_sessions d)" "up_session_id q = Some (s_id s)" "s_user_id s = None"
    by (rule prefs_reachableE)
  have "\<not> p s"
    using assms(2) s by blast
  moreover from this s have "up_session_id q \<notin> Some ` s_id ` {s \<in> set (db_sessions d). p s}"
    using id_inj [OF assms(3) s(1)] by auto
  ultimately show "\<exists>s \<in> set (db_sessions (delete_sessions p d)). Some (s_id s) = up_session_id q' \<and> s_user_id s = None"
    using s q' by auto
qed

lemma prefs_reachable_expired:
  assumes "prefs_reachable d"
  shows "prefs_reachable (snd (cleanup_orphan_preferences (snd (cleanup_expired_anonymous_sessions now d))))"
proof (rule prefs_reachableI)
  let ?p = "\<lambda>s. s_user_id s = None \<and> s_expires_at s < now"
  let ?d = "snd (cleanup_orphan_preferences (snd (cleanup_expired_anonymous_sessions now d)))"
  fix q' assume "q' \<in> set (db_preferences ?d)" and none: "up_user_id q' = None"
  then have some: "up_session_id q' \<noteq> None" and "q' \<in> set (db_preferences (delete_sessions ?p d))"
    by (simp_all add: cleanup_orphan_preferences_def cleanup_expired_anonymous_sessions_def orphan_preference_def
        Let_def)
  then have q: "q' \<in> set (db_preferences d)" and kept: "up_session_id q' \<notin> Some ` s_id ` {s \<in> set (db_sessions d). ?p s}"
    by (auto simp: delete_sessions_preferences split: if_splits)
  from assms q none obtain s where s: "s \<in> set (db_sessions d)" "up_session_id q' = Some (s_id s)" "s_user_id s = None"
    by (rule prefs_reachableE)
  then have "\<not> ?p s"
    using kept by auto
  with s show "\<exists>s \<in> set (db_sessions ?d). Some (s_id s) = up_session_id q' \<and> s_user_id s = None"
    by (auto simp: cleanup_orphan_preferences_def cleanup_expired_anonymous_sessions_def Let_def)
qed

text \<open>Revoking an anonymous session first removes the preferences that only it reaches.\<close>

lemma prefs_reachable_revoke_anonymous:
  assumes "prefs_reachable d"
  shows "prefs_reachable (delete_sessions (\<lambda>s. s_id s = i)
    (d\<lparr>db_preferences := filter (\<lambda>p. \<not> (up_session_id p = Some i \<and> up_user_id p = None)) (db_preferences d)\<rparr>))"
    (is "prefs_reachable (delete_sessions ?p ?d)")
proof (rule prefs_reachableI)
  fix q' assume "q' \<in> set (db_preferences (delete_sessions ?p ?d))" and none: "up_user_id q' = None"
  then obtain q where q: "q \<in> set (db_preferences d)" "up_session_id q \<noteq> Some i \<or> up_user_id q \<noteq> None"
      and q': "q' = (if up_session_id q \<in> Some ` s_id ` {s \<in> set (db_sessions ?d). ?p s}
        then q\<lparr>up_session_id := None\<rparr> else q)"
    by (auto simp: delete_sessions_preferences)
  from none q' have u: "up_user_id q = None"
    by (simp split: if_splits)
  with assms q(1) obtain s where s: "s \<in> set (db_sessions d)" "up_session_id q = Some (s_id s)" "s_user_id s = None"
    by (rule prefs_reachableE)
  with q(2) u q' show "\<exists>s \<in> set (db_sessions (delete_sessions ?p ?d)). Some (s_id s) = up_session_id q' \<and> s_user_id s = None"
    by auto
qed

lemma evicted_hash_gone:
  assumes "e_redis_up e" "enforce_concurrent_limit e r u maxi = (Some revoked, r')" "th \<in> set revoked"
  shows "redis_get_session e r' th = None"
  using assms by (auto simp: enforce_concurrent_limit_def redis_get_session_def hgetall_delete_fold Let_def
      split: if_splits)

section \<open>A concrete state\<close>

text \<open>A user with one session, cached in Redis, on which the witnesses run the operations.\<close>

definition sample_user :: user where
  "sample_user = \<lparr>u_id = ''u'', u_email = ''a@b.c'', u_password_hash = ''hash'', u_role = ROLE_AUTHENTICATED,
     u_status = ''active'', u_failed_login_attempts = 0, u_locked_until = None, u_admin_notes = None,
     u_first_name = None, u_last_name = None, u_email_verified_at = Some 0, u_created_at = 0, u_updated_at = 0\<rparr>"

definition sample_session :: session_row where
  "sample_session = \<lparr>s_id = ''s1'', s_user_id = Some ''u'', s_token_hash = ''h1'', s_ip_address = ''8.8.8.8'',
     s_user_agent = None, s_expires_at = sec 60, s_last_activity_at = 0, s_created_at = 0\<rparr>"

definition sample_db :: db where
  "sample_db = empty_db\<lparr>db_users := [sample_user], db_sessions := [sample_session],
     db_settings := [\<lparr>gs_id = ''g'', gs_key = ''max_concurrent_sessions'', gs_value = ''1''\<rparr>]\<rparr>"

definition sample_redis :: sess_redis where
  "sample_redis = \<lparr>sr_hashes = [''session:h1'' \<mapsto> \<lparr>rh_fields = [(''user_id'', ''u'')], rh_expire = Some (sec 99)\<rparr>],
     sr_sets = (\<lambda>k. if k = ''user_sessions:u'' then [''h1''] else [])\<rparr>"

definition sample_env :: env where
  "sample_env = \<lparr>e_redis_up = True, e_db_up = True, e_now = sec 50, e_iso = (\<lambda>t. ''now''), e_hash = id,
     e_fresh = (\<lambda>k. if k = ''session_token'' then ''h2'' else ''s2'')\<rparr>"

lemma sample_max: "get_max_sessions sample_db = 1" "get_session_duration sample_db = 24"
proof -
  have "py_int ''1'' = Some 1"
    by code_simp
  then show "get_max_sessions sample_db = 1" "get_session_duration sample_db = 24"
    by (simp_all add: get_max_sessions_def get_session_duration_def int_setting_def sample_db_def empty_db_def
        SESSION_DURATION_HOURS_def)
qed

lemma sample_wf: "sessions_wf sample_db" "sample_session \<in> set (db_sessions sample_db)"
    "s_id sample_session = ''s1''" "s_token_hash sample_session = ''h1''" "s_user_id sample_session = Some ''u''"
    "e_redis_up sample_env" "e_db_up sample_env"
    "distinct (sr_sets sample_redis (user_sessions_key ''u''))"
  by (simp_all add: sessions_wf_def sample_db_def sample_session_def sample_env_def sample_redis_def
      user_sessions_key_def)

lemmas sample_simps = sample_user_def sample_session_def sample_db_def sample_redis_def sample_env_def empty_db_def

text \<open>A user at the maximum of one session who opens another ends up with two.\<close>

lemma sample_create:
  "session_create sample_env (sample_db, sample_redis) (Some ''u'') ''ip'' None =
     (Inr (''h2'', sample_session\<lparr>s_id := ''s2'', s_token_hash := ''h2'', s_ip_address := ''ip'',
          s_expires_at := sec 50 + sec (24 * 3600), s_last_activity_at := sec 50, s_created_at := sec 50\<rparr>),
      snd (session_create sample_env (sample_db, sample_redis) (Some ''u'') ''ip'' None))"
  by (simp add: session_create_def Let_def insert_session_def sample_max)
     (simp add: sample_simps)

lemma concurrent_limit_exceeded:
  "length (live_sessions sample_env
     (snd (snd (session_create sample_env (sample_db, sample_redis) (Some ''u'') ''ip'' None))) ''u'') = 2"
  by (simp add: session_create_def Let_def sample_max enforce_concurrent_limit_def insert_session_def
      redis_create_session_def)
     (simp add: sample_simps user_sessions_key_def session_key_def hset_expire_def hgetall_def
      live_sessions_def dict_get_def or_default_def sec_def)

lemma sample_evict:
  "enforce_concurrent_limit sample_env sample_redis ''u'' 0 =
     (Some [''h1''], redis_delete_session sample_env sample_redis ''h1'')"
  by (simp add: enforce_concurrent_limit_def sample_simps user_sessions_key_def Let_def)

section \<open>Properties\<close>

text \<open>
  C10: revoking a session ends it and nothing else.  With Redis reachable the call reports the
  token hash of the row, no cookie with that hash is resolved any more, neither by the
  middleware nor by the service, and every other cookie resolves as before.
\<close>

theorem revoke_ends_session:
  assumes "sessions_wf d" "e_redis_up e" "s \<in> set (db_sessions d)"
    and "session_revoke e (d, r) (s_id s) = (res, w')"
  shows "res = Inr (Some (s_token_hash s)) \<and>
    fst (resolve_session e w' (s_token_hash s)) = None \<and>
    lookup_session e w' (s_token_hash s) = Inr None \<and>
    (h \<noteq> s_token_hash s \<longrightarrow> fst (resolve_session e w' h) = fst (resolve_session e (d, r) h))"
proof -
  obtain ps where rev: "session_revoke e (d, r) (s_id s) =
     (Inr (Some (s_token_hash s)),
      delete_sessions (\<lambda>x. s_id x = s_id s) (d\<lparr>db_preferences := ps\<rparr>),
      redis_delete_session e r (s_token_hash s))"
    using revoke_eq [OF assms(1,3)] .
  let ?d = "d\<lparr>db_preferences := ps\<rparr>" and ?r = "redis_delete_session e r (s_token_hash s)"
  have wf: "sessions_wf ?d" and mem: "s \<in> set (db_sessions ?d)"
    using assms(1,3) by simp_all
  have empty: "hgetall (e_now e) ?r (session_key (s_token_hash s)) = []"
    using assms(2) by (simp add: hgetall_delete)
  have gone: "find (\<lambda>x. s_token_hash x = s_token_hash s) (filter (\<lambda>x. s_id x \<noteq> s_id s) (db_sessions d)) = None"
    using hash_inj [OF assms(1) _ assms(3)] by (intro find_filter_none) auto
  have other: "fst (resolve_session e (delete_sessions (\<lambda>x. s_id x = s_id s) ?d, ?r) h) =
      fst (resolve_session e (?d, r) h)" if "h \<noteq> s_token_hash s"
    using that id_inj [OF wf _ mem] assms(2) by (intro kept_resolved [OF wf]) (auto simp: hgetall_delete)
  have "lookup_session e (delete_sessions (\<lambda>x. s_id x = s_id s) ?d, ?r) (s_token_hash s) = Inr None"
    using empty gone session_by_hash_eq [OF sessions_wf_delete [OF wf]]
    by (simp add: lookup_session_def redis_get_session_def unexpired_def)
  moreover have "fst (resolve_session e (delete_sessions (\<lambda>x. s_id x = s_id s) ?d, ?r) (s_token_hash s)) = None"
    by (rule deleted_unresolved [OF wf assms(2) mem _ empty]) simp
  ultimately show ?thesis
    using assms(4) other unfolding rev resolve_ignores_preferences by auto
qed

theorem revoke_ends_session_witness:
  "fst (resolve_session sample_env (snd (session_revoke sample_env (sample_db, sample_redis) ''s1'')) ''h1'') = None"
proof -
  obtain res w' where "session_revoke sample_env (sample_db, sample_redis) (s_id sample_session) = (res, w')"
    by (rule prod.exhaust)
  with revoke_ends_session [OF sample_wf(1) sample_wf(6) sample_wf(2) this] show ?thesis
    by (simp add: sample_wf)
qed

text \<open>
  The concurrency limit.  When Redis answers, opening a session for a user leaves at most
  one live cached session more than the configured maximum, since the limit is enforced before
  the new session is added; what it evicts is older than what it keeps.
\<close>

lemma concurrent_limit:
  assumes "e_redis_up e" "distinct (sr_sets r (user_sessions_key u))" "u \<noteq> []"
    and "0 \<le> get_max_sessions d" "0 < get_session_duration d"
    and "session_create e (d, r) (Some u) ip ua = (Inr (token, s), d', r')"
  shows "int (length (live_sessions e r' u)) \<le> get_max_sessions d + 1 \<and>
    (\<forall>v \<in> set (or_default (fst (enforce_concurrent_limit e r u (get_max_sessions d))) []).
     \<forall>k \<in> set (live_sessions e (snd (enforce_concurrent_limit e r u (get_max_sessions d))) u).
       created_of e r v \<le> created_of e r k)"
proof -
  obtain revoked r1 where enf: "enforce_concurrent_limit e r u (get_max_sessions d) = (revoked, r1)"
    by (rule prod.exhaust)
  note lim = enforce_limit [OF assms(1,2,4) enf]
  obtain data where r': "r' = redis_create_session e r1 (e_hash e (e_fresh e ''session_token'')) data
        (get_session_duration d * 3600)" "dict_get ''user_id'' [] data = u"
    using assms(3,6) by (auto simp: session_create_def Let_def enf or_default_def dict_get_def split: sum.splits)
  have dist: "distinct (live_sessions e r' u)"
    using lim(2) assms(1,3) by (simp add: r' live_sessions_def redis_create_session_def Let_def hset_expire_def)
  have "set (live_sessions e r' u) \<subseteq> insert (e_hash e (e_fresh e ''session_token'')) (set (live_sessions e r1 u))"
    unfolding r'(1) using assms(1,3,5) r'(2) by (intro live_create) auto
  then have "card (set (live_sessions e r' u)) \<le>
      card (insert (e_hash e (e_fresh e ''session_token'')) (set (live_sessions e r1 u)))"
    by (intro card_mono) simp_all
  also have "\<dots> \<le> Suc (card (set (live_sessions e r1 u)))"
    by (simp add: card_insert_if)
  finally have "card (set (live_sessions e r' u)) \<le> Suc (card (set (live_sessions e r1 u)))" .
  then have "length (live_sessions e r' u) \<le> Suc (length (live_sessions e r1 u))"
    using card_length [of "live_sessions e r1 u"] by (simp add: distinct_card [OF dist])
  then show ?thesis
    using lim(1,3) enf by (auto simp: or_default_def)
qed

lemma concurrent_limit_witness:
  "int (length (live_sessions sample_env
     (snd (snd (session_create sample_env (sample_db, sample_redis) (Some ''u'') ''ip'' None))) ''u'')) \<le> 2"
proof -
  obtain d' r' where w: "snd (session_create sample_env (sample_db, sample_redis) (Some ''u'') ''ip'' None) = (d', r')"
    by (rule prod.exhaust)
  have "int (length (live_sessions sample_env r' ''u'')) \<le> get_max_sessions sample_db + 1"
    using concurrent_limit [OF sample_wf(6) sample_wf(8) _ _ _ sample_create [unfolded w]]
    by (simp add: sample_max)
  then show ?thesis
    by (simp add: w sample_max)
qed

text \<open>
  Eviction is not enforced.  The concurrency limit removes a session from the cache only;
  the row stays, and the middleware, which falls back to the table without looking at
  \<open>expires_at\<close>, keeps resolving the evicted cookie to its user.
\<close>

lemma evicted_still_resolves:
  assumes "sessions_wf d" "s \<in> set (db_sessions d)" "e_db_up e" "e_redis_up e"
    and "enforce_concurrent_limit e r u maxi = (Some revoked, r')" "s_token_hash s \<in> set revoked"
  shows "fst (resolve_session e (d, r') (s_token_hash s)) = Some (s_id s, s_user_id s)"
proof -
  have "session_by_hash d (s_token_hash s) = Inr (Some s)"
    using assms(1,2) by (simp add: session_by_hash_eq find_unique sessions_wf_def)
  then show ?thesis
    using assms(3) evicted_hash_gone [OF assms(4-6)] by (simp add: resolve_session_def)
qed

lemma evicted_still_resolves_witness:
  "fst (resolve_session sample_env (sample_db, snd (enforce_concurrent_limit sample_env sample_redis ''u'' 0)) ''h1'')
     = Some (''s1'', Some ''u'')"
  using evicted_still_resolves [OF sample_wf(1,2,7,6) sample_evict] by (simp add: sample_evict sample_wf)

text \<open>
  No preference becomes unreachable.  If every preference without a user belongs to an
  existing anonymous session, this still holds after revoking one session, after revoking a
  user's sessions, and after the two nightly clean-ups in their order.
\<close>

lemma prefs_reachable_preserved:
  assumes "prefs_reachable d" "sessions_wf d"
  shows "prefs_reachable (fst (snd (session_revoke e (d, r) i)))
    \<and> prefs_reachable (fst (snd (revoke_all_for_user e (d, r) u except)))
    \<and> prefs_reachable (snd (cleanup_orphan_preferences (snd (cleanup_expired_anonymous_sessions now d))))"
proof -
  have "prefs_reachable (fst (snd (session_revoke e (d, r) i)))"
  proof (cases "\<exists>s \<in> set (db_sessions d). s_id s = i")
    case True
    then obtain s where s: "s \<in> set (db_sessions d)" "s_id s = i" by blast
    have sel: "scalar_one_or_none (filter (\<lambda>x. s_id x = i) (db_sessions d)) = Inr (Some s)"
      using assms(2) s by (auto simp: scalar_one_or_none_filter find_unique sessions_wf_def)
    show ?thesis
    proof (cases "s_user_id s")
      case None
      then show ?thesis
        using prefs_reachable_revoke_anonymous [OF assms(1), of i] by (simp add: session_revoke_def sel Let_def)
    next
      case (Some v)
      have "s_user_id x \<noteq> None" if "x \<in> set (db_sessions d)" "s_id x = i" for x
        using that s Some id_inj [OF assms(2) s(1) that(1)] by auto
      from prefs_reachable_delete [OF assms(1) this assms(2), of "\<lambda>x. s_id x = i"] show ?thesis
        by (simp add: session_revoke_def sel Some Let_def)
    qed
  next
    case False
    then have "find (\<lambda>x. s_id x = i) (db_sessions d) = None"
      by (auto simp: find_None_iff)
    then show ?thesis
      using assms by (simp add: session_revoke_def scalar_one_or_none_filter sessions_wf_def)
  qed
  moreover have "prefs_reachable (fst (snd (revoke_all_for_user e (d, r) u except)))"
    by (auto simp: revoke_all_for_user_def Let_def intro: prefs_reachable_delete [OF assms(1) _ assms(2)])
  ultimately show ?thesis
    using prefs_reachable_expired [OF assms(1)] by simp
qed

lemma prefs_reachable_preserved_witness:
  "let d = sample_db\<lparr>db_sessions := [sample_session\<lparr>s_user_id := None\<rparr>],
             db_preferences := [\<lparr>up_id = ''p'', up_user_id = None, up_session_id = Some ''s1'', up_key = ''k'', up_value = ''v''\<rparr>]\<rparr>
   in prefs_reachable d \<and> prefs_reachable (fst (snd (session_revoke sample_env (d, sample_redis) ''s1'')))"
proof -
  let ?d = "sample_db\<lparr>db_sessions := [sample_session\<lparr>s_user_id := None\<rparr>],
             db_preferences := [\<lparr>up_id = ''p'', up_user_id = None, up_session_id = Some ''s1'', up_key = ''k'', up_value = ''v''\<rparr>]\<rparr>"
  have "prefs_reachable ?d" "sessions_wf ?d"
    by (simp_all add: prefs_reachable_def sessions_wf_def sample_simps)
  with prefs_reachable_preserved [OF this] show ?thesis
    by (simp add: Let_def)
qed

end
