(* ===== verification/Middleware.thy ===== *)
theory Middleware
  imports Sessions Rate_Service
begin

text \<open>
  \<open>app/middleware/session.py\<close>, \<open>app/middleware/rate_limit.py\<close> and the middleware stack that
  \<open>app/main.py\<close> assembles.  A middleware takes the rest of the application as a function from
  the request and the world to the response and the world.
\<close>

record world =
  w_db :: db
  w_redis :: sess_redis
  w_limiter :: limiter
  w_auth :: auth_counters
  w_bruteforce :: "string \<rightharpoonup> int \<times> tstamp"
  w_mail :: "(string \<times> string \<times> string) list"

type_synonym handler = "request \<Rightarrow> world \<Rightarrow> response \<times> world"

text \<open>Settings of \<open>app/config.py\<close> the stack reads.\<close>

record stack_settings =
  cfg_environment :: string
  cfg_storage :: string
  cfg_trusted_hops :: int

section \<open>The session middleware\<close>

text \<open>
  The part of \<open>dispatch\<close> before \<open>call_next\<close>: the request with its state attached, and the
  token of a session it had to create.
\<close>

definition anonymous_state :: "env \<Rightarrow> (string \<times> string) option \<Rightarrow> req_state \<Rightarrow> req_state" where
  "anonymous_state e anon st =
     (case anon of
        Some (token, sid) \<Rightarrow> st\<lparr>st_token_hash := Some (e_hash e token), st_session_id := Some sid,
                               st_user_id := None, st_role := Some ROLE_VISITOR\<rparr>
      | None \<Rightarrow> st\<lparr>st_session_id := Some (''anon_'' @ e_fresh e ''anon_id''),
                    st_user_id := None, st_role := Some ROLE_VISITOR\<rparr>)"

definition attach_anonymous :: "env \<Rightarrow> request \<Rightarrow> world \<Rightarrow> request \<times> string option \<times> world" where
  "attach_anonymous e r w =
     (case create_anonymous_session e (w_db w, w_redis w) r of
        (anon, d, redis) \<Rightarrow>
          (r\<lparr>rq_state := anonymous_state e anon (rq_state r)\<rparr>, map_option fst anon,
           w\<lparr>w_db := d, w_redis := redis\<rparr>))"

definition session_attach :: "env \<Rightarrow> request \<Rightarrow> world \<Rightarrow> request \<times> string option \<times> world" where
  "session_attach e r w =
     (case get_session_token r of
        Some session_token \<Rightarrow>
          (let token_hash = e_hash e session_token;
               r1 = r\<lparr>rq_state := (rq_state r)\<lparr>st_token_hash := Some token_hash\<rparr>\<rparr>
           in case resolve_session e (w_db w, w_redis w) token_hash of
                (Some (sid, user_id), redis) \<Rightarrow>
                  (r1\<lparr>rq_state := (rq_state r1)\<lparr>st_session_id := Some sid, st_user_id := user_id,
                        st_role := Some (resolve_role e (w_db w) user_id)\<rparr>\<rparr>,
                   None, w\<lparr>w_redis := redis\<rparr>)
              | (None, redis) \<Rightarrow> attach_anonymous e r1 (w\<lparr>w_redis := redis\<rparr>))
      | None \<Rightarrow> attach_anonymous e r w)"

definition session_dispatch :: "env \<Rightarrow> handler \<Rightarrow> handler" where
  "session_dispatch e call_next r w =
     (case session_attach e r w of
        (r1, created_session_token, w1) \<Rightarrow>
          (case call_next r1 w1 of
             (resp, w2) \<Rightarrow>
               (let is_secure = (rq_scheme r1 = ''https'');
                    resp1 = (case created_session_token of
                        Some token \<Rightarrow> if token = [] then resp else set_session_cookie token is_secure resp
                      | None \<Rightarrow> resp);
                    resp2 = (if truthy (map_of (rq_cookies r1) CSRF_COOKIE) then resp1
                             else set_csrf_cookie (e_fresh e ''csrf'') is_secure resp1)
                in (resp2, w2))))"

section \<open>The rate limit middleware\<close>

definition RATE_LIMITED_PREFIXES :: "string list" where
  "RATE_LIMITED_PREFIXES = [''/api/v1/tools/'']"

text \<open>
  The response headers of a check.  The warning starts at 80 percent: Python's quotient
  compared with \<open>0.8\<close> agrees with the comparison of integers below for limits under \<open>2 ^ 50\<close>.
\<close>

definition build_rate_limit_headers :: "rl_result \<Rightarrow> (string \<times> string) list" where
  "build_rate_limit_headers result =
     (if rl_limit_type result = ''soft'' then
        [(''retry-after'', str_of_int (rl_retry_after result)),
         (''x-ratelimit-limit'', str_of_int (rl_soft_limit result)),
         (''x-ratelimit-remaining'', ''0''),
         (''x-ratelimit-policy'', str_of_int (rl_soft_limit result) @ '' req/''
            @ str_of_int (rl_soft_window_s result) @ ''s'')]
      else if rl_limit_type result = ''hard'' then
        [(''retry-after'', str_of_int (rl_retry_after result)),
         (''x-ratelimit-limit'', str_of_int (rl_hard_limit result)),
         (''x-ratelimit-remaining'', ''0''),
         (''x-ratelimit-policy'', str_of_int (rl_hard_limit result) @ '' req/''
            @ str_of_int (rl_hard_window_s result) @ ''s'')]
      else
        (let remaining = (if rl_hard_limit result > 0
                          then max 0 (rl_hard_limit result - rl_hard_count result) else 0)
         in [(''x-ratelimit-limit'', str_of_int (rl_hard_limit result)),
             (''x-ratelimit-remaining'', str_of_int remaining)]
            @ (if rl_hard_limit result > 0 \<and> rl_hard_count result > 0 \<and>
                  5 * rl_hard_count result \<ge> 4 * rl_hard_limit result
               then [(''x-ratelimit-warning'', ''true'')] else [])))"

text \<open>
  SQLAlchemy's constructor of a row: a keyword that is not a column of the table is a
  \<open>TypeError\<close>.  The middleware passes \<open>session_id\<close>, which \<open>security_event_logs\<close> does not have.
\<close>

definition SECURITY_EVENT_COLUMNS :: "string list" where
  "SECURITY_EVENT_COLUMNS = [''id'', ''event_type'', ''source_ip'', ''user_id'', ''details'', ''created_at'']"

definition construct_event :: "string list \<Rightarrow> security_event_log \<Rightarrow> exn + security_event_log" where
  "construct_event keywords row =
     (if list_all (\<lambda>k. k \<in> set SECURITY_EVENT_COLUMNS) keywords then Inr row else Inl (PyError ''TypeError''))"

definition persist_rate_limit_event ::
    "env \<Rightarrow> string \<Rightarrow> string option \<Rightarrow> string \<Rightarrow> db \<Rightarrow> db" where
  "persist_rate_limit_event e source_ip user_id details d =
     (case construct_event [''id'', ''event_type'', ''source_ip'', ''user_id'', ''session_id'', ''details'']
             \<lparr>ev_id = e_fresh e ''event_id'', ev_event_type = ''rate_limit_exceeded'', ev_source_ip = source_ip,
              ev_user_id = user_id, ev_details = details, ev_created_at = e_now e\<rparr> of
        Inl _ \<Rightarrow> d
      | Inr row \<Rightarrow> d\<lparr>db_events := db_events d @ [row]\<rparr>)"

text \<open>Who the request counts as: role, user and session.\<close>

definition rate_identity :: "env \<Rightarrow> db \<Rightarrow> request \<Rightarrow> string \<times> string option \<times> string" where
  "rate_identity e d r =
     (let role = or_default (st_role (rq_state r)) ROLE_VISITOR;
          user_id = st_user_id (rq_state r);
          session_id = or_default (st_session_id (rq_state r)) ''unknown''
      in if role = ROLE_VISITOR \<and> user_id = None then
           (case get_session_token r of
              None \<Rightarrow> (role, user_id, session_id)
            | Some session_token \<Rightarrow>
                (if \<not> e_db_up e then (role, user_id, session_id)
                 else (case session_by_hash d (e_hash e session_token) of
                         Inr (Some sess) \<Rightarrow>
                           (if \<not> truthy (s_user_id sess) then (role, user_id, session_id)
                            else (case scalar_one_or_none (map u_role
                                     (filter (\<lambda>u. Some (u_id u) = s_user_id sess) (db_users d))) of
                                    Inr (Some urole) \<Rightarrow>
                                      if urole \<noteq> [] then (urole, s_user_id sess, s_id sess)
                                      else (role, user_id, session_id)
                                  | _ \<Rightarrow> (role, user_id, session_id)))
                       | _ \<Rightarrow> (role, user_id, session_id))))
         else (role, user_id, session_id))"

definition rl_env_of :: "stack_settings \<Rightarrow> env \<Rightarrow> rl_env" where
  "rl_env_of cfg e =
     \<lparr>env_storage = cfg_storage cfg, env_redis_up = e_redis_up e, env_now = e_now e,
      env_member1 = e_fresh e ''member1'', env_member2 = e_fresh e ''member2''\<rparr>"

definition rate_limit_dispatch :: "stack_settings \<Rightarrow> env \<Rightarrow> handler \<Rightarrow> handler" where
  "rate_limit_dispatch cfg e call_next r w =
     (let path = rq_path r
      in if py_startswith path ''/api/v1/admin/'' then call_next r w
         else if \<not> list_ex (py_startswith path) RATE_LIMITED_PREFIXES then call_next r w
         else if path = ''/api/v1/tools'' \<and> rq_method r = ''GET'' then call_next r w
         else if \<not> e_db_up e then call_next r w
         else (case rate_identity e (w_db w) r of
             (role, user_id, session_id) \<Rightarrow>
           (case check_tool_rate_limit (rl_env_of cfg e) (w_db w) (w_limiter w) role user_id session_id
                   (client_host r) None of
              (Inl _, lim) \<Rightarrow> call_next r (w\<lparr>w_limiter := lim\<rparr>)
            | (Inr result, lim) \<Rightarrow>
                (let w1 = w\<lparr>w_limiter := lim\<rparr>
                 in if \<not> rl_allowed result then
                      (\<lparr>rs_status = 429, rs_headers = build_rate_limit_headers result, rs_cookies = [],
                        rs_error = Some (''RATE_LIMIT_EXCEEDED'', ''errors.rate_limit_exceeded'')\<rparr>,
                       w1\<lparr>w_db := persist_rate_limit_event e (client_host r) user_id (rl_limit_type result) (w_db w1)\<rparr>)
                    else
                      (case call_next r w1 of
                         (resp, w2) \<Rightarrow>
                           (if rs_status resp < 400 then set_headers (build_rate_limit_headers result) resp
                            else resp, w2))))))"

section \<open>The stack\<close>

text \<open>
  \<open>add_middleware\<close> wraps what is already there, so the last one added is the outermost:
  trusted proxies, security headers, rate limit, session, CORS (Starlette's, a parameter),
  request identifier, and the router inside.
\<close>

definition app_stack :: "stack_settings \<Rightarrow> env \<Rightarrow> (handler \<Rightarrow> handler) \<Rightarrow> handler \<Rightarrow> handler" where
  "app_stack cfg e cors router r0 w0 =
     security_headers_dispatch (cfg_environment cfg)
       (\<lambda>r. rate_limit_dispatch cfg e
          (session_dispatch e
            (cors (\<lambda>r w. request_id_dispatch (e_fresh e ''request_id'') (\<lambda>r. router r w) r))) r w0)
       (trusted_proxy (cfg_trusted_hops cfg) r0)"

section \<open>Lemmas\<close>

lemma or_default_Some [simp]: "or_default (Some x) y = x" and or_default_None [simp]: "or_default None y = y"
  by (simp_all add: or_default_def)

lemma resolve_role_administrator:
  assumes "resolve_role e d user_id = ROLE_ADMINISTRATOR"
  obtains u row where "user_id = Some u" "row \<in> set (db_users d)" "u_id row = u" "u_role row = ROLE_ADMINISTRATOR"
proof -
  have ne: "ROLE_VISITOR \<noteq> ROLE_ADMINISTRATOR" "ROLE_AUTHENTICATED \<noteq> ROLE_ADMINISTRATOR"
    by (simp_all add: roles)
  from assms ne obtain u where u: "user_id = Some u"
    by (cases user_id) (auto simp: resolve_role_def)
  from assms ne have
    "scalar_one_or_none (map u_role (filter (\<lambda>x. Some (u_id x) = user_id) (db_users d))) = Inr (Some ROLE_ADMINISTRATOR)"
    by (auto simp: resolve_role_def split: if_splits sum.splits option.splits)
  then have "map u_role (filter (\<lambda>x. Some (u_id x) = user_id) (db_users d)) = [ROLE_ADMINISTRATOR]"
    by (cases "map u_role (filter (\<lambda>x. Some (u_id x) = user_id) (db_users d))" rule: scalar_one_or_none.cases) auto
  then have "ROLE_ADMINISTRATOR \<in> set (map u_role (filter (\<lambda>x. Some (u_id x) = user_id) (db_users d)))"
    by simp
  then show thesis
    using that u by auto
qed

lemma attach_anonymous_visitor:
  "attach_anonymous e r w = (r', tok, w') \<Longrightarrow> st_role (rq_state r') = Some ROLE_VISITOR"
  by (auto simp: attach_anonymous_def anonymous_state_def split: prod.splits option.splits)

text \<open>The security headers are pairwise distinct, so setting them sets each.\<close>

lemma security_headers_set:
  "list_all (\<lambda>(k, v). map_of (rs_headers (set_headers (security_headers environment) resp)) k = Some v)
     (security_headers environment)"
  by (cases "environment = ''production''") (simp_all add: map_of_set_headers security_headers_def)

text \<open>An anonymous request to a tool, traced through the limiter with the default limits.\<close>

definition visitor_request :: "string \<Rightarrow> request" where
  "visitor_request ip = \<lparr>rq_type = ''http'', rq_method = ''POST'', rq_path = ''/api/v1/tools/ping'',
     rq_scheme = ''https'', rq_client = Some (ip, 1), rq_headers = [], rq_cookies = [], rq_state = no_state\<rparr>"

definition visitor_limiter :: "string \<Rightarrow> limiter" where
  "visitor_limiter ip = \<lparr>lim_redis = Map.empty,
     lim_mem = [(rate_limit_key ''session'' ''unknown'', [sec 50]), (rate_limit_key ''ip'' ip, [sec 50])]\<rparr>"

lemma visitor_not_special:
  "\<not> py_startswith ''/api/v1/tools/ping'' ''/api/v1/admin/''" "py_startswith ''/api/v1/tools/ping'' ''/api/v1/tools/''"
  by simp_all

lemma default_visitor_limits:
  "db_rate_limits d = [] \<Longrightarrow> get_effective_limits d ROLE_VISITOR None =
     Inr \<lparr>soft_limit = 1, hard_limit = 200, window_seconds = 3600\<rparr>"
  "db_settings d = [] \<Longrightarrow> get_visitor_ip_limits d = (5, 500)"
  by (simp_all add: get_effective_limits_def DEFAULT_LIMITS_def dict_get_def effective_def Let_def
      get_visitor_ip_limits_def)

lemma visitor_identity:
  "rate_identity e d (visitor_request ip) = (ROLE_VISITOR, None, ''unknown'')"
  by (simp add: rate_identity_def visitor_request_def no_state_def get_session_token_def SESSION_COOKIE_NAMES_def)

lemma visitor_first_check:
  "db_rate_limits d = [] \<Longrightarrow> db_settings d = [] \<Longrightarrow>
   check_tool_rate_limit \<lparr>env_storage = ''database'', env_redis_up = up, env_now = sec 50, env_member1 = m1, env_member2 = m2\<rparr>
     d \<lparr>lim_redis = Map.empty, lim_mem = []\<rparr> ROLE_VISITOR None ''unknown'' ip None =
   (Inr (mk_result True 1 1 1 200 1 3600 0 ''none''),
    visitor_limiter ip)"
  by (simp add: check_tool_rate_limit_def default_visitor_limits limiter_check_def check_db_def rate_limit_key_def
     mem_times_def dict_get_def over_limit_def count_after_def compute_result_def mk_result_def drop_stale_def visitor_limiter_def Let_def sec_def)

lemma visitor_second_check:
  "db_rate_limits d = [] \<Longrightarrow> db_settings d = [] \<Longrightarrow>
   check_tool_rate_limit \<lparr>env_storage = ''database'', env_redis_up = up, env_now = sec 50, env_member1 = m1, env_member2 = m2\<rparr>
     d (visitor_limiter ip1) ROLE_VISITOR None ''unknown'' ip None =
   (Inr (mk_result False 1 1 1 200 1 3600 1 ''soft''),
    visitor_limiter ip1)"
  by (simp add: check_tool_rate_limit_def default_visitor_limits limiter_check_def check_db_def rate_limit_key_def
     mem_times_def dict_get_def over_limit_def count_after_def compute_result_def mk_result_def drop_stale_def visitor_limiter_def Let_def sec_def)

text \<open>What the session middleware leaves alone.\<close>

lemma session_attach_frame:
  assumes "session_attach e r w = (r', t, w')"
  shows "w_limiter w' = w_limiter w" "db_rate_limits (w_db w') = db_rate_limits (w_db w)"
    "db_settings (w_db w') = db_settings (w_db w)" "w_auth w' = w_auth w"
proof -
  have ins: "insert_session s d = Inr d' \<Longrightarrow> db_rate_limits d' = db_rate_limits d \<and> db_settings d' = db_settings d"
    for s d d'
    by (auto simp: insert_session_def split: if_splits)
  have cr: "session_create e (d, redis) u ip ua = (res, d', redis') \<Longrightarrow>
      db_rate_limits d' = db_rate_limits d \<and> db_settings d' = db_settings d" for d redis u ip ua res d' redis'
    by (auto simp: session_create_def Let_def dest!: ins split: sum.splits)
  have anon: "attach_anonymous e x y = (r', t, w') \<Longrightarrow> w_limiter w' = w_limiter y \<and> w_auth w' = w_auth y \<and>
      db_rate_limits (w_db w') = db_rate_limits (w_db y) \<and> db_settings (w_db w') = db_settings (w_db y)" for x y
    by (auto simp: attach_anonymous_def create_anonymous_session_def dest!: cr split: prod.splits sum.splits if_splits)
  show "w_limiter w' = w_limiter w" "db_rate_limits (w_db w') = db_rate_limits (w_db w)"
    "db_settings (w_db w') = db_settings (w_db w)" "w_auth w' = w_auth w"
    using assms by (auto simp: session_attach_def Let_def dest!: anon split: option.splits prod.splits)
qed

lemma session_dispatch_frame:
  assumes "\<And>r w. rs_status (fst (k r w)) = n \<and> snd (k r w) = w" "session_dispatch e k r w = (resp, w')"
  shows "rs_status resp = n" "w_limiter w' = w_limiter w" "db_rate_limits (w_db w') = db_rate_limits (w_db w)"
    "db_settings (w_db w') = db_settings (w_db w)"
proof -
  obtain r1 t w1 where att: "session_attach e r w = (r1, t, w1)"
    by (cases "session_attach e r w") auto
  obtain resp1 where k: "k r1 w1 = (resp1, w1)" "rs_status resp1 = n"
    using assms(1) [of r1 w1] by (cases "k r1 w1") auto
  have "w' = w1 \<and> rs_status resp = n"
    using assms(2) k by (auto simp: session_dispatch_def att Let_def set_session_cookie_def set_csrf_cookie_def
        split: option.splits if_splits)
  then show "rs_status resp = n" "w_limiter w' = w_limiter w" "db_rate_limits (w_db w') = db_rate_limits (w_db w)"
    "db_settings (w_db w') = db_settings (w_db w)"
    using session_attach_frame [OF att] by simp_all
qed

lemma visitor_first:
  assumes "\<And>r w. rs_status (fst (k r w)) = 200 \<and> snd (k r w) = w"
    and "db_rate_limits (w_db w) = []" "db_settings (w_db w) = []" "w_limiter w = \<lparr>lim_redis = Map.empty, lim_mem = []\<rparr>"
    and "cfg_storage cfg = ''database''" "e_now e = sec 50" "e_db_up e"
    and "rate_limit_dispatch cfg e (session_dispatch e k) (visitor_request ip) w = (resp, w')"
  shows "rs_status resp = 200" "db_rate_limits (w_db w') = []" "db_settings (w_db w') = []"
    "w_limiter w' = visitor_limiter ip"
proof -
  let ?lim = "visitor_limiter ip"
  obtain resp1 w1 where ses: "session_dispatch e k (visitor_request ip) (w\<lparr>w_limiter := ?lim\<rparr>) = (resp1, w1)"
    by (rule prod.exhaust)
  note frame = session_dispatch_frame [OF assms(1) ses]
  have path: "rq_path (visitor_request ip) = ''/api/v1/tools/ping''" "client_host (visitor_request ip) = ip"
    by (simp_all add: visitor_request_def client_host_def)
  have "w' = w1 \<and> rs_status resp = rs_status resp1"
    using assms(8) unfolding rate_limit_dispatch_def Let_def path visitor_identity
    by (auto simp: RATE_LIMITED_PREFIXES_def rl_env_of_def assms visitor_first_check mk_result_def ses split: if_splits)
  then show "rs_status resp = 200" "db_rate_limits (w_db w') = []" "db_settings (w_db w') = []"
    "w_limiter w' = ?lim"
    using frame assms(2,3) by simp_all
qed

lemma visitor_second:
  assumes "db_rate_limits (w_db w) = []" "db_settings (w_db w) = []" "w_limiter w = visitor_limiter ip1"
    and "cfg_storage cfg = ''database''" "e_now e = sec 50" "e_db_up e"
  shows "rs_status (fst (rate_limit_dispatch cfg e k (visitor_request ip) w)) = 429"
proof -
  have path: "rq_path (visitor_request ip) = ''/api/v1/tools/ping''" "client_host (visitor_request ip) = ip"
    by (simp_all add: visitor_request_def client_host_def)
  show ?thesis
    unfolding rate_limit_dispatch_def Let_def path visitor_identity
    by (simp add: RATE_LIMITED_PREFIXES_def rl_env_of_def assms visitor_second_check mk_result_def)
qed

lemma guard_needs_admin:
  assumes "session_attach e r w = (r', created, w')" "require_admin r' = Inr ()"
  shows "\<exists>token sid u row. get_session_token r = Some token \<and>
    fst (resolve_session e (w_db w, w_redis w) (e_hash e token)) = Some (sid, Some u) \<and>
    row \<in> set (db_users (w_db w)) \<and> u_id row = u \<and> u_role row = ROLE_ADMINISTRATOR"
proof -
  have ne: "ROLE_VISITOR \<noteq> ROLE_ADMINISTRATOR"
    by (simp add: roles)
  have role: "st_role (rq_state r') = Some ROLE_ADMINISTRATOR"
    using assms(2) ne by (auto simp: require_admin_def Let_def split: option.splits if_splits)
  then have no_anon: "attach_anonymous e x y \<noteq> (r', created, w')" for x y
    using attach_anonymous_visitor ne by fastforce
  then obtain token where tok: "get_session_token r = Some token"
    using assms(1) by (cases "get_session_token r") (auto simp: session_attach_def)
  obtain res redis where res: "resolve_session e (w_db w, w_redis w) (e_hash e token) = (res, redis)"
    by (rule prod.exhaust)
  obtain sid user_id where some: "res = Some (sid, user_id)"
      "resolve_role e (w_db w) user_id = ROLE_ADMINISTRATOR"
    using assms(1) no_anon role by (cases res) (auto simp: session_attach_def tok res Let_def)
  obtain u row where "user_id = Some u" "row \<in> set (db_users (w_db w))" "u_id row = u" "u_role row = ROLE_ADMINISTRATOR"
    using resolve_role_administrator [OF some(2)] .
  then show ?thesis
    using tok res some(1) by auto
qed

section \<open>Properties\<close>

text \<open>
  Only an administrator's cookie passes the administrator guard.  If the guard accepts
  the request the session middleware hands on, the request carried a session cookie that the
  cache or the table resolves to a user, and the user table gives that user the administrator
  role at that moment; neither a visitor nor a database outage ever yields the role.
\<close>

lemma admin_guard_sound:
  assumes "session_attach e r w = (r', created, w')" "require_admin r' = Inr ()"
  shows "\<exists>token sid u row. get_session_token r = Some token \<and>
    fst (resolve_session e (w_db w, w_redis w) (e_hash e token)) = Some (sid, Some u) \<and>
    row \<in> set (db_users (w_db w)) \<and> u_id row = u \<and> u_role row = ROLE_ADMINISTRATOR"
  using assms by (rule guard_needs_admin)

lemma admin_guard_sound_witness:
  "\<exists>token sid u row. get_session_token (visitor_request ''h''\<lparr>rq_cookies := [(''sakn_session'', ''h1'')]\<rparr>) = Some token \<and>
    fst (resolve_session sample_env (sample_db\<lparr>db_users := [sample_user\<lparr>u_role := ROLE_ADMINISTRATOR\<rparr>]\<rparr>, sample_redis) token)
      = Some (sid, Some u) \<and> row \<in> set [sample_user\<lparr>u_role := ROLE_ADMINISTRATOR\<rparr>] \<and> u_id row = u"
proof -
  let ?d = "sample_db\<lparr>db_users := [sample_user\<lparr>u_role := ROLE_ADMINISTRATOR\<rparr>]\<rparr>"
  let ?r = "visitor_request ''h''\<lparr>rq_cookies := [(''sakn_session'', ''h1'')]\<rparr>"
  let ?w = "\<lparr>w_db = ?d, w_redis = sample_redis, w_limiter = \<lparr>lim_redis = Map.empty, lim_mem = []\<rparr>, w_auth = [], w_bruteforce = Map.empty, w_mail = []\<rparr>"
  obtain r' c w' where att: "session_attach sample_env ?r ?w = (r', c, w')"
    by (cases "session_attach sample_env ?r ?w") auto
  have "st_role (rq_state r') = Some ROLE_ADMINISTRATOR"
    using att by (simp add: session_attach_def get_session_token_def SESSION_COOKIE_NAMES_def visitor_request_def
        resolve_session_def redis_get_session_def hgetall_def session_key_def Let_def sample_simps sec_def
        dict_get_def resolve_role_def roles) auto
  then have "require_admin r' = Inr ()"
    by (simp add: require_admin_def)
  from admin_guard_sound [OF att this] show ?thesis
    by (simp add: sample_env_def)
qed

text \<open>
  C15: a refused request stops at the limiter.  The answer is a 429 with the retry time, it
  does not depend on the application behind, and apart from the limiter's own counters the
  world is left as it was; in particular the security event the code means to store is not.
\<close>

theorem rate_limited_refusal:
  assumes "list_ex (py_startswith (rq_path r)) RATE_LIMITED_PREFIXES" "e_db_up e"
    and "rate_identity e (w_db w) r = (role, user_id, session_id)"
    and "check_tool_rate_limit (rl_env_of cfg e) (w_db w) (w_limiter w) role user_id session_id (client_host r) None
         = (Inr result, lim)"
    and "\<not> rl_allowed result" "rl_limit_type result = ''soft'' \<or> rl_limit_type result = ''hard''"
  shows "\<exists>resp. rate_limit_dispatch cfg e call_next r w = (resp, w\<lparr>w_limiter := lim\<rparr>) \<and> rs_status resp = 429 \<and>
    map_of (rs_headers resp) ''retry-after'' = Some (str_of_int (rl_retry_after result))"
proof -
  have path: "py_startswith (rq_path r) ''/api/v1/tools/''"
    using assms(1) by (simp add: RATE_LIMITED_PREFIXES_def)
  have admin: "\<not> py_startswith (rq_path r) ''/api/v1/admin/''" and list: "rq_path r \<noteq> ''/api/v1/tools''"
    using path by (auto elim!: py_startswith.elims)
  have "persist_rate_limit_event e ip uid det d = d" for ip uid det d
    by (simp add: persist_rate_limit_event_def construct_event_def SECURITY_EVENT_COLUMNS_def)
  then show ?thesis
    using assms admin list by (auto simp: rate_limit_dispatch_def Let_def build_rate_limit_headers_def)
qed

theorem rate_limited_refusal_witness:
  "\<exists>resp w'. rate_limit_dispatch \<lparr>cfg_environment = ''production'', cfg_storage = ''database'', cfg_trusted_hops = 0\<rparr>
      sample_env (\<lambda>r w. (error_response IntegrityError, w)) (visitor_request ''h'')
      \<lparr>w_db = empty_db, w_redis = sample_redis, w_limiter = visitor_limiter ''g'', w_auth = [], w_bruteforce = Map.empty, w_mail = []\<rparr>
    = (resp, w') \<and> rs_status resp = 429 \<and> map_of (rs_headers resp) ''retry-after'' = Some (str_of_int 1)"
proof -
  let ?cfg = "\<lparr>cfg_environment = ''production'', cfg_storage = ''database'', cfg_trusted_hops = 0\<rparr>"
  let ?w = "\<lparr>w_db = empty_db, w_redis = sample_redis, w_limiter = visitor_limiter ''g'', w_auth = [], w_bruteforce = Map.empty, w_mail = []\<rparr>"
  let ?res = "mk_result False 1 1 1 200 1 3600 1 ''soft''"
  have check: "check_tool_rate_limit (rl_env_of ?cfg sample_env) (w_db ?w) (w_limiter ?w) ROLE_VISITOR None ''unknown''
      (client_host (visitor_request ''h'')) None = (Inr ?res, visitor_limiter ''g'')"
    using visitor_second_check [of empty_db] by (simp add: rl_env_of_def sample_env_def empty_db_def)
  have "\<exists>resp. rate_limit_dispatch ?cfg sample_env (\<lambda>r w. (error_response IntegrityError, w)) (visitor_request ''h'') ?w =
      (resp, ?w\<lparr>w_limiter := visitor_limiter ''g''\<rparr>) \<and> rs_status resp = 429 \<and>
      map_of (rs_headers resp) ''retry-after'' = Some (str_of_int (rl_retry_after ?res))"
    by (rule rate_limited_refusal [OF _ _ visitor_identity check])
       (simp_all add: RATE_LIMITED_PREFIXES_def visitor_request_def sample_env_def mk_result_def)
  then show ?thesis
    by (auto simp: mk_result_def)
qed

text \<open>
  The stack limits all anonymous visitors together.  The limiter runs before the session
  middleware has attached a session, so every request without a user counts for the session
  \<open>unknown\<close>: after one visitor's request, another visitor's from any other address is refused
  within the same second, by the default limits and whatever the application behind.
\<close>

lemma anonymous_visitors_share_bucket:
  "let cfg = \<lparr>cfg_environment = ''production'', cfg_storage = ''database'', cfg_trusted_hops = 0\<rparr>;
       w0 = \<lparr>w_db = empty_db, w_redis = sample_redis, w_limiter = \<lparr>lim_redis = Map.empty, lim_mem = []\<rparr>, w_auth = [], w_bruteforce = Map.empty, w_mail = []\<rparr>;
       router = (\<lambda>r w. (\<lparr>rs_status = 200, rs_headers = [], rs_cookies = [], rs_error = None\<rparr>, w));
       run = app_stack cfg sample_env (\<lambda>h. h) router
   in rs_status (fst (run (visitor_request ip1) w0)) = 200 \<and>
      rs_status (fst (run (visitor_request ip2) (snd (run (visitor_request ip1) w0)))) = 429"
proof -
  let ?cfg = "\<lparr>cfg_environment = ''production'', cfg_storage = ''database'', cfg_trusted_hops = 0\<rparr>"
  let ?w0 = "\<lparr>w_db = empty_db, w_redis = sample_redis, w_limiter = \<lparr>lim_redis = Map.empty, lim_mem = []\<rparr>, w_auth = [], w_bruteforce = Map.empty, w_mail = []\<rparr>"
  let ?k = "\<lambda>r w. request_id_dispatch (e_fresh sample_env ''request_id'')
      (\<lambda>r. (\<lparr>rs_status = 200, rs_headers = [], rs_cookies = [], rs_error = None\<rparr>, w)) r"
  have k: "rs_status (fst (?k r w)) = 200 \<and> snd (?k r w) = w" for r and w :: world
    by (simp add: request_id_dispatch_def)
  obtain resp w1 where first: "rate_limit_dispatch ?cfg sample_env (session_dispatch sample_env ?k)
      (visitor_request ip1) ?w0 = (resp, w1)"
    by (rule prod.exhaust)
  have w1: "rs_status resp = 200" "db_rate_limits (w_db w1) = []" "db_settings (w_db w1) = []"
      "w_limiter w1 = visitor_limiter ip1"
    using visitor_first [OF k _ _ _ _ _ _ first] by (simp_all add: sample_simps)
  have second: "rs_status (fst (rate_limit_dispatch ?cfg sample_env (session_dispatch sample_env ?k)
      (visitor_request ip2) w1)) = 429"
    by (rule visitor_second [OF w1(2-4)]) (simp_all add: sample_simps)
  have path: "rq_path (visitor_request ip) \<notin> set EXEMPT_PATHS" for ip
    by (simp add: visitor_request_def EXEMPT_PATHS_def)
  show ?thesis
    using w1(1) second path
    by (simp add: Let_def app_stack_def security_headers_dispatch_def trusted_proxy_def first case_prod_beta)
qed

text \<open>
  Every answer of the stack carries the security headers, those of the limiter included,
  unless the path is one of the documentation pages.
\<close>

lemma stack_security_headers:
  "rq_path r \<in> set EXEMPT_PATHS \<or>
   list_all (\<lambda>(k, v). map_of (rs_headers (fst (app_stack cfg e cors router r w))) k = Some v)
     (security_headers (cfg_environment cfg))"
proof -
  have "rq_path (trusted_proxy hops r) = rq_path r" for hops
    by (simp add: trusted_proxy_def Let_def)
  then show ?thesis
    using security_headers_set by (auto simp: app_stack_def security_headers_dispatch_def split: prod.split)
qed

end

