(* ===== verification/Json.thy ===== *)
theory Json
  imports Sakn_Prelude Complex_Main
begin

text \<open>
  The values the services pass to \<open>json.dumps\<close> and its text, with the default separators and
  the escapes of \<open>ensure_ascii\<close>; objects keep the order of their keys.
\<close>

section \<open>Floating-point numbers\<close>

text \<open>
  A \<open>float\<close> that is no infinity and no NaN is given by its shortest decimal; the rounding to 53 bits
  is left out, and so is the sign of a zero.
\<close>

datatype float_value = Finite rat | Infinite bool | NaN

definition drop_sign :: "string \<Rightarrow> string" where
  "drop_sign s = (case s of c # cs \<Rightarrow> if c = CHR ''+'' \<or> c = CHR ''-'' then cs else s | [] \<Rightarrow> [])"

text \<open>The digits of an optional part of a number.\<close>

definition digits_or_none :: "string \<Rightarrow> string option" where
  "digits_or_none s = (if s = [] then Some [] else strip_underscores s)"

text \<open>\<open>whole.frac\<close>: a point, or digits, or both, but a digit.\<close>

definition read_decimal :: "string \<Rightarrow> rat option" where
  "read_decimal s =
     (case py_partition (CHR ''.'') s of
        (whole, _, decs) \<Rightarrow>
          if whole = [] \<and> decs = [] then None
          else (case (digits_or_none whole, digits_or_none decs) of
              (Some w, Some f) \<Rightarrow> Some (of_nat (nat_of_digits (w @ f)) / 10 ^ length f)
            | _ \<Rightarrow> None))"

text \<open>The power of ten an exponent stands for.\<close>

definition read_exponent :: "string \<Rightarrow> rat option" where
  "read_exponent s =
     map_option (\<lambda>d. if py_startswith s ''-'' then 1 / 10 ^ nat_of_digits d else 10 ^ nat_of_digits d)
       (strip_underscores (drop_sign s))"

text \<open>The numbers from \<open>2 ^ 1024 - 2 ^ 970\<close> on are read as infinite.\<close>

definition FLOAT_LIMIT :: rat where
  "FLOAT_LIMIT = 179769313486231580793728971405303415079934132710037826936173778980444968292764750946649017977587207096330286416692887910946555547851940402630657488671505820681908902000708383676273854845817711531764475730270069855571366959622842914819860834936475292719074168444365510704342711559699508093042880177904174497792"

definition finite_or_infinite :: "bool \<Rightarrow> rat \<Rightarrow> float_value" where
  "finite_or_infinite negative q =
     (if q \<ge> FLOAT_LIMIT then Infinite negative else Finite (if negative then - q else q))"

text \<open>\<open>float(s)\<close>; \<open>None\<close> is \<open>ValueError\<close>.\<close>

definition py_float :: "string \<Rightarrow> float_value option" where
  "py_float t =
     (let negative = py_startswith (py_strip t) ''-'';
          s = py_lower (drop_sign (py_strip t))
      in if s = ''inf'' \<or> s = ''infinity'' then Some (Infinite negative)
         else if s = ''nan'' then Some NaN
         else (case py_partition (CHR ''e'') s of
             (mantissa, has_exp, ten) \<Rightarrow>
               (case (read_decimal mantissa, if has_exp then read_exponent ten else Some 1) of
                  (Some m, Some p) \<Rightarrow> Some (finite_or_infinite negative (m * p))
                | _ \<Rightarrow> None)))"

text \<open>
  \<open>repr\<close> of a \<open>float\<close>: at least one digit after the point, an exponent below \<open>10 ^ -4\<close> and from
  \<open>10 ^ 16\<close> on.
\<close>

fun places :: "nat \<Rightarrow> rat \<Rightarrow> nat" where
  "places 0 q = 0"
| "places (Suc n) q = (if snd (quotient_of q) = 1 then 0 else Suc (places n (q * 10)))"

definition fixed_text :: "nat \<Rightarrow> rat \<Rightarrow> string" where
  "fixed_text least q =
     (let k = max least (places 800 q);
          n = nat \<lfloor>q * 10 ^ k\<rfloor>;
          decs = str_of_nat (n mod 10 ^ k)
      in str_of_nat (n div 10 ^ k) @ (if k = 0 then [] else ''.'' @ replicate (k - length decs) (CHR ''0'') @ decs))"

fun tens_below :: "nat \<Rightarrow> rat \<Rightarrow> nat" where
  "tens_below 0 q = 0"
| "tens_below (Suc n) q = (if q < 10 then 0 else Suc (tens_below n (q / 10)))"

fun tens_above :: "nat \<Rightarrow> rat \<Rightarrow> nat" where
  "tens_above 0 q = 0"
| "tens_above (Suc n) q = (if 1 \<le> q then 0 else Suc (tens_above n (q * 10)))"

definition two_digits :: "nat \<Rightarrow> string" where
  "two_digits n = (if n < 10 then ''0'' @ str_of_nat n else str_of_nat n)"

definition finite_text :: "rat \<Rightarrow> string" where
  "finite_text q =
     (let a = \<bar>q\<bar>
      in (if q < 0 then ''-'' else []) @
         (if a = 0 \<or> 1 / 10000 \<le> a \<and> a < 10 ^ 16 then fixed_text 1 a
          else if 1 \<le> a then (let e = tens_below 400 a in fixed_text 0 (a / 10 ^ e) @ ''e+'' @ two_digits e)
          else (let e = tens_above 400 a in fixed_text 0 (a * 10 ^ e) @ ''e-'' @ two_digits e)))"

fun float_repr :: "float_value \<Rightarrow> string" where
  "float_repr (Finite q) = finite_text q"
| "float_repr (Infinite negative) = (if negative then ''-inf'' else ''inf'')"
| "float_repr NaN = ''nan''"

fun json_float :: "float_value \<Rightarrow> string" where
  "json_float (Finite q) = finite_text q"
| "json_float (Infinite negative) = (if negative then ''-Infinity'' else ''Infinity'')"
| "json_float NaN = ''NaN''"

section \<open>JSON texts\<close>

datatype json =
    JNull
  | JBool bool
  | JInt int
  | JFloat float_value
  | JStr string
  | JList "json list"
  | JObj "(string \<times> json) list"

definition hex_digit :: "nat \<Rightarrow> char" where
  "hex_digit n = (if n < 10 then char_of (48 + n) else char_of (87 + n))"

definition json_char :: "char \<Rightarrow> string" where
  "json_char c = (let n = (of_char c :: nat) in
     if c = CHR 0x22 then [CHR 0x5C, CHR 0x22]
     else if c = CHR 0x5C then [CHR 0x5C, CHR 0x5C]
     else if n = 10 then [CHR 0x5C, CHR ''n'']
     else if n = 13 then [CHR 0x5C, CHR ''r'']
     else if n = 9 then [CHR 0x5C, CHR ''t'']
     else if n = 8 then [CHR 0x5C, CHR ''b'']
     else if n = 12 then [CHR 0x5C, CHR ''f'']
     else if n < 32 \<or> 126 < n then [CHR 0x5C, CHR ''u'', CHR ''0'', CHR ''0'', hex_digit (n div 16), hex_digit (n mod 16)]
     else [c])"

definition json_string :: "string \<Rightarrow> string" where
  "json_string s = [CHR 0x22] @ concat (map json_char s) @ [CHR 0x22]"

fun json_dumps :: "json \<Rightarrow> string" where
  "json_dumps JNull = ''null''"
| "json_dumps (JBool b) = (if b then ''true'' else ''false'')"
| "json_dumps (JInt i) = str_of_int i"
| "json_dumps (JFloat f) = json_float f"
| "json_dumps (JStr s) = json_string s"
| "json_dumps (JList js) = ''['' @ py_join '', '' (map json_dumps js) @ '']''"
| "json_dumps (JObj kvs) = ''{'' @ py_join '', '' (map (\<lambda>kv. json_string (fst kv) @ '': '' @ json_dumps (snd kv)) kvs) @ ''}''"

fun json_opt :: "string option \<Rightarrow> json" where
  "json_opt None = JNull"
| "json_opt (Some s) = JStr s"

section \<open>Python's text of a value\<close>

text \<open>\<open>repr\<close> of a string: single quotes unless only they occur in it.\<close>

definition repr_char :: "char \<Rightarrow> char \<Rightarrow> string" where
  "repr_char q c = (let n = (of_char c :: nat) in
     if c = q \<or> c = CHR 0x5C then [CHR 0x5C, c]
     else if n = 10 then [CHR 0x5C, CHR ''n'']
     else if n = 13 then [CHR 0x5C, CHR ''r'']
     else if n = 9 then [CHR 0x5C, CHR ''t'']
     else if n < 32 \<or> 127 \<le> n \<and> n \<le> 160 \<or> n = 173
       then [CHR 0x5C, CHR ''x'', hex_digit (n div 16), hex_digit (n mod 16)]
     else [c])"

definition repr_string :: "string \<Rightarrow> string" where
  "repr_string s =
     (let q = (if CHR 0x27 \<in> set s \<and> CHR 0x22 \<notin> set s then CHR 0x22 else CHR 0x27)
      in [q] @ concat (map (repr_char q) s) @ [q])"

fun py_repr :: "json \<Rightarrow> string" where
  "py_repr JNull = ''None''"
| "py_repr (JBool b) = (if b then ''True'' else ''False'')"
| "py_repr (JInt i) = str_of_int i"
| "py_repr (JFloat f) = float_repr f"
| "py_repr (JStr s) = repr_string s"
| "py_repr (JList js) = ''['' @ py_join '', '' (map py_repr js) @ '']''"
| "py_repr (JObj kvs) = ''{'' @ py_join '', '' (map (\<lambda>kv. repr_string (fst kv) @ '': '' @ py_repr (snd kv)) kvs) @ ''}''"

definition py_str :: "json \<Rightarrow> string" where
  "py_str v = (case v of JStr s \<Rightarrow> s | _ \<Rightarrow> py_repr v)"

end
