(* ===== verification/Auth.thy ===== *)
theory Auth
  imports Middleware Json
begin

text \<open>
  \<open>app/services/auth_service.py\<close>, \<open>app/security/password.py\<close> and the endpoints of
  \<open>app/api/v1/endpoints/auth.py\<close>: registration, e-mail verification, login with its lockouts,
  logout and password reset.
\<close>

section \<open>Parameters\<close>

text \<open>
  Argon2 (\<open>ac_verify\<close> plain hash, \<open>ac_hash_password\<close>) and zxcvbn (\<open>ac_guesses_ok\<close>: at least
  30 bits) are parameters; the rest are settings.
\<close>

record auth_cfg =
  ac_verify :: "string \<Rightarrow> string \<Rightarrow> bool"
  ac_hash_password :: "string \<Rightarrow> string"
  ac_guesses_ok :: "string \<Rightarrow> bool"
  ac_verification_required :: bool
  ac_ip_max :: int
  ac_ip_window :: int
  ac_frontend :: string
  ac_smtp :: bool

text \<open>
  A service gives its result, the world with the uncommitted changes, and the database as last
  committed, which is what remains when the endpoint then raises.
\<close>

type_synonym 'a svc = "(exn + 'a) \<times> world \<times> db"

section \<open>Passwords\<close>

definition validate_password_strength :: "auth_cfg \<Rightarrow> string \<Rightarrow> bool \<times> string option" where
  "validate_password_strength c password =
     (if length password < 8 then (False, Some ''errors.password_too_short'')
      else if length password > 128 then (False, Some ''errors.password_too_long'')
      else (let has_upper = list_ex (\<lambda>c. 65 \<le> (of_char c :: nat) \<and> of_char c \<le> (90 :: nat)) password;
                has_lower = list_ex (\<lambda>c. 97 \<le> (of_char c :: nat) \<and> of_char c \<le> (122 :: nat)) password;
                has_digit = list_ex is_digit password
            in if \<not> (has_upper \<and> has_lower \<and> has_digit) then (False, Some ''errors.password_too_weak'')
               else if \<not> ac_guesses_ok c (take 72 password) then (False, Some ''errors.password_too_weak'')
               else (True, None)))"

section \<open>Lockouts\<close>

text \<open>Thresholds with durations in seconds.\<close>

definition BRUTE_FORCE_TIERS :: "(int \<times> int) list" where
  "BRUTE_FORCE_TIERS = [(5, 300), (10, 900), (15, 2700), (20, 5400)]"

definition brute_force_duration :: "int \<Rightarrow> int option" where
  "brute_force_duration failed_count =
     map_option snd (find (\<lambda>(threshold, duration). failed_count \<ge> threshold) BRUTE_FORCE_TIERS)"

definition check_brute_force_lock :: "tstamp \<Rightarrow> user \<Rightarrow> bool \<times> string option" where
  "check_brute_force_lock now user =
     (if u_status user = ''blocked'' then (True, Some ''errors.user_blocked'')
      else if u_status user = ''locked'' then (True, Some ''errors.user_locked'')
      else (case u_locked_until user of
              Some locked \<Rightarrow> if locked > now then (True, Some ''errors.account_locked'') else (False, None)
            | None \<Rightarrow> (False, None)))"

definition bf_key :: "string \<Rightarrow> string" where
  "bf_key source_ip = ''bruteforce:ip:'' @ source_ip"

definition bf_count :: "tstamp \<Rightarrow> world \<Rightarrow> string \<Rightarrow> int option" where
  "bf_count now w key = (case w_bruteforce w key of
     None \<Rightarrow> None | Some (n, expire) \<Rightarrow> if expire \<le> now then None else Some n)"

definition check_ip_bruteforce :: "auth_cfg \<Rightarrow> env \<Rightarrow> world \<Rightarrow> string \<Rightarrow> bool" where
  "check_ip_bruteforce c e w source_ip =
     (if \<not> e_redis_up e then False
      else (case bf_count (e_now e) w (bf_key source_ip) of
              None \<Rightarrow> False
            | Some n \<Rightarrow> n \<ge> ac_ip_max c))"

text \<open>\<open>INCR\<close> and \<open>EXPIRE\<close> in one pipeline: the window slides with every failure.\<close>

definition record_ip_bruteforce :: "auth_cfg \<Rightarrow> env \<Rightarrow> string \<Rightarrow> world \<Rightarrow> world" where
  "record_ip_bruteforce c e source_ip w =
     (if \<not> e_redis_up e then w
      else w\<lparr>w_bruteforce := (w_bruteforce w)(bf_key source_ip \<mapsto>
             (or_default (bf_count (e_now e) w (bf_key source_ip)) 0 + 1, e_now e + sec (ac_ip_window c)))\<rparr>)"

section \<open>Rows\<close>

text \<open>Assigning attributes of a user: \<open>updated_at\<close> moves when something changed.\<close>

definition save_user :: "tstamp \<Rightarrow> (user \<Rightarrow> user) \<Rightarrow> user \<Rightarrow> user" where
  "save_user now f u = (if f u = u then u else (f u)\<lparr>u_updated_at := now\<rparr>)"

definition update_user :: "tstamp \<Rightarrow> string \<Rightarrow> (user \<Rightarrow> user) \<Rightarrow> db \<Rightarrow> db" where
  "update_user now i f d = d\<lparr>db_users := update_where (\<lambda>u. u_id u = i) (save_user now f) (db_users d)\<rparr>"

definition user_by_email :: "db \<Rightarrow> string \<Rightarrow> exn + user option" where
  "user_by_email d email = scalar_one_or_none (filter (\<lambda>u. u_email u = email) (db_users d))"

definition user_by_id :: "db \<Rightarrow> string \<Rightarrow> exn + user option" where
  "user_by_id d i = scalar_one_or_none (filter (\<lambda>u. u_id u = i) (db_users d))"

definition normalize_email :: "string \<Rightarrow> string" where
  "normalize_email email = py_strip (py_lower email)"

definition hash_email_for_log :: "env \<Rightarrow> string \<Rightarrow> string" where
  "hash_email_for_log e email = e_hash e (py_lower (py_strip email))"

definition log_security_event :: "env \<Rightarrow> string \<Rightarrow> string \<Rightarrow> string option \<Rightarrow> (string \<times> json) list \<Rightarrow> db \<Rightarrow> db" where
  "log_security_event e event_type source_ip user_id details d =
     d\<lparr>db_events := db_events d @ [\<lparr>ev_id = e_fresh e ''event_id'', ev_event_type = event_type,
         ev_source_ip = source_ip, ev_user_id = user_id, ev_details = json_dumps (JObj details),
         ev_created_at = e_now e\<rparr>]\<rparr>"

definition mail_token_of :: "env \<Rightarrow> string \<Rightarrow> int \<Rightarrow> string \<Rightarrow> mail_token" where
  "mail_token_of e user_id ttl token =
     \<lparr>mt_id = e_fresh e ''mail_token_id'', mt_user_id = user_id, mt_token_hash = e_hash e token,
      mt_expires_at = e_now e + sec ttl, mt_used = False, mt_created_at = e_now e\<rparr>"

definition insert_mail_token :: "mail_token \<Rightarrow> mail_token list \<Rightarrow> exn + mail_token list" where
  "insert_mail_token t ts =
     (if mt_token_hash t \<in> set (map mt_token_hash ts) then Inl IntegrityError else Inr (ts @ [t]))"

definition send_email :: "auth_cfg \<Rightarrow> string \<Rightarrow> string \<Rightarrow> string \<Rightarrow> world \<Rightarrow> world" where
  "send_email c to subject url w =
     (if \<not> ac_smtp c then w else w\<lparr>w_mail := w_mail w @ [(to, subject, url)]\<rparr>)"

definition VERIFICATION_TOKEN_TTL :: int where "VERIFICATION_TOKEN_TTL = 86400"
definition RESET_TOKEN_TTL :: int where "RESET_TOKEN_TTL = 3600"

section \<open>Registration and verification\<close>

definition new_user :: "auth_cfg \<Rightarrow> env \<Rightarrow> string \<Rightarrow> string \<Rightarrow> string \<Rightarrow> string \<Rightarrow> user" where
  "new_user c e email password first_name last_name =
     \<lparr>u_id = e_fresh e ''user_id'', u_email = email, u_password_hash = ac_hash_password c password,
      u_role = ROLE_AUTHENTICATED, u_status = ''pending'', u_failed_login_attempts = 0, u_locked_until = None,
      u_admin_notes = None, u_first_name = Some (py_strip first_name), u_last_name = Some (py_strip last_name),
      u_email_verified_at = None, u_created_at = e_now e, u_updated_at = e_now e\<rparr>"

definition register_user ::
    "auth_cfg \<Rightarrow> env \<Rightarrow> world \<Rightarrow> string \<Rightarrow> string \<Rightarrow> string \<Rightarrow> string \<Rightarrow> string \<Rightarrow> string \<Rightarrow> string svc" where
  "register_user c e w raw_email password password_confirm first_name last_name source_ip =
     (let d = w_db w;
          email = normalize_email raw_email
      in if py_strip first_name = [] then (Inr ''errors.validation'', w, d)
         else if py_strip last_name = [] then (Inr ''errors.validation'', w, d)
         else if password \<noteq> password_confirm then (Inr ''errors.password_mismatch'', w, d)
         else (case validate_password_strength c password of
             (valid, err_key) \<Rightarrow>
           if \<not> valid then (Inr (or_default err_key []), w, d)
           else if email \<in> set (map u_email (db_users d)) then
             (Inr ''auth.registration_success'',
              w\<lparr>w_db := log_security_event e ''registration_duplicate'' source_ip None
                   [(''email_hash'', JStr (hash_email_for_log e email))] d\<rparr>, d)
           else
             (let user = new_user c e email password first_name last_name;
                  token = e_fresh e ''token''
              in case insert_mail_token (mail_token_of e (u_id user) VERIFICATION_TOKEN_TTL token) (db_verifications d) of
                   Inl x \<Rightarrow> (Inl x, w, d)
                 | Inr ts \<Rightarrow>
                     (let d1 = log_security_event e ''registration'' source_ip (Some (u_id user)) []
                            (d\<lparr>db_users := db_users d @ [user], db_verifications := ts\<rparr>)
                      in (Inr ''auth.registration_success'',
                          send_email c email ''Verify your SAKN account''
                            (ac_frontend c @ ''/verify-email?token='' @ token) (w\<lparr>w_db := d1\<rparr>), d1)))))"

definition verify_email :: "env \<Rightarrow> world \<Rightarrow> string \<Rightarrow> (bool \<times> string) svc" where
  "verify_email e w token =
     (let d = w_db w; token_hash = e_hash e token
      in case scalar_one_or_none (filter (\<lambda>v. mt_token_hash v = token_hash) (db_verifications d)) of
           Inl x \<Rightarrow> (Inl x, w, d)
         | Inr None \<Rightarrow> (Inr (False, ''errors.token_used''), w, d)
         | Inr (Some verification) \<Rightarrow>
             if mt_used verification then (Inr (False, ''errors.token_used''), w, d)
             else if mt_expires_at verification < e_now e then (Inr (False, ''errors.token_expired''), w, d)
             else
               (let d1 = d\<lparr>db_verifications := update_where (\<lambda>v. mt_id v = mt_id verification)
                              (mt_used_update (\<lambda>_. True)) (db_verifications d)\<rparr>
                in case user_by_id d1 (mt_user_id verification) of
                     Inl x \<Rightarrow> (Inl x, w, d)
                   | Inr None \<Rightarrow> (Inr (False, ''errors.not_found''), w\<lparr>w_db := d1\<rparr>, d)
                   | Inr (Some user) \<Rightarrow>
                       (Inr (True, ''auth.email_verified''),
                        w\<lparr>w_db := update_user (e_now e) (u_id user)
                             (\<lambda>u. u\<lparr>u_status := ''active'', u_email_verified_at := Some (e_now e)\<rparr>) d1\<rparr>, d)))"

definition resend_verification :: "auth_cfg \<Rightarrow> env \<Rightarrow> world \<Rightarrow> string \<Rightarrow> string \<Rightarrow> string svc" where
  "resend_verification c e w user_id source_ip =
     (let d = w_db w
      in case user_by_id d user_id of
           Inl x \<Rightarrow> (Inl x, w, d)
         | Inr None \<Rightarrow> (Inr ''auth.verification_resent'', w, d)
         | Inr (Some user) \<Rightarrow>
             if u_email_verified_at user \<noteq> None then (Inr ''auth.verification_resent'', w, d)
             else
               (let token = e_fresh e ''token''
                in case insert_mail_token (mail_token_of e (u_id user) VERIFICATION_TOKEN_TTL token) (db_verifications d) of
                     Inl x \<Rightarrow> (Inl x, w, d)
                   | Inr ts \<Rightarrow>
                       (let d1 = d\<lparr>db_verifications := ts\<rparr>;
                            w1 = send_email c (u_email user) ''Verify your SAKN account''
                              (ac_frontend c @ ''/verify-email?token='' @ token) (w\<lparr>w_db := d1\<rparr>)
                        in (Inr ''auth.verification_resent'',
                            w1\<lparr>w_db := log_security_event e ''verification_resent'' source_ip (Some (u_id user)) [] d1\<rparr>,
                            d1))))"

section \<open>Login and logout\<close>

record user_view =
  vw_id :: string
  vw_email :: string
  vw_first_name :: "string option"
  vw_last_name :: "string option"
  vw_role :: string
  vw_status :: string
  vw_email_verified :: bool
  vw_locale :: string
  vw_created_at :: tstamp

definition view_user :: "string \<Rightarrow> user \<Rightarrow> user_view" where
  "view_user locale u =
     \<lparr>vw_id = u_id u, vw_email = u_email u, vw_first_name = u_first_name u, vw_last_name = u_last_name u,
      vw_role = u_role u, vw_status = u_status u, vw_email_verified = (u_email_verified_at u \<noteq> None),
      vw_locale = locale, vw_created_at = u_created_at u\<rparr>"

definition locale_of :: "db \<Rightarrow> string \<Rightarrow> string" where
  "locale_of d user_id =
     (case scalar_one_or_none (filter (\<lambda>p. up_user_id p = Some user_id \<and> up_key p = ''locale'') (db_preferences d)) of
        Inr (Some p) \<Rightarrow> up_value p
      | _ \<Rightarrow> ''en-US'')"

text \<open>The result dictionary: a failure with its key, or the user and the session.\<close>

datatype login_result = LoginFailed string | LoginOk user_view string string string

definition login_denied :: "auth_cfg \<Rightarrow> env \<Rightarrow> world \<Rightarrow> user \<Rightarrow> string \<Rightarrow> login_result svc" where
  "login_denied c e w user source_ip =
     (let w1 = record_ip_bruteforce c e source_ip w;
          failed = u_failed_login_attempts user + 1;
          d1 = update_user (e_now e) (u_id user)
                 (\<lambda>u. u\<lparr>u_failed_login_attempts := failed,
                        u_locked_until := (case brute_force_duration failed of
                            Some duration \<Rightarrow> Some (e_now e + sec duration) | None \<Rightarrow> u_locked_until u)\<rparr>) (w_db w);
          d2 = log_security_event e ''login_failed'' source_ip (Some (u_id user)) [(''failed_attempts'', JInt failed)] d1
      in (Inr (LoginFailed ''errors.invalid_credentials''), w1\<lparr>w_db := d2\<rparr>, d2))"

definition login_accepted ::
    "auth_cfg \<Rightarrow> env \<Rightarrow> world \<Rightarrow> user \<Rightarrow> string \<Rightarrow> string option \<Rightarrow> login_result svc" where
  "login_accepted c e w user source_ip user_agent =
     (let d = w_db w;
          reset = (\<lambda>u. u\<lparr>u_failed_login_attempts := 0, u_locked_until := None\<rparr>);
          d1 = update_user (e_now e) (u_id user) reset d
      in if ac_verification_required c \<and> u_email_verified_at user = None
         then (Inr (LoginFailed ''errors.email_not_verified''), w\<lparr>w_db := d1\<rparr>, d)
         else (case session_create e (d1, w_redis w) (Some (u_id user)) source_ip user_agent of
             (Inl x, _, redis) \<Rightarrow> (Inl x, w\<lparr>w_redis := redis\<rparr>, d)
           | (Inr (session_token, session), d2, redis) \<Rightarrow>
               (let d3 = log_security_event e ''login_success'' source_ip (Some (u_id user)) [] d2
                in (Inr (LoginOk (view_user (locale_of d2 (u_id user)) (save_user (e_now e) reset user))
                           session_token (e_hash e session_token) (s_id session)),
                    w\<lparr>w_db := d3, w_redis := redis\<rparr>, d))))"

definition login ::
    "auth_cfg \<Rightarrow> env \<Rightarrow> world \<Rightarrow> string \<Rightarrow> string \<Rightarrow> string \<Rightarrow> string option \<Rightarrow> login_result svc" where
  "login c e w raw_email password source_ip user_agent =
     (let d = w_db w; email = normalize_email raw_email
      in if check_ip_bruteforce c e w source_ip then (Inr (LoginFailed ''errors.rate_limited''), w, d)
         else (case user_by_email d email of
             Inl x \<Rightarrow> (Inl x, w, d)
           | Inr None \<Rightarrow>
               (let w1 = record_ip_bruteforce c e source_ip w;
                    d1 = log_security_event e ''login_failed_no_user'' source_ip None
                           [(''email_hash'', JStr (hash_email_for_log e email))] d
                in (Inr (LoginFailed ''errors.invalid_credentials''), w1\<lparr>w_db := d1\<rparr>, d1))
           | Inr (Some user) \<Rightarrow>
               (case check_brute_force_lock (e_now e) user of
                  (is_locked, lock_key) \<Rightarrow>
                    if is_locked then
                      (let d1 = log_security_event e ''login_blocked'' source_ip (Some (u_id user))
                              [(''reason'', json_opt lock_key)] d
                       in (Inr (LoginFailed ''errors.invalid_credentials''), w\<lparr>w_db := d1\<rparr>, d1))
                    else if \<not> ac_verify c password (u_password_hash user) then login_denied c e w user source_ip
                    else login_accepted c e w user source_ip user_agent)))"

definition logout :: "env \<Rightarrow> world \<Rightarrow> string \<Rightarrow> unit svc" where
  "logout e w token_hash =
     (case session_by_hash (w_db w) token_hash of
        Inl x \<Rightarrow> (Inl x, w, w_db w)
      | Inr s \<Rightarrow>
          (let d1 = (case s of None \<Rightarrow> w_db w | Some x \<Rightarrow> delete_sessions (\<lambda>y. s_id y = s_id x) (w_db w))
           in (Inr (), w\<lparr>w_db := d1, w_redis := redis_delete_session e (w_redis w) token_hash\<rparr>, w_db w)))"

section \<open>Password reset\<close>

definition request_password_reset :: "auth_cfg \<Rightarrow> env \<Rightarrow> world \<Rightarrow> string \<Rightarrow> string \<Rightarrow> string svc" where
  "request_password_reset c e w raw_email source_ip =
     (let d = w_db w; email = normalize_email raw_email
      in case user_by_email d email of
           Inl x \<Rightarrow> (Inl x, w, d)
         | Inr None \<Rightarrow>
             (Inr ''auth.reset_email_sent'',
              w\<lparr>w_db := log_security_event e ''password_reset_request_no_user'' source_ip None
                   [(''email_hash'', JStr (hash_email_for_log e email))] d\<rparr>, d)
         | Inr (Some user) \<Rightarrow>
             (let token = e_fresh e ''token''
              in case insert_mail_token (mail_token_of e (u_id user) RESET_TOKEN_TTL token) (db_resets d) of
                   Inl x \<Rightarrow> (Inl x, w, d)
                 | Inr ts \<Rightarrow>
                     (let d1 = log_security_event e ''password_reset_request'' source_ip (Some (u_id user)) []
                            (d\<lparr>db_resets := ts\<rparr>)
                      in (Inr ''auth.reset_email_sent'',
                          send_email c email ''Reset your SAKN password''
                            (ac_frontend c @ ''/reset-password?token='' @ token) (w\<lparr>w_db := d1\<rparr>), d1))))"

definition reset_password ::
    "auth_cfg \<Rightarrow> env \<Rightarrow> world \<Rightarrow> string \<Rightarrow> string \<Rightarrow> string \<Rightarrow> string \<Rightarrow> (bool \<times> string) svc" where
  "reset_password c e w token password password_confirm source_ip =
     (let d = w_db w
      in if password \<noteq> password_confirm then (Inr (False, ''errors.password_mismatch''), w, d)
         else (case validate_password_strength c password of
             (valid, err_key) \<Rightarrow>
           if \<not> valid then (Inr (False, or_default err_key []), w, d)
           else (case scalar_one_or_none (filter (\<lambda>v. mt_token_hash v = e_hash e token) (db_resets d)) of
               Inl x \<Rightarrow> (Inl x, w, d)
             | Inr None \<Rightarrow> (Inr (False, ''errors.token_used''), w, d)
             | Inr (Some reset) \<Rightarrow>
                 if mt_used reset then (Inr (False, ''errors.token_used''), w, d)
                 else if mt_expires_at reset < e_now e then (Inr (False, ''errors.token_expired''), w, d)
                 else
                   (let d1 = d\<lparr>db_resets := update_where (\<lambda>v. mt_id v = mt_id reset)
                                  (mt_used_update (\<lambda>_. True)) (db_resets d)\<rparr>
                    in case user_by_id d1 (mt_user_id reset) of
                         Inl x \<Rightarrow> (Inl x, w, d)
                       | Inr None \<Rightarrow> (Inr (False, ''errors.not_found''), w\<lparr>w_db := d1\<rparr>, d)
                       | Inr (Some user) \<Rightarrow>
                           (let d2 = update_user (e_now e) (u_id user)
                                  (\<lambda>u. u\<lparr>u_password_hash := ac_hash_password c password,
                                         u_failed_login_attempts := 0, u_locked_until := None\<rparr>) d1
                            in case revoke_all_for_user e (d2, w_redis w) (u_id user) None of
                                 (_, d3, redis) \<Rightarrow>
                                   (Inr (True, ''auth.password_reset_success''),
                                    w\<lparr>w_db := log_security_event e ''password_reset'' source_ip (Some (u_id user)) [] d3,
                                      w_redis := redis\<rparr>, d))))))"

section \<open>Endpoints\<close>

text \<open>
  An endpoint returns normally, and \<open>get_session\<close> commits, or raises, and only what the
  service committed remains of the database.
\<close>

definition rolled_back :: "world \<Rightarrow> db \<Rightarrow> world" where
  "rolled_back w d = w\<lparr>w_db := d\<rparr>"

definition limited :: "env \<Rightarrow> string \<Rightarrow> string \<Rightarrow> world \<Rightarrow> (exn + unit) \<times> world" where
  "limited e key limit_name w =
     (case enforce_rate_limit (e_now e) (w_auth w) key limit_name of (res, ac) \<Rightarrow> (res, w\<lparr>w_auth := ac\<rparr>))"

record register_body =
  rb_email :: string
  rb_password :: string
  rb_password_confirm :: string
  rb_first_name :: string
  rb_last_name :: string

definition register_endpoint ::
    "auth_cfg \<Rightarrow> env \<Rightarrow> register_body \<Rightarrow> request \<Rightarrow> world \<Rightarrow> (exn + int \<times> string) \<times> world" where
  "register_endpoint c e body r w =
     (case limited e (''ip:'' @ client_host r) ''register'' w of
        (Inl x, w1) \<Rightarrow> (Inl x, w1)
      | (Inr _, w1) \<Rightarrow>
          (case register_user c e w1 (rb_email body) (rb_password body) (rb_password_confirm body)
                  (rb_first_name body) (rb_last_name body) (client_host r) of
             (Inl x, w2, committed) \<Rightarrow> (Inl x, rolled_back w2 committed)
           | (Inr msg_key, w2, _) \<Rightarrow>
               (Inr (if msg_key = ''auth.registration_success'' then 201 else 200, msg_key), w2)))"

definition login_endpoint ::
    "auth_cfg \<Rightarrow> env \<Rightarrow> string \<Rightarrow> string \<Rightarrow> request \<Rightarrow> world \<Rightarrow> (exn + user_view \<times> response) \<times> world" where
  "login_endpoint c e email password r w =
     (case limited e (''ip:'' @ client_host r) ''login'' w of
        (Inl x, w1) \<Rightarrow> (Inl x, w1)
      | (Inr _, w1) \<Rightarrow>
          (case login c e w1 email password (client_host r) (header ''user-agent'' r) of
             (Inl x, w2, committed) \<Rightarrow> (Inl x, rolled_back w2 committed)
           | (Inr (LoginFailed key), w2, committed) \<Rightarrow>
               (if key = ''errors.rate_limited''
                then (Inl (AppError 429 ''RATE_LIMIT_EXCEEDED'' ''errors.rate_limited''), rolled_back w2 committed)
                else (Inl (AppError 401 ''INVALID_CREDENTIALS'' key), rolled_back w2 committed))
           | (Inr (LoginOk user session_token _ _), w2, _) \<Rightarrow>
               (let is_secure = (rq_scheme r = ''https'')
                in (Inr (user, set_csrf_cookie (e_fresh e ''csrf'') is_secure
                          (set_session_cookie session_token is_secure
                            \<lparr>rs_status = 200, rs_headers = [], rs_cookies = [], rs_error = None\<rparr>)), w2))))"

definition logout_endpoint :: "env \<Rightarrow> request \<Rightarrow> world \<Rightarrow> (exn + response) \<times> world" where
  "logout_endpoint e r w =
     (case csrf_required r of
        Inl x \<Rightarrow> (Inl x, w)
      | Inr _ \<Rightarrow>
          (let answer = delete_session_cookie (rq_scheme r = ''https'')
                 \<lparr>rs_status = 200, rs_headers = [], rs_cookies = [], rs_error = None\<rparr>
           in case get_session_token r of
             None \<Rightarrow> (Inr answer, w)
           | Some token \<Rightarrow>
               (case logout e w (e_hash e token) of
                  (Inl x, w1, committed) \<Rightarrow> (Inl x, rolled_back w1 committed)
                | (Inr _, w1, _) \<Rightarrow> (Inr answer, w1))))"

definition verify_email_endpoint :: "env \<Rightarrow> string \<Rightarrow> world \<Rightarrow> (exn + string) \<times> world" where
  "verify_email_endpoint e token w =
     (case verify_email e w token of
        (Inl x, w1, committed) \<Rightarrow> (Inl x, rolled_back w1 committed)
      | (Inr (success, msg_key), w1, committed) \<Rightarrow>
          if \<not> success
          then (Inl (AppError 410 (if py_contains msg_key ''expired'' then ''TOKEN_EXPIRED'' else ''TOKEN_USED'') msg_key),
                rolled_back w1 committed)
          else (Inr msg_key, w1))"

definition resend_verification_endpoint :: "auth_cfg \<Rightarrow> env \<Rightarrow> request \<Rightarrow> world \<Rightarrow> (exn + string) \<times> world" where
  "resend_verification_endpoint c e r w =
     (case csrf_required r of
        Inl x \<Rightarrow> (Inl x, w)
      | Inr _ \<Rightarrow>
          (case st_user_id (rq_state r) of
             None \<Rightarrow> (Inl (AppError 401 ''SESSION_EXPIRED'' ''errors.session_expired''), w)
           | Some user_id \<Rightarrow>
               (case (if user_id = [] then (Inr (), w) else limited e (''user:'' @ user_id) ''resend'' w) of
                  (Inl x, w1) \<Rightarrow> (Inl x, w1)
                | (Inr _, w1) \<Rightarrow>
                    (case resend_verification c e w1 user_id (client_host r) of
                       (Inl x, w2, committed) \<Rightarrow> (Inl x, rolled_back w2 committed)
                     | (Inr k, w2, _) \<Rightarrow> (Inr k, w2)))))"

definition request_password_reset_endpoint ::
    "auth_cfg \<Rightarrow> env \<Rightarrow> string \<Rightarrow> request \<Rightarrow> world \<Rightarrow> (exn + string) \<times> world" where
  "request_password_reset_endpoint c e email r w =
     (case limited e (''email:'' @ py_lower (py_strip email)) ''reset'' w of
        (Inl x, w1) \<Rightarrow> (Inl x, w1)
      | (Inr _, w1) \<Rightarrow>
          (case request_password_reset c e w1 email (client_host r) of
             (Inl x, w2, committed) \<Rightarrow> (Inl x, rolled_back w2 committed)
           | (Inr k, w2, _) \<Rightarrow> (Inr k, w2)))"

definition reset_password_endpoint ::
    "auth_cfg \<Rightarrow> env \<Rightarrow> string \<Rightarrow> string \<Rightarrow> string \<Rightarrow> request \<Rightarrow> world \<Rightarrow> (exn + string) \<times> world" where
  "reset_password_endpoint c e token password password_confirm r w =
     (case reset_password c e w token password password_confirm (client_host r) of
        (Inl x, w1, committed) \<Rightarrow> (Inl x, rolled_back w1 committed)
      | (Inr (success, msg_key), w1, committed) \<Rightarrow>
          if \<not> success
          then (Inl (AppError (if py_contains msg_key ''expired'' \<or> py_contains msg_key ''used'' then 410 else 422)
                  ''INVALID_REQUEST'' msg_key), rolled_back w1 committed)
          else (Inr msg_key, w1))"

definition me_endpoint :: "request \<Rightarrow> db \<Rightarrow> exn + user_view" where
  "me_endpoint r d =
     (case st_user_id (rq_state r) of
        None \<Rightarrow> Inl (AppError 401 ''SESSION_EXPIRED'' ''errors.session_expired'')
      | Some user_id \<Rightarrow>
          (case user_by_id d user_id of
             Inl x \<Rightarrow> Inl x
           | Inr None \<Rightarrow> Inl (AppError 404 ''NOT_FOUND'' ''errors.not_found'')
           | Inr (Some user) \<Rightarrow>
               (case scalar_one_or_none (filter (\<lambda>p. up_user_id p = Some user_id \<and> up_key p = ''locale'')
                       (db_preferences d)) of
                  Inl x \<Rightarrow> Inl x
                | Inr pref \<Rightarrow>
                    Inr (view_user (case pref of Some p \<Rightarrow> up_value p | None \<Rightarrow> ''en-US'') user))))"

definition csrf_endpoint :: "env \<Rightarrow> request \<Rightarrow> response" where
  "csrf_endpoint e r =
     set_csrf_cookie (e_fresh e ''csrf'') (rq_scheme r = ''https'')
       \<lparr>rs_status = 200, rs_headers = [], rs_cookies = [], rs_error = None\<rparr>"

section \<open>Lemmas\<close>

definition users_wf :: "db \<Rightarrow> bool" where
  "users_wf d \<longleftrightarrow> distinct (map u_id (db_users d)) \<and> distinct (map u_email (db_users d))"

lemma user_by_email_eq: "users_wf d \<Longrightarrow> user_by_email d x = Inr (find (\<lambda>u. u_email u = x) (db_users d))"
  by (simp add: user_by_email_def users_wf_def scalar_one_or_none_filter)

lemma user_by_id_eq: "users_wf d \<Longrightarrow> user_by_id d x = Inr (find (\<lambda>u. u_id u = x) (db_users d))"
  by (simp add: user_by_id_def users_wf_def scalar_one_or_none_filter)

lemma save_user_fields:
  "u_id (f u) = u_id u \<Longrightarrow> u_id (save_user now f u) = u_id u"
  "u_email (f u) = u_email u \<Longrightarrow> u_email (save_user now f u) = u_email u"
  "u_status (save_user now f u) = u_status (f u)"
  "u_locked_until (save_user now f u) = u_locked_until (f u)"
  "u_failed_login_attempts (save_user now f u) = u_failed_login_attempts (f u)"
  "u_password_hash (save_user now f u) = u_password_hash (f u)"
  "u_role (save_user now f u) = u_role (f u)"
  "u_email_verified_at (save_user now f u) = u_email_verified_at (f u)"
  by (auto simp: save_user_def)

lemma update_user_tables [simp]:
  "db_sessions (update_user now i f d) = db_sessions d" "db_settings (update_user now i f d) = db_settings d"
  "db_preferences (update_user now i f d) = db_preferences d" "db_events (update_user now i f d) = db_events d"
  "db_resets (update_user now i f d) = db_resets d" "db_verifications (update_user now i f d) = db_verifications d"
  by (simp_all add: update_user_def)

lemma log_event_tables [simp]:
  "db_sessions (log_security_event e t ip u det d) = db_sessions d"
  "db_users (log_security_event e t ip u det d) = db_users d"
  "db_settings (log_security_event e t ip u det d) = db_settings d"
  "db_preferences (log_security_event e t ip u det d) = db_preferences d"
  "db_resets (log_security_event e t ip u det d) = db_resets d"
  by (simp_all add: log_security_event_def)

lemma users_wf_update:
  "users_wf d \<Longrightarrow> (\<And>u. u_id (f u) = u_id u \<and> u_email (f u) = u_email u) \<Longrightarrow> users_wf (update_user now i f d)"
  by (simp add: users_wf_def update_user_def map_update_where save_user_fields)

lemma find_email_update:
  "(\<And>u. u_id (f u) = u_id u \<and> u_email (f u) = u_email u) \<Longrightarrow>
   find (\<lambda>u. u_email u = x) (db_users (update_user now i f d)) =
     map_option (\<lambda>u. if u_id u = i then save_user now f u else u) (find (\<lambda>u. u_email u = x) (db_users d))"
  by (simp add: update_user_def find_update_where save_user_fields)

lemma find_id_update:
  "(\<And>u. u_id (f u) = u_id u \<and> u_email (f u) = u_email u) \<Longrightarrow>
   find (\<lambda>u. u_id u = x) (db_users (update_user now i f d)) =
     map_option (\<lambda>u. if u_id u = i then save_user now f u else u) (find (\<lambda>u. u_id u = x) (db_users d))"
  by (simp add: update_user_def find_update_where save_user_fields)

lemma record_ip_world [simp]:
  "w_db (record_ip_bruteforce c e ip w) = w_db w" "w_redis (record_ip_bruteforce c e ip w) = w_redis w"
  by (simp_all add: record_ip_bruteforce_def)

text \<open>The four tiers are tried from the lowest, so the first one always applies.\<close>

lemma lock_duration_flat: "brute_force_duration n = (if n \<ge> 5 then Some 300 else None)"
  by (simp add: brute_force_duration_def BRUTE_FORCE_TIERS_def)

text \<open>What a created session row and its cache entry resolve to.\<close>

lemma session_create_resolves:
  assumes "session_create e (d, r) (Some u) ip ua = (Inr (token, s), d', r')" "sessions_wf d" "e_db_up e" "u \<noteq> []"
  shows "fst (resolve_session e (d', r') (e_hash e token)) = Some (s_id s, Some u)"
    and "s_token_hash s = e_hash e token" "s_user_id s = Some u"
    and "db_users d' = db_users d" "db_preferences d' = db_preferences d" "db_sessions d' = db_sessions d @ [s]"
proof -
  obtain data ttl r1 where c: "insert_session s d = Inr d'" "s_token_hash s = e_hash e token" "s_user_id s = Some u"
      "r' = redis_create_session e r1 (e_hash e token)
         ([(''session_id'', s_id s), (''user_id'', u)] @ data) ttl" "map_of data ''user_id'' = None" "map_of data ''session_id'' = None"
    using assms(1,4) by (auto simp: session_create_def Let_def or_default_def split: sum.splits)
  have d': "d' = d\<lparr>db_sessions := db_sessions d @ [s]\<rparr>" "s_token_hash s \<notin> set (map s_token_hash (db_sessions d))"
    using c(1) by (auto simp: insert_session_def split: if_splits)
  show "s_token_hash s = e_hash e token" "s_user_id s = Some u" by (fact c)+
  show "db_users d' = db_users d" "db_preferences d' = db_preferences d" "db_sessions d' = db_sessions d @ [s]"
    by (simp_all add: d')
  have by_hash: "session_by_hash d' (e_hash e token) = Inr (Some s)"
  proof -
    have "filter (\<lambda>x. s_token_hash x = e_hash e token) (db_sessions d) = []"
      using d'(2) c(2) by (auto simp: filter_empty_conv image_iff)
    then show ?thesis
      using c(2) by (simp add: session_by_hash_def d'(1))
  qed
  show "fst (resolve_session e (d', r') (e_hash e token)) = Some (s_id s, Some u)"
  proof (cases "redis_get_session e r' (e_hash e token)")
    case None
    then show ?thesis
      using by_hash assms(3) c(3) by (simp add: resolve_session_def)
  next
    case (Some h)
    then have up: "e_redis_up e" and h: "h = hgetall (e_now e) r' (session_key (e_hash e token))" "h \<noteq> []"
      by (auto simp: redis_get_session_def Let_def split: if_splits)
    have "map_of h = map_of (hgetall (e_now e) r1 (session_key (e_hash e token)))
        ++ map_of (rev ([(''session_id'', s_id s), (''user_id'', u)] @ data))"
      using h up c(4) by (auto simp: redis_create_session_def Let_def hgetall_def hset_expire_def
          map_of_fold_dict_set map_of_dict_set split: if_splits)
    moreover have "map_of (rev data) k = None" if "map_of data k = None" for k
      using that by (simp add: map_of_eq_None_iff image_iff)
    ultimately have "map_of h ''session_id'' = Some (s_id s)" "map_of h ''user_id'' = Some u"
      using c(5,6) by (auto simp: map_add_def)
    then show ?thesis
      using assms(4) by (simp add: resolve_session_def Some dict_get_def)
  qed
qed

lemma resolve_ignores_log:
  "fst (resolve_session e (log_security_event e' t ip u det d, r) h) = fst (resolve_session e (d, r) h)"
  by (simp add: resolve_session_def session_by_hash_def split: option.split sum.split)

lemma delete_sessions_other [simp]:
  "db_resets (delete_sessions p d) = db_resets d" "db_verifications (delete_sessions p d) = db_verifications d"
  "db_events (delete_sessions p d) = db_events d"
  by (simp_all add: delete_sessions_def Let_def)

text \<open>Revoking all sessions of a user ends each of them.\<close>

lemma revoke_all_ends:
  assumes "sessions_wf d" "e_redis_up e" "revoke_all_for_user e (d, r) u None = (n, d', r')"
    and "s \<in> set (db_sessions d)" "s_user_id s = Some u"
  shows "fst (resolve_session e (d', r') (s_token_hash s)) = None"
proof -
  let ?p = "\<lambda>s. s_user_id s = Some u"
  have d': "d' = delete_sessions ?p d"
      "r' = fold (\<lambda>th r. redis_delete_session e r th) (map s_token_hash (filter ?p (db_sessions d))) r"
    using assms(3) by (simp_all add: revoke_all_for_user_def Let_def fold_map_delete [of e s_token_hash])
  have "hgetall (e_now e) r' (session_key (s_token_hash s)) = []"
    using assms(4,5) by (auto simp: d'(2) hgetall_delete_fold [OF assms(2)])
  then show ?thesis
    unfolding d'(1) using assms(5) by (intro deleted_unresolved [OF assms(1,2,4)])
qed

text \<open>The steps of a successful reset.\<close>

lemma reset_password_steps:
  assumes "users_wf (w_db w)" "reset_password c e w token password confirm ip = (Inr (True, key), w', d')"
    and "distinct (map mt_token_hash (db_resets (w_db w)))"
  obtains t u d2 n d3 where
    "find (\<lambda>v. mt_token_hash v = e_hash e token) (db_resets (w_db w)) = Some t"
    "\<not> mt_used t" "e_now e \<le> mt_expires_at t"
    "find (\<lambda>x. u_id x = mt_user_id t) (db_users (w_db w)) = Some u"
    "d2 = update_user (e_now e) (u_id u) (\<lambda>u. u\<lparr>u_password_hash := ac_hash_password c password,
        u_failed_login_attempts := 0, u_locked_until := None\<rparr>)
      ((w_db w)\<lparr>db_resets := update_where (\<lambda>v. mt_id v = mt_id t) (mt_used_update (\<lambda>_. True)) (db_resets (w_db w))\<rparr>)"
    "revoke_all_for_user e (d2, w_redis w) (u_id u) None = (n, d3, w_redis w')"
    "w_db w' = log_security_event e ''password_reset'' ip (Some (u_id u)) [] d3"
proof -
  have wf: "users_wf ((w_db w)\<lparr>db_resets := rs\<rparr>)" for rs
    using assms(1) by (simp add: users_wf_def)
  note unfold = reset_password_def Let_def scalar_one_or_none_filter [OF assms(3)] user_by_id_eq [OF wf]
  have valid: "password = confirm" "fst (validate_password_strength c password)"
    using assms(2) by (auto simp: reset_password_def Let_def split: if_splits prod.splits)
  then obtain err where v: "validate_password_strength c confirm = (True, err)"
    by (cases "validate_password_strength c confirm") auto
  obtain t where t: "find (\<lambda>v. mt_token_hash v = e_hash e token) (db_resets (w_db w)) = Some t"
    using assms(2) valid(1) v by (cases "find (\<lambda>v. mt_token_hash v = e_hash e token) (db_resets (w_db w))") (auto simp: unfold)
  have t': "\<not> mt_used t" "e_now e \<le> mt_expires_at t"
    using assms(2) valid(1) v t by (auto simp: unfold split: if_splits)
  obtain u where u: "find (\<lambda>x. u_id x = mt_user_id t) (db_users (w_db w)) = Some u"
    using assms(2) valid(1) v t t' by (cases "find (\<lambda>x. u_id x = mt_user_id t) (db_users (w_db w))") (auto simp: unfold)
  let ?d2 = "update_user (e_now e) (u_id u) (\<lambda>u. u\<lparr>u_password_hash := ac_hash_password c password,
        u_failed_login_attempts := 0, u_locked_until := None\<rparr>)
      ((w_db w)\<lparr>db_resets := update_where (\<lambda>v. mt_id v = mt_id t) (mt_used_update (\<lambda>_. True)) (db_resets (w_db w))\<rparr>)"
  obtain n d3 r3 where rev: "revoke_all_for_user e (?d2, w_redis w) (u_id u) None = (n, d3, r3)"
    by (cases "revoke_all_for_user e (?d2, w_redis w) (u_id u) None") auto
  have "w' = w\<lparr>w_db := log_security_event e ''password_reset'' ip (Some (u_id u)) [] d3, w_redis := r3\<rparr>"
    using assms(2) valid(1) v t t' u rev by (simp add: unfold)
  then show thesis
    using that [OF t t' u refl] rev by simp
qed

text \<open>The steps of a successful login.\<close>

lemma login_steps:
  assumes "users_wf (w_db w)" "login c e w email password ip ua = (Inr (LoginOk v token token_hash sid), w', d')"
  obtains u s d2 where "\<not> check_ip_bruteforce c e w ip"
    "u \<in> set (db_users (w_db w))" "u_email u = normalize_email email"
    "check_brute_force_lock (e_now e) u = (False, None)" "ac_verify c password (u_password_hash u)"
    "\<not> ac_verification_required c \<or> u_email_verified_at u \<noteq> None"
    "session_create e (update_user (e_now e) (u_id u) (\<lambda>u. u\<lparr>u_failed_login_attempts := 0, u_locked_until := None\<rparr>) (w_db w),
       w_redis w) (Some (u_id u)) ip ua = (Inr (token, s), d2, w_redis w')"
    "w_db w' = log_security_event e ''login_success'' ip (Some (u_id u)) [] d2" "sid = s_id s" "vw_id v = u_id u"
proof -
  have ip: "\<not> check_ip_bruteforce c e w ip"
    using assms(2) by (auto simp: login_def Let_def)
  obtain u where find: "find (\<lambda>u. u_email u = normalize_email email) (db_users (w_db w)) = Some u"
    using assms(2) ip by (cases "find (\<lambda>u. u_email u = normalize_email email) (db_users (w_db w))")
      (auto simp: login_def Let_def user_by_email_eq [OF assms(1)])
  have u: "u \<in> set (db_users (w_db w))" "u_email u = normalize_email email"
    using find_Some_in [OF find] by simp_all
  have lock: "check_brute_force_lock (e_now e) u = (False, None)" and pw: "ac_verify c password (u_password_hash u)"
    and acc: "login_accepted c e w u ip ua = (Inr (LoginOk v token token_hash sid), w', d')"
    using assms(2) ip by (auto simp: login_def Let_def user_by_email_eq [OF assms(1)] find login_denied_def
        check_brute_force_lock_def split: if_splits option.splits)
  let ?d = "update_user (e_now e) (u_id u) (\<lambda>u. u\<lparr>u_failed_login_attempts := 0, u_locked_until := None\<rparr>) (w_db w)"
  obtain s d2 where ver: "\<not> ac_verification_required c \<or> u_email_verified_at u \<noteq> None"
    and create: "session_create e (?d, w_redis w) (Some (u_id u)) ip ua = (Inr (token, s), d2, w_redis w')"
    and w': "w_db w' = log_security_event e ''login_success'' ip (Some (u_id u)) [] d2" "sid = s_id s" "vw_id v = u_id u"
    using acc by (fastforce simp: login_accepted_def Let_def view_user_def save_user_fields
        split: if_splits prod.splits sum.splits)
  show thesis
    by (rule that [OF ip u lock pw ver create w'])
qed

text \<open>When every check passes a login opens a session.\<close>

lemma login_opens:
  assumes "user_by_email (w_db w) (normalize_email email) = Inr (Some u)" "u \<in> set (db_users (w_db w))"
    and "check_brute_force_lock (e_now e) u = (False, None)" "ac_verify c password (u_password_hash u)"
    and "\<not> ac_verification_required c \<or> u_email_verified_at u \<noteq> None" "\<not> check_ip_bruteforce c e w ip"
    and "e_fresh e ''session_id'' \<notin> set (map s_id (db_sessions (w_db w)))"
    and "e_hash e (e_fresh e ''session_token'') \<notin> set (map s_token_hash (db_sessions (w_db w)))"
  shows "\<exists>loc st th sid w' d'. login c e w email password ip ua =
    (Inr (LoginOk (view_user loc
      (save_user (e_now e) (\<lambda>u. u\<lparr>u_failed_login_attempts := 0, u_locked_until := None\<rparr>) u)) st th sid), w', d')"
proof -
  let ?reset = "\<lambda>u. u\<lparr>u_failed_login_attempts := 0, u_locked_until := None\<rparr>"
  let ?d = "update_user (e_now e) (u_id u) ?reset (w_db w)"
  have "map u_id (db_users ?d) = map u_id (db_users (w_db w))"
    by (simp add: update_user_def map_update_where save_user_def)
  then have "u_id u \<in> u_id ` set (db_users ?d)" "db_sessions ?d = db_sessions (w_db w)"
    using assms(2) by (metis imageI list.set_map) (simp add: update_user_def)
  then show ?thesis
    using assms by (auto simp: login_def login_accepted_def Let_def session_create_def insert_session_def image_iff)
qed

lemma bruteforce_elsewhere [simp]:
  "check_ip_bruteforce c e (w\<lparr>w_db := d\<rparr>) ip = check_ip_bruteforce c e w ip"
  "check_ip_bruteforce c e (send_email c' a b x w) ip = check_ip_bruteforce c e w ip"
  by (simp_all add: check_ip_bruteforce_def bf_count_def send_email_def)

section \<open>A concrete configuration\<close>

definition sample_cfg :: auth_cfg where
  "sample_cfg = \<lparr>ac_verify = (\<lambda>p h. p = ''pw''), ac_hash_password = (\<lambda>p. ''hash''), ac_guesses_ok = (\<lambda>p. True),
     ac_verification_required = True, ac_ip_max = 20, ac_ip_window = 900, ac_frontend = [], ac_smtp = False\<rparr>"

definition sample_world :: "db \<Rightarrow> world" where
  "sample_world d = \<lparr>w_db = d, w_redis = sample_redis, w_limiter = \<lparr>lim_redis = Map.empty, lim_mem = []\<rparr>,
     w_auth = [], w_bruteforce = Map.empty, w_mail = []\<rparr>"

lemma sample_email: "normalize_email ''a@b.c'' = ''a@b.c''"
  by code_simp

lemma sample_users_wf: "users_wf (w_db (sample_world (sample_db\<lparr>db_users := [sample_user\<lparr>u_failed_login_attempts := n\<rparr>]\<rparr>)))"
  by (simp add: users_wf_def sample_world_def)

lemma sample_db_update: "sample_db\<lparr>db_users := [sample_user]\<rparr> = sample_db"
  by (simp add: sample_db_def)

lemma sample_not_blocked: "\<not> check_ip_bruteforce sample_cfg sample_env (sample_world d) ip"
  by (simp add: check_ip_bruteforce_def bf_count_def sample_world_def)

lemma sample_login:
  "\<exists>v h i w' d'. login sample_cfg sample_env (sample_world sample_db) ''a@b.c'' ''pw'' ''ip'' None
     = (Inr (LoginOk v ''h2'' h i), w', d')"
proof -
  have wf: "users_wf sample_db"
    by (simp add: users_wf_def sample_db_def)
  have find: "find (\<lambda>u. u_email u = ''a@b.c'') (db_users sample_db) = Some sample_user"
    by (simp add: sample_db_def sample_user_def)
  have lock: "check_brute_force_lock (e_now sample_env) sample_user = (False, None)"
    by (simp add: check_brute_force_lock_def sample_user_def)
  have upd: "update_user t i (\<lambda>u. u\<lparr>u_failed_login_attempts := 0, u_locked_until := None\<rparr>) sample_db = sample_db" for t i
    by (simp add: update_user_def update_where_def save_user_def sample_db_def sample_user_def)
  have "u_email_verified_at sample_user = Some 0" "u_id sample_user = ''u''"
    by (simp_all add: sample_user_def)
  moreover obtain d' r' where "snd (session_create sample_env (sample_db, sample_redis) (Some ''u'') ''ip'' None) = (d', r')"
    by (rule prod.exhaust)
  ultimately show ?thesis
    using sample_not_blocked [of sample_db "''ip''"] sample_create
    by (simp add: login_def Let_def sample_email sample_world_def user_by_email_eq [OF wf] find lock
        login_accepted_def upd) (simp add: sample_cfg_def)
qed

section \<open>Properties\<close>

text \<open>
  C2: what a successful login means.  The address is not blocked for failures, the e-mail
  address belongs to a user who is neither blocked nor locked (by an administrator or for the
  time being), the password is that user's, and the address is verified where that is required;
  then the failure counter is reset, and the session token handed out resolves to that user.
\<close>

theorem login_success_sound:
  assumes "users_wf (w_db w)" "sessions_wf (w_db w)" "e_db_up e" "\<forall>u \<in> set (db_users (w_db w)). u_id u \<noteq> []"
    and "login c e w email password ip ua = (Inr (LoginOk v token token_hash sid), w', d')"
  shows "\<exists>u \<in> set (db_users (w_db w)). \<not> check_ip_bruteforce c e w ip \<and> u_email u = normalize_email email \<and>
    u_status u \<noteq> ''blocked'' \<and> u_status u \<noteq> ''locked'' \<and> or_default (u_locked_until u) (e_now e) \<le> e_now e \<and>
    ac_verify c password (u_password_hash u) \<and> (\<not> ac_verification_required c \<or> u_email_verified_at u \<noteq> None) \<and>
    vw_id v = u_id u \<and> fst (resolve_session e (w_db w', w_redis w') (e_hash e token)) = Some (sid, Some (u_id u)) \<and>
    map_option u_failed_login_attempts (find (\<lambda>x. u_id x = u_id u) (db_users (w_db w'))) = Some 0"
proof -
  obtain u s d2 where ip: "\<not> check_ip_bruteforce c e w ip" and u: "u \<in> set (db_users (w_db w))" "u_email u = normalize_email email"
    and lock: "check_brute_force_lock (e_now e) u = (False, None)" and pw: "ac_verify c password (u_password_hash u)"
    and ver: "\<not> ac_verification_required c \<or> u_email_verified_at u \<noteq> None"
    and create: "session_create e (update_user (e_now e) (u_id u) (\<lambda>u. u\<lparr>u_failed_login_attempts := 0, u_locked_until := None\<rparr>) (w_db w),
       w_redis w) (Some (u_id u)) ip ua = (Inr (token, s), d2, w_redis w')"
    and w': "w_db w' = log_security_event e ''login_success'' ip (Some (u_id u)) [] d2" "sid = s_id s" "vw_id v = u_id u"
    by (rule login_steps [OF assms(1,5)])
  let ?d = "update_user (e_now e) (u_id u) (\<lambda>u. u\<lparr>u_failed_login_attempts := 0, u_locked_until := None\<rparr>) (w_db w)"
  have wf: "sessions_wf ?d"
    using assms(2) by (simp add: sessions_wf_def)
  note made = session_create_resolves [OF create wf assms(3)]
  have "fst (resolve_session e (w_db w', w_redis w') h) = fst (resolve_session e (d2, w_redis w') h)" for h
    by (simp add: w'(1) resolve_session_def session_by_hash_def split: option.split sum.split)
  then have res: "fst (resolve_session e (w_db w', w_redis w') (e_hash e token)) = Some (sid, Some (u_id u))"
    using made(1) assms(4) u(1) w'(2) by simp
  have "find (\<lambda>x. u_id x = u_id u) (db_users (w_db w)) = Some u"
    using assms(1) u(1) by (simp add: users_wf_def find_unique)
  then have "map_option u_failed_login_attempts (find (\<lambda>x. u_id x = u_id u) (db_users (w_db w'))) = Some 0"
    using made(4) assms(4) u(1) by (simp add: w'(1) find_id_update save_user_fields)
  moreover have "u_status u \<noteq> ''blocked'' \<and> u_status u \<noteq> ''locked'' \<and> or_default (u_locked_until u) (e_now e) \<le> e_now e"
    using lock by (auto simp: check_brute_force_lock_def split: if_splits option.splits)
  ultimately show ?thesis
    using u ip pw ver w'(3) res by blast
qed

theorem login_success_sound_witness:
  "\<exists>v h i w' d'. login sample_cfg sample_env (sample_world sample_db) ''a@b.c'' ''pw'' ''ip'' None
     = (Inr (LoginOk v ''h2'' h i), w', d') \<and>
     fst (resolve_session sample_env (w_db w', w_redis w') ''h2'') = Some (i, Some ''u'')"
proof -
  obtain v h i w' d' where log: "login sample_cfg sample_env (sample_world sample_db) ''a@b.c'' ''pw'' ''ip'' None
     = (Inr (LoginOk v ''h2'' h i), w', d')"
    using sample_login by blast
  have "users_wf sample_db" "sessions_wf sample_db" "db_users sample_db = [sample_user]" "u_id sample_user = ''u''"
    by (simp_all add: users_wf_def sessions_wf_def sample_db_def sample_user_def)
  then have "fst (resolve_session sample_env (w_db w', w_redis w') ''h2'') = Some (i, Some ''u'')"
    using login_success_sound [OF _ _ _ _ log] by (simp add: sample_world_def sample_env_def)
  with log show ?thesis by blast
qed

text \<open>
  C8: the lockout holds.  Once a failed login brings a user to five failures or more, every
  login for that address within the next 300 seconds fails, with whatever password and from
  whatever network address, and neither opens a session nor changes a user row.  This holds for
  every role: administrators are not exempt, as \<open>spec-backend.md\<close> 5.2 says they are.
\<close>

theorem lockout_holds:
  assumes "users_wf (w_db w)" "u \<in> set (db_users (w_db w))" "u_email u = normalize_email email"
    and "\<not> check_ip_bruteforce c e w ip" "fst (check_brute_force_lock (e_now e) u) = False"
    and "\<not> ac_verify c password (u_password_hash u)" "4 \<le> u_failed_login_attempts u"
    and "login c e w email password ip ua = (res, w1, d1)"
    and "e_now e' < e_now e + sec 300" "normalize_email email' = normalize_email email"
  shows "\<exists>key w2 d2. login c e' w1 email' password' ip' ua' = (Inr (LoginFailed key), w2, d2) \<and>
    db_sessions (w_db w2) = db_sessions (w_db w1) \<and> db_users (w_db w2) = db_users (w_db w1)"
proof -
  have find: "find (\<lambda>x. u_email x = normalize_email email) (db_users (w_db w)) = Some u"
    using assms(1-3) find_unique [of u_email "db_users (w_db w)" u] by (simp add: users_wf_def)
  let ?f = "\<lambda>x. x\<lparr>u_failed_login_attempts := u_failed_login_attempts u + 1,
      u_locked_until := Some (e_now e + sec 300)\<rparr>"
  have dur: "brute_force_duration (u_failed_login_attempts u + 1) = Some 300"
    using assms(7) by (simp add: lock_duration_flat)
  have w1: "db_users (w_db w1) = db_users (update_user (e_now e) (u_id u) ?f (w_db w))"
    using assms(4-6,8) by (auto simp: login_def Let_def user_by_email_eq [OF assms(1)] find login_denied_def dur
        split: prod.splits if_splits)
  have wf1: "users_wf (w_db w1)"
    using users_wf_update [OF assms(1), of ?f "e_now e" "u_id u"] by (simp add: users_wf_def w1)
  have find1: "find (\<lambda>x. u_email x = normalize_email email') (db_users (w_db w1)) = Some (save_user (e_now e) ?f u)"
    by (simp add: w1 find_email_update find assms(10))
  have "fst (check_brute_force_lock (e_now e') (save_user (e_now e) ?f u))"
    using assms(9) by (simp add: check_brute_force_lock_def save_user_fields)
  then show ?thesis
    by (cases "check_ip_bruteforce c e' w1 ip'")
      (auto simp: login_def Let_def user_by_email_eq [OF wf1] find1 split: prod.split)
qed

theorem lockout_holds_witness:
  "let w = sample_world (sample_db\<lparr>db_users := [sample_user\<lparr>u_failed_login_attempts := 4\<rparr>]\<rparr>);
       w1 = fst (snd (login sample_cfg sample_env w ''a@b.c'' ''bad'' ''ip'' None))
   in \<exists>key w2 d2. login sample_cfg (sample_env\<lparr>e_now := sec 349\<rparr>) w1 ''a@b.c'' ''pw'' ''other'' None
        = (Inr (LoginFailed key), w2, d2)"
proof -
  let ?w = "sample_world (sample_db\<lparr>db_users := [sample_user\<lparr>u_failed_login_attempts := 4\<rparr>]\<rparr>)"
  obtain res w1 d1 where log: "login sample_cfg sample_env ?w ''a@b.c'' ''bad'' ''ip'' None = (res, w1, d1)"
    by (cases "login sample_cfg sample_env ?w ''a@b.c'' ''bad'' ''ip'' None") auto
  have "\<exists>key w2 d2. login sample_cfg (sample_env\<lparr>e_now := sec 349\<rparr>) w1 ''a@b.c'' ''pw'' ''other'' None
        = (Inr (LoginFailed key), w2, d2) \<and> db_sessions (w_db w2) = db_sessions (w_db w1) \<and> db_users (w_db w2) = db_users (w_db w1)"
    by (rule lockout_holds [OF sample_users_wf _ _ sample_not_blocked _ _ _ log,
          where u = "sample_user\<lparr>u_failed_login_attempts := 4\<rparr>"])
       (simp_all add: sample_world_def sample_email sample_user_def sample_cfg_def sample_env_def sec_def
         check_brute_force_lock_def)
  then show ?thesis
    by (auto simp: Let_def log)
qed

text \<open>What a failed login answers short of the failure limit of the address.\<close>

lemma failed_login_key:
  assumes "users_wf (w_db w)" "\<not> check_ip_bruteforce c e w ip"
    and "login c e w email password ip ua = (Inr (LoginFailed key), w', d')"
  shows "key = ''errors.invalid_credentials'' \<or>
    key = ''errors.email_not_verified'' \<and>
      (\<exists>u \<in> set (db_users (w_db w)). u_email u = normalize_email email \<and>
         ac_verify c password (u_password_hash u) \<and> u_email_verified_at u = None)"
proof (cases "find (\<lambda>u. u_email u = normalize_email email) (db_users (w_db w))")
  case None
  then show ?thesis
    using assms(2,3) by (simp add: login_def Let_def user_by_email_eq [OF assms(1)])
next
  case (Some u)
  then have u: "u \<in> set (db_users (w_db w))" "u_email u = normalize_email email"
    by (auto dest: find_Some_in)
  show ?thesis
    using assms(2,3) u
    by (auto simp: login_def Let_def user_by_email_eq [OF assms(1)] Some login_denied_def login_accepted_def
        split: prod.splits if_splits sum.splits)
qed

text \<open>
  C16: failed logins and reset requests do not reveal accounts, two cases apart.  A failed login
  that neither limit of the network address stops (the limits do not look at the account) gets the
  same answer whatever the reason: an unknown address, a wrong password, or an account that is
  blocked or locked, which \<open>functional-spec.md\<close> 4.2 would tell apart.  The exception is a caller who
  knows the password of an unverified account: he is told so.  A reset request answers the same
  for every address.
\<close>

theorem enumeration_safe:
  assumes "users_wf (w_db w)" "limited e (''ip:'' @ client_host r) ''login'' w = (Inr (), w1)"
    and "\<not> check_ip_bruteforce c e w1 (client_host r)"
    and "login c e w1 email password (client_host r) (header ''user-agent'' r) = (Inr (LoginFailed key), w2, d2)"
    and "e_hash e (e_fresh e ''token'') \<notin> mt_token_hash ` set (db_resets (w_db w))"
  shows "(fst (login_endpoint c e email password r w) = Inl (AppError 401 ''INVALID_CREDENTIALS'' ''errors.invalid_credentials'') \<or>
      fst (login_endpoint c e email password r w) = Inl (AppError 401 ''INVALID_CREDENTIALS'' ''errors.email_not_verified'') \<and>
        (\<exists>u \<in> set (db_users (w_db w)). u_email u = normalize_email email \<and>
           ac_verify c password (u_password_hash u) \<and> u_email_verified_at u = None)) \<and>
    fst (request_password_reset c e w any_email ip) = Inr ''auth.reset_email_sent''"
proof
  show "fst (request_password_reset c e w any_email ip) = Inr ''auth.reset_email_sent''"
    using assms(5) by (simp add: request_password_reset_def Let_def user_by_email_eq [OF assms(1)]
        insert_mail_token_def mail_token_of_def split: option.split)
  have db: "w_db w1 = w_db w"
    using assms(2) by (auto simp: limited_def split: prod.splits)
  then have wf: "users_wf (w_db w1)"
    using assms(1) by simp
  have "fst (login_endpoint c e email password r w) =
      Inl (if key = ''errors.rate_limited'' then AppError 429 ''RATE_LIMIT_EXCEEDED'' ''errors.rate_limited''
           else AppError 401 ''INVALID_CREDENTIALS'' key)"
    unfolding login_endpoint_def assms(2) by (simp add: assms(4))
  then show "fst (login_endpoint c e email password r w) = Inl (AppError 401 ''INVALID_CREDENTIALS'' ''errors.invalid_credentials'') \<or>
      fst (login_endpoint c e email password r w) = Inl (AppError 401 ''INVALID_CREDENTIALS'' ''errors.email_not_verified'') \<and>
        (\<exists>u \<in> set (db_users (w_db w)). u_email u = normalize_email email \<and>
           ac_verify c password (u_password_hash u) \<and> u_email_verified_at u = None)"
    using failed_login_key [OF wf assms(3,4)] by (auto simp: db)
qed

theorem enumeration_safe_witness:
  "let w = sample_world sample_db; r = visitor_request ''ip''
   in fst (login_endpoint sample_cfg sample_env ''a@b.c'' ''bad'' r w) =
        Inl (AppError 401 ''INVALID_CREDENTIALS'' ''errors.invalid_credentials'') \<and>
      fst (request_password_reset sample_cfg sample_env w ''x@y.z'' ''ip'') = Inr ''auth.reset_email_sent''"
proof -
  let ?w = "sample_world sample_db" and ?r = "visitor_request ''ip''"
  have wf: "users_wf (w_db ?w)"
    by (simp add: users_wf_def sample_world_def sample_db_def)
  have find: "find (\<lambda>u. u_email u = ''a@b.c'') (db_users sample_db) = Some sample_user"
    by (simp add: sample_db_def sample_user_def)
  have lock: "check_brute_force_lock (e_now sample_env) sample_user = (False, None)"
    by (simp add: check_brute_force_lock_def sample_user_def)
  let ?w1 = "?w\<lparr>w_auth := [(''ip:'' @ client_host ?r, [e_now sample_env])]\<rparr>"
  have lim: "limited sample_env (''ip:'' @ client_host ?r) ''login'' ?w = (Inr (), ?w1)"
    by (simp add: limited_def enforce_rate_limit_def auth_check_def auth_record_def prune_auth_def AUTH_LIMITS_def
        sample_world_def dict_get_def Let_def)
  have free: "\<not> check_ip_bruteforce sample_cfg sample_env ?w1 (client_host ?r)"
    by (simp add: check_ip_bruteforce_def bf_count_def sample_world_def sample_cfg_def)
  have wf1: "users_wf sample_db"
    by (simp add: users_wf_def sample_db_def)
  have bad: "\<not> ac_verify sample_cfg ''bad'' (u_password_hash sample_user)" "u_email_verified_at sample_user = Some 0"
    by (simp_all add: sample_cfg_def sample_user_def)
  obtain key w2 d2 where log: "login sample_cfg sample_env ?w1 ''a@b.c'' ''bad'' (client_host ?r) (header ''user-agent'' ?r)
     = (Inr (LoginFailed key), w2, d2)"
    using free wf1 by (simp add: login_def Let_def sample_email user_by_email_eq sample_world_def find lock bad(1))
      (simp add: login_denied_def Let_def)
  have resets: "e_hash sample_env (e_fresh sample_env ''token'') \<notin> mt_token_hash ` set (db_resets (w_db ?w))"
    by (simp add: sample_world_def sample_db_def empty_db_def)
  have "\<not> (\<exists>u \<in> set (db_users (w_db ?w)). u_email_verified_at u = None)"
    by (simp add: sample_world_def sample_db_def sample_user_def)
  then show ?thesis
    using enumeration_safe [OF wf lim free log resets, of "''x@y.z''" "''ip''"] by (auto simp: Let_def)
qed

text \<open>
  C7: a password reset is single-use and, with Redis reachable, ends every session.  If it
  succeeds, its token was unused and not expired, its user has the new password, a second use of
  the same token fails, and if Redis answers none of that user's cookies resolves any more.  The
  current session is no exception, as \<open>functional-spec.md\<close> 4.4 would have it: the service is not
  told which one it is.
\<close>

theorem reset_password_sound:
  assumes "users_wf (w_db w)" "sessions_wf (w_db w)"
    and "distinct (map mt_id (db_resets (w_db w)))" "distinct (map mt_token_hash (db_resets (w_db w)))"
    and "reset_password c e w token password confirm ip = (Inr (True, key), w', d')"
  shows "\<exists>t \<in> set (db_resets (w_db w)). \<exists>u \<in> set (db_users (w_db w)).
    mt_token_hash t = e_hash e token \<and> \<not> mt_used t \<and> e_now e \<le> mt_expires_at t \<and> u_id u = mt_user_id t \<and>
    map_option u_password_hash (find (\<lambda>x. u_id x = u_id u) (db_users (w_db w'))) = Some (ac_hash_password c password) \<and>
    (\<exists>key w2 d2. reset_password c e w' token password2 confirm2 ip2 = (Inr (False, key), w2, d2)) \<and>
    (e_redis_up e \<longrightarrow> list_all (\<lambda>s. s_user_id s \<noteq> Some (u_id u) \<or>
       fst (resolve_session e (w_db w', w_redis w') (s_token_hash s)) = None) (db_sessions (w_db w)))"
proof -
  obtain t u d2 n d3 where
    t: "find (\<lambda>v. mt_token_hash v = e_hash e token) (db_resets (w_db w)) = Some t" "\<not> mt_used t" "e_now e \<le> mt_expires_at t"
    and u: "find (\<lambda>x. u_id x = mt_user_id t) (db_users (w_db w)) = Some u"
    and d2: "d2 = update_user (e_now e) (u_id u) (\<lambda>u. u\<lparr>u_password_hash := ac_hash_password c password,
        u_failed_login_attempts := 0, u_locked_until := None\<rparr>)
      ((w_db w)\<lparr>db_resets := update_where (\<lambda>v. mt_id v = mt_id t) (mt_used_update (\<lambda>_. True)) (db_resets (w_db w))\<rparr>)"
    and rev: "revoke_all_for_user e (d2, w_redis w) (u_id u) None = (n, d3, w_redis w')"
    and w': "w_db w' = log_security_event e ''password_reset'' ip (Some (u_id u)) [] d3"
    by (rule reset_password_steps [OF assms(1,5,4)])
  have d3: "d3 = delete_sessions (\<lambda>s. s_user_id s = Some (u_id u)) d2"
    using rev by (simp add: revoke_all_for_user_def Let_def)
  have mem: "t \<in> set (db_resets (w_db w))" "mt_token_hash t = e_hash e token"
      "u \<in> set (db_users (w_db w))" "u_id u = mt_user_id t"
    using find_Some_in [OF t(1)] find_Some_in [OF u] by simp_all
  have pw: "map_option u_password_hash (find (\<lambda>x. u_id x = u_id u) (db_users (w_db w'))) = Some (ac_hash_password c password)"
    using u mem(4) by (simp add: w' d3 d2 find_id_update save_user_fields)
  let ?rs = "update_where (\<lambda>v. mt_id v = mt_id t) (mt_used_update (\<lambda>_. True)) (db_resets (w_db w))"
  have rs: "db_resets (w_db w') = ?rs"
    by (simp add: w' d3 d2)
  have dist: "distinct (map mt_token_hash ?rs)"
    using assms(4) by (simp add: map_update_where)
  have used: "find (\<lambda>v. mt_token_hash v = e_hash e token) ?rs = Some (t\<lparr>mt_used := True\<rparr>)"
    by (simp add: find_update_where t(1))
  have again: "\<exists>key w2 d2. reset_password c e w' token password2 confirm2 ip2 = (Inr (False, key), w2, d2)"
    using used by (simp add: reset_password_def Let_def rs scalar_one_or_none_filter [OF dist] split: prod.split)
  have wf2: "sessions_wf d2"
    using assms(2) by (simp add: sessions_wf_def d2)
  have "fst (resolve_session e (w_db w', w_redis w') (s_token_hash s)) = None"
    if "e_redis_up e" "s \<in> set (db_sessions (w_db w))" "s_user_id s = Some (u_id u)" for s
    using revoke_all_ends [OF wf2 that(1) rev] that(2,3) by (simp add: w' resolve_ignores_log d2)
  then have "e_redis_up e \<longrightarrow> list_all (\<lambda>s. s_user_id s \<noteq> Some (u_id u) \<or>
       fst (resolve_session e (w_db w', w_redis w') (s_token_hash s)) = None) (db_sessions (w_db w))"
    by (auto simp: list_all_iff)
  with t mem pw again show ?thesis
    by (intro bexI [of _ t] bexI [of _ u]) blast+
qed

theorem reset_password_sound_witness:
  "let d = sample_db\<lparr>db_resets := [\<lparr>mt_id = ''t'', mt_user_id = ''u'', mt_token_hash = ''tok'', mt_expires_at = sec 60,
             mt_used = False, mt_created_at = 0\<rparr>]\<rparr>
   in \<exists>w' d'. reset_password sample_cfg sample_env (sample_world d) ''tok'' ''Abcdefg1'' ''Abcdefg1'' ''ip''
        = (Inr (True, ''auth.password_reset_success''), w', d')
      \<and> fst (resolve_session sample_env (w_db w', w_redis w') ''h1'') = None"
proof -
  let ?d = "sample_db\<lparr>db_resets := [\<lparr>mt_id = ''t'', mt_user_id = ''u'', mt_token_hash = ''tok'', mt_expires_at = sec 60,
             mt_used = False, mt_created_at = 0\<rparr>]\<rparr>"
  have strong: "validate_password_strength sample_cfg ''Abcdefg1'' = (True, None)"
    by (simp add: validate_password_strength_def is_digit_def sample_cfg_def)
  have wf: "users_wf (w_db (sample_world ?d))" "sessions_wf (w_db (sample_world ?d))"
    by (simp_all add: users_wf_def sessions_wf_def sample_world_def sample_db_def)
  obtain w' d' where res: "reset_password sample_cfg sample_env (sample_world ?d) ''tok'' ''Abcdefg1'' ''Abcdefg1'' ''ip''
        = (Inr (True, ''auth.password_reset_success''), w', d')"
    by (simp add: reset_password_def Let_def strong user_by_id_def sample_world_def split: prod.split)
       (simp add: sample_simps sec_def user_by_id_def Let_def case_prod_beta)
  have "list_all (\<lambda>s. s_user_id s \<noteq> Some ''u'' \<or>
       fst (resolve_session sample_env (w_db w', w_redis w') (s_token_hash s)) = None) (db_sessions sample_db)"
    using reset_password_sound [OF wf _ _ res] sample_wf(6)
    by (auto simp: sample_world_def sample_db_def sample_user_def)
  with res show ?thesis
    by (simp add: Let_def sample_db_def sample_session_def)
qed

text \<open>
  Verification lifts a block.  A valid verification token makes its user active whatever
  the status was, so a user an administrator has blocked passes the login guard again.
\<close>

lemma verification_unblocks:
  assumes "users_wf (w_db w)" "u \<in> set (db_users (w_db w))" "u_status u = ''blocked''" "u_locked_until u = None"
    and "distinct (map mt_token_hash (db_verifications (w_db w)))" "v \<in> set (db_verifications (w_db w))"
    and "mt_token_hash v = e_hash e token" "mt_user_id v = u_id u" "\<not> mt_used v" "e_now e \<le> mt_expires_at v"
  shows "\<exists>u' w' d'. verify_email e w token = (Inr (True, ''auth.email_verified''), w', d') \<and>
    find (\<lambda>x. u_id x = u_id u) (db_users (w_db w')) = Some u' \<and>
    fst (check_brute_force_lock now u) \<and> \<not> fst (check_brute_force_lock now u')"
proof -
  have tok: "scalar_one_or_none (filter (\<lambda>x. mt_token_hash x = e_hash e token) (db_verifications (w_db w))) = Inr (Some v)"
    using assms(5-7) find_unique [OF assms(5,6)] by (simp add: scalar_one_or_none_filter)
  have usr: "find (\<lambda>x. u_id x = u_id u) (db_users (w_db w)) = Some u"
    using assms(1,2) by (simp add: users_wf_def find_unique)
  have wf: "users_wf ((w_db w)\<lparr>db_verifications := vs\<rparr>)" for vs
    using assms(1) by (simp add: users_wf_def)
  show ?thesis
    using assms(3,4,8-10) usr
    by (simp add: verify_email_def Let_def tok user_by_id_eq [OF wf] find_id_update check_brute_force_lock_def
        save_user_fields)
qed

lemma verification_unblocks_witness:
  "\<exists>w' d' u'. verify_email sample_env (sample_world (sample_db\<lparr>db_users := [sample_user\<lparr>u_status := ''blocked''\<rparr>],
        db_verifications := [\<lparr>mt_id = ''t'', mt_user_id = ''u'', mt_token_hash = ''tok'', mt_expires_at = sec 60,
          mt_used = False, mt_created_at = 0\<rparr>]\<rparr>)) ''tok'' = (Inr (True, ''auth.email_verified''), w', d') \<and>
     find (\<lambda>x. u_id x = ''u'') (db_users (w_db w')) = Some u' \<and> \<not> fst (check_brute_force_lock 0 u')"
proof -
  let ?u = "sample_user\<lparr>u_status := ''blocked''\<rparr>"
  let ?v = "\<lparr>mt_id = ''t'', mt_user_id = ''u'', mt_token_hash = ''tok'', mt_expires_at = sec 60,
          mt_used = False, mt_created_at = 0\<rparr>"
  let ?w = "sample_world (sample_db\<lparr>db_users := [?u], db_verifications := [?v]\<rparr>)"
  have "\<exists>u' w' d'. verify_email sample_env ?w ''tok'' = (Inr (True, ''auth.email_verified''), w', d') \<and>
    find (\<lambda>x. u_id x = u_id ?u) (db_users (w_db w')) = Some u' \<and>
    fst (check_brute_force_lock 0 ?u) \<and> \<not> fst (check_brute_force_lock 0 u')"
    by (rule verification_unblocks [where v = ?v])
       (simp_all add: users_wf_def sample_world_def sample_user_def sample_env_def sec_def)
  then show ?thesis
    by (auto simp: sample_user_def)
qed

end
