(* ===== verification/Account.thy ===== *)
theory Account
  imports Auth
begin

text \<open>
  \<open>app/services/preference_service.py\<close> and the endpoints under \<open>/preferences\<close>, \<open>/sessions\<close> and
  \<open>/account\<close>.
\<close>

section \<open>Preferences\<close>

definition own_preferences :: "string option \<Rightarrow> string option \<Rightarrow> user_preference \<Rightarrow> bool" where
  "own_preferences user_id session_id p =
     (if truthy user_id then up_user_id p = user_id
      else if truthy session_id then up_session_id p = session_id else False)"

definition get_preferences :: "db \<Rightarrow> string option \<Rightarrow> string option \<Rightarrow> (string \<times> string) list" where
  "get_preferences d user_id session_id =
     fold (\<lambda>p acc. dict_set (up_key p) (up_value p) acc)
       (filter (own_preferences user_id session_id) (db_preferences d)) []"

text \<open>
  One turn of the loop; \<open>new_id\<close> gives the identifier of a row added for a key.  A new row must name
  a user and a session that exist; the \<open>flush\<close> that finds out may come after the loop, and the
  exception takes back all of it.
\<close>

definition set_preference ::
    "(string \<Rightarrow> string) \<Rightarrow> string option \<Rightarrow> string option \<Rightarrow> string \<times> string \<Rightarrow> exn + db \<Rightarrow> exn + db" where
  "set_preference new_id user_id session_id kv acc =
     (case acc of
        Inl x \<Rightarrow> Inl x
      | Inr d \<Rightarrow>
          if \<not> truthy user_id \<and> \<not> truthy session_id then Inr d
          else (case scalar_one_or_none (filter (\<lambda>p. own_preferences user_id session_id p \<and> up_key p = fst kv)
                        (db_preferences d)) of
                  Inl x \<Rightarrow> Inl x
                | Inr (Some pref) \<Rightarrow>
                    Inr (d\<lparr>db_preferences := update_where (\<lambda>p. up_id p = up_id pref)
                             (up_value_update (\<lambda>_. snd kv)) (db_preferences d)\<rparr>)
                | Inr None \<Rightarrow>
                    if \<not> references_ok d user_id session_id \<or> new_id (fst kv) \<in> set (map up_id (db_preferences d))
                    then Inl IntegrityError
                    else
                    Inr (d\<lparr>db_preferences := db_preferences d @
                             [\<lparr>up_id = new_id (fst kv), up_user_id = user_id, up_session_id = session_id,
                               up_key = fst kv, up_value = snd kv\<rparr>]\<rparr>)))"

definition set_preferences ::
    "(string \<Rightarrow> string) \<Rightarrow> db \<Rightarrow> string option \<Rightarrow> string option \<Rightarrow> (string \<times> string) list \<Rightarrow>
     (exn + (string \<times> string) list) \<times> db" where
  "set_preferences new_id d user_id session_id updates =
     (case fold (set_preference new_id user_id session_id) updates (Inr d) of
        Inl x \<Rightarrow> (Inl x, d)
      | Inr d' \<Rightarrow> (Inr (get_preferences d' user_id session_id), d'))"

definition get_prefs_endpoint :: "request \<Rightarrow> db \<Rightarrow> (string \<times> string) list" where
  "get_prefs_endpoint r d = get_preferences d (st_user_id (rq_state r)) (st_session_id (rq_state r))"

text \<open>The body: the fields present, defined or extra; those with a null value are left out.\<close>

definition put_prefs_endpoint ::
    "(string \<Rightarrow> string) \<Rightarrow> (string \<times> string option) list \<Rightarrow> request \<Rightarrow> db \<Rightarrow>
     (exn + (string \<times> string) list) \<times> db" where
  "put_prefs_endpoint new_id body r d =
     (case csrf_required r of
        Inl x \<Rightarrow> (Inl x, d)
      | Inr _ \<Rightarrow>
          (let updates = List.map_filter (\<lambda>(k, v). map_option (Pair k) v) body
           in if updates = [] then (Inr (get_prefs_endpoint r d), d)
              else set_preferences new_id d (st_user_id (rq_state r)) (st_session_id (rq_state r)) updates))"

section \<open>Sessions\<close>

definition list_sessions_endpoint :: "env \<Rightarrow> request \<Rightarrow> db \<Rightarrow> exn + session_view list" where
  "list_sessions_endpoint e r d =
     (case st_user_id (rq_state r) of
        None \<Rightarrow> Inl (AppError 401 ''SESSION_EXPIRED'' ''errors.session_expired'')
      | Some user_id \<Rightarrow>
          Inr (list_for_user (e_now e) d user_id (map_option (e_hash e) (get_session_token r))))"

text \<open>The result says whether the session cookie of the request is cleared.\<close>

definition revoke_session_endpoint ::
    "env \<Rightarrow> string \<Rightarrow> request \<Rightarrow> db \<times> sess_redis \<Rightarrow> (exn + bool) \<times> db \<times> sess_redis" where
  "revoke_session_endpoint e session_id r w =
     (case csrf_required r of
        Inl x \<Rightarrow> (Inl x, w)
      | Inr _ \<Rightarrow>
          (if st_user_id (rq_state r) = None
           then (Inl (AppError 401 ''SESSION_EXPIRED'' ''errors.session_expired''), w)
           else (case session_revoke e w session_id of
               (Inl x, w') \<Rightarrow> (Inl x, w)
             | (Inr None, w') \<Rightarrow> (Inl (AppError 404 ''NOT_FOUND'' ''errors.not_found''), w)
             | (Inr (Some token_hash), w') \<Rightarrow>
                 (Inr (map_option (e_hash e) (get_session_token r) = Some token_hash), w'))))"

section \<open>The account\<close>

definition update_name :: "string option \<Rightarrow> (string option \<Rightarrow> user \<Rightarrow> user) \<Rightarrow> exn + (user \<Rightarrow> user)" where
  "update_name name assign =
     (case name of
        None \<Rightarrow> Inr id
      | Some n \<Rightarrow> (let stripped = py_strip n
                   in if stripped = [] then Inl (AppError 422 ''VALIDATION_ERROR'' ''errors.validation'')
                      else Inr (assign (Some stripped))))"

definition update_profile_endpoint ::
    "env \<Rightarrow> string option \<Rightarrow> string option \<Rightarrow> request \<Rightarrow> db \<Rightarrow> (exn + user) \<times> db" where
  "update_profile_endpoint e first_name last_name r d =
     (case csrf_required r of
        Inl x \<Rightarrow> (Inl x, d)
      | Inr _ \<Rightarrow>
          (case st_user_id (rq_state r) of
             None \<Rightarrow> (Inl (AppError 401 ''SESSION_EXPIRED'' ''errors.session_expired''), d)
           | Some user_id \<Rightarrow>
               (case user_by_id d user_id of
                  Inl x \<Rightarrow> (Inl x, d)
                | Inr None \<Rightarrow> (Inl (AppError 404 ''NOT_FOUND'' ''errors.not_found''), d)
                | Inr (Some user) \<Rightarrow>
                    (case (update_name first_name (\<lambda>n. u_first_name_update (\<lambda>_. n)),
                           update_name last_name (\<lambda>n. u_last_name_update (\<lambda>_. n))) of
                       (Inl x, _) \<Rightarrow> (Inl x, d)
                     | (_, Inl x) \<Rightarrow> (Inl x, d)
                     | (Inr f, Inr g) \<Rightarrow>
                         (Inr (g (f user)), update_user (e_now e) user_id (g \<circ> f) d)))))"

text \<open>
  Account deletion names the column \<open>user_id\<close> of three log tables.  A mapped class without that
  attribute raises \<open>AttributeError\<close>; \<open>audit_logs\<close> has \<open>admin_id\<close> only.
\<close>

definition log_columns :: "string \<Rightarrow> string list" where
  "log_columns table =
     (if table = ''tool_execution_logs'' then [''id'', ''user_id'', ''session_id'', ''source_ip'', ''tool_name'',
        ''parameters'', ''result'', ''duration_ms'', ''error_message'', ''created_at'']
      else if table = ''security_event_logs'' then SECURITY_EVENT_COLUMNS
      else if table = ''audit_logs'' then [''id'', ''admin_id'', ''action'', ''entity_type'', ''entity_id'',
        ''old_value'', ''new_value'', ''created_at'']
      else [])"

definition clear_log_user :: "string \<Rightarrow> string \<Rightarrow> exn + db \<Rightarrow> exn + db" where
  "clear_log_user user_id table acc =
     (case acc of
        Inl x \<Rightarrow> Inl x
      | Inr d \<Rightarrow>
          if ''user_id'' \<notin> set (log_columns table) then Inl (PyError ''AttributeError'')
          else if table = ''tool_execution_logs'' then
            Inr (d\<lparr>db_exec_logs := update_where (\<lambda>l. el_user_id l = Some user_id)
                     (el_user_id_update (\<lambda>_. None)) (db_exec_logs d)\<rparr>)
          else
            Inr (d\<lparr>db_events := update_where (\<lambda>l. ev_user_id l = Some user_id)
                     (ev_user_id_update (\<lambda>_. None)) (db_events d)\<rparr>))"

definition delete_account_endpoint :: "auth_cfg \<Rightarrow> string \<Rightarrow> request \<Rightarrow> db \<Rightarrow> (exn + unit) \<times> db" where
  "delete_account_endpoint c password r d =
     (case csrf_required r of
        Inl x \<Rightarrow> (Inl x, d)
      | Inr _ \<Rightarrow>
          (case st_user_id (rq_state r) of
             None \<Rightarrow> (Inl (AppError 401 ''SESSION_EXPIRED'' ''errors.session_expired''), d)
           | Some user_id \<Rightarrow>
               (case user_by_id d user_id of
                  Inl x \<Rightarrow> (Inl x, d)
                | Inr None \<Rightarrow> (Inl (AppError 404 ''NOT_FOUND'' ''errors.not_found''), d)
                | Inr (Some user) \<Rightarrow>
                    if \<not> ac_verify c password (u_password_hash user)
                    then (Inl (AppError 401 ''INVALID_CREDENTIALS'' ''errors.invalid_credentials''), d)
                    else
                      (let d1 = (delete_sessions (\<lambda>s. s_user_id s = Some user_id)
                                  (d\<lparr>db_preferences := filter (\<lambda>p. up_user_id p \<noteq> Some user_id) (db_preferences d),
                                     db_verifications := filter (\<lambda>t. mt_user_id t \<noteq> user_id) (db_verifications d),
                                     db_resets := filter (\<lambda>t. mt_user_id t \<noteq> user_id) (db_resets d)\<rparr>))
                       in case fold (clear_log_user user_id)
                                 [''tool_execution_logs'', ''security_event_logs'', ''audit_logs''] (Inr d1) of
                            Inl x \<Rightarrow> (Inl x, d)
                          | Inr d2 \<Rightarrow>
                              (case delete_users (\<lambda>u. u_id u = user_id) d2 of
                                 Inl x \<Rightarrow> (Inl x, d)
                               | Inr d3 \<Rightarrow> (Inr (), d3))))))"

section \<open>Lemmas\<close>

lemma map_of_fold_prefs:
  "map_of (fold (\<lambda>p acc. dict_set (up_key p) (up_value p) acc) ps acc) k =
     (case find (\<lambda>p. up_key p = k) (rev ps) of Some p \<Rightarrow> Some (up_value p) | None \<Rightarrow> map_of acc k)"
  by (induction ps arbitrary: acc rule: rev_induct) (auto simp: map_of_dict_set)

text \<open>The owner's rows have distinct keys, and rows have distinct identifiers.\<close>

definition prefs_wf :: "string option \<Rightarrow> string option \<Rightarrow> db \<Rightarrow> bool" where
  "prefs_wf u s d \<longleftrightarrow> distinct (map up_id (db_preferences d)) \<and>
     distinct (map up_key (filter (own_preferences u s) (db_preferences d)))"

lemma find_rev_distinct: "distinct (map f xs) \<Longrightarrow> find (\<lambda>x. f x = k) (rev xs) = find (\<lambda>x. f x = k) xs"
proof (cases "find (\<lambda>x. f x = k) xs")
  case None
  then show ?thesis
    by (metis find_None_iff set_rev)
next
  case (Some x)
  assume "distinct (map f xs)"
  then have "distinct (map f (rev xs))"
    by (simp add: rev_map [symmetric])
  then show ?thesis
    using find_unique [of f "rev xs" x] find_Some_in [OF Some] Some by auto
qed

lemma get_preferences_lookup:
  "prefs_wf u s d \<Longrightarrow> map_of (get_preferences d u s) k =
     map_option up_value (find (\<lambda>p. up_key p = k) (filter (own_preferences u s) (db_preferences d)))"
  by (simp add: get_preferences_def map_of_fold_prefs prefs_wf_def find_rev_distinct split: option.split)

definition prefs_map :: "string option \<Rightarrow> string option \<Rightarrow> db \<Rightarrow> string \<Rightarrow> string option" where
  "prefs_map u s d k =
     map_option up_value (find (\<lambda>p. up_key p = k) (filter (own_preferences u s) (db_preferences d)))"

lemma get_preferences_map: "prefs_wf u s d \<Longrightarrow> map_of (get_preferences d u s) = prefs_map u s d"
  by (simp add: fun_eq_iff get_preferences_lookup prefs_map_def)

lemma own_update [simp]: "own_preferences u s (up_value_update f p) = own_preferences u s p"
  by (simp add: own_preferences_def)

lemma find_append_prefs:
  "find P (xs @ ys) = (case find P xs of Some x \<Rightarrow> Some x | None \<Rightarrow> find P ys)"
  by (induction xs) auto

lemma filter_update_where:
  "(\<And>x. P (f x) = P x) \<Longrightarrow> filter P (update_where q f xs) = update_where q f (filter P xs)"
  by (induction xs) (auto simp: update_where_def)

lemma scalar_one_or_none_filter2:
  assumes "distinct (map f (filter q xs))"
  shows "scalar_one_or_none (filter (\<lambda>x. q x \<and> f x = k) xs) = Inr (find (\<lambda>x. f x = k) (filter q xs))"
  using scalar_one_or_none_filter [OF assms, of k] by (simp add: conj_commute filter_filter [symmetric] del: filter_filter)

lemma set_preference_finds:
  assumes "prefs_wf u s d"
  shows "scalar_one_or_none (filter (\<lambda>p. own_preferences u s p \<and> up_key p = k) (db_preferences d)) =
    Inr (find (\<lambda>p. up_key p = k) (filter (own_preferences u s) (db_preferences d)))"
  using assms by (intro scalar_one_or_none_filter2) (simp add: prefs_wf_def)

text \<open>A key that is not there yet gets a row.\<close>

lemma set_preference_added:
  assumes "prefs_wf u s d" "truthy u \<or> truthy s" "new_id k \<notin> up_id ` set (db_preferences d)"
    and "references_ok d u s" and none: "find (\<lambda>p. up_key p = k) (filter (own_preferences u s) (db_preferences d)) = None"
  shows "\<exists>d'. set_preference new_id u s (k, v) (Inr d) = Inr d' \<and> prefs_wf u s d' \<and>
    prefs_map u s d' = (prefs_map u s d)(k \<mapsto> v) \<and> references_ok d' u s = references_ok d u s \<and>
    up_id ` set (db_preferences d') \<subseteq> insert (new_id k) (up_id ` set (db_preferences d))"
proof -
  let ?new = "\<lparr>up_id = new_id k, up_user_id = u, up_session_id = s, up_key = k, up_value = v\<rparr>"
  let ?d = "d\<lparr>db_preferences := db_preferences d @ [?new]\<rparr>"
  have own: "own_preferences u s ?new"
    using assms(2) by (auto simp: own_preferences_def)
  have no_key: "k \<notin> up_key ` set (filter (own_preferences u s) (db_preferences d))"
    using none by (force simp: find_None_iff)
  have step: "set_preference new_id u s (k, v) (Inr d) = Inr ?d"
    using assms(2-4) by (auto simp: set_preference_def set_preference_finds [OF assms(1)] none)
  have wf: "prefs_wf u s ?d"
    using assms(1,3) own no_key by (simp add: prefs_wf_def)
  have "prefs_map u s ?d j = ((prefs_map u s d)(k \<mapsto> v)) j" for j
    using none own by (cases "j = k") (simp_all add: prefs_map_def find_append_prefs split: option.split)
  then have "prefs_map u s ?d = (prefs_map u s d)(k \<mapsto> v)"
    by (rule ext)
  moreover have "up_id ` set (db_preferences ?d) \<subseteq> insert (new_id k) (up_id ` set (db_preferences d))"
    by simp
  moreover have "references_ok ?d u s = references_ok d u s"
    by (simp add: references_ok_def)
  ultimately show ?thesis
    using step wf by (intro exI [of _ ?d]) (simp only: simp_thms)
qed

text \<open>The row of a key that is there gets the value.\<close>

lemma find_after_update:
  assumes "distinct (map up_id ps)" "find (\<lambda>p. up_key p = k) (filter q ps) = Some pref"
  shows "map_option up_value (find (\<lambda>p. up_key p = j)
      (update_where (\<lambda>p. up_id p = up_id pref) (up_value_update (\<lambda>_. v)) (filter q ps))) =
    (if j = k then Some v else map_option up_value (find (\<lambda>p. up_key p = j) (filter q ps)))"
proof (cases "find (\<lambda>p. up_key p = j) (filter q ps)")
  case None
  with assms(2) show ?thesis
    by (auto simp: find_update_where)
next
  case (Some p)
  then have p: "p \<in> set ps" "up_key p = j" and pref: "pref \<in> set ps" "up_key pref = k"
    using assms(2) by (auto dest: find_Some_in)
  have "p = pref" if "up_id p = up_id pref"
    using assms(1) that p(1) pref(1) unfolding distinct_map by (blast dest: inj_onD)
  then have "up_id p = up_id pref \<longleftrightarrow> j = k"
    using Some assms(2) p(2) pref(2) by (cases "j = k") auto
  then show ?thesis
    by (simp add: find_update_where Some)
qed

lemma set_preference_changed:
  assumes "prefs_wf u s d" "truthy u \<or> truthy s"
    and found: "find (\<lambda>p. up_key p = k) (filter (own_preferences u s) (db_preferences d)) = Some pref"
  shows "\<exists>d'. set_preference new_id u s (k, v) (Inr d) = Inr d' \<and> prefs_wf u s d' \<and>
    prefs_map u s d' = (prefs_map u s d)(k \<mapsto> v) \<and> references_ok d' u s = references_ok d u s \<and> up_id ` set (db_preferences d') = up_id ` set (db_preferences d)"
proof -
  let ?upd = "\<lambda>xs. update_where (\<lambda>p. up_id p = up_id pref) (up_value_update (\<lambda>_. v)) xs"
  let ?d = "d\<lparr>db_preferences := ?upd (db_preferences d)\<rparr>"
  have step: "set_preference new_id u s (k, v) (Inr d) = Inr ?d"
    using assms(2) by (auto simp: set_preference_def set_preference_finds [OF assms(1)] found)
  have own: "filter (own_preferences u s) (db_preferences ?d) = ?upd (filter (own_preferences u s) (db_preferences d))"
    by (simp add: filter_update_where)
  have wf: "prefs_wf u s ?d"
    using assms(1) unfolding prefs_wf_def own by (simp add: map_update_where)
  have "prefs_map u s ?d = (prefs_map u s d)(k \<mapsto> v)"
    using find_after_update [OF _ found] assms(1) unfolding prefs_map_def own by (simp add: fun_eq_iff prefs_wf_def)
  moreover have "up_id ` set (db_preferences ?d) = up_id ` set (db_preferences d)"
    using map_update_where [of "\<lambda>p. up_id p = up_id pref" up_id "up_value_update (\<lambda>_. v)" "db_preferences d",
        THEN arg_cong [where f = set]] by simp
  moreover have "references_ok ?d u s = references_ok d u s"
    by (simp add: references_ok_def)
  ultimately show ?thesis
    using step wf by (intro exI [of _ ?d]) (simp only: simp_thms)
qed

text \<open>One assignment: it succeeds, keeps the keys distinct and changes that key alone.\<close>

lemma set_preference_step:
  assumes "prefs_wf u s d" "truthy u \<or> truthy s" "new_id k \<notin> up_id ` set (db_preferences d)" "references_ok d u s"
  shows "\<exists>d'. set_preference new_id u s (k, v) (Inr d) = Inr d' \<and> prefs_wf u s d' \<and>
    prefs_map u s d' = (prefs_map u s d)(k \<mapsto> v) \<and> references_ok d' u s = references_ok d u s \<and>
    up_id ` set (db_preferences d') \<subseteq> insert (new_id k) (up_id ` set (db_preferences d))"
proof (cases "find (\<lambda>p. up_key p = k) (filter (own_preferences u s) (db_preferences d))")
  case None
  then show ?thesis
    using set_preference_added [of u s d new_id k v] assms None by blast
next
  case (Some pref)
  then show ?thesis
    using set_preference_changed [OF assms(1,2) Some, of new_id v] by blast
qed

lemma disjoint_insert_subset: "x \<notin> A \<Longrightarrow> A \<inter> B = {} \<Longrightarrow> C \<subseteq> insert x B \<Longrightarrow> A \<inter> C = {}"
  by blast

lemma set_preferences_fold:
  assumes "prefs_wf u s d" "truthy u \<or> truthy s" "references_ok d u s" "distinct (map fst updates)"
    and "inj_on new_id (set (map fst updates))" "new_id ` set (map fst updates) \<inter> up_id ` set (db_preferences d) = {}"
  shows "\<exists>d'. fold (set_preference new_id u s) updates (Inr d) = Inr d' \<and> prefs_wf u s d' \<and>
    prefs_map u s d' = prefs_map u s d ++ map_of updates"
  using assms
proof (induction updates arbitrary: d)
  case (Cons kv updates)
  obtain k v where kv: "kv = (k, v)" by (rule prod.exhaust)
  obtain d1 where d1: "set_preference new_id u s (k, v) (Inr d) = Inr d1" "prefs_wf u s d1"
      "prefs_map u s d1 = (prefs_map u s d)(k \<mapsto> v)"
      "up_id ` set (db_preferences d1) \<subseteq> insert (new_id k) (up_id ` set (db_preferences d))" "references_ok d1 u s"
    using set_preference_step [OF Cons.prems(1,2) _ Cons.prems(3), of new_id k v] Cons.prems(3,6) kv by fastforce
  have "new_id ` set (map fst updates) \<inter> up_id ` set (db_preferences d1) = {}"
  proof -
    have "new_id k \<notin> new_id ` set (map fst updates)"
      using Cons.prems(4,5) kv by (auto simp: inj_on_insert)
    moreover have "new_id ` set (map fst updates) \<inter> up_id ` set (db_preferences d) = {}"
      using Cons.prems(6) kv by auto
    ultimately show ?thesis
      using d1(4) by (rule disjoint_insert_subset)
  qed
  note fresh = this
  have "distinct (map fst updates)" "inj_on new_id (set (map fst updates))" and k: "k \<notin> dom (map_of updates)"
    using Cons.prems(4,5) kv by (simp_all add: inj_on_insert dom_map_of_conv_image_fst)
  from Cons.IH [OF d1(2) Cons.prems(2) d1(5) this(1,2) fresh]
  obtain d' where d': "fold (set_preference new_id u s) updates (Inr d1) = Inr d'" "prefs_wf u s d'"
      "prefs_map u s d' = prefs_map u s d1 ++ map_of updates"
    by blast
  have m: "prefs_map u s d' = prefs_map u s d ++ map_of (kv # updates)"
    by (simp add: d'(3) d1(3) kv map_add_upd_left [OF k])
  have "fold (set_preference new_id u s) (kv # updates) (Inr d) = Inr d'"
    using d'(1) d1(1) kv by simp
  then show ?case
    by (intro exI [of _ d'] conjI d'(2) m)
qed simp

section \<open>Properties\<close>

text \<open>
  Preferences read back as written.  With fresh identifiers, storing preferences for a
  user or a session succeeds, and a later read gives the new value of every key stored and the
  old value of every other key.
\<close>

lemma preferences_roundtrip:
  assumes "prefs_wf u s d" "truthy u \<or> truthy s" "references_ok d u s" "distinct (map fst updates)"
    and "inj_on new_id (set (map fst updates))" "new_id ` set (map fst updates) \<inter> up_id ` set (db_preferences d) = {}"
  shows "\<exists>d' prefs. set_preferences new_id d u s updates = (Inr prefs, d') \<and>
    map_of prefs = map_of (get_preferences d u s) ++ map_of updates \<and> get_preferences d' u s = prefs"
proof -
  obtain d' where d': "fold (set_preference new_id u s) updates (Inr d) = Inr d'" "prefs_wf u s d'"
      "prefs_map u s d' = prefs_map u s d ++ map_of updates"
    using set_preferences_fold [OF assms] by blast
  then show ?thesis
    using assms(1) by (simp add: set_preferences_def get_preferences_map)
qed

lemma preferences_roundtrip_witness:
  "\<exists>d' prefs. set_preferences (\<lambda>k. ''new_'' @ k)
       (sample_db\<lparr>db_preferences := [\<lparr>up_id = ''p'', up_user_id = Some ''u'', up_session_id = None, up_key = ''theme'', up_value = ''dark''\<rparr>]\<rparr>)
       (Some ''u'') None [(''locale'', ''fr'')] = (Inr prefs, d')
     \<and> map_of prefs ''locale'' = Some ''fr'' \<and> map_of prefs ''theme'' = Some ''dark''"
proof -
  let ?d = "sample_db\<lparr>db_preferences := [\<lparr>up_id = ''p'', up_user_id = Some ''u'', up_session_id = None, up_key = ''theme'', up_value = ''dark''\<rparr>]\<rparr>"
  have "prefs_wf (Some ''u'') None ?d" "references_ok ?d (Some ''u'') None"
    by (simp_all add: prefs_wf_def own_preferences_def references_ok_def sample_db_def sample_user_def)
  with preferences_roundtrip [of "Some ''u''" None ?d "[(''locale'', ''fr'')]" "\<lambda>k. ''new_'' @ k"]
  show ?thesis
    by (auto simp: get_preferences_def own_preferences_def)
qed

text \<open>A preference that is new is refused, and nothing is stored, when the user or the session is gone.\<close>

lemma preference_needs_owner:
  assumes "prefs_wf u s d" "truthy u \<or> truthy s" "\<not> references_ok d u s" "prefs_map u s d k = None"
  shows "set_preferences new_id d u s [(k, v)] = (Inl IntegrityError, d)"
  using assms(2-4) by (auto simp: set_preferences_def set_preference_def set_preference_finds [OF assms(1)] prefs_map_def)

text \<open>
  Any signed-in user can end anyone's session.  The endpoint checks the CSRF token and
  that the caller is signed in, but not whose session it is: for every existing session it
  succeeds and ends it.
\<close>

lemma revoke_session_any_user:
  assumes "csrf_required r = Inr ()" "st_user_id (rq_state r) = Some caller"
    and "sessions_wf d" "e_redis_up e" "s \<in> set (db_sessions d)" "s_user_id s \<noteq> Some caller"
  shows "\<exists>cleared w'. revoke_session_endpoint e (s_id s) r (d, redis) = (Inr cleared, w') \<and>
    fst (resolve_session e w' (s_token_hash s)) = None"
proof -
  obtain ps where rev: "session_revoke e (d, redis) (s_id s) = (Inr (Some (s_token_hash s)),
      delete_sessions (\<lambda>x. s_id x = s_id s) (d\<lparr>db_preferences := ps\<rparr>), redis_delete_session e redis (s_token_hash s))"
    using revoke_eq [OF assms(3,5)] .
  have "fst (resolve_session e (delete_sessions (\<lambda>x. s_id x = s_id s) (d\<lparr>db_preferences := ps\<rparr>),
      redis_delete_session e redis (s_token_hash s)) (s_token_hash s)) = None"
    using assms(3-5) by (intro deleted_unresolved) (simp_all add: hgetall_delete)
  then show ?thesis
    using assms(1,2) by (simp add: revoke_session_endpoint_def rev)
qed

lemma revoke_session_any_user_witness:
  "\<exists>cleared w'. revoke_session_endpoint sample_env ''s1''
     \<lparr>rq_type = ''http'', rq_method = ''DELETE'', rq_path = ''/'', rq_scheme = ''https'', rq_client = None,
      rq_headers = [(''x-csrf-token'', ''c'')], rq_cookies = [(''sakn_csrf'', ''c'')],
      rq_state = no_state\<lparr>st_user_id := Some ''intruder''\<rparr>\<rparr> (sample_db, sample_redis) = (Inr cleared, w')
   \<and> fst (resolve_session sample_env w' ''h1'') = None"
proof -
  let ?r = "\<lparr>rq_type = ''http'', rq_method = ''DELETE'', rq_path = ''/'', rq_scheme = ''https'', rq_client = None,
      rq_headers = [(''x-csrf-token'', ''c'')], rq_cookies = [(''sakn_csrf'', ''c'')],
      rq_state = no_state\<lparr>st_user_id := Some ''intruder''\<rparr>\<rparr>"
  have "csrf_required ?r = Inr ()"
    by (simp add: csrf_required_def SAFE_METHODS_def validate_csrf_def CSRF_COOKIE_def CSRF_HEADER_def header_def)
  from revoke_session_any_user [OF this _ sample_wf(1,6,2), of "''intruder''"] show ?thesis
    by (simp add: sample_wf)
qed

text \<open>
  An account is never deleted.  Whatever the request and the password, the deletion
  endpoint raises, because it asks the audit table for a column it does not have, and the
  rollback leaves the database as it was.
\<close>

lemma delete_account_never_succeeds:
  "\<exists>x. delete_account_endpoint c password r d = (Inl x, d)"
proof -
  have "fold (clear_log_user u) [''tool_execution_logs'', ''security_event_logs'', ''audit_logs''] (Inr d1)
      = Inl (PyError ''AttributeError'')" for u d1
    by (simp add: clear_log_user_def log_columns_def SECURITY_EVENT_COLUMNS_def)
  then show ?thesis
    by (auto simp: delete_account_endpoint_def Let_def split: sum.split option.split)
qed

end
