(* ===== verification/Admin_Users.thy ===== *)
theory Admin_Users
  imports Auth
begin

text \<open>
  \<open>app/services/admin_service.py\<close> and \<open>app/api/v1/endpoints/admin_users.py\<close>: the guard of the
  last administrator, the audit trail, and the user management endpoints.
\<close>

section \<open>The administration service\<close>

definition ensure_not_last_admin :: "db \<Rightarrow> string \<Rightarrow> exn + unit" where
  "ensure_not_last_admin d user_id =
     (let remaining = length (filter (\<lambda>u. u_role u = ROLE_ADMINISTRATOR \<and>
            u_status u \<in> set [''active'', ''pending''] \<and> u_id u \<noteq> user_id) (db_users d))
      in if remaining = 0 then Inl (AppError 422 ''LAST_ADMIN'' ''errors.last_admin'') else Inr ())"

text \<open>
  The row is flushed at once: its administrator must exist.  An empty or missing old value is
  stored as null.
\<close>

definition audit_entry ::
    "env \<Rightarrow> string \<Rightarrow> string \<Rightarrow> string \<Rightarrow> string \<Rightarrow> (string \<times> json) list \<Rightarrow> (string \<times> json) list \<Rightarrow>
     db \<Rightarrow> audit_log" where
  "audit_entry e admin_id action entity_type entity_id old_value new_value d =
     \<lparr>au_id = e_fresh e (''audit_id'' @ str_of_nat (length (db_audit d))), au_admin_id = admin_id,
      au_action = action, au_entity_type = entity_type, au_entity_id = entity_id,
      au_old_value = (if old_value = [] then None else Some (json_dumps (JObj old_value))),
      au_new_value = json_dumps (JObj new_value), au_created_at = e_now e\<rparr>"

definition log_admin_action ::
    "env \<Rightarrow> string \<Rightarrow> string \<Rightarrow> string \<Rightarrow> string \<Rightarrow> (string \<times> json) list \<Rightarrow> (string \<times> json) list \<Rightarrow>
     db \<Rightarrow> exn + db" where
  "log_admin_action e admin_id action entity_type entity_id old_value new_value d =
     (if admin_id \<notin> set (map u_id (db_users d)) then Inl IntegrityError
      else Inr (d\<lparr>db_audit := db_audit d @
             [audit_entry e admin_id action entity_type entity_id old_value new_value d]\<rparr>))"

text \<open>\<open>admin_id or "unknown"\<close>.\<close>

definition admin_of :: "request \<Rightarrow> string" where
  "admin_of r = (if truthy (st_user_id (rq_state r)) then the (st_user_id (rq_state r)) else ''unknown'')"

text \<open>
  Every endpoint depends on the request session and on \<open>require_admin\<close>, in that order.
\<close>

definition admin_route :: "env \<Rightarrow> request \<Rightarrow> (db \<Rightarrow> (exn + 'a) \<times> db) \<Rightarrow> db \<Rightarrow> (exn + 'a) \<times> db" where
  "admin_route e r handler =
     with_session (e_db_up e) (\<lambda>d. case require_admin r of Inl x \<Rightarrow> (Inl x, d) | Inr _ \<Rightarrow> handler d)"

text \<open>A handler that loads the row named in the path: absent, it answers 404.\<close>

definition with_user :: "string \<Rightarrow> (user \<Rightarrow> db \<Rightarrow> (exn + 'a) \<times> db) \<Rightarrow> db \<Rightarrow> (exn + 'a) \<times> db" where
  "with_user user_id body d =
     (case user_by_id d user_id of
        Inl x \<Rightarrow> (Inl x, d)
      | Inr None \<Rightarrow> (Inl (HTTPException 404), d)
      | Inr (Some user) \<Rightarrow> body user d)"

text \<open>The end of a handler: flush the audit row, commit and answer; a raise rolls back.\<close>

definition committed :: "'a \<Rightarrow> db \<Rightarrow> exn + db \<Rightarrow> (exn + 'a) \<times> db" where
  "committed answer d result = (case result of Inl x \<Rightarrow> (Inl x, d) | Inr d' \<Rightarrow> (Inr answer, d'))"

section \<open>Listing\<close>

text \<open>\<open>str.replace\<close> of one character.\<close>

definition py_replace_char :: "char \<Rightarrow> string \<Rightarrow> string \<Rightarrow> string" where
  "py_replace_char c r s = concat (map (\<lambda>x. if x = c then r else [x]) s)"

definition escape_like :: "string \<Rightarrow> string" where
  "escape_like search =
     py_replace_char CHR ''_'' [CHR 0x5C, CHR ''_'']
       (py_replace_char CHR ''%'' [CHR 0x5C, CHR ''%'']
         (py_replace_char CHR 0x5C [CHR 0x5C, CHR 0x5C] search))"

text \<open>SQL \<open>LIKE\<close> with an escape character, and its case-insensitive form.\<close>

function like_match :: "char \<Rightarrow> string \<Rightarrow> string \<Rightarrow> bool" where
  "like_match esc [] s = (s = [])"
| "like_match esc (p # ps) s =
     (if p = esc then (case ps of [] \<Rightarrow> False
        | q # qs \<Rightarrow> (case s of [] \<Rightarrow> False | c # cs \<Rightarrow> c = q \<and> like_match esc qs cs))
      else if p = CHR ''%'' then
        like_match esc ps s \<or> (case s of [] \<Rightarrow> False | c # cs \<Rightarrow> like_match esc (p # ps) cs)
      else (case s of [] \<Rightarrow> False | c # cs \<Rightarrow> (p = CHR ''_'' \<or> c = p) \<and> like_match esc ps cs))"
  by pat_completeness auto
termination
  by (relation "measures [\<lambda>(esc, ps, s). length ps, \<lambda>(esc, ps, s). length s]") auto

definition ilike :: "string \<Rightarrow> string \<Rightarrow> bool" where
  "ilike pattern s = like_match CHR 0x5C (py_lower pattern) (py_lower s)"

record admin_user_view =
  av_id :: string
  av_email :: string
  av_first_name :: "string option"
  av_last_name :: "string option"
  av_role :: string
  av_status :: string
  av_email_verified :: bool
  av_failed_login_attempts :: int
  av_locked_until :: "string option"
  av_admin_notes :: "string option"
  av_created_at :: string
  av_updated_at :: string

definition admin_view :: "env \<Rightarrow> user \<Rightarrow> admin_user_view" where
  "admin_view e u =
     \<lparr>av_id = u_id u, av_email = u_email u, av_first_name = u_first_name u, av_last_name = u_last_name u,
      av_role = u_role u, av_status = u_status u, av_email_verified = (u_email_verified_at u \<noteq> None),
      av_failed_login_attempts = u_failed_login_attempts u,
      av_locked_until = map_option (e_iso e) (u_locked_until u), av_admin_notes = u_admin_notes u,
      av_created_at = e_iso e (u_created_at u), av_updated_at = e_iso e (u_updated_at u)\<rparr>"

text \<open>The sort column as a key: times by value, texts in the order of their characters.\<close>

datatype sort_value = SortTime tstamp | SortText string

fun sort_le :: "sort_value \<Rightarrow> sort_value \<Rightarrow> bool" where
  "sort_le (SortTime a) (SortTime b) = (a \<le> b)"
| "sort_le (SortText a) (SortText b) = (a \<le> b)"
| "sort_le (SortTime a) (SortText b) = True"
| "sort_le (SortText a) (SortTime b) = False"

instantiation sort_value :: linorder
begin

definition less_eq_sort_value :: "sort_value \<Rightarrow> sort_value \<Rightarrow> bool" where
  "less_eq_sort_value a b = sort_le a b"

definition less_sort_value :: "sort_value \<Rightarrow> sort_value \<Rightarrow> bool" where
  "less_sort_value a b = (sort_le a b \<and> \<not> sort_le b a)"

instance
proof
  fix x y z :: sort_value
  show "x < y \<longleftrightarrow> x \<le> y \<and> \<not> y \<le> x"
    by (simp add: less_eq_sort_value_def less_sort_value_def)
  show "x \<le> x"
    by (cases x) (simp_all add: less_eq_sort_value_def)
  show "x \<le> y \<Longrightarrow> y \<le> z \<Longrightarrow> x \<le> z"
    by (cases x; cases y; cases z) (auto simp: less_eq_sort_value_def)
  show "x \<le> y \<Longrightarrow> y \<le> x \<Longrightarrow> x = y"
    by (cases x; cases y) (auto simp: less_eq_sort_value_def)
  show "x \<le> y \<or> y \<le> x"
    by (cases x; cases y) (auto simp: less_eq_sort_value_def)
qed

end

text \<open>\<open>first_name\<close> may be null; PostgreSQL sorts nulls last.\<close>

definition user_sort_key :: "string option \<Rightarrow> user \<Rightarrow> bool \<times> sort_value" where
  "user_sort_key sort_col u =
     (if sort_col = Some ''email'' then (False, SortText (u_email u))
      else if sort_col = Some ''name'' then
        (u_first_name u = None, SortText (case u_first_name u of Some n \<Rightarrow> n | None \<Rightarrow> []))
      else if sort_col = Some ''status'' then (False, SortText (u_status u))
      else if sort_col = Some ''role'' then (False, SortText (u_role u))
      else (False, SortTime (u_created_at u)))"

text \<open>Rows with equal keys come in an order the database leaves open; here the table's.\<close>

definition order_users :: "string option \<Rightarrow> string option \<Rightarrow> user list \<Rightarrow> user list" where
  "order_users sort_col order us =
     (let asc = sort_key (\<lambda>u. snd (user_sort_key sort_col u)) (filter (\<lambda>u. \<not> fst (user_sort_key sort_col u)) us)
              @ filter (\<lambda>u. fst (user_sort_key sort_col u)) us
      in if order = Some ''desc'' then rev asc else asc)"

definition user_filter :: "string option \<Rightarrow> string option \<Rightarrow> user \<Rightarrow> bool" where
  "user_filter status search u \<longleftrightarrow>
     (truthy status \<longrightarrow> Some (u_status u) = status) \<and>
     (truthy search \<longrightarrow> ilike (''%'' @ escape_like (the search) @ ''%'') (u_email u))"

definition list_users ::
    "env \<Rightarrow> nat \<Rightarrow> nat \<Rightarrow> string option \<Rightarrow> string option \<Rightarrow> string option \<Rightarrow> string option \<Rightarrow>
     request \<Rightarrow> db \<Rightarrow> (exn + admin_user_view list \<times> nat) \<times> db" where
  "list_users e offset limit status search sort_col order r =
     admin_route e r (\<lambda>d.
       (let selected = filter (user_filter status search) (db_users d);
            total = length selected;
            users = take limit (drop offset (order_users sort_col order selected))
        in (Inr (map (admin_view e) users, total), d)))"

definition get_user :: "env \<Rightarrow> string \<Rightarrow> request \<Rightarrow> db \<Rightarrow> (exn + admin_user_view \<times> session_row list) \<times> db" where
  "get_user e user_id r =
     admin_route e r (with_user user_id (\<lambda>user d.
       (Inr (admin_view e user, filter (\<lambda>s. s_user_id s = Some user_id) (db_sessions d)), d)))"

section \<open>Status and role\<close>

definition action_message_key :: "string \<Rightarrow> string" where
  "action_message_key action =
     dict_get action (''admin.user_'' @ action)
       [(''user.block'', ''admin.user_blocked''), (''user.unblock'', ''admin.user_unblocked''),
        (''user.lock'', ''admin.user_locked''), (''user.unlock'', ''admin.user_unlocked'')]"

definition change_user_status ::
    "env \<Rightarrow> string \<Rightarrow> string \<Rightarrow> string \<Rightarrow> request \<Rightarrow> db \<Rightarrow> (exn + string) \<times> db" where
  "change_user_status e user_id new_status action r =
     with_user user_id (\<lambda>user d.
       (if truthy (st_user_id (rq_state r)) \<and> st_user_id (rq_state r) = Some user_id
        then (Inl (HTTPException 400), d)
        else
          (let old_status = u_status user;
               d1 = (if new_status \<noteq> []
                     then update_user (e_now e) user_id (u_status_update (\<lambda>_. new_status)) d else d)
           in committed (action_message_key action) d
                (log_admin_action e (admin_of r) action ''user'' user_id
                   [(''status'', JStr old_status)]
                   [(''status'', JStr (if new_status \<noteq> [] then new_status else old_status))] d1))))"

definition block_user :: "env \<Rightarrow> string \<Rightarrow> request \<Rightarrow> db \<Rightarrow> (exn + string) \<times> db" where
  "block_user e user_id r = admin_route e r (change_user_status e user_id ''blocked'' ''user.block'' r)"

definition unblock_user :: "env \<Rightarrow> string \<Rightarrow> request \<Rightarrow> db \<Rightarrow> (exn + string) \<times> db" where
  "unblock_user e user_id r = admin_route e r (change_user_status e user_id ''active'' ''user.unblock'' r)"

definition lock_user :: "env \<Rightarrow> string \<Rightarrow> request \<Rightarrow> db \<Rightarrow> (exn + string) \<times> db" where
  "lock_user e user_id r = admin_route e r (change_user_status e user_id ''locked'' ''user.lock'' r)"

definition unlock_user :: "env \<Rightarrow> string \<Rightarrow> request \<Rightarrow> db \<Rightarrow> (exn + string) \<times> db" where
  "unlock_user e user_id r = admin_route e r (change_user_status e user_id ''active'' ''user.unlock'' r)"

definition promote_user :: "env \<Rightarrow> string \<Rightarrow> request \<Rightarrow> db \<Rightarrow> (exn + string) \<times> db" where
  "promote_user e user_id r =
     admin_route e r (with_user user_id (\<lambda>user d.
       committed ROLE_ADMINISTRATOR d
         (log_admin_action e (admin_of r) ''user.promote'' ''user'' user_id
            [(''role'', JStr (u_role user))] [(''role'', JStr ROLE_ADMINISTRATOR)]
            (update_user (e_now e) user_id (u_role_update (\<lambda>_. ROLE_ADMINISTRATOR)) d))))"

definition demote_user :: "env \<Rightarrow> string \<Rightarrow> request \<Rightarrow> db \<Rightarrow> (exn + string) \<times> db" where
  "demote_user e user_id r =
     admin_route e r (with_user user_id (\<lambda>user d.
       (case (if u_role user = ROLE_ADMINISTRATOR then ensure_not_last_admin d user_id else Inr ()) of
          Inl x \<Rightarrow> (Inl x, d)
        | Inr _ \<Rightarrow>
            committed ROLE_AUTHENTICATED d
              (log_admin_action e (admin_of r) ''user.demote'' ''user'' user_id
                 [(''role'', JStr (u_role user))] [(''role'', JStr ROLE_AUTHENTICATED)]
                 (update_user (e_now e) user_id (u_role_update (\<lambda>_. ROLE_AUTHENTICATED)) d)))))"

definition admin_verify_email :: "env \<Rightarrow> string \<Rightarrow> request \<Rightarrow> db \<Rightarrow> (exn + unit) \<times> db" where
  "admin_verify_email e user_id r =
     admin_route e r (with_user user_id (\<lambda>user d.
       committed () d
         (log_admin_action e (admin_of r) ''user.verify_email'' ''user'' user_id
            [] [(''email_verified'', JBool True)]
            (update_user (e_now e) user_id
               (\<lambda>u. u\<lparr>u_email_verified_at := Some (e_now e),
                      u_status := (if u_status u = ''pending'' then ''active'' else u_status u)\<rparr>) d))))"

definition update_notes :: "env \<Rightarrow> string \<Rightarrow> string option \<Rightarrow> request \<Rightarrow> db \<Rightarrow> (exn + string) \<times> db" where
  "update_notes e user_id body_notes r =
     admin_route e r (with_user user_id (\<lambda>user d.
       (let notes = or_default body_notes []
        in committed notes d
             (log_admin_action e (admin_of r) ''user.notes'' ''user'' user_id
                [(''admin_notes'', json_opt (u_admin_notes user))] [(''admin_notes'', JStr notes)]
                (update_user (e_now e) user_id (u_admin_notes_update (\<lambda>_. Some notes)) d)))))"

section \<open>Counters of a user\<close>

record rate_status =
  rt_role :: string
  rt_soft_count :: int
  rt_soft_limit :: int
  rt_soft_window_s :: int
  rt_hard_count :: int
  rt_hard_limit :: int
  rt_hard_window_s :: int

definition add_counts :: "int \<times> int \<Rightarrow> int \<times> int \<Rightarrow> int \<times> int" where
  "add_counts a b = (fst a + fst b, snd a + snd b)"

text \<open>One session of the loop: its own counter, and its address's the first time it is seen.\<close>

definition count_session ::
    "(string \<Rightarrow> string \<Rightarrow> int \<times> int) \<Rightarrow> session_row \<Rightarrow> (int \<times> int) \<times> string list \<Rightarrow> (int \<times> int) \<times> string list" where
  "count_session counts s acc =
     (let total = add_counts (fst acc) (counts ''session'' (s_id s))
      in if s_ip_address s \<noteq> [] \<and> s_ip_address s \<notin> set (snd acc)
         then (add_counts total (counts ''ip'' (s_ip_address s)), snd acc @ [s_ip_address s])
         else (total, snd acc))"

definition get_user_rate_limit_status ::
    "env \<Rightarrow> limiter \<Rightarrow> string \<Rightarrow> request \<Rightarrow> db \<Rightarrow> (exn + rate_status) \<times> db" where
  "get_user_rate_limit_status e rates user_id r =
     admin_route e r (with_user user_id (\<lambda>user d.
       (case get_effective_limits d (u_role user) None of
          Inl x \<Rightarrow> (Inl x, d)
        | Inr limits \<Rightarrow>
            (let soft_window_s = 1;
                 hard_window_s = window_seconds limits;
                 counts = (\<lambda>kt i. get_current_counts (e_now e) rates kt i soft_window_s hard_window_s);
                 total = fst (fold (count_session counts)
                   (filter (\<lambda>s. s_user_id s = Some user_id) (db_sessions d))
                   (add_counts (0, 0) (counts ''user'' user_id), []))
             in (Inr \<lparr>rt_role = u_role user, rt_soft_count = fst total, rt_soft_limit = soft_limit limits,
                      rt_soft_window_s = soft_window_s, rt_hard_count = snd total,
                      rt_hard_limit = hard_limit limits, rt_hard_window_s = hard_window_s\<rparr>, d)))))"

section \<open>Deletion\<close>

text \<open>
  \<open>log_admin_action\<close> flushes: the pending audit row is inserted before the pending deletion of
  the user is executed, so both the row and the references of older rows are there when the
  foreign keys act.
\<close>

definition forget_in_logs :: "string \<Rightarrow> db \<Rightarrow> db" where
  "forget_in_logs user_id d =
     d\<lparr>db_exec_logs := update_where (\<lambda>l. el_user_id l = Some user_id)
         (\<lambda>l. l\<lparr>el_user_id := None, el_session_id := None\<rparr>) (db_exec_logs d),
       db_events := update_where (\<lambda>l. ev_user_id l = Some user_id) (ev_user_id_update (\<lambda>_. None)) (db_events d)\<rparr>"

definition delete_loaded :: "env \<Rightarrow> string \<Rightarrow> request \<Rightarrow> user \<Rightarrow> db \<Rightarrow> (exn + unit) \<times> db" where
  "delete_loaded e user_id r user d =
     (case (if u_role user = ROLE_ADMINISTRATOR then ensure_not_last_admin d user_id else Inr ()) of
        Inl x \<Rightarrow> (Inl x, d)
      | Inr _ \<Rightarrow>
          (case log_admin_action e (admin_of r) ''user.delete'' ''user'' user_id []
                  [(''email'', JStr (u_email user)), (''role'', JStr (u_role user))] (forget_in_logs user_id d) of
             Inl x \<Rightarrow> (Inl x, d)
           | Inr d2 \<Rightarrow> committed () d (delete_users (\<lambda>u. u_id u = user_id) d2)))"

definition delete_user :: "env \<Rightarrow> string \<Rightarrow> request \<Rightarrow> db \<Rightarrow> (exn + unit) \<times> db" where
  "delete_user e user_id r = admin_route e r (with_user user_id (delete_loaded e user_id r))"

section \<open>Lemmas\<close>

lemma admin_route_eq:
  "admin_route e r h d =
     (if \<not> e_db_up e then (Inl (AppError 503 ''DATABASE_UNAVAILABLE'' ''errors.database_unavailable''), d)
      else if st_role (rq_state r) \<noteq> Some ROLE_ADMINISTRATOR then (Inl (HTTPException 403), d)
      else h d)"
  by (auto simp: admin_route_def with_session_def require_admin_def roles split: option.split)

text \<open>What the audit trail promises of a handler: a refusal changes nothing, a success adds its row.\<close>

definition audited :: "request \<Rightarrow> string \<Rightarrow> string \<Rightarrow> db \<Rightarrow> (exn + 'a) \<times> db \<Rightarrow> bool" where
  "audited r action entity_id d res \<longleftrightarrow>
     (case fst res of
        Inl _ \<Rightarrow> snd res = d
      | Inr _ \<Rightarrow> st_role (rq_state r) = Some ROLE_ADMINISTRATOR \<and>
          (\<exists>entry. db_audit (snd res) = db_audit d @ [entry] \<and> au_admin_id entry = admin_of r \<and>
             au_action entry = action \<and> au_entity_id entry = entity_id))"

lemma audited_Inl [simp]: "audited r action i d (Inl x, d)"
  by (simp add: audited_def)

lemma audited_committed:
  assumes "st_role (rq_state r) = Some ROLE_ADMINISTRATOR" "db_audit d1 = db_audit d"
  shows "audited r action i d (committed answer d (log_admin_action e (admin_of r) action t i old new d1))"
  using assms by (simp add: committed_def log_admin_action_def audited_def audit_entry_def)

lemma audited_route:
  assumes "\<And>user. st_role (rq_state r) = Some ROLE_ADMINISTRATOR \<Longrightarrow> audited r action i d (body user d)"
  shows "audited r action i d (admin_route e r (with_user i' body) d)"
  using assms by (simp add: admin_route_eq with_user_def split: sum.split option.split)

lemma update_user_audit [simp]: "db_audit (update_user now i f d) = db_audit d"
  by (simp add: update_user_def)

lemma audited_status: "audited r action i d (admin_route e r (change_user_status e i new action r) d)"
  unfolding change_user_status_def
  by (rule audited_route) (auto simp: Let_def intro!: audited_committed)

lemma delete_users_audit: "delete_users p d = Inr d' \<Longrightarrow> db_audit d' = db_audit d"
  by (auto simp: delete_users_def Let_def delete_sessions_def split: if_splits)

lemma forget_tables [simp]: "db_users (forget_in_logs i d) = db_users d" "db_audit (forget_in_logs i d) = db_audit d"
  by (simp_all add: forget_in_logs_def)

lemma audited_delete: "audited r ''user.delete'' i d (delete_user e i r d)"
  unfolding delete_user_def
proof (rule audited_route)
  fix user
  assume admin: "st_role (rq_state r) = Some ROLE_ADMINISTRATOR"
  have step: "audited r ''user.delete'' i d (case log_admin_action e (admin_of r) ''user.delete'' t i old new d1 of
      Inl x \<Rightarrow> (Inl x, d) | Inr d2 \<Rightarrow> committed () d (delete_users p d2))"
    if "db_audit d1 = db_audit d" for d1 t old new p
    using admin that by (auto simp: log_admin_action_def committed_def audited_def audit_entry_def
        split: sum.split dest: delete_users_audit)
  then show "audited r ''user.delete'' i d (delete_loaded e i r user d)"
    unfolding delete_loaded_def by (split sum.split) (simp add: step)
qed

subsection \<open>The search pattern\<close>

lemma escape_like_eq:
  "escape_like s = concat (map (\<lambda>c. if c \<in> {CHR 0x5C, CHR ''%'', CHR ''_''} then [CHR 0x5C, c] else [c]) s)"
  by (induction s) (auto simp: escape_like_def py_replace_char_def)

lemma lower_special:
  "lower_char c \<in> {CHR 0x5C, CHR ''%'', CHR ''_''} \<longleftrightarrow> c \<in> {CHR 0x5C, CHR ''%'', CHR ''_''}"
  "c \<in> {CHR 0x5C, CHR ''%'', CHR ''_''} \<Longrightarrow> lower_char c = c"
proof -
  have shift: "of_char (char_of (n + 32) :: char) = n + 32"
    if "65 \<le> n \<and> n \<le> 90 \<or> 192 \<le> n \<and> n \<le> 222" for n :: nat
    using that by (auto simp: of_char_mod_256)
  have image: "lower_char c \<in> X \<longleftrightarrow> c \<in> X"
    if "X = {CHR 0x5C, CHR ''%'', CHR ''_''}" for X
  proof (cases "lower_char c = c")
    case False
    then have n: "65 \<le> (of_char c :: nat) \<and> (of_char c :: nat) \<le> 90 \<or> 192 \<le> (of_char c :: nat) \<and> (of_char c :: nat) \<le> 222"
      by (auto simp: lower_char_def Let_def split: if_splits)
    have code: "x \<in> X \<Longrightarrow> (of_char x :: nat) \<in> {92, 37, 95}" for x
      using that by auto
    have "(of_char (lower_char c) :: nat) = of_char c + 32"
      using shift [OF n] False by (auto simp: lower_char_def Let_def split: if_splits)
    with n code [of c] code [of "lower_char c"] show ?thesis
      by auto
  qed simp
  then show "lower_char c \<in> {CHR 0x5C, CHR ''%'', CHR ''_''} \<longleftrightarrow> c \<in> {CHR 0x5C, CHR ''%'', CHR ''_''}"
    by simp
  show "c \<in> {CHR 0x5C, CHR ''%'', CHR ''_''} \<Longrightarrow> lower_char c = c"
    by (auto simp: lower_char_def)
qed

lemma escape_like_Cons:
  "escape_like (c # s) = (if c \<in> {CHR 0x5C, CHR ''%'', CHR ''_''} then CHR 0x5C # c # escape_like s else c # escape_like s)"
  by (simp add: escape_like_eq)

lemma lower_escape_like: "py_lower (escape_like s) = escape_like (py_lower s)"
proof (induction s)
  case (Cons c s)
  have bs: "lower_char CHR 0x5C = CHR 0x5C"
    by (rule lower_special(2)) simp
  show ?case
  proof (cases "c \<in> {CHR 0x5C, CHR ''%'', CHR ''_''}")
    case True
    with Cons lower_special(2) [OF True] bs show ?thesis
      by (simp only: escape_like_Cons if_True py_lower_def list.map)
  next
    case False
    then have "lower_char c \<notin> {CHR 0x5C, CHR ''%'', CHR ''_''}"
      by (simp only: lower_special(1) not_False_eq_True)
    with False Cons show ?thesis
      by (simp only: escape_like_Cons if_False py_lower_def list.map)
  qed
qed (simp add: escape_like_eq py_lower_def)

lemma like_match_char:
  "p \<noteq> CHR ''%'' \<Longrightarrow> p \<noteq> CHR ''_'' \<Longrightarrow> p \<noteq> CHR 0x5C \<Longrightarrow>
   like_match CHR 0x5C (p # ps) t = (\<exists>cs. t = p # cs \<and> like_match CHR 0x5C ps cs)"
  by (cases t) auto

lemma like_match_escaped:
  "like_match CHR 0x5C (CHR 0x5C # q # ps) t = (\<exists>cs. t = q # cs \<and> like_match CHR 0x5C ps cs)"
  by (cases t) auto

lemma like_match_wild:
  "like_match CHR 0x5C (CHR ''%'' # ps) t =
     (like_match CHR 0x5C ps t \<or> (\<exists>c cs. t = c # cs \<and> like_match CHR 0x5C (CHR ''%'' # ps) cs))"
  by (cases t) auto

declare like_match.simps(2) [simp del]

lemma like_match_literal:
  "like_match CHR 0x5C (escape_like s @ ps) t \<longleftrightarrow> (\<exists>u. t = s @ u \<and> like_match CHR 0x5C ps u)"
proof (induction s arbitrary: t)
  case (Cons c s)
  have "like_match CHR 0x5C (escape_like (c # s) @ ps) t =
      (\<exists>cs. t = c # cs \<and> like_match CHR 0x5C (escape_like s @ ps) cs)"
    by (simp add: escape_like_Cons like_match_escaped like_match_char)
  with Cons show ?case
    by auto
qed (simp add: escape_like_eq)

lemma ex_append_Cons:
  "(\<exists>u v. c # t = u @ v \<and> P v) \<longleftrightarrow> P (c # t) \<or> (\<exists>u v. t = u @ v \<and> P v)"
proof
  assume "\<exists>u v. c # t = u @ v \<and> P v"
  then obtain u v where uv: "c # t = u @ v" "P v" by blast
  then show "P (c # t) \<or> (\<exists>u v. t = u @ v \<and> P v)"
    by (cases u) auto
next
  assume "P (c # t) \<or> (\<exists>u v. t = u @ v \<and> P v)"
  then show "\<exists>u v. c # t = u @ v \<and> P v"
    by (metis append_Cons append_Nil)
qed

lemma like_match_any: "like_match CHR 0x5C (CHR ''%'' # ps) t \<longleftrightarrow> (\<exists>u v. t = u @ v \<and> like_match CHR 0x5C ps v)"
proof (induction t)
  case Nil
  then show ?case
    by (subst like_match_wild) simp
next
  case (Cons c t)
  show ?case
    by (subst like_match_wild) (simp add: Cons ex_append_Cons)
qed

lemma py_contains_iff: "py_contains s p \<longleftrightarrow> (\<exists>u v. s = u @ p @ v)"
proof (induction s)
  case (Cons c s)
  have "(\<exists>u v. c # s = u @ p @ v) \<longleftrightarrow> (\<exists>v. c # s = p @ v) \<or> (\<exists>u v. s = u @ p @ v)"
    using ex_append_Cons [of c s "\<lambda>x. \<exists>v. x = p @ v"] by metis
  with Cons show ?case
    by (simp add: py_startswith_iff)
qed simp

lemma ilike_search: "ilike (''%'' @ escape_like s @ ''%'') t \<longleftrightarrow> py_contains (py_lower t) (py_lower s)"
proof -
  have "py_lower (''%'' @ escape_like s @ ''%'') = CHR ''%'' # escape_like (py_lower s) @ [CHR ''%'']"
    by (simp add: lower_escape_like [symmetric]) (simp add: py_lower_def lower_char_def)
  moreover have "like_match CHR 0x5C [CHR ''%''] u" for u
    by (simp add: like_match_any)
  ultimately show ?thesis
    by (auto simp: ilike_def like_match_any like_match_literal py_contains_iff)
qed

subsection \<open>Administrators left\<close>

definition usable_admin :: "user \<Rightarrow> bool" where
  "usable_admin u \<longleftrightarrow> u_role u = ROLE_ADMINISTRATOR \<and> u_status u \<in> set [''active'', ''pending'']"

definition admin_left :: "db \<Rightarrow> bool" where
  "admin_left d \<longleftrightarrow> list_ex usable_admin (db_users d)"

lemma not_last_admin:
  "ensure_not_last_admin d i = Inr () \<longleftrightarrow> (\<exists>u \<in> set (db_users d). usable_admin u \<and> u_id u \<noteq> i)"
  by (auto simp: ensure_not_last_admin_def usable_admin_def filter_empty_conv)

lemma update_user_keeps:
  assumes "u \<in> set (db_users d)" "u_id u \<noteq> i"
  shows "u \<in> set (db_users (update_user now i f d))"
  using assms by (auto simp: update_user_def set_update_where)

lemma admin_left_other:
  assumes "u \<in> set (db_users d)" "usable_admin u"
  shows "admin_left d"
  using assms by (auto simp: admin_left_def list_ex_iff)

lemma with_user_eq:
  "users_wf d \<Longrightarrow> with_user i body d =
     (case find (\<lambda>u. u_id u = i) (db_users d) of None \<Rightarrow> (Inl (HTTPException 404), d) | Some user \<Rightarrow> body user d)"
  by (simp add: with_user_def user_by_id_eq split: option.split)

lemma log_admin_users: "log_admin_action e a act t i old new d = Inr d' \<Longrightarrow> db_users d' = db_users d"
  by (auto simp: log_admin_action_def split: if_splits)

lemma committed_users:
  "db_users (snd (committed answer d (log_admin_action e a act t i old new d1))) \<in> {db_users d, db_users d1}"
  by (auto simp: committed_def log_admin_action_def)

lemma delete_users_rows: "delete_users p d = Inr d' \<Longrightarrow> db_users d' = filter (\<lambda>u. \<not> p u) (db_users d)"
  by (auto simp: delete_users_def Let_def split: if_splits)

text \<open>A user that is no administrator is not the one the guard protects.\<close>

lemma guard_leaves_other:
  assumes "users_wf d" "admin_left d" "find (\<lambda>u. u_id u = i) (db_users d) = Some user"
    and "(if u_role user = ROLE_ADMINISTRATOR then ensure_not_last_admin d i else Inr ()) = Inr ()"
  shows "\<exists>u \<in> set (db_users d). usable_admin u \<and> u_id u \<noteq> i"
proof (cases "u_role user = ROLE_ADMINISTRATOR")
  case True
  with assms(4) show ?thesis
    by (simp add: not_last_admin)
next
  case False
  obtain u where u: "u \<in> set (db_users d)" "usable_admin u"
    using assms(2) by (auto simp: admin_left_def list_ex_iff)
  have "u_id u \<noteq> i"
  proof
    assume "u_id u = i"
    then have "u = user"
      using assms(1,3) u(1) find_Some_in [OF assms(3)] by (auto simp: users_wf_def distinct_map dest: inj_onD)
    with False u(2) show False
      by (simp add: usable_admin_def)
  qed
  with u show ?thesis by blast
qed

lemma demote_keeps_admin:
  assumes "users_wf d" "admin_left d"
  shows "admin_left (snd (demote_user e i r d))"
proof -
  have "admin_left (snd (case (if u_role user = ROLE_ADMINISTRATOR then ensure_not_last_admin d i else Inr ()) of
          Inl x \<Rightarrow> (Inl x, d)
        | Inr _ \<Rightarrow>
            committed ROLE_AUTHENTICATED d
              (log_admin_action e (admin_of r) ''user.demote'' ''user'' i
                 [(''role'', JStr (u_role user))] [(''role'', JStr ROLE_AUTHENTICATED)]
                 (update_user (e_now e) i (u_role_update (\<lambda>_. ROLE_AUTHENTICATED)) d))))"
    if found: "find (\<lambda>u. u_id u = i) (db_users d) = Some user" for user
  proof (cases "if u_role user = ROLE_ADMINISTRATOR then ensure_not_last_admin d i else Inr ()")
    case (Inr x)
    then obtain u where "u \<in> set (db_users d)" "usable_admin u" "u_id u \<noteq> i"
      using guard_leaves_other [OF assms found] by auto
    then have keeps: "admin_left d1" if "db_users d1 \<in> {db_users d, db_users (update_user (e_now e) i f d)}" for d1 f
      using that update_user_keeps [of u d i "e_now e" f] by (auto intro: admin_left_other)
    show ?thesis
      unfolding Inr sum.case by (rule keeps [OF committed_users])
  qed (simp add: assms)
  then show ?thesis
    using assms by (simp add: demote_user_def admin_route_eq with_user_eq split: option.split)
qed

lemma delete_keeps_admin:
  assumes "users_wf d" "admin_left d"
  shows "admin_left (snd (delete_user e i r d))"
proof -
  have step: "admin_left (snd (case log_admin_action e a act t i old new d1 of
      Inl x \<Rightarrow> (Inl x, d) | Inr d2 \<Rightarrow> committed () d (delete_users (\<lambda>u. u_id u = i) d2)))"
    if "db_users d1 = db_users d" "u \<in> set (db_users d)" "usable_admin u" "u_id u \<noteq> i" for d1 u a act t old new
    using that assms(2)
    by (auto simp: committed_def split: sum.split dest!: log_admin_users delete_users_rows intro!: admin_left_other)
  show ?thesis
  proof (cases "find (\<lambda>u. u_id u = i) (db_users d)")
    case (Some user)
    note found = this
    show ?thesis
    proof (cases "if u_role user = ROLE_ADMINISTRATOR then ensure_not_last_admin d i else Inr ()")
      case (Inr x)
      then obtain u where u: "u \<in> set (db_users d)" "usable_admin u" "u_id u \<noteq> i"
        using guard_leaves_other [OF assms found] by auto
      show ?thesis
        unfolding delete_user_def admin_route_eq with_user_eq [OF assms(1)] found option.case delete_loaded_def Inr sum.case
        using step [OF _ u] assms(2) by simp
    qed (simp add: assms delete_user_def delete_loaded_def admin_route_eq with_user_eq found)
  qed (simp add: assms delete_user_def admin_route_eq with_user_eq)
qed

lemma list_all_update_where:
  "list_all P (update_where q f xs) = list_all (\<lambda>x. P (if q x then f x else x)) xs"
  by (induction xs) (auto simp: update_where_def)

lemma admin_left_iff: "\<not> admin_left d \<longleftrightarrow> list_all (\<lambda>u. \<not> usable_admin u) (db_users d)"
  by (auto simp: admin_left_def list_ex_iff list_all_iff)

lemma blocked_not_usable: "\<not> usable_admin (save_user now (u_status_update (\<lambda>_. ''blocked'')) u)"
  by (simp add: usable_admin_def save_user_fields)

lemma blocked_sessions:
  assumes "block_user e i r d = (Inr k, d')"
  shows "db_sessions d' = db_sessions d \<and>
    (\<exists>entry. d' = (update_user (e_now e) i (u_status_update (\<lambda>_. ''blocked'')) d)\<lparr>db_audit := db_audit d @ [entry]\<rparr>)"
  using assms
  by (auto simp: block_user_def admin_route_eq with_user_def change_user_status_def Let_def committed_def
      log_admin_action_def split: if_splits sum.splits option.splits)

lemma filter_role_update:
  "(\<And>u. u_id (f u) = u_id u \<and> u_role (f u) = u_role u) \<Longrightarrow>
   map u_role (filter (\<lambda>u. P (u_id u)) (update_where q (save_user now f) us)) = map u_role (filter (\<lambda>u. P (u_id u)) us)"
  by (induction us) (auto simp: update_where_def save_user_fields)

lemma delete_users_refused:
  assumes "u \<in> set (db_users d)" "p u" "a \<in> set (db_audit d)" "au_admin_id a = u_id u"
  shows "delete_users p d = Inl IntegrityError"
  using assms by (auto simp: delete_users_def Let_def list_ex_iff)

lemma log_admin_Inr:
  assumes "log_admin_action e admin act t j old new d1 = Inr d2"
  shows "db_users d2 = db_users d1 \<and> (\<exists>entry. db_audit d2 = db_audit d1 @ [entry] \<and> au_admin_id entry = admin)"
  using assms by (auto simp: log_admin_action_def audit_entry_def split: if_splits)

lemma user_by_id_found: "user_by_id d i = Inr (Some u) \<Longrightarrow> u \<in> set (db_users d) \<and> u_id u = i"
proof -
  assume "user_by_id d i = Inr (Some u)"
  moreover have "scalar_one_or_none xs = Inr (Some u) \<Longrightarrow> xs = [u]" for xs
    by (cases xs rule: scalar_one_or_none.cases) auto
  ultimately have "filter (\<lambda>u. u_id u = i) (db_users d) = [u]"
    by (simp add: user_by_id_def)
  then have "u \<in> set (filter (\<lambda>u. u_id u = i) (db_users d))"
    by (simp only: list.set_intros)
  then show ?thesis by simp
qed

text \<open>The audit row of the deletion itself counts.\<close>

lemma delete_loaded_refused:
  assumes "list_ex (\<lambda>a. au_admin_id a = i) (db_audit d) \<or> admin_of r = i" "user_by_id d i = Inr (Some user)"
  shows "\<exists>x. delete_loaded e i r user d = (Inl x, d)"
proof -
  have refused: "delete_users (\<lambda>u. u_id u = i) d2 = Inl IntegrityError"
    if logged: "log_admin_action e (admin_of r) act t j old new (forget_in_logs i d) = Inr d2" for act t j old new d2
  proof -
    obtain entry where d2: "db_users d2 = db_users d" "db_audit d2 = db_audit d @ [entry]" "au_admin_id entry = admin_of r"
      using log_admin_Inr [OF logged] by auto
    have "\<exists>a \<in> set (db_audit d2). au_admin_id a = i"
      using assms(1) unfolding d2(2) list_ex_iff by (auto simp: d2(3))
    then show ?thesis
      using delete_users_refused [of user d2 "\<lambda>u. u_id u = i"] user_by_id_found [OF assms(2)] d2(1) by auto
  qed
  show ?thesis
    unfolding delete_loaded_def committed_def using refused
    by (cases "log_admin_action e (admin_of r) ''user.delete'' ''user'' i []
        [(''email'', JStr (u_email user)), (''role'', JStr (u_role user))] (forget_in_logs i d)")
      (simp_all split: sum.split)
qed

section \<open>A concrete administration\<close>

text \<open>Two active administrators; a request of each.\<close>

definition sample_admin :: "string \<Rightarrow> user" where
  "sample_admin i = sample_user\<lparr>u_id := i, u_email := i, u_role := ROLE_ADMINISTRATOR\<rparr>"

definition admin_db :: db where
  "admin_db = empty_db\<lparr>db_users := [sample_admin ''a'', sample_admin ''b'']\<rparr>"

definition admin_request :: "string \<Rightarrow> request" where
  "admin_request i =
     \<lparr>rq_type = ''http'', rq_method = ''PUT'', rq_path = ''/'', rq_scheme = ''https'', rq_client = None,
      rq_headers = [], rq_cookies = [],
      rq_state = no_state\<lparr>st_user_id := Some i, st_role := Some ROLE_ADMINISTRATOR\<rparr>\<rparr>"

lemma admin_db_wf: "users_wf admin_db" "admin_left admin_db"
  by (simp_all add: users_wf_def admin_db_def sample_admin_def admin_left_def usable_admin_def sample_user_def roles)

lemma admin_request_state [simp]:
  "st_role (rq_state (admin_request i)) = Some ROLE_ADMINISTRATOR" "st_user_id (rq_state (admin_request i)) = Some i"
  by (simp_all add: admin_request_def)

section \<open>Properties\<close>

text \<open>
  C17: the last administrator survives.  If some administrator is active or pending, one still
  is after any demotion and after any deletion, whoever asks and whether or not the request
  succeeds.
\<close>

theorem last_admin_guard:
  assumes "users_wf d" "admin_left d"
  shows "admin_left (snd (demote_user e i r d)) \<and> admin_left (snd (delete_user e i r d))"
  using assms by (intro conjI demote_keeps_admin delete_keeps_admin)

theorem last_admin_guard_witness:
  "admin_left (snd (demote_user sample_env ''a'' (admin_request ''b'') admin_db)) \<and>
   fst (demote_user sample_env ''a'' (admin_request ''b'') admin_db) = Inr ROLE_AUTHENTICATED"
proof
  show "admin_left (snd (demote_user sample_env ''a'' (admin_request ''b'') admin_db))"
    using last_admin_guard [OF admin_db_wf] by blast
  show "fst (demote_user sample_env ''a'' (admin_request ''b'') admin_db) = Inr ROLE_AUTHENTICATED"
    by (simp add: demote_user_def admin_route_eq with_user_eq [OF admin_db_wf(1)] sample_env_def)
       (simp add: admin_db_def sample_admin_def sample_user_def ensure_not_last_admin_def committed_def
        log_admin_action_def admin_of_def update_user_def update_where_def save_user_def roles empty_db_def)
qed

text \<open>
  C18: every user management action is audited.  Each of the endpoints either refuses and
  leaves the database as it was, or was called by an administrator and adds exactly one audit
  row, which names that administrator, the action and the user.
\<close>

theorem user_actions_audited:
  "audited r ''user.block'' i d (block_user e i r d) \<and> audited r ''user.unblock'' i d (unblock_user e i r d) \<and>
   audited r ''user.lock'' i d (lock_user e i r d) \<and> audited r ''user.unlock'' i d (unlock_user e i r d) \<and>
   audited r ''user.promote'' i d (promote_user e i r d) \<and> audited r ''user.demote'' i d (demote_user e i r d) \<and>
   audited r ''user.verify_email'' i d (admin_verify_email e i r d) \<and>
   audited r ''user.notes'' i d (update_notes e i notes r d) \<and> audited r ''user.delete'' i d (delete_user e i r d)"
proof (intro conjI audited_delete)
  show "audited r ''user.promote'' i d (promote_user e i r d)"
    unfolding promote_user_def by (rule audited_route, rule audited_committed) simp_all
  show "audited r ''user.verify_email'' i d (admin_verify_email e i r d)"
    unfolding admin_verify_email_def by (rule audited_route, rule audited_committed) simp_all
  show "audited r ''user.notes'' i d (update_notes e i notes r d)"
    unfolding update_notes_def Let_def by (rule audited_route, rule audited_committed) simp_all
  show "audited r ''user.demote'' i d (demote_user e i r d)"
    unfolding demote_user_def
    by (rule audited_route) (simp add: audited_committed split: sum.split)
qed (simp_all add: block_user_def unblock_user_def lock_user_def unlock_user_def audited_status)

text \<open>
  Blocking does not end access.  A block that succeeds leaves every session and its role
  as they were: the middleware resolves the same cookies to the same user, and a blocked
  administrator is still an administrator.
\<close>

lemma blocked_user_keeps_access:
  assumes "block_user e i r d = (Inr k, d')"
  shows "resolve_session e' (d', redis) h = resolve_session e' (d, redis) h \<and>
    resolve_role e' d' j = resolve_role e' d j \<and>
    list_all (\<lambda>u. u_id u = i \<longrightarrow> u_status u = ''blocked'') (db_users d')"
proof -
  obtain entry where d': "d' = (update_user (e_now e) i (u_status_update (\<lambda>_. ''blocked'')) d)\<lparr>db_audit := db_audit d @ [entry]\<rparr>"
    using blocked_sessions [OF assms] by blast
  have same: "session_by_hash d' = session_by_hash d"
    using blocked_sessions [OF assms] by (simp add: session_by_hash_def fun_eq_iff)
  have "resolve_session e' (d', redis) h = resolve_session e' (d, redis) h"
    unfolding resolve_session_def prod.case same by (rule refl)
  moreover have "resolve_role e' d' j = resolve_role e' d j"
    using filter_role_update [of "u_status_update (\<lambda>_. ''blocked'')" "\<lambda>x. Some x = j"]
    by (simp add: d' resolve_role_def update_user_def)
  moreover have "list_all (\<lambda>u. u_id u = i \<longrightarrow> u_status u = ''blocked'') (db_users d')"
    by (simp add: d' update_user_def list_all_update_where) (simp add: save_user_fields list_all_iff)
  ultimately show ?thesis by blast
qed

lemma sample_block:
  "block_user sample_env ''a'' (admin_request ''b'') admin_db =
     (Inr ''admin.user_blocked'', snd (block_user sample_env ''a'' (admin_request ''b'') admin_db))"
  by (simp add: block_user_def change_user_status_def admin_route_eq with_user_eq [OF admin_db_wf(1)] sample_env_def)
     (simp add: admin_db_def sample_admin_def sample_user_def committed_def action_message_key_def dict_get_def
      log_admin_action_def admin_of_def update_user_def update_where_def save_user_def roles empty_db_def)

lemma blocked_user_keeps_access_witness:
  "resolve_role sample_env (snd (block_user sample_env ''a'' (admin_request ''b'') admin_db)) (Some ''a'') = ROLE_ADMINISTRATOR"
proof -
  have "resolve_role sample_env admin_db (Some ''a'') = ROLE_ADMINISTRATOR"
    by (simp add: resolve_role_def admin_db_def sample_admin_def sample_env_def roles)
  with blocked_user_keeps_access [OF sample_block] show ?thesis
    by simp
qed

text \<open>
  Two administrators can lock everybody out.  The guard of the last administrator does
  not cover blocking: when two administrators are all there is and each blocks the other, both
  requests succeed and no active or pending administrator is left.
\<close>

lemma admins_lock_out:
  assumes "users_wf d" "e_db_up e" "a \<noteq> []" "b \<noteq> []" "a \<noteq> b"
    and "a \<in> set (map u_id (db_users d))" "b \<in> set (map u_id (db_users d))"
    and "list_all (\<lambda>u. usable_admin u \<longrightarrow> u_id u \<in> {a, b}) (db_users d)"
    and "st_role (rq_state ra) = Some ROLE_ADMINISTRATOR" "st_user_id (rq_state ra) = Some a"
    and "st_role (rq_state rb) = Some ROLE_ADMINISTRATOR" "st_user_id (rq_state rb) = Some b"
  shows "\<exists>d1 d2. block_user e b ra d = (Inr ''admin.user_blocked'', d1) \<and>
    block_user e a rb d1 = (Inr ''admin.user_blocked'', d2) \<and> \<not> admin_left d2"
proof -
  let ?block = "\<lambda>i. update_user (e_now e) i (u_status_update (\<lambda>_. ''blocked''))"
  have one: "\<exists>entry. block_user e i r x = (Inr ''admin.user_blocked'', (?block i x)\<lparr>db_audit := db_audit x @ [entry]\<rparr>)"
    if "users_wf x" "i \<in> set (map u_id (db_users x))" "j \<in> set (map u_id (db_users x))" "j \<noteq> []" "i \<noteq> j"
      "st_role (rq_state r) = Some ROLE_ADMINISTRATOR" "st_user_id (rq_state r) = Some j" for x i j r
  proof -
    note given = that
    obtain u where u: "find (\<lambda>u. u_id u = i) (db_users x) = Some u"
      using given(2) by (cases "find (\<lambda>u. u_id u = i) (db_users x)") (auto simp: find_None_iff)
    have ids: "map u_id (db_users (?block i x)) = map u_id (db_users x)"
      by (simp add: update_user_def map_update_where save_user_fields)
    then have "j \<in> u_id ` set (db_users (?block i x))"
      using given(3) by (metis set_map)
    then show ?thesis
      using given assms(2) u
      by (intro exI [of _ "audit_entry e j ''user.block'' ''user'' i [(''status'', JStr (u_status u))]
            [(''status'', JStr ''blocked'')] (?block i x)"])
         (simp add: block_user_def admin_route_eq with_user_eq change_user_status_def committed_def
          log_admin_action_def admin_of_def action_message_key_def dict_get_def,
          simp only: Let_def)
  qed
  obtain x1 where x1: "block_user e b ra d = (Inr ''admin.user_blocked'', (?block b d)\<lparr>db_audit := db_audit d @ [x1]\<rparr>)"
    using one [OF assms(1,7,6,3) _ assms(9,10)] assms(5) by auto
  let ?d1 = "(?block b d)\<lparr>db_audit := db_audit d @ [x1]\<rparr>"
  have ids: "map u_id (db_users ?d1) = map u_id (db_users d)"
    by (simp add: update_user_def map_update_where save_user_fields)
  have wf: "users_wf ?d1"
    using users_wf_update [OF assms(1), of "u_status_update (\<lambda>_. ''blocked'')" "e_now e" b] by (simp add: users_wf_def)
  obtain x2 where x2: "block_user e a rb ?d1 = (Inr ''admin.user_blocked'', (?block a ?d1)\<lparr>db_audit := db_audit ?d1 @ [x2]\<rparr>)"
    using one [OF wf _ _ assms(4) assms(5) assms(11,12)] assms(6,7) ids by (metis (no_types))
  let ?d2 = "(?block a ?d1)\<lparr>db_audit := db_audit ?d1 @ [x2]\<rparr>"
  have "\<not> admin_left ?d2"
  proof -
    let ?after = "\<lambda>j u. if u_id u = j then save_user (e_now e) (u_status_update (\<lambda>_. ''blocked'')) u else u"
    have "list_all (\<lambda>u. \<not> usable_admin (?after a (?after b u))) (db_users d)"
      using assms(8) by (rule list.pred_mono_strong) (auto simp: blocked_not_usable)
    then show ?thesis
      by (simp add: admin_left_iff update_user_def list_all_update_where)
  qed
  with x1 x2 show ?thesis by blast
qed

lemma admins_lock_out_witness:
  "\<exists>d1 d2. block_user sample_env ''b'' (admin_request ''a'') admin_db = (Inr ''admin.user_blocked'', d1) \<and>
    block_user sample_env ''a'' (admin_request ''b'') d1 = (Inr ''admin.user_blocked'', d2) \<and> \<not> admin_left d2"
proof (rule admins_lock_out [OF admin_db_wf(1)])
  show "list_all (\<lambda>u. usable_admin u \<longrightarrow> u_id u \<in> {''a'', ''b''}) (db_users admin_db)"
    by (simp add: admin_db_def sample_admin_def)
qed (simp_all add: admin_db_def sample_admin_def sample_env_def)

text \<open>
  An administrator who has done something cannot be deleted.  Deleting a user that an
  audit row names as its author fails, and so does deleting oneself, because the deletion is
  itself audited first: the audit reference is declared to become null and not to be null, so
  the database refuses, and everything is rolled back.
\<close>

lemma audited_admin_undeletable:
  assumes "list_ex (\<lambda>a. au_admin_id a = i) (db_audit d) \<or> admin_of r = i"
  shows "\<exists>x. delete_user e i r d = (Inl x, d)"
proof -
  have "\<exists>x. with_user i (delete_loaded e i r) d = (Inl x, d)"
    using delete_loaded_refused [OF assms] by (simp add: with_user_def split: sum.split option.split)
  then show ?thesis
    by (simp add: delete_user_def admin_route_eq)
qed

lemma audited_admin_undeletable_witness:
  "\<exists>x. delete_user sample_env ''a'' (admin_request ''a'') admin_db = (Inl x, admin_db)"
  using audited_admin_undeletable [of "''a''" admin_db "admin_request ''a''" sample_env] by (simp add: admin_of_def)

end
