(* ===== verification/Admin_Config.thy ===== *)
theory Admin_Config
  imports Admin_Users Middleware
begin

text \<open>
  The configuration endpoints of the administrators: \<open>admin_rate_limits.py\<close>, \<open>admin_tools.py\<close>,
  \<open>admin_settings.py\<close>, \<open>admin_modules.py\<close>, and \<open>public_settings.py\<close>, which everybody may read.
  Bodies are taken at the JSON types the client sends.
\<close>

section \<open>Truth and fresh identifiers\<close>

fun json_bool :: "json \<Rightarrow> bool" where
  "json_bool JNull = False"
| "json_bool (JBool b) = b"
| "json_bool (JInt i) = (i \<noteq> 0)"
| "json_bool (JFloat f) = (f \<noteq> Finite 0)"
| "json_bool (JStr s) = (s \<noteq> [])"
| "json_bool (JList js) = (js \<noteq> [])"
| "json_bool (JObj kvs) = (kvs \<noteq> [])"

definition fresh_n :: "env \<Rightarrow> string \<Rightarrow> nat \<Rightarrow> string" where
  "fresh_n e purpose n = e_fresh e (purpose @ str_of_nat n)"

section \<open>Rate limits\<close>

text \<open>One entry of the request; an absent number is \<open>None\<close>, an absent or null name too.\<close>

record limit_item =
  li_role :: "string option"
  li_tool_id :: "string option"
  li_soft_limit :: "int option"
  li_hard_limit :: "int option"
  li_window_seconds :: "int option"

type_synonym limit_key = "string \<times> string option"

definition rc_key :: "rate_limit_config \<Rightarrow> limit_key" where
  "rc_key c = (rc_role c, rc_tool_id c)"

definition existing_map :: "db \<Rightarrow> (limit_key \<times> rate_limit_config) list" where
  "existing_map d = fold (\<lambda>c m. dict_set (rc_key c) c m) (db_rate_limits d) []"

definition incoming_items :: "limit_item list \<Rightarrow> (limit_key \<times> limit_item) list" where
  "incoming_items items =
     fold (\<lambda>i m. if truthy (li_role i) then dict_set (the (li_role i), li_tool_id i) i m else m) items []"

definition exceeds :: "int \<Rightarrow> int \<Rightarrow> bool" where
  "exceeds per_tool global = (global > 0 \<and> per_tool > global)"

text \<open>The check of one incoming entry against the global limits of its role.\<close>

definition check_item ::
    "(limit_key \<times> limit_item) list \<Rightarrow> (limit_key \<times> rate_limit_config) list \<Rightarrow> limit_key \<times> limit_item \<Rightarrow> exn + unit" where
  "check_item incoming existing kv =
     (case kv of ((role, tool_id), item) \<Rightarrow>
       (let ps = or_default (li_soft_limit item) 0;
            ph = or_default (li_hard_limit item) 0
        in if tool_id = None then Inr ()
           else (case map_of incoming (role, None) of
               Some global_item \<Rightarrow>
                 (let gs = or_default (li_soft_limit global_item) 0;
                      gh = or_default (li_hard_limit global_item) 0
                  in if exceeds ps gs then Inl (HTTPException 422)
                     else if exceeds ph gh then Inl (HTTPException 422) else Inr ())
             | None \<Rightarrow>
                 (case map_of existing (role, None) of
                    None \<Rightarrow> Inr ()
                  | Some global_config \<Rightarrow>
                      (if exceeds ps (rc_soft_limit global_config) then Inl (HTTPException 422)
                       else if exceeds ph (rc_hard_limit global_config) then Inl (HTTPException 422) else Inr ())))))"

fun check_items ::
    "(limit_key \<times> limit_item) list \<Rightarrow> (limit_key \<times> rate_limit_config) list \<Rightarrow> (limit_key \<times> limit_item) list \<Rightarrow> exn + unit" where
  "check_items incoming existing [] = Inr ()"
| "check_items incoming existing (kv # kvs) =
     (case check_item incoming existing kv of Inl x \<Rightarrow> Inl x | Inr _ \<Rightarrow> check_items incoming existing kvs)"

definition limit_values :: "rate_limit_config \<Rightarrow> (string \<times> json) list" where
  "limit_values c =
     [(''role'', JStr (rc_role c)), (''tool_id'', json_opt (rc_tool_id c)), (''soft_limit'', JInt (rc_soft_limit c)),
      (''hard_limit'', JInt (rc_hard_limit c)), (''window_seconds'', JInt (rc_window_seconds c))]"

definition assign_limits :: "limit_item \<Rightarrow> rate_limit_config \<Rightarrow> rate_limit_config" where
  "assign_limits item c =
     c\<lparr>rc_soft_limit := or_default (li_soft_limit item) (rc_soft_limit c),
       rc_hard_limit := or_default (li_hard_limit item) (rc_hard_limit c),
       rc_window_seconds := or_default (li_window_seconds item) (rc_window_seconds c)\<rparr>"

text \<open>The foreign key of a new row: \<open>flush\<close> fails for a tool that does not exist.\<close>

definition tool_exists :: "db \<Rightarrow> string option \<Rightarrow> bool" where
  "tool_exists d tool_id \<longleftrightarrow> tool_id = None \<or> tool_id \<in> set (map (Some \<circ> tm_id) (db_tools d))"

definition new_limits :: "env \<Rightarrow> db \<Rightarrow> string \<Rightarrow> limit_item \<Rightarrow> rate_limit_config" where
  "new_limits e d role item =
     \<lparr>rc_id = fresh_n e ''limit_id'' (length (db_rate_limits d)), rc_role = role, rc_tool_id = li_tool_id item,
      rc_soft_limit = or_default (li_soft_limit item) 0, rc_hard_limit = or_default (li_hard_limit item) 0,
      rc_window_seconds = or_default (li_window_seconds item) 60\<rparr>"

text \<open>
  One turn of the update loop.  \<open>existing\<close> is the map read at the start: its rows are the ones
  of the session, so an assignment shows in them, but a row added in the loop is not in it.
\<close>

definition apply_item ::
    "env \<Rightarrow> request \<Rightarrow> (limit_key \<times> rate_limit_config) list \<Rightarrow> limit_item \<Rightarrow>
     exn + rate_limit_config list \<times> db \<Rightarrow> exn + rate_limit_config list \<times> db" where
  "apply_item e r existing item acc =
     (case acc of
        Inl x \<Rightarrow> Inl x
      | Inr (updated, d) \<Rightarrow>
          if \<not> truthy (li_role item) then Inr (updated, d)
          else
            (let role = the (li_role item);
                 current = (case map_of existing (role, li_tool_id item) of
                              None \<Rightarrow> None
                            | Some c \<Rightarrow> find (\<lambda>x. rc_id x = rc_id c) (db_rate_limits d));
                 old = (case current of None \<Rightarrow> [] | Some c \<Rightarrow> limit_values c);
                 config = (case current of None \<Rightarrow> new_limits e d role item | Some c \<Rightarrow> assign_limits item c);
                 rows = (case current of
                           None \<Rightarrow> db_rate_limits d @ [config]
                         | Some c \<Rightarrow> update_where (\<lambda>x. rc_id x = rc_id c) (\<lambda>_. config) (db_rate_limits d))
             in if current = None \<and> \<not> tool_exists d (li_tool_id item) then Inl IntegrityError
                else case log_admin_action e (admin_of r) ''rate_limit.update'' ''rate_limit_config'' (rc_id config)
                       old (limit_values config) (d\<lparr>db_rate_limits := rows\<rparr>) of
                  Inl x \<Rightarrow> Inl x
                | Inr d' \<Rightarrow> Inr (updated @ [config], d')))"

definition update_rate_limits ::
    "env \<Rightarrow> limit_item list \<Rightarrow> request \<Rightarrow> db \<Rightarrow> (exn + rate_limit_config list) \<times> db" where
  "update_rate_limits e items r =
     admin_route e r (\<lambda>d.
       (let existing = existing_map d;
            incoming = incoming_items items
        in case check_items incoming existing incoming of
             Inl x \<Rightarrow> (Inl x, d)
           | Inr _ \<Rightarrow>
               (case fold (apply_item e r existing) items (Inr ([], d)) of
                  Inl x \<Rightarrow> (Inl x, d)
                | Inr (updated, d') \<Rightarrow> (Inr updated, d'))))"

text \<open>Rows by role and tool, the global one (null) last; each with the name of its tool.\<close>

definition list_rate_limits ::
    "env \<Rightarrow> request \<Rightarrow> db \<Rightarrow> (exn + (rate_limit_config \<times> string option) list) \<times> db" where
  "list_rate_limits e r =
     admin_route e r (\<lambda>d.
       (Inr (map (\<lambda>c. (c, if truthy (rc_tool_id c)
                            then map_option tm_name (find (\<lambda>t. Some (tm_id t) = rc_tool_id c) (db_tools d))
                            else None))
          (sort_key rc_role (sort_key (\<lambda>c. case rc_tool_id c of Some t \<Rightarrow> t | None \<Rightarrow> [])
             (filter (\<lambda>c. rc_tool_id c \<noteq> None) (db_rate_limits d))
           @ filter (\<lambda>c. rc_tool_id c = None) (db_rate_limits d)))), d))"

section \<open>Tools and permissions\<close>

definition tool_by_name :: "db \<Rightarrow> string \<Rightarrow> exn + tool_module option" where
  "tool_by_name d name = scalar_one_or_none (filter (\<lambda>t. tm_name t = name) (db_tools d))"

definition with_tool :: "string \<Rightarrow> (tool_module \<Rightarrow> db \<Rightarrow> (exn + 'a) \<times> db) \<Rightarrow> db \<Rightarrow> (exn + 'a) \<times> db" where
  "with_tool name body d =
     (case tool_by_name d name of
        Inl x \<Rightarrow> (Inl x, d)
      | Inr None \<Rightarrow> (Inl (HTTPException 404), d)
      | Inr (Some tool) \<Rightarrow> body tool d)"

definition list_admin_tools :: "env \<Rightarrow> request \<Rightarrow> db \<Rightarrow> (exn + tool_module list) \<times> db" where
  "list_admin_tools e r = admin_route e r (\<lambda>d. (Inr (sort_key tm_name (db_tools d)), d))"

text \<open>\<open>enabled\<close> of the body, absent or any JSON value.\<close>

definition set_enabled ::
    "env \<Rightarrow> string \<Rightarrow> json option \<Rightarrow> request \<Rightarrow> tool_module \<Rightarrow> db \<Rightarrow> (exn + tool_module) \<times> db" where
  "set_enabled e action enabled r tool d =
     (let tool' = (case enabled of None \<Rightarrow> tool | Some v \<Rightarrow> tool\<lparr>tm_enabled := json_bool v\<rparr>);
          d1 = d\<lparr>db_tools := update_where (\<lambda>t. tm_id t = tm_id tool) (\<lambda>_. tool') (db_tools d)\<rparr>
      in committed tool' d
           (log_admin_action e (admin_of r) action ''tool_module'' (tm_id tool)
              [(''enabled'', JBool (tm_enabled tool))] [(''enabled'', JBool (tm_enabled tool'))] d1))"

definition update_tool :: "env \<Rightarrow> string \<Rightarrow> json option \<Rightarrow> request \<Rightarrow> db \<Rightarrow> (exn + tool_module) \<times> db" where
  "update_tool e tool_name enabled r =
     admin_route e r (with_tool tool_name (set_enabled e ''tool.update'' enabled r))"

definition list_role_permissions ::
    "env \<Rightarrow> request \<Rightarrow> db \<Rightarrow> (exn + (role_tool_permission \<times> string) list) \<times> db" where
  "list_role_permissions e r =
     admin_route e r (\<lambda>d.
       (Inr (sort_key (\<lambda>(p, n). rp_role p) (sort_key snd
          (concat (map (\<lambda>p. map (\<lambda>t. (p, tm_name t)) (filter (\<lambda>t. tm_id t = rp_tool_id p) (db_tools d)))
             (db_permissions d))))), d))"

definition apply_permission ::
    "env \<Rightarrow> request \<Rightarrow> string option \<times> json \<Rightarrow> exn + role_tool_permission list \<times> db \<Rightarrow>
     exn + role_tool_permission list \<times> db" where
  "apply_permission e r item acc =
     (case acc of
        Inl x \<Rightarrow> Inl x
      | Inr (updated, d) \<Rightarrow>
          (case item of
             (None, _) \<Rightarrow> Inr (updated, d)
           | (_, JNull) \<Rightarrow> Inr (updated, d)
           | (Some perm_id, allowed) \<Rightarrow>
               (case scalar_one_or_none (filter (\<lambda>p. rp_id p = perm_id) (db_permissions d)) of
                  Inl x \<Rightarrow> Inl x
                | Inr None \<Rightarrow> Inr (updated, d)
                | Inr (Some perm) \<Rightarrow>
                    (let perm' = perm\<lparr>rp_allowed := json_bool allowed\<rparr>;
                         values = (\<lambda>p. [(''allowed'', JBool (rp_allowed p)), (''role'', JStr (rp_role p)),
                                        (''tool_id'', JStr (rp_tool_id p))]);
                         d1 = d\<lparr>db_permissions := update_where (\<lambda>p. rp_id p = perm_id) (\<lambda>_. perm') (db_permissions d)\<rparr>
                     in case log_admin_action e (admin_of r) ''permission.update'' ''role_tool_permission'' perm_id
                               (values perm) (values perm') d1 of
                          Inl x \<Rightarrow> Inl x
                        | Inr d2 \<Rightarrow> Inr (updated @ [perm'], d2)))))"

definition update_role_permissions ::
    "env \<Rightarrow> (string option \<times> json) list \<Rightarrow> request \<Rightarrow> db \<Rightarrow> (exn + role_tool_permission list) \<times> db" where
  "update_role_permissions e items r =
     admin_route e r (\<lambda>d.
       (case fold (apply_permission e r) items (Inr ([], d)) of
          Inl x \<Rightarrow> (Inl x, d)
        | Inr (updated, d') \<Rightarrow> (Inr updated, d')))"

section \<open>Settings\<close>

definition settings_dict :: "global_setting list \<Rightarrow> (string \<times> string) list" where
  "settings_dict rows = fold (\<lambda>s. dict_set (gs_key s) (gs_value s)) rows []"

definition get_settings :: "env \<Rightarrow> request \<Rightarrow> db \<Rightarrow> (exn + (string \<times> string) list) \<times> db" where
  "get_settings e r = admin_route e r (\<lambda>d. (Inr (settings_dict (db_settings d)), d))"

text \<open>Assign a setting, or add its row; the old value comes back.\<close>

definition put_setting :: "env \<Rightarrow> string \<Rightarrow> string \<Rightarrow> db \<Rightarrow> exn + string option \<times> db" where
  "put_setting e key value d =
     (case scalar_one_or_none (filter (\<lambda>s. gs_key s = key) (db_settings d)) of
        Inl x \<Rightarrow> Inl x
      | Inr (Some existing) \<Rightarrow>
          Inr (Some (gs_value existing),
               d\<lparr>db_settings := update_where (\<lambda>s. gs_id s = gs_id existing) (gs_value_update (\<lambda>_. value)) (db_settings d)\<rparr>)
      | Inr None \<Rightarrow>
          Inr (None, d\<lparr>db_settings := db_settings d @
                 [\<lparr>gs_id = fresh_n e ''setting_id'' (length (db_settings d)), gs_key = key, gs_value = value\<rparr>]\<rparr>))"

definition apply_setting ::
    "env \<Rightarrow> request \<Rightarrow> string \<times> json \<Rightarrow> exn + (string \<times> string) list \<times> db \<Rightarrow> exn + (string \<times> string) list \<times> db" where
  "apply_setting e r kv acc =
     (case acc of
        Inl x \<Rightarrow> Inl x
      | Inr (updated, d) \<Rightarrow>
          (case put_setting e (fst kv) (py_str (snd kv)) d of
             Inl x \<Rightarrow> Inl x
           | Inr (old, d1) \<Rightarrow>
               (case log_admin_action e (admin_of r) ''settings.update'' ''global_setting'' (fst kv)
                       (if truthy old then [(''value'', json_opt old)] else [])
                       [(''value'', JStr (py_str (snd kv)))] d1 of
                  Inl x \<Rightarrow> Inl x
                | Inr d2 \<Rightarrow> Inr (dict_set (fst kv) (py_str (snd kv)) updated, d2))))"

definition update_settings ::
    "env \<Rightarrow> (string \<times> json) list \<Rightarrow> request \<Rightarrow> db \<Rightarrow> (exn + (string \<times> string) list) \<times> db" where
  "update_settings e new_settings r =
     admin_route e r (\<lambda>d.
       (case fold (apply_setting e r) new_settings (Inr ([], d)) of
          Inl x \<Rightarrow> (Inl x, d)
        | Inr (updated, d') \<Rightarrow> (Inr updated, d')))"

definition PUBLIC_SETTINGS :: "(string \<times> string) list" where
  "PUBLIC_SETTINGS = [(''log_retention_days'', ''90'')]"

definition get_public_settings :: "env \<Rightarrow> db \<Rightarrow> (exn + (string \<times> string) list) \<times> db" where
  "get_public_settings e =
     with_session (e_db_up e) (\<lambda>d.
       (Inr (fold (\<lambda>s. dict_set (gs_key s) (gs_value s))
          (filter (\<lambda>s. gs_key s \<in> set (map fst PUBLIC_SETTINGS)) (db_settings d)) PUBLIC_SETTINGS), d))"

section \<open>Modules\<close>

definition MODULE_SETTING_PREFIX :: string where "MODULE_SETTING_PREFIX = ''module.''"

text \<open>\<open>key.like(prefix + "%")\<close>, with PostgreSQL's default escape character.\<close>

definition key_like :: "string \<Rightarrow> string \<Rightarrow> bool" where
  "key_like prefix key = like_match CHR 0x5C (prefix @ ''%'') key"

definition modules_with_settings :: "db \<Rightarrow> string list" where
  "modules_with_settings d =
     map (\<lambda>s. hd (py_split CHR ''.'' (drop (length MODULE_SETTING_PREFIX) (gs_key s))))
       (filter (\<lambda>s. key_like MODULE_SETTING_PREFIX (gs_key s)) (db_settings d)) @
     concat (map (\<lambda>p. map tm_name (filter (\<lambda>t. tm_id t = dp_tool_module_id p) (db_tools d))) (db_presets d))"

definition list_modules :: "env \<Rightarrow> request \<Rightarrow> db \<Rightarrow> (exn + (tool_module \<times> bool) list) \<times> db" where
  "list_modules e r =
     admin_route e r (\<lambda>d.
       (Inr (map (\<lambda>m. (m, tm_name m \<in> set (modules_with_settings d))) (sort_key tm_name (db_tools d))), d))"

definition update_module :: "env \<Rightarrow> string \<Rightarrow> json option \<Rightarrow> request \<Rightarrow> db \<Rightarrow> (exn + tool_module) \<times> db" where
  "update_module e module_name enabled r =
     admin_route e r (with_tool module_name (set_enabled e ''module.update'' enabled r))"

definition module_prefix :: "string \<Rightarrow> string" where
  "module_prefix module_name = MODULE_SETTING_PREFIX @ module_name @ ''.''"

definition get_module_settings ::
    "env \<Rightarrow> string \<Rightarrow> request \<Rightarrow> db \<Rightarrow> (exn + (string \<times> string) list) \<times> db" where
  "get_module_settings e module_name r =
     admin_route e r (with_tool module_name (\<lambda>_ d.
       (Inr (fold (\<lambda>s. dict_set (drop (length (module_prefix module_name)) (gs_key s)) (gs_value s))
          (filter (\<lambda>s. key_like (module_prefix module_name) (gs_key s)) (db_settings d)) []), d)))"

text \<open>A boolean is stored in lower case; no audit row is written.\<close>

definition setting_text :: "json \<Rightarrow> string" where
  "setting_text v = (case v of JBool b \<Rightarrow> py_lower (py_str v) | _ \<Rightarrow> py_str v)"

definition apply_module_setting :: "env \<Rightarrow> string \<Rightarrow> string \<times> json \<Rightarrow> exn + db \<Rightarrow> exn + db" where
  "apply_module_setting e module_name kv acc =
     (case acc of
        Inl x \<Rightarrow> Inl x
      | Inr d \<Rightarrow> map_sum id snd (put_setting e (module_prefix module_name @ fst kv) (setting_text (snd kv)) d))"

definition update_module_settings ::
    "env \<Rightarrow> string \<Rightarrow> (string \<times> json) list \<Rightarrow> request \<Rightarrow> db \<Rightarrow> (exn + (string \<times> json) list) \<times> db" where
  "update_module_settings e module_name settings r =
     admin_route e r (with_tool module_name (\<lambda>_ d.
       committed settings d (fold (apply_module_setting e module_name) settings (Inr d))))"

section \<open>DNS server presets\<close>

definition with_preset :: "string \<Rightarrow> (dns_server_preset \<Rightarrow> db \<Rightarrow> (exn + 'a) \<times> db) \<Rightarrow> db \<Rightarrow> (exn + 'a) \<times> db" where
  "with_preset preset_id body d =
     (case scalar_one_or_none (filter (\<lambda>p. dp_id p = preset_id) (db_presets d)) of
        Inl x \<Rightarrow> (Inl x, d)
      | Inr None \<Rightarrow> (Inl (HTTPException 404), d)
      | Inr (Some preset) \<Rightarrow> body preset d)"

definition presets_of :: "tool_module \<Rightarrow> db \<Rightarrow> dns_server_preset list" where
  "presets_of tool d = filter (\<lambda>p. dp_tool_module_id p = tm_id tool) (db_presets d)"

definition list_dns_servers :: "env \<Rightarrow> string \<Rightarrow> request \<Rightarrow> db \<Rightarrow> (exn + dns_server_preset list) \<times> db" where
  "list_dns_servers e tool_name r =
     admin_route e r (with_tool tool_name (\<lambda>tool d. (Inr (sort_key dp_sort_order (presets_of tool d)), d)))"

definition create_dns_server ::
    "env \<Rightarrow> string \<Rightarrow> string option \<Rightarrow> string option \<Rightarrow> request \<Rightarrow> db \<Rightarrow> (exn + dns_server_preset) \<times> db" where
  "create_dns_server e tool_name body_ip body_description r =
     admin_route e r (with_tool tool_name (\<lambda>tool d.
       (let ip_address = py_strip (or_default body_ip []);
            description = py_strip (or_default body_description [])
        in if ip_address = [] then (Inl (HTTPException 400), d)
           else if description = [] then (Inl (HTTPException 400), d)
           else
             (let preset = \<lparr>dp_id = fresh_n e ''preset_id'' (length (db_presets d)), dp_tool_module_id = tm_id tool,
                            dp_ip_address = ip_address, dp_description = description,
                            dp_sort_order = int (length (presets_of tool d))\<rparr>
              in (Inr preset, d\<lparr>db_presets := db_presets d @ [preset]\<rparr>)))))"

definition reorder_step :: "nat \<times> string \<Rightarrow> dns_server_preset list \<Rightarrow> dns_server_preset list" where
  "reorder_step ip ps = update_where (\<lambda>p. dp_id p = snd ip) (dp_sort_order_update (\<lambda>_. int (fst ip))) ps"

definition reorder_dns_servers :: "env \<Rightarrow> string list \<Rightarrow> request \<Rightarrow> db \<Rightarrow> (exn + unit) \<times> db" where
  "reorder_dns_servers e order r =
     admin_route e r (\<lambda>d.
       (Inr (), d\<lparr>db_presets := fold reorder_step (List.enumerate 0 order) (db_presets d)\<rparr>))"

definition update_dns_server ::
    "env \<Rightarrow> string \<Rightarrow> string option \<Rightarrow> string option \<Rightarrow> request \<Rightarrow> db \<Rightarrow> (exn + dns_server_preset) \<times> db" where
  "update_dns_server e preset_id body_ip body_description r =
     admin_route e r (with_preset preset_id (\<lambda>preset d.
       (let ip_address = py_strip (or_default body_ip []);
            description = py_strip (or_default body_description []);
            p1 = (if ip_address \<noteq> [] then preset\<lparr>dp_ip_address := ip_address\<rparr> else preset);
            p2 = (if description \<noteq> [] then p1\<lparr>dp_description := description\<rparr> else p1)
        in (Inr p2, d\<lparr>db_presets := update_where (\<lambda>p. dp_id p = preset_id) (\<lambda>_. p2) (db_presets d)\<rparr>))))"

definition delete_dns_server :: "env \<Rightarrow> string \<Rightarrow> request \<Rightarrow> db \<Rightarrow> (exn + unit) \<times> db" where
  "delete_dns_server e preset_id r =
     admin_route e r (with_preset preset_id (\<lambda>preset d.
       (Inr (), d\<lparr>db_presets := filter (\<lambda>p. dp_id p \<noteq> preset_id) (db_presets d)\<rparr>)))"

section \<open>Rate limits as a table\<close>

text \<open>
  The rows seen as a map from role and tool to the three numbers; \<open>rl_wf\<close> says that they are
  one: identifiers and keys are unique.
\<close>

definition rl_wf :: "db \<Rightarrow> bool" where
  "rl_wf d \<longleftrightarrow> distinct (map rc_id (db_rate_limits d)) \<and> distinct (map rc_key (db_rate_limits d))"

definition rl_row :: "db \<Rightarrow> limit_key \<Rightarrow> rate_limit_config option" where
  "rl_row d k = find (\<lambda>c. rc_key c = k) (db_rate_limits d)"

definition rl_abs :: "db \<Rightarrow> limit_key \<Rightarrow> (int \<times> int \<times> int) option" where
  "rl_abs d k = map_option (\<lambda>c. (rc_soft_limit c, rc_hard_limit c, rc_window_seconds c)) (rl_row d k)"

definition item_key :: "limit_item \<Rightarrow> limit_key" where
  "item_key i = (the (li_role i), li_tool_id i)"

text \<open>What one entry does to the map.\<close>

definition rl_update :: "limit_item \<Rightarrow> (limit_key \<Rightarrow> (int \<times> int \<times> int) option) \<Rightarrow> limit_key \<Rightarrow> (int \<times> int \<times> int) option" where
  "rl_update i m =
     (if \<not> truthy (li_role i) then m
      else m(item_key i \<mapsto>
        (case (case m (item_key i) of Some v \<Rightarrow> v | None \<Rightarrow> (0, 0, 60)) of
           (soft, hard, window) \<Rightarrow>
             (or_default (li_soft_limit i) soft, or_default (li_hard_limit i) hard,
              or_default (li_window_seconds i) window))))"

lemma map_of_fold_index:
  "map_of (fold (\<lambda>c m. dict_set (f c) c m) cs m) k = (case find (\<lambda>c. f c = k) (rev cs) of Some c \<Rightarrow> Some c | None \<Rightarrow> map_of m k)"
  by (induction cs arbitrary: m rule: rev_induct) (auto simp: map_of_dict_set)

lemma find_distinct_rev: "distinct (map f xs) \<Longrightarrow> find (\<lambda>x. f x = k) (rev xs) = find (\<lambda>x. f x = k) xs"
proof (cases "find (\<lambda>x. f x = k) xs")
  case None
  then show ?thesis
    by (metis find_None_iff set_rev)
next
  case (Some x)
  assume "distinct (map f xs)"
  then have "distinct (map f (rev xs))"
    by (simp add: rev_map [symmetric])
  then show ?thesis
    using find_unique [of f "rev xs" x] find_Some_in [OF Some] Some by auto
qed

lemma map_of_existing: "rl_wf d \<Longrightarrow> map_of (existing_map d) k = rl_row d k"
  by (simp add: existing_map_def map_of_fold_index find_distinct_rev rl_wf_def rl_row_def split: option.split)

lemma find_append: "find P (xs @ ys) = (case find P xs of Some x \<Rightarrow> Some x | None \<Rightarrow> find P ys)"
  by (induction xs) auto

lemma rl_row_in: "rl_row d k = Some c \<Longrightarrow> c \<in> set (db_rate_limits d) \<and> rc_key c = k"
  by (auto simp: rl_row_def dest: find_Some_in)

text \<open>Writing one row: a row of that key is replaced, or one is added.\<close>

definition write_row :: "rate_limit_config option \<Rightarrow> rate_limit_config \<Rightarrow> rate_limit_config list \<Rightarrow> rate_limit_config list" where
  "write_row current config rows =
     (case current of None \<Rightarrow> rows @ [config] | Some c \<Rightarrow> update_where (\<lambda>x. rc_id x = rc_id c) (\<lambda>_. config) rows)"

lemma write_row_new:
  assumes "rl_wf d" "rl_row d (rc_key config) = None" "rc_id config \<notin> rc_id ` set (db_rate_limits d)"
    and "db_rate_limits d' = write_row None config (db_rate_limits d)"
  shows "rl_wf d'" "rl_row d' = (rl_row d)(rc_key config \<mapsto> config)"
proof -
  have "rc_key config \<notin> rc_key ` set (db_rate_limits d)"
    using assms(2) by (force simp: rl_row_def find_None_iff)
  then show "rl_wf d'"
    using assms by (simp add: rl_wf_def write_row_def)
  show "rl_row d' = (rl_row d)(rc_key config \<mapsto> config)"
  proof
    show "rl_row d' k = ((rl_row d)(rc_key config \<mapsto> config)) k" for k
      using assms(2) by (cases "k = rc_key config") (simp_all add: rl_row_def assms(4) write_row_def find_append split: option.split)
  qed
qed

lemma find_replace:
  assumes "distinct (map f xs)" "distinct (map g xs)" "c \<in> set xs" "g config = g c"
  shows "find (\<lambda>x. g x = k) (update_where (\<lambda>x. f x = f c) (\<lambda>_. config) xs) =
    (if k = g c then Some config else find (\<lambda>x. g x = k) xs)"
  using assms
proof (induction xs)
  case (Cons x xs)
  show ?case
  proof (cases "x = c")
    case True
    then have "update_where (\<lambda>x. f x = f c) (\<lambda>_. config) xs = xs"
      using Cons.prems(1) by (intro update_where_none) (auto simp: image_iff dest: sym)
    with True Cons.prems show ?thesis
      by (auto simp: update_where_def)
  next
    case False
    then have "c \<in> set xs"
      using Cons.prems(3) by simp
    then have "f x \<noteq> f c" "g x \<noteq> g c"
      using Cons.prems(1,2) by auto
    with Cons \<open>c \<in> set xs\<close> show ?thesis
      by (auto simp: update_where_def)
  qed
qed simp

lemma write_row_old:
  assumes "rl_wf d" "rl_row d (rc_key config) = Some c" "rc_id config = rc_id c"
    and "db_rate_limits d' = write_row (Some c) config (db_rate_limits d)"
  shows "rl_wf d'" "rl_row d' = (rl_row d)(rc_key config \<mapsto> config)"
proof -
  note c = rl_row_in [OF assms(2)]
  have same: "x = c" if "x \<in> set (db_rate_limits d)" "rc_id x = rc_id c" for x
    using that c assms(1) by (auto simp: rl_wf_def distinct_map dest: inj_onD)
  have "map rc_key (db_rate_limits d') = map rc_key (db_rate_limits d)"
    unfolding assms(4) write_row_def option.case update_where_def map_map
  proof (rule map_cong [OF refl])
    fix x assume "x \<in> set (db_rate_limits d)"
    then show "(rc_key \<circ> (\<lambda>x. if rc_id x = rc_id c then config else x)) x = rc_key x"
      using same [of x] c by (cases "rc_id x = rc_id c") auto
  qed
  moreover have "map rc_id (db_rate_limits d') = map rc_id (db_rate_limits d)"
    using assms(3) by (simp add: assms(4) write_row_def map_update_where)
  ultimately have "map rc_key (db_rate_limits d') = map rc_key (db_rate_limits d)"
      "map rc_id (db_rate_limits d') = map rc_id (db_rate_limits d)"
    by blast+
  then show "rl_wf d'"
    using assms(1) by (simp add: rl_wf_def)
  show "rl_row d' = (rl_row d)(rc_key config \<mapsto> config)"
    using assms(1) c unfolding rl_row_def assms(4) write_row_def rl_wf_def fun_eq_iff
    by (simp add: find_replace [of rc_id _ rc_key])
qed

lemma find_id: "rl_wf d \<Longrightarrow> c \<in> set (db_rate_limits d) \<Longrightarrow> find (\<lambda>x. rc_id x = rc_id c) (db_rate_limits d) = Some c"
  using find_unique [of rc_id "db_rate_limits d" c] by (auto simp: rl_wf_def)

text \<open>Fresh identifiers: never one of the old rows, and never one twice.\<close>

definition fresh_ids :: "env \<Rightarrow> db \<Rightarrow> db \<Rightarrow> bool" where
  "fresh_ids e d0 d \<longleftrightarrow> inj (fresh_n e ''limit_id'') \<and> range (fresh_n e ''limit_id'') \<inter> rc_id ` set (db_rate_limits d0) = {} \<and>
     rc_id ` set (db_rate_limits d) \<subseteq> rc_id ` set (db_rate_limits d0) \<union> fresh_n e ''limit_id'' ` {..<length (db_rate_limits d)}"

lemma fresh_ids_unused: "fresh_ids e d0 d \<Longrightarrow> fresh_n e ''limit_id'' (length (db_rate_limits d)) \<notin> rc_id ` set (db_rate_limits d)"
proof
  let ?f = "fresh_n e ''limit_id''" and ?n = "length (db_rate_limits d)"
  assume fresh: "fresh_ids e d0 d" and used: "?f ?n \<in> rc_id ` set (db_rate_limits d)"
  have "?f ?n \<notin> rc_id ` set (db_rate_limits d0)"
    using fresh by (auto simp: fresh_ids_def)
  with fresh used obtain k where "k < ?n" "?f ?n = ?f k"
    unfolding fresh_ids_def by blast
  then show False
    using fresh by (auto simp: fresh_ids_def inj_def)
qed

lemma written_key:
  assumes "\<And>c. current = Some c \<Longrightarrow> rc_key c = item_key i"
  shows "rc_key (case current of None \<Rightarrow> new_limits e d (the (li_role i)) i | Some c \<Rightarrow> assign_limits i c) = item_key i"
  using assms by (cases current) (simp_all add: new_limits_def assign_limits_def item_key_def rc_key_def)

lemma apply_item_step:
  assumes "rl_wf d" "truthy (li_role i)" "map_of existing (item_key i) = rl_row d (item_key i)"
    and "fresh_ids e d0 d" "apply_item e r existing i (Inr (upd, d)) = Inr (upd', d')"
  shows "rl_wf d'" "\<exists>c. rl_row d' = (rl_row d)(item_key i \<mapsto> c)" "rl_abs d' = rl_update i (rl_abs d)" "fresh_ids e d0 d'"
proof -
  define current where "current = rl_row d (item_key i)"
  define config where "config = (case current of None \<Rightarrow> new_limits e d (the (li_role i)) i | Some c \<Rightarrow> assign_limits i c)"
  have "(case map_of existing (item_key i) of None \<Rightarrow> None | Some c \<Rightarrow> find (\<lambda>x. rc_id x = rc_id c) (db_rate_limits d)) = current"
    unfolding assms(3) current_def using find_id [OF assms(1)] rl_row_in [of d "item_key i"] by (auto split: option.split)
  then have "\<exists>old. log_admin_action e (admin_of r) ''rate_limit.update'' ''rate_limit_config'' (rc_id config) old (limit_values config)
      (d\<lparr>db_rate_limits := write_row current config (db_rate_limits d)\<rparr>) = Inr d'"
    using assms(2,5) by (auto simp: apply_item_def Let_def item_key_def write_row_def config_def split: sum.splits option.splits if_splits)
  then have rows: "db_rate_limits d' = write_row current config (db_rate_limits d)"
    by (auto simp: log_admin_action_def split: if_splits)
  have key: "rc_key config = item_key i"
    unfolding config_def by (rule written_key) (simp add: current_def rl_row_in)
  have "rl_wf d' \<and> rl_row d' = (rl_row d)(item_key i \<mapsto> config) \<and> fresh_ids e d0 d'"
  proof (cases current)
    case None
    have id: "rc_id config = fresh_n e ''limit_id'' (length (db_rate_limits d))"
      by (simp add: config_def None new_limits_def)
    have "rc_id ` set (db_rate_limits d') = insert (rc_id config) (rc_id ` set (db_rate_limits d))"
        "length (db_rate_limits d') = Suc (length (db_rate_limits d))"
      by (simp_all add: rows None write_row_def)
    then have "fresh_ids e d0 d'"
      using assms(4) unfolding fresh_ids_def id by (auto simp: lessThan_Suc)
    with write_row_new [OF assms(1), of config d'] fresh_ids_unused [OF assms(4)] rows None id key show ?thesis
      by (simp add: current_def)
  next
    case (Some c)
    have id: "rc_id config = rc_id c"
      by (simp add: config_def Some assign_limits_def)
    have "map rc_id (db_rate_limits d') = map rc_id (db_rate_limits d)"
      by (auto simp: rows Some write_row_def update_where_def id)
    then have "rc_id ` set (db_rate_limits d') = rc_id ` set (db_rate_limits d)"
        "length (db_rate_limits d') = length (db_rate_limits d)"
      by (metis set_map) (simp add: rows Some write_row_def)
    then have "fresh_ids e d0 d'"
      using assms(4) by (simp add: fresh_ids_def)
    with write_row_old [OF assms(1), of config c d'] rows Some id key show ?thesis
      by (simp add: current_def)
  qed
  then have row: "rl_wf d'" "rl_row d' = (rl_row d)(item_key i \<mapsto> config)" "fresh_ids e d0 d'"
    by blast+
  show "rl_wf d'" "\<exists>c. rl_row d' = (rl_row d)(item_key i \<mapsto> c)" "fresh_ids e d0 d'"
    using row by blast+
  show "rl_abs d' = rl_update i (rl_abs d)"
    using assms(2) unfolding fun_eq_iff rl_abs_def row(2) rl_update_def
    by (auto simp: config_def current_def new_limits_def assign_limits_def split: option.split)
qed

lemma apply_items_Inl: "fold (apply_item e r existing) items (Inl x) = Inl x"
  by (induction items) (simp_all add: apply_item_def)

definition named_keys :: "limit_item list \<Rightarrow> limit_key list" where
  "named_keys items = map item_key (filter (\<lambda>i. truthy (li_role i)) items)"

lemma apply_items_fold:
  assumes "rl_wf d" "fresh_ids e d0 d" "distinct (named_keys items)"
    and "\<forall>k \<in> set (named_keys items). map_of existing k = rl_row d k"
    and "fold (apply_item e r existing) items (Inr (upd, d)) = Inr (upd', d')"
  shows "rl_wf d' \<and> rl_abs d' = fold rl_update items (rl_abs d)"
  using assms
proof (induction items arbitrary: upd d)
  case (Cons i items)
  show ?case
  proof (cases "truthy (li_role i)")
    case False
    then have "apply_item e r existing i (Inr (upd, d)) = Inr (upd, d)" "rl_update i m = m"
        "named_keys (i # items) = named_keys items" for m
      by (simp_all add: apply_item_def rl_update_def named_keys_def)
    with Cons.IH [OF Cons.prems(1,2)] Cons.prems(3-5) show ?thesis
      by simp
  next
    case True
    then have keys: "named_keys (i # items) = item_key i # named_keys items"
      by (simp add: named_keys_def)
    obtain upd1 d1 where step: "apply_item e r existing i (Inr (upd, d)) = Inr (upd1, d1)"
      using Cons.prems(5) by (cases "apply_item e r existing i (Inr (upd, d))") (auto simp: apply_items_Inl)
    have known: "map_of existing (item_key i) = rl_row d (item_key i)"
      using Cons.prems(4) keys by simp
    note step' = apply_item_step [OF Cons.prems(1) True known Cons.prems(2) step]
    obtain c where "rl_row d1 = (rl_row d)(item_key i \<mapsto> c)"
      using step'(2) by blast
    then have "\<forall>k \<in> set (named_keys items). map_of existing k = rl_row d1 k"
      using Cons.prems(3,4) keys by auto
    with Cons.IH [OF step'(1,4) _ this, of upd1] Cons.prems(3,5) keys step step'(3) show ?thesis
      by simp
  qed
qed simp

lemma update_rate_limits_Inr:
  assumes "update_rate_limits e items r d = (Inr upd, d')"
  shows "check_items (incoming_items items) (existing_map d) (incoming_items items) = Inr () \<and>
    fold (apply_item e r (existing_map d)) items (Inr ([], d)) = Inr (upd, d')"
  using assms by (auto simp: update_rate_limits_def admin_route_eq Let_def split: if_splits sum.splits prod.splits)

text \<open>The validation visits every entry.\<close>

lemma check_items_iff:
  "check_items incoming existing kvs = Inr () \<longleftrightarrow> (\<forall>kv \<in> set kvs. check_item incoming existing kv = Inr ())"
  by (induction kvs) (auto split: sum.split)

lemma map_of_incoming:
  "map_of (fold (\<lambda>i m. if truthy (li_role i) then dict_set (the (li_role i), li_tool_id i) i m else m) items m0) k =
     (case find (\<lambda>i. item_key i = k) (rev (filter (\<lambda>i. truthy (li_role i)) items)) of Some i \<Rightarrow> Some i | None \<Rightarrow> map_of m0 k)"
  by (induction items arbitrary: m0 rule: rev_induct) (auto simp: map_of_dict_set item_key_def)

lemma incoming_lookup:
  assumes "distinct (named_keys items)" "i \<in> set items" "truthy (li_role i)"
  shows "map_of (incoming_items items) (item_key i) = Some i"
  using assms find_distinct_rev [of item_key "filter (\<lambda>i. truthy (li_role i)) items" "item_key i"]
    find_unique [of item_key "filter (\<lambda>i. truthy (li_role i)) items" i]
  by (simp add: incoming_items_def map_of_incoming named_keys_def)

lemma incoming_absent:
  "k \<notin> set (named_keys items) \<Longrightarrow> map_of (incoming_items items) k = None"
  by (simp add: incoming_items_def map_of_incoming named_keys_def find_None_iff image_iff split: option.split)
     (metis find_None_iff set_rev)

text \<open>The map after a batch: entries whose keys are not named are as before.\<close>

lemma fold_update_other: "k \<notin> set (named_keys items) \<Longrightarrow> fold rl_update items m k = m k"
  by (induction items arbitrary: m) (auto simp: rl_update_def named_keys_def)

lemma fold_update_item:
  assumes "distinct (named_keys items)" "i \<in> set items" "truthy (li_role i)"
    and "li_soft_limit i = Some s" "li_hard_limit i = Some h"
  shows "\<exists>w. fold rl_update items m (item_key i) = Some (s, h, w)"
  using assms
proof (induction items arbitrary: m)
  case (Cons j items)
  show ?case
  proof (cases "i = j")
    case True
    then have "item_key i \<notin> set (named_keys items)"
      using Cons.prems by (simp add: named_keys_def)
    moreover have "\<exists>w. rl_update j m (item_key i) = Some (s, h, w)"
      using Cons.prems(3-5) True by (simp add: rl_update_def split: prod.split)
    ultimately show ?thesis
      by (simp add: fold_update_other)
  next
    case False
    with Cons.prems have "distinct (named_keys items)" "i \<in> set items"
      by (auto simp: named_keys_def split: if_splits)
    from Cons.IH [OF this Cons.prems(3-5)] show ?thesis
      by simp
  qed
qed simp

lemma fresh_ids_start:
  "inj (fresh_n e ''limit_id'') \<Longrightarrow> range (fresh_n e ''limit_id'') \<inter> rc_id ` set (db_rate_limits d) = {} \<Longrightarrow> fresh_ids e d d"
  by (simp add: fresh_ids_def)

lemma update_rate_limits_abs:
  assumes "rl_wf d" "inj (fresh_n e ''limit_id'')" "range (fresh_n e ''limit_id'') \<inter> rc_id ` set (db_rate_limits d) = {}"
    and "distinct (named_keys items)" "update_rate_limits e items r d = (Inr upd, d')"
  shows "rl_wf d' \<and> rl_abs d' = fold rl_update items (rl_abs d)"
  using apply_items_fold [OF assms(1) fresh_ids_start [OF assms(2,3)] assms(4) _
      conjunct2 [OF update_rate_limits_Inr [OF assms(5)]]] map_of_existing [OF assms(1)]
  by blast

text \<open>An entry that passes the check, against the global limits in force after the batch.\<close>

lemma checked_item:
  assumes "rl_wf d" "distinct (named_keys items)"
    and "check_items (incoming_items items) (existing_map d) (incoming_items items) = Inr ()"
    and "\<forall>i \<in> set items. li_soft_limit i \<noteq> None \<and> li_hard_limit i \<noteq> None"
    and "i \<in> set items" "truthy (li_role i)" "li_tool_id i = Some t"
    and "fold rl_update items (rl_abs d) (the (li_role i), None) = Some (gs, gh, gw)"
  shows "\<not> exceeds (the (li_soft_limit i)) gs \<and> \<not> exceeds (the (li_hard_limit i)) gh"
proof -
  let ?g = "(the (li_role i), None) :: limit_key"
  have here: "map_of (incoming_items items) (item_key i) = Some i"
    using assms(2,5,6) by (rule incoming_lookup)
  have "check_item (incoming_items items) (existing_map d) (item_key i, i) = Inr ()"
    using assms(3) map_of_SomeD [OF here] by (auto simp: check_items_iff)
  note check = this [unfolded check_item_def item_key_def, simplified, unfolded assms(7)]
  have own: "li_soft_limit i \<noteq> None" "li_hard_limit i \<noteq> None"
    using assms(4,5) by blast+
  show ?thesis
  proof (cases "?g \<in> set (named_keys items)")
    case True
    then obtain g where g: "g \<in> set items" "truthy (li_role g)" "item_key g = ?g"
      by (auto simp: named_keys_def)
    then obtain s h where gl: "li_soft_limit g = Some s" "li_hard_limit g = Some h"
      using assms(4) by blast
    have "map_of (incoming_items items) ?g = Some g"
      using incoming_lookup [OF assms(2) g(1,2)] g(3) by simp
    moreover have "gs = s \<and> gh = h"
      using fold_update_item [OF assms(2) g(1,2) gl, of "rl_abs d"] g(3) assms(8) by auto
    ultimately show ?thesis
      using check own gl by (auto simp: Let_def split: if_splits)
  next
    case False
    then have "rl_abs d ?g = Some (gs, gh, gw)"
      using assms(8) by (simp add: fold_update_other)
    then obtain c where c: "map_of (existing_map d) ?g = Some c" "rc_soft_limit c = gs" "rc_hard_limit c = gh"
      using map_of_existing [OF assms(1)] by (auto simp: rl_abs_def)
    with check own incoming_absent [OF False] show ?thesis
      by (auto simp: Let_def split: if_splits)
  qed
qed

text \<open>Two rows for one role: every request of the role goes unlimited.\<close>

lemma scalar_many: "2 \<le> length xs \<Longrightarrow> scalar_one_or_none xs = Inl MultipleResultsFound"
  by (cases xs rule: scalar_one_or_none.cases) auto

lemma effective_limits_ambiguous:
  assumes "2 \<le> length (filter (\<lambda>c. rc_role c = role \<and> rc_tool_id c = None) (db_rate_limits d))"
  shows "get_effective_limits d role tool = Inl MultipleResultsFound"
  by (simp add: get_effective_limits_def scalar_many [OF assms])

lemma ambiguous_role_unlimited:
  assumes "rate_identity e (w_db w) r = (role, u, s)"
    and "2 \<le> length (filter (\<lambda>c. rc_role c = role \<and> rc_tool_id c = None) (db_rate_limits (w_db w)))"
  shows "rate_limit_dispatch cfg e next_app r w = next_app r w"
  using assms by (simp add: rate_limit_dispatch_def check_tool_rate_limit_def effective_limits_ambiguous Let_def)

section \<open>Preset order\<close>

definition reorder_one :: "nat \<times> string \<Rightarrow> dns_server_preset \<Rightarrow> dns_server_preset" where
  "reorder_one ip p = (if dp_id p = snd ip then dp_sort_order_update (\<lambda>_. int (fst ip)) p else p)"

lemma reorder_fold: "fold reorder_step ips ps = map (fold reorder_one ips) ps"
  by (induction ips arbitrary: ps) (simp_all add: reorder_step_def update_where_def reorder_one_def comp_def)

lemma reorder_one_fields [simp]:
  "dp_id (fold reorder_one ips p) = dp_id p" "dp_tool_module_id (fold reorder_one ips p) = dp_tool_module_id p"
  by (induction ips arbitrary: p) (simp_all add: reorder_one_def)

lemma reorder_unnamed: "dp_id p \<notin> snd ` set ips \<Longrightarrow> fold reorder_one ips p = p"
  by (induction ips) (auto simp: reorder_one_def)

lemma reorder_named:
  assumes "distinct order" "j < length order" "dp_id p = order ! j"
  shows "dp_sort_order (fold reorder_one (List.enumerate n order) p) = int (n + j)"
  using assms
proof (induction order arbitrary: n j p)
  case (Cons x order)
  show ?case
  proof (cases j)
    case 0
    with Cons.prems have "dp_id (reorder_one (n, x) p) \<notin> snd ` set (List.enumerate (Suc n) order)"
      by (simp add: reorder_one_def flip: set_map)
    then have "fold reorder_one (List.enumerate (Suc n) order) (reorder_one (n, x) p) = reorder_one (n, x) p"
      by (rule reorder_unnamed)
    then have "dp_sort_order (fold reorder_one (List.enumerate n (x # order)) p) = dp_sort_order (reorder_one (n, x) p)"
      by simp
    also have "\<dots> = int n"
      using 0 Cons.prems by (simp add: reorder_one_def)
    finally show ?thesis
      by (simp only: 0 add_0_right)
  next
    case (Suc i)
    with Cons.IH [of i "reorder_one (n, x) p" "Suc n"] Cons.prems show ?thesis
      by (simp add: reorder_one_def)
  qed
qed simp

text \<open>A list sorted by positions in \<open>order\<close> is \<open>order\<close>.\<close>

lemma sorted_by_position:
  assumes "distinct order" "distinct (map f xs)" "set (map f xs) = set order"
    and "\<And>x j. x \<in> set xs \<Longrightarrow> j < length order \<Longrightarrow> f x = order ! j \<Longrightarrow> g x = int j" "sorted (map g xs)"
  shows "map f xs = order"
proof -
  have pos: "\<exists>j < length order. f x = order ! j \<and> g x = int j" if "x \<in> set xs" for x
  proof -
    have "f x \<in> set order"
      using assms(3) that by auto
    then obtain j where "j < length order" "order ! j = f x"
      by (auto simp: in_set_conv_nth)
    with assms(4) [OF that, of j] show ?thesis by auto
  qed
  have nth: "order ! nat (g x) = f x" if "x \<in> set xs" for x
    using pos [OF that] by auto
  have inj: "inj_on g (set xs)"
  proof (rule inj_onI)
    fix x y assume "x \<in> set xs" "y \<in> set xs" "g x = g y"
    then have "f x = f y"
      using nth [of x] nth [of y] by simp
    then show "x = y"
      using assms(2) \<open>x \<in> set xs\<close> \<open>y \<in> set xs\<close> by (auto simp: distinct_map dest: inj_onD)
  qed
  have len: "length xs = length order"
    using assms(1-3) by (metis distinct_card length_map)
  have "distinct xs"
    using assms(2) by (simp add: distinct_map)
  have "g ` set xs \<subseteq> int ` {..<length order}"
    using pos by force
  moreover have "card (g ` set xs) = length order"
    using inj \<open>distinct xs\<close> len by (simp add: card_image distinct_card)
  ultimately have "g ` set xs = int ` {..<length order}"
    by (intro card_subset_eq) (simp_all add: card_image)
  then have "set (map g xs) = set (map int [0..<length order])"
    by (simp add: atLeast0LessThan)
  then have "map g xs = map int [0..<length order]"
    using assms(5) inj \<open>distinct xs\<close>
    by (intro sorted_distinct_set_unique) (simp_all add: distinct_map sorted_map comp_def)
  then have "map (\<lambda>i. order ! nat i) (map g xs) = map (\<lambda>i. order ! i) [0..<length order]"
    by (simp add: comp_def)
  moreover have "map (\<lambda>i. order ! nat i) (map g xs) = map f xs"
    using nth by simp
  ultimately show ?thesis
    by (simp add: map_nth)
qed

lemma presets_reordered:
  "presets_of tool (d\<lparr>db_presets := fold reorder_step ips (db_presets d)\<rparr>) = map (fold reorder_one ips) (presets_of tool d)"
  by (simp add: presets_of_def reorder_fold filter_map comp_def)

section \<open>Properties\<close>

text \<open>
  C19: updating the rate limits refines updating a map.  On a table that is a map from role
  and tool to numbers, a batch with distinct keys that is accepted leaves such a table, and
  its map is the old one with each entry applied in turn: the numbers given replace the old
  ones, the others stay (0, 0 and 60 for a new key).
\<close>

theorem rate_limits_refine:
  assumes "rl_wf d" "inj (fresh_n e ''limit_id'')" "range (fresh_n e ''limit_id'') \<inter> rc_id ` set (db_rate_limits d) = {}"
    and "distinct (named_keys items)" "update_rate_limits e items r d = (Inr upd, d')"
  shows "rl_wf d' \<and> rl_abs d' = fold rl_update items (rl_abs d)"
  using assms by (rule update_rate_limits_abs)

definition limit_env :: env where
  "limit_env = sample_env\<lparr>e_fresh := \<lambda>k. k\<rparr>"

definition visitor_item :: limit_item where
  "visitor_item = \<lparr>li_role = Some ROLE_VISITOR, li_tool_id = None, li_soft_limit = Some 2, li_hard_limit = Some 50,
     li_window_seconds = Some 3600\<rparr>"

definition ping_item :: limit_item where
  "ping_item = visitor_item\<lparr>li_tool_id := Some ''t'', li_soft_limit := Some 1\<rparr>"

lemma limit_env_fresh: "inj (fresh_n limit_env p)"
proof (rule injI)
  fix m n
  assume "fresh_n limit_env p m = fresh_n limit_env p n"
  then have "nat_of_digits (str_of_nat m) = nat_of_digits (str_of_nat n)"
    by (simp add: fresh_n_def limit_env_def)
  then show "m = n" by simp
qed

lemma str_of_one: "str_of_nat (Suc 0) = ''1''"
  by code_simp

definition limits_db :: db where
  "limits_db = admin_db\<lparr>db_tools := [\<lparr>tm_id = ''t'', tm_name = ''ping'', tm_display_name_key = [], tm_description_key = [],
     tm_enabled = True, tm_version = []\<rparr>]\<rparr>"

lemma limits_sample:
  "update_rate_limits limit_env [visitor_item, ping_item] (admin_request ''a'') limits_db =
     (Inr [new_limits limit_env limits_db ROLE_VISITOR visitor_item,
           (new_limits limit_env limits_db ROLE_VISITOR ping_item)\<lparr>rc_id := ''limit_id1''\<rparr>],
      snd (update_rate_limits limit_env [visitor_item, ping_item] (admin_request ''a'') limits_db))"
  by (simp add: update_rate_limits_def admin_route_eq limit_env_def sample_env_def incoming_items_def existing_map_def
      visitor_item_def ping_item_def check_item_def exceeds_def or_default_def apply_item_def Let_def
      log_admin_action_def admin_of_def limits_db_def admin_db_def sample_admin_def new_limits_def tool_exists_def fresh_n_def roles empty_db_def str_of_one)

theorem rate_limits_refine_witness:
  "rl_abs (snd (update_rate_limits limit_env [visitor_item, ping_item] (admin_request ''a'') limits_db)) (ROLE_VISITOR, Some ''t'')
    = Some (1, 50, 3600)"
proof -
  have "rl_abs (snd (update_rate_limits limit_env [visitor_item, ping_item] (admin_request ''a'') limits_db))
      = fold rl_update [visitor_item, ping_item] (rl_abs limits_db)"
    by (rule rate_limits_refine [OF _ limit_env_fresh _ _ limits_sample, THEN conjunct2])
      (simp_all add: rl_wf_def limits_db_def admin_db_def empty_db_def named_keys_def item_key_def visitor_item_def ping_item_def roles)
  then show ?thesis
    by (simp add: rl_update_def visitor_item_def ping_item_def item_key_def rl_abs_def rl_row_def limits_db_def admin_db_def empty_db_def
        roles or_default_def)
qed

text \<open>
  An accepted batch respects the matrix.  When every entry states both limits, after an
  accepted batch no per-tool entry of it exceeds the global limit of its role that is then in
  force, whether that one came with the batch or was there before (zero is no limit).
\<close>

lemma limits_matrix_sound:
  assumes "rl_wf d" "inj (fresh_n e ''limit_id'')" "range (fresh_n e ''limit_id'') \<inter> rc_id ` set (db_rate_limits d) = {}"
    and "distinct (named_keys items)" "list_all (\<lambda>i. li_soft_limit i \<noteq> None \<and> li_hard_limit i \<noteq> None) items"
    and "update_rate_limits e items r d = (Inr upd, d')"
    and "i \<in> set items" "truthy (li_role i)" "li_tool_id i = Some t"
    and "rl_abs d' (the (li_role i), None) = Some (gs, gh, gw)"
  shows "\<exists>s h w. rl_abs d' (the (li_role i), Some t) = Some (s, h, w) \<and> \<not> exceeds s gs \<and> \<not> exceeds h gh"
proof -
  have after: "rl_abs d' = fold rl_update items (rl_abs d)"
    using update_rate_limits_abs [OF assms(1-4,6)] by blast
  have full: "\<forall>i \<in> set items. li_soft_limit i \<noteq> None \<and> li_hard_limit i \<noteq> None"
    using assms(5) by (simp add: list_all_iff)
  then obtain s h where sh: "li_soft_limit i = Some s" "li_hard_limit i = Some h"
    using assms(7) by blast
  have "item_key i = (the (li_role i), Some t)"
    using assms(9) by (simp add: item_key_def)
  then obtain w where "rl_abs d' (the (li_role i), Some t) = Some (s, h, w)"
    using fold_update_item [OF assms(4,7,8) sh, of "rl_abs d"] after by auto
  moreover have "\<not> exceeds s gs \<and> \<not> exceeds h gh"
    using checked_item [OF assms(1,4) conjunct1 [OF update_rate_limits_Inr [OF assms(6)]] full assms(7-9)
        assms(10) [unfolded after]] sh by simp
  ultimately show ?thesis by blast
qed

lemma limits_matrix_sound_witness:
  "\<exists>s h w. rl_abs (snd (update_rate_limits limit_env [visitor_item, ping_item] (admin_request ''a'') limits_db))
      (ROLE_VISITOR, Some ''t'') = Some (s, h, w) \<and> \<not> exceeds s 2 \<and> \<not> exceeds h 50"
proof -
  let ?d' = "snd (update_rate_limits limit_env [visitor_item, ping_item] (admin_request ''a'') limits_db)"
  have wf: "rl_wf limits_db" "distinct (named_keys [visitor_item, ping_item])"
      "range (fresh_n limit_env ''limit_id'') \<inter> rc_id ` set (db_rate_limits limits_db) = {}"
    by (simp_all add: rl_wf_def limits_db_def admin_db_def empty_db_def named_keys_def item_key_def visitor_item_def ping_item_def roles)
  have "rl_abs ?d' = fold rl_update [visitor_item, ping_item] (rl_abs limits_db)"
    using update_rate_limits_abs [OF wf(1) limit_env_fresh wf(3,2) limits_sample] by blast
  then have "rl_abs ?d' (the (li_role ping_item), None) = Some (2, 50, 3600)"
    by (simp add: rl_update_def visitor_item_def ping_item_def item_key_def rl_abs_def rl_row_def limits_db_def admin_db_def empty_db_def
        roles or_default_def)
  from limits_matrix_sound [OF wf(1) limit_env_fresh wf(3,2) _ limits_sample _ _ _ this, of "''t''"]
  show ?thesis
    by (simp add: visitor_item_def ping_item_def roles)
qed

text \<open>
  Two entries for the same new key are both accepted and both added, because the map of
  existing rows is read once; the role's limits are then ambiguous and its requests go
  unlimited.
\<close>

lemma duplicate_entries_unlimit_role:
  "\<exists>upd d'. update_rate_limits limit_env [visitor_item, visitor_item] (admin_request ''a'') admin_db = (Inr upd, d') \<and>
    get_effective_limits d' ROLE_VISITOR tool = Inl MultipleResultsFound"
  by (simp add: update_rate_limits_def admin_route_eq limit_env_def sample_env_def incoming_items_def existing_map_def
      visitor_item_def check_item_def exceeds_def or_default_def apply_item_def Let_def
      log_admin_action_def admin_of_def admin_db_def sample_admin_def new_limits_def tool_exists_def fresh_n_def roles empty_db_def
      effective_limits_ambiguous)

text \<open>
  The servers are listed in the order the administrator gave.  When the request names
  each preset of a tool exactly once, reordering succeeds and the list of the tool's presets
  is then exactly in that order.
\<close>

lemma reorder_lists_in_order:
  assumes "e_db_up e" "st_role (rq_state r) = Some ROLE_ADMINISTRATOR" "tool_by_name d name = Inr (Some tool)"
    and "distinct (map dp_id (db_presets d))" "distinct order" "set order = dp_id ` set (presets_of tool d)"
  shows "\<exists>d' ps. reorder_dns_servers e order r d = (Inr (), d') \<and> list_dns_servers e name r d' = (Inr ps, d') \<and>
    map dp_id ps = order"
proof -
  let ?d = "d\<lparr>db_presets := fold reorder_step (List.enumerate 0 order) (db_presets d)\<rparr>"
  let ?ps = "sort_key dp_sort_order (presets_of tool ?d)"
  have ids: "map dp_id (presets_of tool ?d) = map dp_id (presets_of tool d)"
    by (simp add: presets_reordered)
  have "map dp_id ?ps = order"
  proof (rule sorted_by_position [where g = dp_sort_order])
    have "distinct (map dp_id (presets_of tool d))"
      using assms(4) by (simp add: presets_of_def distinct_map inj_on_def)
    then have "distinct (map dp_id (presets_of tool ?d))"
      by (simp only: ids)
    then show "distinct (map dp_id ?ps)"
      by (simp add: distinct_map)
    have "set (map dp_id (presets_of tool ?d)) = set order"
      using assms(6) by (simp only: ids set_map)
    then show "set (map dp_id ?ps) = set order"
      by simp
    fix x j
    assume "x \<in> set ?ps" "j < length order" "dp_id x = order ! j"
    then show "dp_sort_order x = int j"
      using reorder_named [OF assms(5), of j _ 0] by (auto simp: presets_reordered)
  qed (simp_all add: assms)
  moreover have "tool_by_name ?d name = Inr (Some tool)"
    using assms(3) by (simp add: tool_by_name_def)
  ultimately show ?thesis
    using assms(1,2) by (simp add: reorder_dns_servers_def list_dns_servers_def admin_route_eq with_tool_def)
qed

lemma reorder_lists_in_order_witness:
  "\<exists>d' ps. reorder_dns_servers sample_env [''p2'', ''p1''] (admin_request ''a'')
       (admin_db\<lparr>db_tools := [\<lparr>tm_id = ''t'', tm_name = ''dns'', tm_display_name_key = [], tm_description_key = [],
            tm_enabled = True, tm_version = []\<rparr>],
          db_presets := [\<lparr>dp_id = ''p1'', dp_tool_module_id = ''t'', dp_ip_address = ''9.9.9.9'', dp_description = ''q'', dp_sort_order = 0\<rparr>,
            \<lparr>dp_id = ''p2'', dp_tool_module_id = ''t'', dp_ip_address = ''1.1.1.1'', dp_description = ''c'', dp_sort_order = 1\<rparr>]\<rparr>) = (Inr (), d') \<and>
     list_dns_servers sample_env ''dns'' (admin_request ''a'') d' = (Inr ps, d') \<and> map dp_id ps = [''p2'', ''p1'']"
  by (rule reorder_lists_in_order) (auto simp: sample_env_def tool_by_name_def presets_of_def)

end
