(* ===== verification/Logs.thy ===== *)
theory Logs
  imports Admin_Users
begin

text \<open>
  \<open>app/services/log_service.py\<close>, the endpoints of \<open>admin_logs.py\<close> and the daily clean-up job of
  \<open>main.py\<close>: the three log tables, how rows enter them, how administrators page through them
  and when they leave.
\<close>

section \<open>Creation\<close>

text \<open>Every creation flushes, so that the references of the new row are checked.\<close>

definition create_tool_execution_log ::
    "env \<Rightarrow> string option \<Rightarrow> string option \<Rightarrow> string \<Rightarrow> string \<Rightarrow> json \<Rightarrow> string \<Rightarrow> int \<Rightarrow> string option \<Rightarrow>
     db \<Rightarrow> exn + db" where
  "create_tool_execution_log e user_id session_id source_ip tool_name parameters result duration_ms error_message d =
     (let sid = (case session_id of
                   Some s \<Rightarrow> if py_startswith s ''anon_'' then None else Some s
                 | None \<Rightarrow> None)
      in if \<not> references_ok d user_id sid then Inl IntegrityError
         else Inr (d\<lparr>db_exec_logs := db_exec_logs d @
                [\<lparr>el_id = e_fresh e ''exec_log_id'', el_user_id = user_id, el_session_id = sid,
                  el_source_ip = source_ip, el_tool_name = tool_name, el_parameters = json_dumps parameters,
                  el_result = result, el_duration_ms = duration_ms, el_error_message = error_message,
                  el_created_at = e_now e\<rparr>]\<rparr>))"

definition create_security_event_log ::
    "env \<Rightarrow> string \<Rightarrow> string \<Rightarrow> string option \<Rightarrow> (string \<times> json) list \<Rightarrow> db \<Rightarrow> exn + db" where
  "create_security_event_log e event_type source_ip user_id details d =
     (if \<not> references_ok d user_id None then Inl IntegrityError
      else Inr (log_security_event e event_type source_ip user_id details d))"

definition create_audit_log ::
    "env \<Rightarrow> string \<Rightarrow> string \<Rightarrow> string \<Rightarrow> string \<Rightarrow> (string \<times> json) list \<Rightarrow> (string \<times> json) list \<Rightarrow>
     db \<Rightarrow> exn + db" where
  "create_audit_log e admin_id action entity_type entity_id old_value new_value d =
     (if admin_id \<notin> set (map u_id (db_users d)) then Inl IntegrityError
      else Inr (d\<lparr>db_audit := db_audit d @
        [\<lparr>au_id = e_fresh e (''audit_id'' @ str_of_nat (length (db_audit d))), au_admin_id = admin_id,
          au_action = action, au_entity_type = entity_type, au_entity_id = entity_id,
          au_old_value = (if old_value \<noteq> [] then Some (json_dumps (JObj old_value)) else None),
          au_new_value = (if new_value \<noteq> [] then json_dumps (JObj new_value) else ''{}''),
          au_created_at = e_now e\<rparr>]\<rparr>))"

section \<open>Queries\<close>

text \<open>
  A filter that is absent or empty does not restrict.  The page is taken from the matching
  rows, newest first; rows of one instant stay in the order of the table.
\<close>

definition text_filter :: "string option \<Rightarrow> string option \<Rightarrow> bool" where
  "text_filter wanted actual \<longleftrightarrow> (truthy wanted \<longrightarrow> actual = wanted)"

definition date_filter :: "tstamp option \<Rightarrow> tstamp option \<Rightarrow> tstamp \<Rightarrow> bool" where
  "date_filter from_date to_date t \<longleftrightarrow>
     (case from_date of Some f \<Rightarrow> f \<le> t | None \<Rightarrow> True) \<and> (case to_date of Some u \<Rightarrow> t \<le> u | None \<Rightarrow> True)"

definition newest_first :: "('a \<Rightarrow> tstamp) \<Rightarrow> 'a list \<Rightarrow> 'a list" where
  "newest_first created xs = sort_key (\<lambda>x. - created x) xs"

definition page :: "nat \<Rightarrow> nat \<Rightarrow> 'a list \<Rightarrow> 'a list" where
  "page offset limit xs = take limit (drop offset xs)"

text \<open>The outer join with the users: the address of the user named, if there is one.\<close>

definition email_of :: "db \<Rightarrow> string option \<Rightarrow> string option" where
  "email_of d user_id = map_option u_email (find (\<lambda>u. Some (u_id u) = user_id) (db_users d))"

definition exec_matches ::
    "string option \<Rightarrow> string option \<Rightarrow> string option \<Rightarrow> tstamp option \<Rightarrow> tstamp option \<Rightarrow> tool_execution_log \<Rightarrow> bool" where
  "exec_matches tool user_id result from_date to_date l \<longleftrightarrow>
     text_filter tool (Some (el_tool_name l)) \<and> text_filter user_id (el_user_id l) \<and>
     text_filter result (Some (el_result l)) \<and> date_filter from_date to_date (el_created_at l)"

definition query_tool_execution_logs ::
    "nat \<Rightarrow> nat \<Rightarrow> string option \<Rightarrow> string option \<Rightarrow> string option \<Rightarrow> tstamp option \<Rightarrow> tstamp option \<Rightarrow> db \<Rightarrow>
     (tool_execution_log \<times> string option) list \<times> nat" where
  "query_tool_execution_logs offset limit tool user_id result from_date to_date d =
     (let rows = filter (exec_matches tool user_id result from_date to_date) (db_exec_logs d);
          total = length rows
      in (map (\<lambda>l. (l, email_of d (el_user_id l))) (page offset limit (newest_first el_created_at rows)), total))"

definition event_matches ::
    "string option \<Rightarrow> string option \<Rightarrow> tstamp option \<Rightarrow> tstamp option \<Rightarrow> security_event_log \<Rightarrow> bool" where
  "event_matches event_type user_id from_date to_date l \<longleftrightarrow>
     text_filter event_type (Some (ev_event_type l)) \<and> text_filter user_id (ev_user_id l) \<and>
     date_filter from_date to_date (ev_created_at l)"

definition query_security_event_logs ::
    "nat \<Rightarrow> nat \<Rightarrow> string option \<Rightarrow> string option \<Rightarrow> tstamp option \<Rightarrow> tstamp option \<Rightarrow> db \<Rightarrow>
     (security_event_log \<times> string option) list \<times> nat" where
  "query_security_event_logs offset limit event_type user_id from_date to_date d =
     (let rows = filter (event_matches event_type user_id from_date to_date) (db_events d);
          total = length rows
      in (map (\<lambda>l. (l, email_of d (ev_user_id l))) (page offset limit (newest_first ev_created_at rows)), total))"

definition audit_matches ::
    "string option \<Rightarrow> string option \<Rightarrow> string option \<Rightarrow> tstamp option \<Rightarrow> tstamp option \<Rightarrow> audit_log \<Rightarrow> bool" where
  "audit_matches admin_id action entity_type from_date to_date l \<longleftrightarrow>
     text_filter admin_id (Some (au_admin_id l)) \<and> text_filter action (Some (au_action l)) \<and>
     text_filter entity_type (Some (au_entity_type l)) \<and> date_filter from_date to_date (au_created_at l)"

definition query_audit_logs ::
    "nat \<Rightarrow> nat \<Rightarrow> string option \<Rightarrow> string option \<Rightarrow> string option \<Rightarrow> tstamp option \<Rightarrow> tstamp option \<Rightarrow> db \<Rightarrow>
     (audit_log \<times> string option) list \<times> nat" where
  "query_audit_logs offset limit admin_id action entity_type from_date to_date d =
     (let rows = filter (audit_matches admin_id action entity_type from_date to_date) (db_audit d);
          total = length rows
      in (map (\<lambda>l. (l, email_of d (Some (au_admin_id l)))) (page offset limit (newest_first au_created_at rows)), total))"

text \<open>The endpoints, on dates already parsed.\<close>

definition list_tool_executions ::
    "env \<Rightarrow> nat \<Rightarrow> nat \<Rightarrow> string option \<Rightarrow> string option \<Rightarrow> string option \<Rightarrow> tstamp option \<Rightarrow> tstamp option \<Rightarrow>
     request \<Rightarrow> db \<Rightarrow> (exn + (tool_execution_log \<times> string option) list \<times> nat) \<times> db" where
  "list_tool_executions e offset limit tool user_id result from_dt to_dt r =
     admin_route e r (\<lambda>d. (Inr (query_tool_execution_logs offset limit tool user_id result from_dt to_dt d), d))"

definition list_security_events ::
    "env \<Rightarrow> nat \<Rightarrow> nat \<Rightarrow> string option \<Rightarrow> string option \<Rightarrow> tstamp option \<Rightarrow> tstamp option \<Rightarrow>
     request \<Rightarrow> db \<Rightarrow> (exn + (security_event_log \<times> string option) list \<times> nat) \<times> db" where
  "list_security_events e offset limit event_type user_id from_dt to_dt r =
     admin_route e r (\<lambda>d. (Inr (query_security_event_logs offset limit event_type user_id from_dt to_dt d), d))"

definition list_audit_logs ::
    "env \<Rightarrow> nat \<Rightarrow> nat \<Rightarrow> string option \<Rightarrow> string option \<Rightarrow> string option \<Rightarrow> tstamp option \<Rightarrow> tstamp option \<Rightarrow>
     request \<Rightarrow> db \<Rightarrow> (exn + (audit_log \<times> string option) list \<times> nat) \<times> db" where
  "list_audit_logs e offset limit admin_id action entity_type from_dt to_dt r =
     admin_route e r (\<lambda>d. (Inr (query_audit_logs offset limit admin_id action entity_type from_dt to_dt d), d))"

section \<open>Clean-up\<close>

text \<open>The numbers of rows deleted and the tables without them.\<close>

definition cleanup_old_logs :: "tstamp \<Rightarrow> int \<Rightarrow> db \<Rightarrow> (nat \<times> nat \<times> nat) \<times> db" where
  "cleanup_old_logs now retention_days d =
     (let cutoff = now - sec (retention_days * 86400);
          old = (\<lambda>t. t < cutoff)
      in ((length (filter (old \<circ> el_created_at) (db_exec_logs d)),
           length (filter (old \<circ> ev_created_at) (db_events d)),
           length (filter (old \<circ> au_created_at) (db_audit d))),
          d\<lparr>db_exec_logs := filter (\<lambda>l. \<not> old (el_created_at l)) (db_exec_logs d),
            db_events := filter (\<lambda>l. \<not> old (ev_created_at l)) (db_events d),
            db_audit := filter (\<lambda>l. \<not> old (au_created_at l)) (db_audit d)\<rparr>))"

text \<open>The job reads the retention setting; a value \<open>int()\<close> rejects makes it fail with no effect.\<close>

definition cleanup_logs :: "tstamp \<Rightarrow> db \<Rightarrow> db" where
  "cleanup_logs now d =
     (case scalar_one_or_none (filter (\<lambda>s. gs_key s = ''log_retention_days'') (db_settings d)) of
        Inl _ \<Rightarrow> d
      | Inr setting \<Rightarrow>
          (case (case setting of Some s \<Rightarrow> py_int (gs_value s) | None \<Rightarrow> Some 90) of
             None \<Rightarrow> d
           | Some retention \<Rightarrow> snd (cleanup_old_logs now retention d)))"

section \<open>Lemmas\<close>

lemma page_append: "page o1 l1 xs @ page (o1 + l1) l2 xs = page o1 (l1 + l2) xs"
  by (simp add: page_def take_add add.commute)

lemma pages_take: "concat (map (\<lambda>k. page (k * limit) limit xs) [0..<n]) = take (n * limit) xs"
proof (induction n)
  case (Suc n)
  have "take (n * limit) xs @ take limit (drop (n * limit) xs) = take (Suc n * limit) xs"
    by (simp only: take_add [symmetric] mult_Suc add.commute [of limit])
  with Suc show ?case
    by (simp add: page_def)
qed simp

lemma pages_cover:
  assumes "0 < limit" "n = length xs"
  shows "concat (map (\<lambda>k. page (k * limit) limit xs) [0..<n div limit]) @ page (n div limit * limit) limit xs = xs"
proof -
  have "length xs \<le> Suc (n div limit) * limit"
    using dividend_less_div_times [OF assms(1), of n] assms(2) by simp
  moreover have "concat (map (\<lambda>k. page (k * limit) limit xs) [0..<n div limit]) @ page (n div limit * limit) limit xs
      = concat (map (\<lambda>k. page (k * limit) limit xs) [0..<Suc (n div limit)])"
    by simp
  ultimately show ?thesis
    unfolding pages_take by simp
qed

lemma create_audit_log_same: "create_audit_log = log_admin_action"
  by (auto simp: fun_eq_iff create_audit_log_def log_admin_action_def audit_entry_def)

text \<open>A row of the log survives exactly the retention period.\<close>

lemma cleanup_rows:
  "snd (cleanup_old_logs now n d) =
     d\<lparr>db_exec_logs := filter (\<lambda>l. now - sec (n * 86400) \<le> el_created_at l) (db_exec_logs d),
       db_events := filter (\<lambda>l. now - sec (n * 86400) \<le> ev_created_at l) (db_events d),
       db_audit := filter (\<lambda>l. now - sec (n * 86400) \<le> au_created_at l) (db_audit d)\<rparr>"
  by (simp add: cleanup_old_logs_def Let_def linorder_not_less)

section \<open>Properties\<close>

text \<open>
  Paging through a log shows every matching row once.  Whatever the filters and the page
  size, the pages of the tool execution log put one after the other are exactly the matching
  rows, newest first, and every page states their number; the same holds of the security
  events and of the audit trail.
\<close>

lemma log_pages_cover:
  assumes "0 < limit"
  shows "(let rows = newest_first el_created_at (filter (exec_matches tool u res f t) (db_exec_logs d));
              p = (\<lambda>k. query_tool_execution_logs (k * limit) limit tool u res f t d)
          in concat (map (\<lambda>k. map fst (fst (p k))) [0..<length rows div limit + 1]) = rows \<and> snd (p k) = length rows)
    \<and> (let rows = newest_first ev_created_at (filter (event_matches ty u f t) (db_events d));
              p = (\<lambda>k. query_security_event_logs (k * limit) limit ty u f t d)
          in concat (map (\<lambda>k. map fst (fst (p k))) [0..<length rows div limit + 1]) = rows \<and> snd (p k) = length rows)
    \<and> (let rows = newest_first au_created_at (filter (audit_matches a act ty f t) (db_audit d));
              p = (\<lambda>k. query_audit_logs (k * limit) limit a act ty f t d)
          in concat (map (\<lambda>k. map fst (fst (p k))) [0..<length rows div limit + 1]) = rows \<and> snd (p k) = length rows)"
  using assms
  by (simp add: Let_def query_tool_execution_logs_def query_security_event_logs_def query_audit_logs_def comp_def
      pages_cover newest_first_def)

lemma log_pages_cover_witness:
  "concat (map (\<lambda>k. map fst (fst (query_tool_execution_logs (k * 2) 2 None None None None None empty_db))) [0..<1]) = []"
  using log_pages_cover [of 2 None None None None None empty_db 0 None None None] by (simp add: Let_def empty_db_def newest_first_def)

end
