(* ===== verification/Tool_Access.thy ===== *)
theory Tool_Access
  imports Logs Middleware
begin

text \<open>
  \<open>app/api/v1/endpoints/tools.py\<close>, \<open>app/tools/registry.py\<close>, \<open>app/tools/base.py\<close> and
  \<open>app/websocket/manager.py\<close>: which tools there are, who may run them over HTTP and over a
  WebSocket, and the table of open connections.
\<close>

section \<open>Tools and the registry\<close>

record tool_result =
  tr_success :: bool
  tr_data :: json
  tr_error :: "string option"

text \<open>A tool by its name and its \<open>execute\<close>, which may raise.\<close>

record tool =
  to_name :: string
  to_execute :: "json \<Rightarrow> exn + tool_result"

type_synonym registry = "(string \<times> tool) list"

definition register :: "tool \<Rightarrow> registry \<Rightarrow> exn + registry" where
  "register tool reg =
     (if to_name tool \<in> set (map fst reg) then Inl (PyError ''ValueError'')
      else Inr (reg @ [(to_name tool, tool)]))"

definition registry_get :: "string \<Rightarrow> registry \<Rightarrow> tool option" where
  "registry_get name reg = map_of reg name"

definition list_available :: "registry \<Rightarrow> tool list" where
  "list_available reg = map snd reg"

definition list_names :: "registry \<Rightarrow> string list" where
  "list_names reg = map fst reg"

section \<open>Listing\<close>

definition enabled_tools :: "db \<Rightarrow> string list" where
  "enabled_tools d = map tm_name (filter tm_enabled (db_tools d))"

text \<open>The join of the permissions of a role with the tools they name.\<close>

definition allowed_tools :: "db \<Rightarrow> string \<Rightarrow> string list" where
  "allowed_tools d role =
     concat (map (\<lambda>p. map tm_name (filter (\<lambda>t. tm_id t = rp_tool_id p) (db_tools d)))
       (filter (\<lambda>p. rp_role p = role \<and> rp_allowed p) (db_permissions d)))"

definition request_role :: "request \<Rightarrow> string" where
  "request_role r = or_default (st_role (rq_state r)) ROLE_VISITOR"

definition list_tools :: "registry \<Rightarrow> request \<Rightarrow> db \<Rightarrow> string list" where
  "list_tools reg r d =
     map to_name (filter (\<lambda>t. to_name t \<in> set (enabled_tools d) \<and> to_name t \<in> set (allowed_tools d (request_role r)))
       (list_available reg))"

definition list_tools_for_role :: "string \<Rightarrow> db \<Rightarrow> string list" where
  "list_tools_for_role role d =
     sort (remdups (filter (\<lambda>n. n \<in> set (allowed_tools d role)) (enabled_tools d)))"

text \<open>The servers of a tool, shown when a visitor may use it; several matching rows are an error.\<close>

definition list_tool_dns_servers :: "string \<Rightarrow> db \<Rightarrow> exn + (string \<times> string) list" where
  "list_tool_dns_servers name d =
     (case scalar_one_or_none (concat (map (\<lambda>t. map (\<lambda>_. t)
             (filter (\<lambda>p. rp_tool_id p = tm_id t \<and> rp_role p = ROLE_VISITOR \<and> rp_allowed p) (db_permissions d)))
           (filter (\<lambda>t. tm_name t = name \<and> tm_enabled t) (db_tools d)))) of
        Inl x \<Rightarrow> Inl x
      | Inr None \<Rightarrow> Inr []
      | Inr (Some tool) \<Rightarrow>
          Inr (map (\<lambda>p. (dp_ip_address p, dp_description p))
            (sort_key dp_sort_order (filter (\<lambda>p. dp_tool_module_id p = tm_id tool) (db_presets d)))))"

section \<open>Running a tool over HTTP\<close>

definition permission_row :: "db \<Rightarrow> string \<Rightarrow> string \<Rightarrow> exn + role_tool_permission option" where
  "permission_row d role tool_id =
     scalar_one_or_none (filter (\<lambda>p. rp_role p = role \<and> rp_tool_id p = tool_id) (db_permissions d))"

text \<open>
  A missing permission is created as allowed.  (The retry after a concurrent insertion of the
  same row has no place in a single request.)
\<close>

definition check_tool_access :: "env \<Rightarrow> string \<Rightarrow> request \<Rightarrow> db \<Rightarrow> exn + db" where
  "check_tool_access e name r d =
     (case scalar_one_or_none (filter (\<lambda>t. tm_name t = name) (db_tools d)) of
        Inl x \<Rightarrow> Inl x
      | Inr tool_mod \<Rightarrow>
          (case tool_mod of
             None \<Rightarrow> Inl (HTTPException 403)
           | Some t \<Rightarrow>
               if \<not> tm_enabled t then Inl (HTTPException 403)
               else (case permission_row d (request_role r) (tm_id t) of
                   Inl x \<Rightarrow> Inl x
                 | Inr None \<Rightarrow>
                     Inr (d\<lparr>db_permissions := db_permissions d @
                       [\<lparr>rp_id = e_fresh e ''permission_id'', rp_role = request_role r, rp_tool_id = tm_id t,
                         rp_allowed = True\<rparr>]\<rparr>)
                 | Inr (Some perm) \<Rightarrow> if \<not> rp_allowed perm then Inl (HTTPException 403) else Inr d)))"

definition result_word :: "tool_result \<Rightarrow> string" where
  "result_word res =
     (if tr_success res then ''success'' else if truthy (tr_error res) then ''failure'' else ''partial'')"

text \<open>
  The endpoint: the log is written in a transaction of its own whose failure is swallowed, and
  before the permission added by the access check is committed.
\<close>

definition execute_tool ::
    "env \<Rightarrow> registry \<Rightarrow> string \<Rightarrow> json \<Rightarrow> int \<Rightarrow> request \<Rightarrow> db \<Rightarrow> (exn + tool_result) \<times> db" where
  "execute_tool e reg name params elapsed_ms r d =
     with_session (e_db_up e) (\<lambda>d.
       (case registry_get name reg of
          None \<Rightarrow> (Inl (HTTPException 404), d)
        | Some tool \<Rightarrow>
            (case check_tool_access e name r d of
               Inl x \<Rightarrow> (Inl x, d)
             | Inr d1 \<Rightarrow>
                 (case to_execute tool params of
                    Inl x \<Rightarrow> (Inl x, d)
                  | Inr result \<Rightarrow>
                      (case create_tool_execution_log e (st_user_id (rq_state r))
                              (Some (or_default (st_session_id (rq_state r)) ''unknown'')) (client_host r) name params
                              (result_word result) elapsed_ms (tr_error result) d1 of
                         Inl _ \<Rightarrow> (Inr result, d1)
                       | Inr d2 \<Rightarrow> (Inr result, d2)))))) d"

section \<open>WebSocket authorisation\<close>

definition WS_CLOSE_INVALID_ORIGIN :: int where "WS_CLOSE_INVALID_ORIGIN = 4003"
definition WS_CLOSE_PERMISSION_DENIED :: int where "WS_CLOSE_PERMISSION_DENIED = 4003"
definition WS_CLOSE_UNKNOWN_TOOL :: int where "WS_CLOSE_UNKNOWN_TOOL = 4004"
definition WS_CLOSE_RATE_LIMITED :: int where "WS_CLOSE_RATE_LIMITED = 4029"
definition WS_CLOSE_DB_UNAVAILABLE :: int where "WS_CLOSE_DB_UNAVAILABLE = 4503"

record ws_settings =
  wsc_require_origin :: bool
  wsc_cors_origins :: string
  wsc_storage :: string

definition read_session_from_ws :: "env \<Rightarrow> request \<Rightarrow> string" where
  "read_session_from_ws e r =
     (case List.map_filter (map_of (rq_cookies r)) SESSION_COOKIE_NAMES of
        [] \<Rightarrow> ''anon_'' @ e_fresh e ''ws_id''
      | token # _ \<Rightarrow> token)"

definition is_allowed_origin :: "ws_settings \<Rightarrow> string option \<Rightarrow> bool" where
  "is_allowed_origin c origin =
     (if \<not> truthy origin then \<not> wsc_require_origin c
      else origin \<in> set (map (Some \<circ> py_strip) (py_split CHR '','' (wsc_cors_origins c))))"

datatype ws_decision =
    WsClose int string
  | WsAccept string "string option"

text \<open>The user a token stands for: from the cache, or from the table (whatever the expiry).\<close>

definition ws_user :: "env \<Rightarrow> db \<Rightarrow> sess_redis \<Rightarrow> string \<Rightarrow> exn + string option" where
  "ws_user e d redis token =
     (if token = [] \<or> py_startswith token ''anon_'' then Inr None
      else (case redis_get_session e redis (e_hash e token) of
          Some redis_data \<Rightarrow> Inr (map_of redis_data ''user_id'')
        | None \<Rightarrow>
            (case session_by_hash d (e_hash e token) of
               Inl x \<Rightarrow> Inl x
             | Inr None \<Rightarrow> Inr None
             | Inr (Some sess) \<Rightarrow> Inr (s_user_id sess))))"

definition ws_role :: "db \<Rightarrow> string option \<Rightarrow> exn + string" where
  "ws_role d user_id =
     (if \<not> truthy user_id then Inr ROLE_VISITOR
      else (case scalar_one_or_none (map u_role (filter (\<lambda>u. Some (u_id u) = user_id) (db_users d))) of
          Inl x \<Rightarrow> Inl x
        | Inr role \<Rightarrow> Inr (if truthy role then the role else ROLE_VISITOR)))"

text \<open>The rate limit step: a refusal is logged when the log accepts it.\<close>

definition ws_rate_limit ::
    "ws_settings \<Rightarrow> env \<Rightarrow> string \<Rightarrow> string \<Rightarrow> string option \<Rightarrow> string \<Rightarrow> string \<Rightarrow> string \<Rightarrow> world \<Rightarrow> ws_decision \<times> world" where
  "ws_rate_limit c e name token user_id role source_ip tool_id w =
     (case check_tool_rate_limit
             \<lparr>env_storage = wsc_storage c, env_redis_up = e_redis_up e, env_now = e_now e,
              env_member1 = e_fresh e ''member1'', env_member2 = e_fresh e ''member2''\<rparr>
             (w_db w) (w_limiter w) role user_id token source_ip (Some tool_id) of
        (Inl _, rates) \<Rightarrow> (WsClose WS_CLOSE_DB_UNAVAILABLE ''db_unavailable'', w\<lparr>w_limiter := rates\<rparr>)
      | (Inr result, rates) \<Rightarrow>
          (let w1 = w\<lparr>w_limiter := rates\<rparr>
           in if rl_allowed result then (WsAccept token user_id, w1)
              else (WsClose WS_CLOSE_RATE_LIMITED ''rate_limit_exceeded'',
                    case create_security_event_log e ''ws_rate_limit_exceeded'' source_ip user_id
                           [(''tool'', JStr name), (''limit_type'', JStr (rl_limit_type result)),
                            (''soft_count'', JInt (rl_soft_count result)), (''hard_count'', JInt (rl_hard_count result))]
                           (w_db w1) of
                      Inl _ \<Rightarrow> w1
                    | Inr d \<Rightarrow> w1\<lparr>w_db := d\<rparr>)))"

text \<open>The checks before the connection is accepted; an exception in them closes with 4503.\<close>

definition ws_authorize :: "ws_settings \<Rightarrow> env \<Rightarrow> string \<Rightarrow> request \<Rightarrow> world \<Rightarrow> ws_decision \<times> world" where
  "ws_authorize c e name r w =
     (if name \<notin> set [''ping'', ''traceroute''] then (WsClose WS_CLOSE_UNKNOWN_TOOL ''unknown_tool'', w)
      else if \<not> is_allowed_origin c (header ''origin'' r) then (WsClose WS_CLOSE_INVALID_ORIGIN ''origin_not_allowed'', w)
      else if \<not> e_db_up e then (WsClose WS_CLOSE_DB_UNAVAILABLE ''db_unavailable'', w)
      else
        (let token = read_session_from_ws e r;
             d = w_db w
         in case scalar_one_or_none (filter (\<lambda>t. tm_name t = name) (db_tools d)) of
              Inl _ \<Rightarrow> (WsClose WS_CLOSE_DB_UNAVAILABLE ''db_unavailable'', w)
            | Inr None \<Rightarrow> (WsClose WS_CLOSE_PERMISSION_DENIED ''tool_disabled'', w)
            | Inr (Some tool_mod) \<Rightarrow>
                if \<not> tm_enabled tool_mod then (WsClose WS_CLOSE_PERMISSION_DENIED ''tool_disabled'', w)
                else (case ws_user e d (w_redis w) token of
                    Inl _ \<Rightarrow> (WsClose WS_CLOSE_DB_UNAVAILABLE ''db_unavailable'', w)
                  | Inr user_id \<Rightarrow>
                      (case ws_role d user_id of
                         Inl _ \<Rightarrow> (WsClose WS_CLOSE_DB_UNAVAILABLE ''db_unavailable'', w)
                       | Inr role \<Rightarrow>
                           (case permission_row d role (tm_id tool_mod) of
                              Inl _ \<Rightarrow> (WsClose WS_CLOSE_DB_UNAVAILABLE ''db_unavailable'', w)
                            | Inr None \<Rightarrow> (WsClose WS_CLOSE_PERMISSION_DENIED ''permission_denied'', w)
                            | Inr (Some perm) \<Rightarrow>
                                if \<not> rp_allowed perm then (WsClose WS_CLOSE_PERMISSION_DENIED ''permission_denied'', w)
                                else ws_rate_limit c e name token user_id role (client_host r) (tm_id tool_mod) w)))))"

text \<open>\<open>_log_tool_exec\<close> of the two handlers: best effort, under the token of the connection.\<close>

definition log_tool_exec ::
    "env \<Rightarrow> string \<Rightarrow> json \<Rightarrow> string \<Rightarrow> int \<Rightarrow> string option \<Rightarrow> string option \<Rightarrow> string \<Rightarrow> string \<Rightarrow> db \<Rightarrow> db" where
  "log_tool_exec e tool_name params result duration_ms error_msg user_id session_id source_ip d =
     (if \<not> e_db_up e then d
      else (case create_tool_execution_log e user_id (Some session_id) source_ip tool_name params result duration_ms
                   error_msg d of
          Inl _ \<Rightarrow> d
        | Inr d' \<Rightarrow> d'))"

section \<open>The connection manager\<close>

text \<open>
  Sockets are numbered.  \<open>wm_open\<close> are the sockets accepted and not closed by the manager,
  \<open>wm_sent\<close> the messages delivered; \<open>alive\<close> says on which sockets a send succeeds.
\<close>

record ws_connection =
  wc_socket :: nat
  wc_session :: string
  wc_user :: "string option"
  wc_connected_at :: tstamp
  wc_last_heartbeat :: tstamp

record ws_manager =
  wm_connections :: "(string \<times> ws_connection) list"
  wm_open :: "nat list"
  wm_sent :: "(nat \<times> json) list"

definition wm_connect :: "tstamp \<Rightarrow> nat \<Rightarrow> string \<Rightarrow> string option \<Rightarrow> ws_manager \<Rightarrow> ws_manager" where
  "wm_connect now socket session_id user_id m =
     m\<lparr>wm_open := wm_open m @ [socket],
       wm_connections := dict_set session_id
         \<lparr>wc_socket = socket, wc_session = session_id, wc_user = user_id, wc_connected_at = now, wc_last_heartbeat = now\<rparr>
         (wm_connections m)\<rparr>"

definition wm_disconnect :: "string \<Rightarrow> ws_manager \<Rightarrow> ws_manager" where
  "wm_disconnect session_id m =
     (case map_of (wm_connections m) session_id of
        None \<Rightarrow> m
      | Some conn \<Rightarrow> m\<lparr>wm_connections := dict_del session_id (wm_connections m),
                       wm_open := filter (\<lambda>s. s \<noteq> wc_socket conn) (wm_open m)\<rparr>)"

definition wm_send_json :: "(nat \<Rightarrow> bool) \<Rightarrow> string \<Rightarrow> json \<Rightarrow> ws_manager \<Rightarrow> bool \<times> ws_manager" where
  "wm_send_json alive session_id message m =
     (case map_of (wm_connections m) session_id of
        None \<Rightarrow> (False, m)
      | Some conn \<Rightarrow>
          if alive (wc_socket conn) then (True, m\<lparr>wm_sent := wm_sent m @ [(wc_socket conn, message)]\<rparr>)
          else (False, wm_disconnect session_id m))"

definition wm_broadcast :: "(nat \<Rightarrow> bool) \<Rightarrow> json \<Rightarrow> ws_manager \<Rightarrow> ws_manager" where
  "wm_broadcast alive message m =
     fold (\<lambda>session_id m. snd (wm_send_json alive session_id message m)) (map fst (wm_connections m)) m"

definition wm_stale :: "tstamp \<Rightarrow> int \<Rightarrow> ws_connection \<Rightarrow> bool" where
  "wm_stale now idle_timeout conn \<longleftrightarrow> now - wc_last_heartbeat conn > sec idle_timeout"

definition wm_heartbeat :: "tstamp \<Rightarrow> int \<Rightarrow> ws_manager \<Rightarrow> ws_manager" where
  "wm_heartbeat now idle_timeout m =
     (let stale = map fst (filter (wm_stale now idle_timeout \<circ> snd) (wm_connections m));
          beaten = m\<lparr>wm_connections := map (\<lambda>(k, conn).
            (k, if wm_stale now idle_timeout conn then conn else conn\<lparr>wc_last_heartbeat := now\<rparr>)) (wm_connections m)\<rparr>
      in fold wm_disconnect stale beaten)"

definition wm_is_connected :: "string \<Rightarrow> ws_manager \<Rightarrow> bool" where
  "wm_is_connected session_id m \<longleftrightarrow> session_id \<in> set (map fst (wm_connections m))"

definition wm_active_count :: "ws_manager \<Rightarrow> nat" where
  "wm_active_count m = length (wm_connections m)"

section \<open>The access policy\<close>

text \<open>
  Who may use a tool, on a database whose tools have distinct names and identifiers and whose
  permissions are unique per role and tool, as the constraints of the tables say.
\<close>

definition access_wf :: "db \<Rightarrow> bool" where
  "access_wf d \<longleftrightarrow> distinct (map tm_name (db_tools d)) \<and> distinct (map tm_id (db_tools d)) \<and>
     distinct (map (\<lambda>p. (rp_role p, rp_tool_id p)) (db_permissions d))"

definition tool_named :: "db \<Rightarrow> string \<Rightarrow> tool_module \<Rightarrow> bool" where
  "tool_named d name t \<longleftrightarrow> t \<in> set (db_tools d) \<and> tm_name t = name \<and> tm_enabled t"

definition has_permission :: "db \<Rightarrow> string \<Rightarrow> string \<Rightarrow> bool \<Rightarrow> bool" where
  "has_permission d role tool_id allowed \<longleftrightarrow>
     (\<exists>p \<in> set (db_permissions d). rp_role p = role \<and> rp_tool_id p = tool_id \<and> rp_allowed p = allowed)"

definition tool_permitted :: "db \<Rightarrow> string \<Rightarrow> string \<Rightarrow> bool" where
  "tool_permitted d role name \<longleftrightarrow> (\<exists>t. tool_named d name t \<and> has_permission d role (tm_id t) True)"

lemma tool_lookup:
  "access_wf d \<Longrightarrow> scalar_one_or_none (filter (\<lambda>t. tm_name t = name) (db_tools d)) = Inr (find (\<lambda>t. tm_name t = name) (db_tools d))"
  by (simp add: access_wf_def scalar_one_or_none_filter)

lemma permission_lookup:
  assumes "access_wf d"
  shows "permission_row d role tid = Inr (find (\<lambda>p. (rp_role p, rp_tool_id p) = (role, tid)) (db_permissions d))"
  using scalar_one_or_none_filter [of "\<lambda>p. (rp_role p, rp_tool_id p)" "db_permissions d" "(role, tid)"] assms
  by (simp add: access_wf_def permission_row_def)

lemma tool_named_find:
  "access_wf d \<Longrightarrow> tool_named d name t \<longleftrightarrow> find (\<lambda>t. tm_name t = name) (db_tools d) = Some t \<and> tm_enabled t"
  using find_unique [of tm_name "db_tools d" t] by (auto simp: access_wf_def tool_named_def dest: find_Some_in)

lemma has_permission_find:
  assumes "access_wf d"
  shows "has_permission d role tid b \<longleftrightarrow>
    (\<exists>p. find (\<lambda>p. (rp_role p, rp_tool_id p) = (role, tid)) (db_permissions d) = Some p \<and> rp_allowed p = b)"
proof
  assume "has_permission d role tid b"
  then obtain p where p: "p \<in> set (db_permissions d)" "(rp_role p, rp_tool_id p) = (role, tid)" "rp_allowed p = b"
    by (auto simp: has_permission_def)
  then show "\<exists>p. find (\<lambda>p. (rp_role p, rp_tool_id p) = (role, tid)) (db_permissions d) = Some p \<and> rp_allowed p = b"
    using find_unique [of "\<lambda>p. (rp_role p, rp_tool_id p)" "db_permissions d" p] assms by (auto simp: access_wf_def)
next
  assume "\<exists>p. find (\<lambda>p. (rp_role p, rp_tool_id p) = (role, tid)) (db_permissions d) = Some p \<and> rp_allowed p = b"
  then obtain p where "find (\<lambda>p. (rp_role p, rp_tool_id p) = (role, tid)) (db_permissions d) = Some p" "rp_allowed p = b"
    by blast
  with find_Some_in [OF this(1)] show "has_permission d role tid b"
    by (auto simp: has_permission_def)
qed

definition ws_limit_ok :: "ws_settings \<Rightarrow> env \<Rightarrow> string \<Rightarrow> string option \<Rightarrow> string \<Rightarrow> string \<Rightarrow> string \<Rightarrow> world \<Rightarrow> bool" where
  "ws_limit_ok c e token user_id role source_ip tool_id w \<longleftrightarrow>
     (case fst (check_tool_rate_limit
             \<lparr>env_storage = wsc_storage c, env_redis_up = e_redis_up e, env_now = e_now e,
              env_member1 = e_fresh e ''member1'', env_member2 = e_fresh e ''member2''\<rparr>
             (w_db w) (w_limiter w) role user_id token source_ip (Some tool_id)) of
        Inl _ \<Rightarrow> False | Inr result \<Rightarrow> rl_allowed result)"

lemma ws_rate_limit_accepts:
  "fst (ws_rate_limit c e name token user_id role ip tid w) = WsAccept t u \<longleftrightarrow>
     t = token \<and> u = user_id \<and> ws_limit_ok c e token user_id role ip tid w"
  by (auto simp: ws_rate_limit_def ws_limit_ok_def Let_def split: prod.split sum.split)

lemma allowed_tools_iff:
  "name \<in> set (allowed_tools d role) \<longleftrightarrow> (\<exists>t \<in> set (db_tools d). tm_name t = name \<and> has_permission d role (tm_id t) True)"
  unfolding allowed_tools_def has_permission_def by fastforce

lemma listed_permitted:
  assumes "access_wf d"
  shows "name \<in> set (enabled_tools d) \<and> name \<in> set (allowed_tools d role) \<longleftrightarrow> tool_permitted d role name"
proof -
  have "t = t'" if "t \<in> set (db_tools d)" "t' \<in> set (db_tools d)" "tm_name t = tm_name t'" for t t'
    using assms that by (auto simp: access_wf_def distinct_map dest: inj_onD)
  then show ?thesis
    by (auto simp: allowed_tools_iff enabled_tools_def tool_permitted_def tool_named_def)
qed

lemma access_refused: "access_wf d \<Longrightarrow> (\<And>t. \<not> tool_named d name t) \<Longrightarrow> \<exists>x. check_tool_access e name r d = Inl x"
  by (auto simp: check_tool_access_def tool_lookup tool_named_find split: option.split)

lemma access_named:
  assumes "access_wf d" "tool_named d name t"
  shows "check_tool_access e name r d =
    (case find (\<lambda>p. (rp_role p, rp_tool_id p) = (request_role r, tm_id t)) (db_permissions d) of
       None \<Rightarrow> Inr (d\<lparr>db_permissions := db_permissions d @
                  [\<lparr>rp_id = e_fresh e ''permission_id'', rp_role = request_role r, rp_tool_id = tm_id t, rp_allowed = True\<rparr>]\<rparr>)
     | Some perm \<Rightarrow> if \<not> rp_allowed perm then Inl (HTTPException 403) else Inr d)"
  using assms by (simp add: check_tool_access_def tool_lookup tool_named_find permission_lookup split: option.split)

section \<open>A concrete deployment\<close>

definition sample_tool :: tool_module where
  "sample_tool = \<lparr>tm_id = ''t'', tm_name = ''ping'', tm_display_name_key = [], tm_description_key = [],
     tm_enabled = True, tm_version = []\<rparr>"

definition tool_db :: db where
  "tool_db = sample_db\<lparr>db_tools := [sample_tool],
     db_permissions := [\<lparr>rp_id = ''p'', rp_role = ROLE_AUTHENTICATED, rp_tool_id = ''t'', rp_allowed = True\<rparr>]\<rparr>"

definition ws_request :: request where
  "ws_request = \<lparr>rq_type = ''websocket'', rq_method = [], rq_path = [], rq_scheme = ''wss'', rq_client = Some (''8.8.8.8'', 1),
     rq_headers = [], rq_cookies = [(''sakn_session'', ''h1'')], rq_state = no_state\<rparr>"

definition ws_sample_settings :: ws_settings where
  "ws_sample_settings = \<lparr>wsc_require_origin = False, wsc_cors_origins = [], wsc_storage = ''memory''\<rparr>"

lemma tool_db_wf: "access_wf tool_db"
  by (simp add: access_wf_def tool_db_def)

text \<open>When a connection is accepted.\<close>

lemma ws_accept_policy:
  assumes "access_wf (w_db w)"
  shows "fst (ws_authorize c e name r w) = WsAccept token u \<longleftrightarrow>
    name \<in> {''ping'', ''traceroute''} \<and> is_allowed_origin c (header ''origin'' r) \<and> e_db_up e \<and>
    token = read_session_from_ws e r \<and> ws_user e (w_db w) (w_redis w) token = Inr u \<and>
    (\<exists>role t. ws_role (w_db w) u = Inr role \<and> tool_named (w_db w) name t \<and>
       has_permission (w_db w) role (tm_id t) True \<and> ws_limit_ok c e token u role (client_host r) (tm_id t) w)"
  using assms unfolding tool_named_find [OF assms] has_permission_find [OF assms]
  by (auto simp: ws_authorize_def Let_def tool_lookup permission_lookup ws_rate_limit_accepts
      split: option.split sum.split if_split)

section \<open>Properties\<close>

text \<open>
  C20: the WebSocket endpoint implements the access policy.  A connection is accepted, with
  its token and user, exactly when the tool is one that streams, the origin is allowed, the
  database is up, the token stands for that user, the tool is enabled and permitted to the
  user's role, and the rate limit of that tool has room.
\<close>

theorem ws_accept_iff:
  assumes "access_wf (w_db w)"
  shows "fst (ws_authorize c e name r w) = WsAccept token u \<longleftrightarrow>
    name \<in> {''ping'', ''traceroute''} \<and> is_allowed_origin c (header ''origin'' r) \<and> e_db_up e \<and>
    token = read_session_from_ws e r \<and> ws_user e (w_db w) (w_redis w) token = Inr u \<and>
    (\<exists>role t. ws_role (w_db w) u = Inr role \<and> tool_named (w_db w) name t \<and>
       has_permission (w_db w) role (tm_id t) True \<and> ws_limit_ok c e token u role (client_host r) (tm_id t) w)"
  using assms by (rule ws_accept_policy)

text \<open>
  The tools listed are the ones that may be used.  The listing of a request shows exactly
  the registered tools that are enabled and permitted to its role, each of them can be run by
  the request, and running it changes no permission.
\<close>

lemma listed_tools_usable:
  assumes "access_wf d" "list_all (\<lambda>(n, t). to_name t = n) reg"
  shows "(name \<in> set (list_tools reg r d) \<longleftrightarrow> name \<in> set (list_names reg) \<and> tool_permitted d (request_role r) name) \<and>
    (name \<in> set (list_tools reg r d) \<longrightarrow> check_tool_access e name r d = Inr d)"
proof -
  have names: "name \<in> set (list_names reg) \<longleftrightarrow> (\<exists>t \<in> set (list_available reg). to_name t = name)"
    using assms(2) by (force simp: list_names_def list_available_def list_all_iff)
  have listed: "name \<in> set (list_tools reg r d) \<longleftrightarrow> name \<in> set (list_names reg) \<and> tool_permitted d (request_role r) name"
    using listed_permitted [OF assms(1), of name "request_role r"] unfolding names list_tools_def by auto
  have "check_tool_access e name r d = Inr d" if permitted: "tool_permitted d (request_role r) name"
  proof -
    obtain t where t: "tool_named d name t" "has_permission d (request_role r) (tm_id t) True"
      using permitted unfolding tool_permitted_def by blast
    then show ?thesis
      unfolding has_permission_find [OF assms(1)] access_named [OF assms(1) t(1)] by auto
  qed
  with listed show ?thesis by blast
qed

text \<open>
  Over HTTP a missing permission is a permission.  The access check passes exactly when
  the tool is enabled and no permission row refuses the role; afterwards the tool is permitted
  to the role, so the WebSocket endpoint, which refuses a role without a row, accepts it too.
\<close>

lemma http_access_grants:
  assumes "access_wf d"
  shows "((\<exists>d'. check_tool_access e name r d = Inr d') \<longleftrightarrow>
      (\<exists>t. tool_named d name t \<and> \<not> has_permission d (request_role r) (tm_id t) False)) \<and>
    (check_tool_access e name r d = Inr d' \<longrightarrow> tool_permitted d' (request_role r) name)"
proof (cases "\<exists>t. tool_named d name t")
  case False
  then show ?thesis
    using access_refused [OF assms, of name e r] by auto
next
  case True
  then obtain t where t: "tool_named d name t" by blast
  have only: "t' = t" if "tool_named d name t'" for t'
    using that t by (simp add: tool_named_find [OF assms])
  have passes: "(\<exists>d'. check_tool_access e name r d = Inr d') \<longleftrightarrow> \<not> has_permission d (request_role r) (tm_id t) False"
    unfolding access_named [OF assms t] has_permission_find [OF assms] by (auto split: option.split)
  have grants: "has_permission d' (request_role r) (tm_id t) True \<and> db_tools d' = db_tools d"
    if "check_tool_access e name r d = Inr d'" for d'
  proof (cases "find (\<lambda>p. (rp_role p, rp_tool_id p) = (request_role r, tm_id t)) (db_permissions d)")
    case None
    then have "d' = d\<lparr>db_permissions := db_permissions d @
        [\<lparr>rp_id = e_fresh e ''permission_id'', rp_role = request_role r, rp_tool_id = tm_id t, rp_allowed = True\<rparr>]\<rparr>"
      using that unfolding access_named [OF assms t] by simp
    then show ?thesis
      by (simp add: has_permission_def)
  next
    case (Some perm)
    then have "d' = d" "rp_allowed perm"
      using that unfolding access_named [OF assms t] by (simp_all split: if_splits)
    with Some show ?thesis
      by (simp add: has_permission_find [OF assms])
  qed
  show ?thesis
  proof (intro conjI impI)
    show "(\<exists>d'. check_tool_access e name r d = Inr d') \<longleftrightarrow>
        (\<exists>t. tool_named d name t \<and> \<not> has_permission d (request_role r) (tm_id t) False)"
      using passes only t by blast
    assume "check_tool_access e name r d = Inr d'"
    with grants t show "tool_permitted d' (request_role r) name"
      unfolding tool_permitted_def tool_named_def by metis
  qed
qed

text \<open>
  What a signed-in user runs over a WebSocket is not logged.  The handlers log under the
  token of the connection instead of the session's identifier; a token that is not itself the
  identifier of a session breaks the reference, the insertion fails and the failure is
  swallowed.
\<close>

lemma ws_run_not_logged:
  assumes "fst (ws_authorize c e name r w) = WsAccept token u"
    and "\<not> py_startswith token ''anon_''" "token \<notin> set (map s_id (db_sessions d))"
  shows "log_tool_exec e name params result ms err u token ip d = d"
  using assms(2,3)
  by (auto simp: log_tool_exec_def create_tool_execution_log_def references_ok_def Let_def)

text \<open>
  Two connections of one session share one entry.  The table is keyed by the session
  token, so when the first of two connections ends, the manager closes the second one and
  forgets it, and does not close the first.
\<close>

lemma same_session_closes_other:
  assumes "s1 \<noteq> s2"
  shows "let m2 = wm_connect t2 s2 k u (wm_connect t1 s1 k u m); m3 = wm_disconnect k m2
    in s1 \<in> set (wm_open m3) \<and> s2 \<in> set (wm_open m2) \<and> s2 \<notin> set (wm_open m3) \<and> \<not> wm_is_connected k m3"
  using assms by (auto simp: wm_connect_def wm_disconnect_def wm_is_connected_def map_of_dict_set dict_del_def Let_def)

text \<open>The heartbeat measures the time between heartbeats: close enough together, it evicts nobody.\<close>

lemma heartbeat_keeps:
  assumes "list_all (\<lambda>(k, conn). \<not> wm_stale now idle_timeout conn) (wm_connections m)"
  shows "map fst (wm_connections (wm_heartbeat now idle_timeout m)) = map fst (wm_connections m) \<and>
    list_all (\<lambda>(k, conn). wc_last_heartbeat conn = now) (wm_connections (wm_heartbeat now idle_timeout m))"
proof -
  have "filter (wm_stale now idle_timeout \<circ> snd) (wm_connections m) = []"
    using assms by (auto simp: filter_empty_conv list_all_iff)
  then show ?thesis
    using assms by (auto simp: wm_heartbeat_def list_all_iff split: prod.split)
qed

section \<open>Witnesses\<close>

lemma sample_ws_user: "ws_user sample_env tool_db sample_redis ''h1'' = Inr (Some ''u'')"
  by (simp add: ws_user_def redis_get_session_def sample_simps hgetall_def session_key_def)

lemma sample_ws_token: "read_session_from_ws sample_env ws_request = ''h1''"
  by (simp add: read_session_from_ws_def ws_request_def SESSION_COOKIE_NAMES_def List.map_filter_def)

lemma sample_ws_limit: "ws_limit_ok ws_sample_settings sample_env ''h1'' (Some ''u'') ROLE_AUTHENTICATED ''8.8.8.8'' ''t'' (sample_world tool_db)"
  by code_simp

theorem ws_accept_iff_witness:
  "fst (ws_authorize ws_sample_settings sample_env ''ping'' ws_request (sample_world tool_db)) = WsAccept ''h1'' (Some ''u'')"
proof -
  have fields: "w_db (sample_world tool_db) = tool_db" "w_redis (sample_world tool_db) = sample_redis"
      "client_host ws_request = ''8.8.8.8''" "header ''origin'' ws_request = None"
    by (simp_all add: sample_world_def client_host_def header_def ws_request_def)
  have role: "ws_role tool_db (Some ''u'') = Inr ROLE_AUTHENTICATED"
    by (simp add: ws_role_def tool_db_def sample_simps roles)
  have tool: "tool_named tool_db ''ping'' sample_tool" "has_permission tool_db ROLE_AUTHENTICATED (tm_id sample_tool) True"
    by (simp_all add: tool_named_def has_permission_def tool_db_def sample_tool_def)
  have limit: "ws_limit_ok ws_sample_settings sample_env ''h1'' (Some ''u'') ROLE_AUTHENTICATED ''8.8.8.8'' (tm_id sample_tool)
      (sample_world tool_db)"
    using sample_ws_limit by (simp add: sample_tool_def)
  have "is_allowed_origin ws_sample_settings None"
    by (simp add: is_allowed_origin_def ws_sample_settings_def)
  then show ?thesis
    using ws_accept_iff [of "sample_world tool_db" ws_sample_settings sample_env "''ping''" ws_request "''h1''" "Some ''u''"]
      tool_db_wf role tool limit sample_ws_user sample_ws_token sample_wf(7)
    by (auto simp: fields)
qed

lemma listed_tools_usable_witness:
  "let reg = [(''ping'', \<lparr>to_name = ''ping'', to_execute = \<lambda>_. Inl (PyError [])\<rparr>)];
       r = ws_request\<lparr>rq_state := no_state\<lparr>st_role := Some ROLE_AUTHENTICATED\<rparr>\<rparr>
   in ''ping'' \<in> set (list_tools reg r tool_db) \<and> check_tool_access sample_env ''ping'' r tool_db = Inr tool_db"
proof -
  let ?reg = "[(''ping'', \<lparr>to_name = ''ping'', to_execute = \<lambda>_. Inl (PyError [])\<rparr>)] :: registry"
  let ?r = "ws_request\<lparr>rq_state := no_state\<lparr>st_role := Some ROLE_AUTHENTICATED\<rparr>\<rparr>"
  have "tool_permitted tool_db (request_role ?r) ''ping''"
    by (simp add: tool_permitted_def tool_named_def has_permission_def tool_db_def sample_tool_def request_role_def)
  with listed_tools_usable [OF tool_db_wf, of ?reg "''ping''" ?r sample_env] show ?thesis
    by (simp add: Let_def list_names_def)
qed

lemma http_access_grants_witness:
  "\<exists>d'. check_tool_access sample_env ''ping'' ws_request tool_db = Inr d' \<and> tool_permitted d' ROLE_VISITOR ''ping'' \<and>
     \<not> tool_permitted tool_db ROLE_VISITOR ''ping''"
proof -
  have role: "request_role ws_request = ROLE_VISITOR"
    by (simp add: request_role_def ws_request_def no_state_def)
  have none: "\<not> has_permission tool_db ROLE_VISITOR i b" for i b
    by (simp add: has_permission_def tool_db_def roles)
  have tool: "tool_named tool_db ''ping'' sample_tool"
    by (simp add: tool_named_def tool_db_def sample_tool_def)
  obtain d' where "check_tool_access sample_env ''ping'' ws_request tool_db = Inr d'"
    using http_access_grants [OF tool_db_wf, of sample_env "''ping''" ws_request] tool none unfolding role by blast
  then show ?thesis
    using http_access_grants [OF tool_db_wf, of sample_env "''ping''" ws_request d'] none
    unfolding role by (simp add: tool_permitted_def)
qed

lemma ws_run_not_logged_witness:
  "log_tool_exec sample_env ''ping'' JNull ''success'' 1 None (Some ''u'') ''h1'' ''8.8.8.8'' tool_db = tool_db"
  using ws_run_not_logged [OF ws_accept_iff_witness, of tool_db JNull "''success''" 1 None "''8.8.8.8''"]
  by (simp add: tool_db_def sample_db_def sample_session_def)

lemma same_session_closes_other_witness:
  "2 \<notin> set (wm_open (wm_disconnect ''k'' (wm_connect 0 2 ''k'' None (wm_connect 0 1 ''k'' None
     \<lparr>wm_connections = [], wm_open = [], wm_sent = []\<rparr>))))"
  using same_session_closes_other [of 1 2 0 "''k''" None 0 "\<lparr>wm_connections = [], wm_open = [], wm_sent = []\<rparr>"]
  by (simp add: Let_def)

end
