(* ===== verification/Tool_Process.thy ===== *)
theory Tool_Process
  imports Tool_Access Address_Filter
begin

text \<open>
  What the two network tools share: reading their parameters out of a JSON body, running the
  external program under a time limit (\<open>app/tools/network/executor.py\<close>), and the opening of
  a stream by the first message of the client.
\<close>

section \<open>Results that may be exceptions\<close>

fun bind_exn :: "exn + 'a \<Rightarrow> ('a \<Rightarrow> exn + 'b) \<Rightarrow> exn + 'b" where
  "bind_exn (Inl x) f = Inl x"
| "bind_exn (Inr a) f = f a"

lemma bind_exn_Inr_iff [simp]: "bind_exn m f = Inr b \<longleftrightarrow> (\<exists>a. m = Inr a \<and> f a = Inr b)"
  by (cases m) auto

definition ValueError :: exn where "ValueError = PyError ''ValueError''"
definition TypeError :: exn where "TypeError = PyError ''TypeError''"
definition AttributeError :: exn where "AttributeError = PyError ''AttributeError''"

lemmas py_errors = ValueError_def TypeError_def AttributeError_def

section \<open>Parameters\<close>

text \<open>
  \<open>params.get(key, default)\<close> of a body that must be an object, \<open>.strip()\<close>, \<open>int()\<close> and
  \<open>bool()\<close> of its values.
\<close>

definition as_object :: "json \<Rightarrow> exn + (string \<times> json) list" where
  "as_object j = (case j of JObj kvs \<Rightarrow> Inr kvs | _ \<Rightarrow> Inl AttributeError)"

definition json_strip :: "json \<Rightarrow> exn + string" where
  "json_strip j = (case j of JStr s \<Rightarrow> Inr (py_strip s) | _ \<Rightarrow> Inl AttributeError)"

definition json_int :: "json \<Rightarrow> exn + int" where
  "json_int j =
     (case j of
        JInt i \<Rightarrow> Inr i
      | JBool b \<Rightarrow> Inr (of_bool b)
      | JFloat (Finite q) \<Rightarrow> Inr (if q < 0 then - \<lfloor>- q\<rfloor> else \<lfloor>q\<rfloor>)
      | JFloat (Infinite _) \<Rightarrow> Inl (PyError ''OverflowError'')
      | JFloat NaN \<Rightarrow> Inl ValueError
      | JStr s \<Rightarrow> (case py_int s of Some i \<Rightarrow> Inr i | None \<Rightarrow> Inl ValueError)
      | _ \<Rightarrow> Inl TypeError)"

fun json_true :: "json \<Rightarrow> bool" where
  "json_true JNull = False"
| "json_true (JBool b) = b"
| "json_true (JInt i) = (i \<noteq> 0)"
| "json_true (JFloat f) = (f \<noteq> Finite 0)"
| "json_true (JStr s) = (s \<noteq> [])"
| "json_true (JList js) = (js \<noteq> [])"
| "json_true (JObj kvs) = (kvs \<noteq> [])"

definition target_param :: "(string \<times> json) list \<Rightarrow> exn + string" where
  "target_param params =
     bind_exn (json_strip (dict_get ''target'' (JStr []) params))
       (\<lambda>target. if target = [] then Inl ValueError else Inr target)"

definition int_param :: "string \<Rightarrow> int \<Rightarrow> int \<Rightarrow> int \<Rightarrow> (string \<times> json) list \<Rightarrow> exn + int" where
  "int_param key dflt lo hi params =
     bind_exn (json_int (dict_get key (JInt dflt) params))
       (\<lambda>n. if n < lo \<or> n > hi then Inl ValueError else Inr n)"

lemma target_param_sound: "target_param params = Inr t \<Longrightarrow> t \<noteq> [] \<and> py_strip t = t"
  by (auto simp: target_param_def json_strip_def split: json.splits if_splits)

lemma int_param_bounds: "int_param key dflt lo hi params = Inr n \<Longrightarrow> lo \<le> n \<and> n \<le> hi"
  by (auto simp: int_param_def split: if_splits)

lemma int_param_default: "map_of params key = None \<Longrightarrow> lo \<le> dflt \<Longrightarrow> dflt \<le> hi \<Longrightarrow> int_param key dflt lo hi params = Inr dflt"
  by (simp add: int_param_def dict_get_def json_int_def)

section \<open>Running a program\<close>

text \<open>
  What an external program does when it is started: there is no such program, it ends after
  some time with an output and a code, or talking to it fails.
\<close>

datatype process_run =
    NoProgram
  | Ends string string int tstamp
  | Breaks tstamp

record subprocess_result =
  sr_stdout :: string
  sr_stderr :: string
  sr_exit_code :: int
  sr_duration :: tstamp
  sr_timed_out :: bool

definition effective_timeout :: "int \<Rightarrow> int option \<Rightarrow> int" where
  "effective_timeout hard_timeout timeout =
     min (case timeout of Some t \<Rightarrow> if t = 0 then hard_timeout else t | None \<Rightarrow> hard_timeout) hard_timeout"

definition executor_run :: "int \<Rightarrow> (string list \<Rightarrow> process_run) \<Rightarrow> string list \<Rightarrow> int option \<Rightarrow> exn + subprocess_result" where
  "executor_run hard_timeout os args timeout =
     (let limit = sec (effective_timeout hard_timeout timeout);
          killed = \<lparr>sr_stdout = [], sr_stderr = [], sr_exit_code = - 1, sr_duration = limit, sr_timed_out = True\<rparr>
      in case os args of
           NoProgram \<Rightarrow> Inl (PyError ''FileNotFoundError'')
         | Ends out err code duration \<Rightarrow>
             Inr (if duration < limit
                  then \<lparr>sr_stdout = out, sr_stderr = err, sr_exit_code = code, sr_duration = duration, sr_timed_out = False\<rparr>
                  else killed)
         | Breaks duration \<Rightarrow>
             Inr (if duration < limit
                  then \<lparr>sr_stdout = [], sr_stderr = [], sr_exit_code = - 1, sr_duration = duration, sr_timed_out = False\<rparr>
                  else killed))"

text \<open>The signals sent to a process group that is still running, by how long it survives the first.\<close>

definition kill_process :: "bool \<Rightarrow> tstamp option \<Rightarrow> string list" where
  "kill_process running ends_after =
     (if \<not> running then []
      else ''SIGTERM'' # (case ends_after of
          Some t \<Rightarrow> if t < sec 5 then [] else [''SIGKILL'']
        | None \<Rightarrow> [''SIGKILL'']))"

text \<open>Whatever the program does, a run takes no longer than the caller and the executor allow.\<close>

lemma executor_run_bounded:
  assumes "executor_run hard_timeout os args timeout = Inr r"
  shows "sr_duration r \<le> sec hard_timeout \<and> (timeout = Some t \<longrightarrow> t \<noteq> 0 \<longrightarrow> sr_duration r \<le> sec t) \<and>
    (sr_timed_out r \<longrightarrow> sr_stdout r = [])"
proof -
  have "effective_timeout hard_timeout timeout \<le> hard_timeout"
    "timeout = Some t \<Longrightarrow> t \<noteq> 0 \<Longrightarrow> effective_timeout hard_timeout timeout \<le> t"
    by (auto simp: effective_timeout_def)
  then have limit: "sec (effective_timeout hard_timeout timeout) \<le> sec hard_timeout"
    "timeout = Some t \<Longrightarrow> t \<noteq> 0 \<Longrightarrow> sec (effective_timeout hard_timeout timeout) \<le> sec t"
    by simp_all
  have "sr_duration r \<le> sec (effective_timeout hard_timeout timeout) \<and> (sr_timed_out r \<longrightarrow> sr_stdout r = [])"
    using assms by (auto simp: executor_run_def Let_def split: process_run.splits if_splits)
  with limit show ?thesis by (auto intro: order_trans)
qed

section \<open>Opening a stream\<close>

text \<open>What \<open>receive_json\<close> yields: a value, a disconnection, or a frame that is not JSON.\<close>

datatype ws_incoming = Received json | Disconnected | NotJson

datatype ('r, 's) ws_msg =
    ErrorMsg string
  | NoticeMsg string
  | ResultMsg int 'r
  | CompleteMsg 's string

text \<open>
  How the opening ends: with an error message and nothing else, with an exception of the
  handler itself, with an internal error that is logged, or with validated parameters and an
  address.  The handlers' own exception clauses mention \<open>params\<close>, which is not bound before
  the first message has been read.
\<close>

datatype 'v opened =
    Refused string
  | Escaped exn
  | Failed json exn
  | Opened 'v json string

definition open_stream ::
    "((string \<times> json) list \<Rightarrow> exn + 'v) \<Rightarrow> ('v \<Rightarrow> string) \<Rightarrow> (string \<Rightarrow> string \<times> string option) \<Rightarrow> ws_incoming \<Rightarrow> 'v opened" where
  "open_stream validate target_of filter_t incoming =
     (case incoming of
        Received (JObj raw) \<Rightarrow>
          if map_of raw ''type'' \<noteq> Some (JStr ''start'') then Refused ''errors.invalid_params''
          else
            (let params = dict_get ''params'' (JObj []) raw
             in case bind_exn (as_object params) validate of
                  Inl x \<Rightarrow> if x = ValueError then Refused ''errors.invalid_params'' else Failed params x
                | Inr validated \<Rightarrow>
                    (case filter_t (target_of validated) of
                       (resolved_ip, Some block_error) \<Rightarrow> Refused block_error
                     | (resolved_ip, None) \<Rightarrow> Opened validated params resolved_ip))
      | _ \<Rightarrow> Escaped (PyError ''UnboundLocalError''))"

lemma open_stream_Opened:
  "open_stream validate target_of filter_t incoming = Opened v j ip \<longleftrightarrow>
     (\<exists>raw params. j = JObj params \<and> incoming = Received (JObj raw) \<and> map_of raw ''type'' = Some (JStr ''start'') \<and>
        dict_get ''params'' (JObj []) raw = j \<and> validate params = Inr v \<and> filter_t (target_of v) = (ip, None))"
  by (auto simp: open_stream_def as_object_def AttributeError_def ValueError_def Let_def
      split: ws_incoming.splits json.splits sum.splits prod.splits option.splits if_splits)

text \<open>
  A program whose output is streamed: its output lines, when it ends, and whether the client
  has asked for its end.
\<close>

record ws_process =
  wp_lines :: "string list"
  wp_ends_at :: tstamp
  wp_cancelled :: bool

definition terminated_by :: "bool \<Rightarrow> bool \<Rightarrow> string" where
  "terminated_by timed_out cancelled =
     (if timed_out then ''max_duration'' else if cancelled then ''user'' else ''completed'')"

section \<open>Addresses on a command line\<close>

text \<open>An address is never taken for an option.\<close>

lemma those_hd_None: "xs \<noteq> [] \<Longrightarrow> hd xs = None \<Longrightarrow> those xs = None"
  by (cases xs) auto

lemma parse_hextet_dash: "parse_hextet (CHR ''-'' # s) = None"
  by (simp add: parse_hextet_def hex_val_def)

lemma ip6_parts_dash:
  assumes "hd parts = CHR ''-'' # s" "parts \<noteq> []"
  shows "ip6_int_of_parts parts = None"
proof -
  have bad: "those (map parse_hextet (take n parts)) = None" if "0 < n" for n
    using assms that by (intro those_hd_None) (auto simp: hd_map parse_hextet_dash)
  have all: "those (map parse_hextet parts) = None"
    using bad [of "length parts"] assms(2) by simp
  have lead: "hd parts \<noteq> []"
    using assms by simp
  let ?skips = "filter (\<lambda>i. parts ! i = []) [1..<length parts - 1]"
  consider "?skips = []" | k where "?skips = [k]" | a b c where "?skips = a # b # c"
    by (metis list.exhaust)
  then show ?thesis
  proof cases
    case 1
    then show ?thesis by (simp add: ip6_int_of_parts_def all)
  next
    case 2
    then have "k \<in> set ?skips" by simp
    then have "0 < k" by auto
    with 2 lead show ?thesis by (simp add: ip6_int_of_parts_def bad Let_def)
  next
    case 3
    then show ?thesis by (simp add: ip6_int_of_parts_def)
  qed
qed

lemma ip4_dash: "ip4_of_string (CHR ''-'' # s) = None"
proof -
  have "parse_octet (CHR ''-'' # t) = None" for t
    by (simp add: parse_octet_def is_digit_def)
  then show ?thesis
    by (simp add: ip4_of_string_def split: list.split)
qed

lemma ip_address_no_option: "ip_address (CHR ''-'' # s) = None"
proof -
  obtain addr f sc where part: "py_partition (CHR ''%'') s = (addr, f, sc)"
    by (metis prod_cases3)
  have "\<exists>t ts. py_split_max (CHR '':'') (Suc n) (CHR ''-'' # addr) = (CHR ''-'' # t) # ts" for n
    by (auto split: list.split)
  from this [of 8] obtain t ts where parts: "py_split_max (CHR '':'') 9 (CHR ''-'' # addr) = (CHR ''-'' # t) # ts"
    by (auto simp: eval_nat_numeral)
  have "ip6_int_of_parts parts' = None"
    if "expand_v4_suffix ((CHR ''-'' # t) # ts) = Some parts'" "\<not> length ts < 2" for parts'
    using that by (intro ip6_parts_dash [of _ t]) (cases ts; auto simp: expand_v4_suffix_def split: if_splits)+
  then have "ip6_of_string (CHR ''-'' # s) = None"
    using part parts
    by (auto simp: ip6_of_string_def split_scope_id_def split: option.splits if_splits)
  then show ?thesis
    by (simp add: ip_address_def ip4_dash)
qed

section \<open>The target filter as the tools see it\<close>

text \<open>The promise the tools rely on: an accepted target is an address that is not blocked.\<close>

locale target_guard =
  fixes filter_t :: "string \<Rightarrow> string \<times> string option"
  assumes accepts: "filter_t target = (ip, None) \<Longrightarrow> \<not> is_ip_blocked ip"
begin

lemma address_no_option:
  assumes "filter_t target = (ip, None)"
  shows "\<not> is_ip_blocked ip" "\<not> py_startswith ip ''-''" "ip \<noteq> []"
proof -
  show blocked: "\<not> is_ip_blocked ip"
    using accepts assms by blast
  then obtain a where a: "ip_address ip = Some a"
    using not_blocked_parses by blast
  then show "\<not> py_startswith ip ''-''"
    using ip_address_no_option by (cases ip) auto
  have "ip_address [] = None"
    by code_simp
  with a show "ip \<noteq> []" by auto
qed

end

text \<open>The filter of the address filter component keeps it, whatever the DNS answers.\<close>

lemma filter_target_accepts: "filter_target d timed_out r target = (ip, None) \<Longrightarrow> \<not> is_ip_blocked ip"
  by (auto simp: filter_target_def Let_def list_ex_iff split: option.splits list.splits if_splits)

interpretation af: target_guard "filter_target d timed_out r" for d timed_out r
  by unfold_locales (rule filter_target_accepts)

text \<open>
  A command that cannot be turned against the server: the program, options out of a fixed set
  and plain numbers, and at the end an address that is not blocked and no option.
\<close>

definition safe_command :: "string \<Rightarrow> string list \<Rightarrow> string list \<Rightarrow> bool" where
  "safe_command program options args \<longleftrightarrow>
     hd args = program \<and> \<not> is_ip_blocked (last args) \<and> \<not> py_startswith (last args) ''-'' \<and>
     list_all (\<lambda>a. a \<in> set options \<or> a \<noteq> [] \<and> list_all is_digit a) (butlast (tl args))"

lemma str_of_int_digits: "0 \<le> n \<Longrightarrow> str_of_int n \<noteq> [] \<and> list_all is_digit (str_of_int n)"
  by (simp add: str_of_int_def str_of_nat_digits)

end
