(* ===== verification/Traceroute.thy ===== *)
theory Traceroute
  imports Tool_Process "HOL-Library.Multiset"
begin

text \<open>
  \<open>app/tools/traceroute.py\<close> and \<open>app/websocket/handlers/traceroute_ws.py\<close>: parameters and
  command line, the parser of the program's output, the masking of private hops, the run over
  HTTP and the streaming run.
\<close>

section \<open>Tokens\<close>

definition is_ip :: "string \<Rightarrow> bool" where
  "is_ip s = (ip_address s \<noteq> None)"

definition in_parens :: "string \<Rightarrow> bool" where
  "in_parens t = (py_startswith t ''('' \<and> py_endswith t '')'')"

text \<open>\<open>t[1:-1]\<close>\<close>

definition inner :: "string \<Rightarrow> string" where
  "inner t = butlast (tl t)"

text \<open>The tokens after the current one, without the next when it satisfies the test.\<close>

definition skip_next :: "('a \<Rightarrow> bool) \<Rightarrow> 'a list \<Rightarrow> 'a list" where
  "skip_next p ts = (case ts of t # ts' \<Rightarrow> if p t then ts' else ts | [] \<Rightarrow> [])"

definition next_is :: "('a \<Rightarrow> bool) \<Rightarrow> 'a list \<Rightarrow> bool" where
  "next_is p ts = (case ts of t # _ \<Rightarrow> p t | [] \<Rightarrow> False)"

lemma skip_next_shorter [simp, termination_simp]: "length (skip_next p ts) < Suc (length ts)"
  by (simp add: skip_next_def split: list.split)

section \<open>Probes of a line\<close>

datatype probe = ProbeTimeout | ProbeOk float_value

function parse_probes_from_tokens :: "string list \<Rightarrow> probe list" where
  "parse_probes_from_tokens [] = []"
| "parse_probes_from_tokens (t # ts) =
     (if t = ''*'' then ProbeTimeout # parse_probes_from_tokens ts
      else if is_ip t then parse_probes_from_tokens (skip_next in_parens ts)
      else if next_is in_parens ts then parse_probes_from_tokens (skip_next in_parens ts)
      else (case py_float t of
          Some rtt \<Rightarrow> ProbeOk rtt # parse_probes_from_tokens (skip_next (\<lambda>u. u = ''ms'') ts)
        | None \<Rightarrow> parse_probes_from_tokens ts))"
  by pat_completeness auto
termination
  by (relation "measure length") simp_all

definition set_default :: "'k \<Rightarrow> 'v \<Rightarrow> ('k \<times> 'v) list \<Rightarrow> ('k \<times> 'v) list" where
  "set_default k v d = (if map_of d k = None then d @ [(k, v)] else d)"

function extract_ip_hostname_map :: "string list \<Rightarrow> (string \<times> string option) list \<Rightarrow> (string \<times> string option) list" where
  "extract_ip_hostname_map [] mapping = mapping"
| "extract_ip_hostname_map (t # ts) mapping =
     (if t = ''*'' then extract_ip_hostname_map ts mapping
      else if is_ip t then
        extract_ip_hostname_map (skip_next in_parens ts)
          (set_default t (if next_is in_parens ts then Some (inner (hd ts)) else None) mapping)
      else if next_is in_parens ts then
        extract_ip_hostname_map (skip_next in_parens ts)
          (if is_ip (inner (hd ts)) then set_default (inner (hd ts)) (Some t) mapping else mapping)
      else if py_float t \<noteq> None then extract_ip_hostname_map (skip_next (\<lambda>u. u = ''ms'') ts) mapping
      else extract_ip_hostname_map ts mapping)"
  by pat_completeness auto
termination
  by (relation "measure (length \<circ> fst)") simp_all

text \<open>
  The walk that says which address each probe belongs to: \<open>n\<close> probes are still to be
  assigned, and probes the walk does not reach stay unassigned.
\<close>

function assign_probes :: "string list \<Rightarrow> nat \<Rightarrow> string option \<Rightarrow> string option list" where
  "assign_probes ts 0 current = []"
| "assign_probes [] (Suc n) current = replicate (Suc n) None"
| "assign_probes (t # ts) (Suc n) current =
     (if is_ip t then assign_probes (skip_next in_parens ts) (Suc n) (Some t)
      else if t = ''*'' then current # assign_probes ts n current
      else if py_float t \<noteq> None then current # assign_probes (skip_next (\<lambda>u. u = ''ms'') ts) n current
      else assign_probes ts (Suc n) current)"
  by pat_completeness auto
termination
  by (relation "measure (\<lambda>(ts, n, c). length ts)") (simp_all add: less_Suc_eq_le [symmetric])

record path =
  pa_ip :: string
  pa_hostname :: "string option"
  pa_probes :: "probe list"

definition group_step :: "string list \<Rightarrow> (string \<times> probe list) list \<Rightarrow> string option \<times> probe \<Rightarrow> (string \<times> probe list) list" where
  "group_step ip_list paths_map ap =
     (let ip_key = (case fst ap of Some ip \<Rightarrow> ip | None \<Rightarrow> hd ip_list)
      in dict_set ip_key (dict_get ip_key [] paths_map @ [snd ap]) paths_map)"

definition group_probes_by_ip ::
    "string list \<Rightarrow> probe list \<Rightarrow> (string \<times> string option) list \<Rightarrow> path list" where
  "group_probes_by_ip tokens probes ip_map =
     (let ip_list = map fst ip_map
      in if length ip_list \<le> 1 then []
         else
           (let assignment = assign_probes tokens (length probes) None;
                paths_map = foldl (group_step ip_list) [] (zip assignment probes)
            in map (\<lambda>(ip, prbs). \<lparr>pa_ip = ip, pa_hostname = dict_get ip None ip_map, pa_probes = prbs\<rparr>) paths_map))"

section \<open>Hops\<close>

text \<open>The data of a hop with one responder at most, and of a hop with several.\<close>

datatype hop_data =
    OnePath "string option" "string option" "probe list" bool
  | ManyPaths "path list" bool

definition hop_segment :: "string list \<times> probe list \<times> (string \<times> string option) list \<Rightarrow> string \<Rightarrow>
    string list \<times> probe list \<times> (string \<times> string option) list" where
  "hop_segment acc segment =
     (case acc of (all_tokens, all_probes, all_ip_map) \<Rightarrow>
        (let tokens = py_words (py_strip segment)
         in (all_tokens @ tokens, all_probes @ parse_probes_from_tokens tokens,
             foldl (\<lambda>m (k, v). dict_set k v m) all_ip_map (extract_ip_hostname_map tokens []))))"

definition parse_hop_group :: "string list \<Rightarrow> hop_data" where
  "parse_hop_group line_segments =
     (case foldl hop_segment ([], [], []) line_segments of (all_tokens, all_probes, all_ip_map) \<Rightarrow>
        (case map fst all_ip_map of
           [] \<Rightarrow> OnePath None None (if all_probes \<noteq> [] then all_probes else replicate 3 ProbeTimeout) False
         | [primary_ip] \<Rightarrow> OnePath (Some primary_ip) (dict_get primary_ip None all_ip_map) all_probes False
         | _ \<Rightarrow> ManyPaths (group_probes_by_ip all_tokens all_probes all_ip_map) False))"

text \<open>\<open>HEADER_RE.match\<close> and \<open>HOP_LINE_RE.match\<close> on a line.\<close>

definition spaces_then :: "string \<Rightarrow> string option" where
  "spaces_then s = (case s of c # cs \<Rightarrow> if py_isspace c then Some (py_lstrip cs) else None | [] \<Rightarrow> None)"

definition header_match :: "string \<Rightarrow> bool" where
  "header_match line =
     (py_startswith line ''traceroute'' \<and>
      (case spaces_then (drop 10 line) of
         Some rest \<Rightarrow> py_startswith rest ''to'' \<and> spaces_then (drop 2 rest) \<noteq> None
       | None \<Rightarrow> False))"

definition hop_line_match :: "string \<Rightarrow> (nat \<times> string) option" where
  "hop_line_match line =
     (let s = py_lstrip line; digits = takeWhile is_digit s
      in if digits = [] then None
         else map_option (\<lambda>rest. (nat_of_digits digits, rest)) (spaces_then (dropWhile is_digit s)))"

text \<open>The hop being collected, and the hops flushed before.\<close>

type_synonym open_hop = "(nat \<times> string list) option"

definition flush_hop :: "(nat \<times> hop_data) list \<times> open_hop \<Rightarrow> (nat \<times> hop_data) list \<times> open_hop" where
  "flush_hop st =
     (case st of
        (hops, Some (n, segments)) \<Rightarrow> (if segments \<noteq> [] then hops @ [(n, parse_hop_group segments)] else hops, None)
      | (hops, None) \<Rightarrow> (hops, None))"

definition parse_line :: "(nat \<times> hop_data) list \<times> open_hop \<Rightarrow> string \<Rightarrow> (nat \<times> hop_data) list \<times> open_hop" where
  "parse_line st raw =
     (let line = py_strip raw
      in if line = [] \<or> header_match line then st
         else (case hop_line_match line of
             Some (n, rest) \<Rightarrow> (fst (flush_hop st), Some (n, [rest]))
           | None \<Rightarrow>
               (case snd st of
                  Some (n, segments) \<Rightarrow> (fst st, Some (n, segments @ [line]))
                | None \<Rightarrow> st)))"

definition parse_lines :: "string list \<Rightarrow> (nat \<times> hop_data) list" where
  "parse_lines lines = fst (flush_hop (foldl parse_line ([], None) lines))"

definition parse_output :: "string \<Rightarrow> (nat \<times> hop_data) list" where
  "parse_output stdout = parse_lines (py_splitlines stdout)"

section \<open>Parameters and command line\<close>

record trace_params =
  tp_target :: string
  tp_protocol :: string
  tp_port :: int
  tp_probes_per_hop :: int
  tp_timeout :: int
  tp_max_distance :: int
  tp_dns_resolution :: bool

definition protocol_param :: "(string \<times> json) list \<Rightarrow> exn + string" where
  "protocol_param params =
     (case dict_get ''protocol'' (JStr ''udp'') params of
        JStr p \<Rightarrow> if p \<in> set [''udp'', ''icmp'', ''tcp''] then Inr p else Inl ValueError
      | _ \<Rightarrow> Inl ValueError)"

definition trace_validate :: "(string \<times> json) list \<Rightarrow> exn + trace_params" where
  "trace_validate params =
     bind_exn (target_param params) (\<lambda>target.
     bind_exn (protocol_param params) (\<lambda>protocol.
     bind_exn (int_param ''port'' 33434 1 65535 params) (\<lambda>port.
     bind_exn (int_param ''probes_per_hop'' 3 1 10 params) (\<lambda>probes_per_hop.
     bind_exn (int_param ''timeout'' 1 1 30 params) (\<lambda>timeout.
     bind_exn (int_param ''max_distance'' 30 1 64 params) (\<lambda>max_distance.
       Inr \<lparr>tp_target = target, tp_protocol = protocol, tp_port = port, tp_probes_per_hop = probes_per_hop,
            tp_timeout = timeout, tp_max_distance = max_distance,
            tp_dns_resolution = json_true (dict_get ''dns_resolution'' (JBool True) params)\<rparr>))))))"

definition trace_args :: "string \<Rightarrow> trace_params \<Rightarrow> string list" where
  "trace_args target_ip params =
     [''traceroute''] @ (if tp_dns_resolution params then [] else [''-n'']) @
     [''-q'', str_of_int (tp_probes_per_hop params), ''-w'', str_of_int (tp_timeout params),
      ''-m'', str_of_int (tp_max_distance params)] @
     (if tp_protocol params = ''icmp'' then [''-I'']
      else if tp_protocol params = ''tcp'' then [''-T'', ''-p'', str_of_int (tp_port params)]
      else [''-p'', str_of_int (tp_port params)]) @
     [target_ip]"

section \<open>The run over HTTP\<close>

definition probe_json :: "probe \<Rightarrow> json" where
  "probe_json p = (case p of
     ProbeTimeout \<Rightarrow> JObj [(''rtt_ms'', JNull), (''status'', JStr ''timeout'')]
   | ProbeOk rtt \<Rightarrow> JObj [(''rtt_ms'', JFloat rtt), (''status'', JStr ''ok'')])"

definition path_json :: "path \<Rightarrow> json" where
  "path_json p = JObj [(''ip'', JStr (pa_ip p)), (''hostname'', json_opt (pa_hostname p)),
     (''probes'', JList (map probe_json (pa_probes p)))]"

definition hop_json :: "nat \<times> hop_data \<Rightarrow> json" where
  "hop_json h = JObj [(''hop'', JInt (int (fst h))), (''data'',
     (case snd h of
        OnePath ip hostname probes reached \<Rightarrow>
          JObj [(''ip'', json_opt ip), (''hostname'', json_opt hostname), (''probes'', JList (map probe_json probes)),
                (''reached'', JBool reached)]
      | ManyPaths paths reached \<Rightarrow>
          JObj [(''multipath'', JBool True), (''paths'', JList (map path_json paths)), (''reached'', JBool reached)]))]"

definition trace_execute ::
    "(string \<Rightarrow> string \<times> string option) \<Rightarrow> (string list \<Rightarrow> process_run) \<Rightarrow> (string \<times> json) list \<Rightarrow> exn + tool_result" where
  "trace_execute filter_t os params =
     bind_exn (trace_validate params) (\<lambda>validated.
       (case filter_t (tp_target validated) of
          (_, Some block_error) \<Rightarrow> Inr \<lparr>tr_success = False, tr_data = JNull, tr_error = Some block_error\<rparr>
        | (resolved_ip, None) \<Rightarrow>
            bind_exn (executor_run 600 os (trace_args resolved_ip validated)
                (Some (tp_max_distance validated * tp_timeout validated * tp_probes_per_hop validated + 30)))
              (\<lambda>result.
                 if sr_timed_out result
                 then Inr \<lparr>tr_success = False, tr_data = JNull, tr_error = Some ''errors.timeout''\<rparr>
                 else (let hops = parse_output (sr_stdout result)
                       in Inr \<lparr>tr_success = (sr_exit_code result = 0 \<or> hops \<noteq> []),
                               tr_data = JObj [(''hops'', JList (map hop_json hops)), (''raw_stdout'', JStr (sr_stdout result))],
                               tr_error = None\<rparr>))))"

section \<open>Masking\<close>

definition HIDDEN :: string where "HIDDEN = ''[hidden]''"

definition mask_path :: "path \<Rightarrow> path" where
  "mask_path p = (if pa_ip p \<noteq> [] \<and> is_ip_blocked (pa_ip p) then p\<lparr>pa_ip := HIDDEN, pa_hostname := None\<rparr> else p)"

fun mask_private_hops :: "bool \<Rightarrow> hop_data \<Rightarrow> hop_data" where
  "mask_private_hops True data = data"
| "mask_private_hops False (ManyPaths paths reached) =
     (let masked_paths = map mask_path paths
      in if list_all (\<lambda>p. pa_ip p = HIDDEN) masked_paths
         then OnePath (Some HIDDEN) None (concat (map pa_probes masked_paths)) reached
         else ManyPaths masked_paths reached)"
| "mask_private_hops False (OnePath ip hostname probes reached) =
     (if truthy ip \<and> is_ip_blocked (the ip) then OnePath (Some HIDDEN) None probes reached
      else OnePath ip hostname probes reached)"

section \<open>The streaming run\<close>

text \<open>A setting that is missing or cannot be read (\<open>except Exception: pass\<close>) leaves the hops shown.\<close>

definition show_private_hops :: "env \<Rightarrow> db \<Rightarrow> bool" where
  "show_private_hops e d =
     (if \<not> e_db_up e then True else case scalar_one_or_none (filter (\<lambda>s. gs_key s = ''module.traceroute.show_private_hops'') (db_settings d)) of
        Inr (Some setting) \<Rightarrow> py_lower (gs_value setting) \<notin> set [''false'', ''0'', ''no'', ''off'']
      | _ \<Rightarrow> True)"

record trace_stream =
  ts_sent :: "(nat \<times> hop_data) list"
  ts_hops_sent :: nat
  ts_reached :: bool
  ts_open :: open_hop
  ts_probe_count :: nat

fun hop_ips :: "hop_data \<Rightarrow> string list" where
  "hop_ips (OnePath ip _ _ _) = (case ip of Some i \<Rightarrow> [i] | None \<Rightarrow> [])"
| "hop_ips (ManyPaths paths _) = map pa_ip paths"

fun set_reached :: "hop_data \<Rightarrow> hop_data" where
  "set_reached (OnePath ip h ps r) = OnePath ip h ps True"
| "set_reached (ManyPaths paths r) = ManyPaths paths True"

definition flush_current_hop :: "string \<Rightarrow> bool \<Rightarrow> trace_stream \<Rightarrow> trace_stream" where
  "flush_current_hop resolved_ip show_private st =
     (let st' = (case ts_open st of
          Some (n, segments) \<Rightarrow>
            if segments = [] then st
            else (let data = mask_private_hops show_private (parse_hop_group segments);
                      hit = (\<not> ts_reached st \<and> resolved_ip \<in> set (hop_ips data))
                  in st\<lparr>ts_sent := ts_sent st @ [(n, if hit then set_reached data else data)],
                        ts_hops_sent := n, ts_reached := ts_reached st \<or> hit\<rparr>)
        | None \<Rightarrow> st)
      in st'\<lparr>ts_open := None, ts_probe_count := 0\<rparr>)"

definition probe_count :: "string \<Rightarrow> nat" where
  "probe_count s = length (parse_probes_from_tokens (py_words s))"

definition flush_full :: "string \<Rightarrow> bool \<Rightarrow> int \<Rightarrow> trace_stream \<Rightarrow> trace_stream" where
  "flush_full resolved_ip show_private probes_per_hop st =
     (if ts_open st \<noteq> None \<and> probes_per_hop \<le> int (ts_probe_count st) then flush_current_hop resolved_ip show_private st else st)"

definition read_stdout_line :: "string \<Rightarrow> bool \<Rightarrow> int \<Rightarrow> trace_stream \<Rightarrow> string \<Rightarrow> trace_stream" where
  "read_stdout_line resolved_ip show_private probes_per_hop st raw =
     (let decoded = py_strip raw
      in if decoded = [] \<or> header_match decoded then st
         else flush_full resolved_ip show_private probes_per_hop
           (case hop_line_match decoded of
              Some (n, rest) \<Rightarrow>
                (flush_current_hop resolved_ip show_private st)\<lparr>ts_open := Some (n, [rest]), ts_probe_count := probe_count rest\<rparr>
            | None \<Rightarrow>
                (case ts_open st of
                   Some (n, segments) \<Rightarrow>
                     st\<lparr>ts_open := Some (n, segments @ [decoded]), ts_probe_count := ts_probe_count st + probe_count decoded\<rparr>
                 | None \<Rightarrow> st)))"

definition new_stream :: trace_stream where
  "new_stream = \<lparr>ts_sent = [], ts_hops_sent = 0, ts_reached = False, ts_open = None, ts_probe_count = 0\<rparr>"

definition stream_lines :: "string \<Rightarrow> bool \<Rightarrow> int \<Rightarrow> string list \<Rightarrow> trace_stream" where
  "stream_lines resolved_ip show_private probes_per_hop lines =
     flush_current_hop resolved_ip show_private
       (foldl (read_stdout_line resolved_ip show_private probes_per_hop)
         new_stream lines)"

text \<open>
  The handler: the messages sent, the exception that escapes it, and the database with the
  run logged.  \<open>text_of\<close> is the text of an exception, \<open>quota\<close> the number of messages after which the
  client is gone, if it goes.
\<close>

record trace_summary =
  tsum_hops_probed :: nat
  tsum_reached :: bool

type_synonym trace_msg = "(hop_data, trace_summary) ws_msg"

definition trace_params_json :: "trace_params \<Rightarrow> json" where
  "trace_params_json v = JObj [(''target'', JStr (tp_target v)), (''protocol'', JStr (tp_protocol v)), (''port'', JInt (tp_port v)),
     (''probes_per_hop'', JInt (tp_probes_per_hop v)), (''timeout'', JInt (tp_timeout v)),
     (''max_distance'', JInt (tp_max_distance v)), (''dns_resolution'', JBool (tp_dns_resolution v))]"

definition trace_messages :: "trace_stream \<Rightarrow> string \<Rightarrow> trace_msg list" where
  "trace_messages st ended =
     map (\<lambda>(n, data). ResultMsg (int n) data) (ts_sent st) @
     [CompleteMsg \<lparr>tsum_hops_probed = ts_hops_sent st, tsum_reached = ts_reached st\<rparr> ended]"

definition handle_traceroute_stream ::
    "env \<Rightarrow> (exn \<Rightarrow> string) \<Rightarrow> (string \<Rightarrow> string \<times> string option) \<Rightarrow> (string list \<Rightarrow> ws_process option) \<Rightarrow> nat option \<Rightarrow>
     int \<Rightarrow> string \<Rightarrow> string option \<Rightarrow> string \<Rightarrow> ws_incoming \<Rightarrow> db \<Rightarrow> trace_msg list \<times> exn option \<times> db" where
  "handle_traceroute_stream e text_of filter_t os quota ms session_id user_id source_ip incoming d =
     (let log = (\<lambda>params result duration err. log_tool_exec e ''traceroute'' params result duration err user_id session_id source_ip d)
      in case open_stream trace_validate tp_target filter_t incoming of
           Refused key \<Rightarrow> ([ErrorMsg key], None, d)
         | Escaped x \<Rightarrow> ([], Some x, d)
         | Failed params x \<Rightarrow> ([ErrorMsg ''errors.internal_error''], None, log params ''failure'' 0 (Some (text_of x)))
         | Opened validated params resolved_ip \<Rightarrow>
             (case os (trace_args resolved_ip validated) of
                None \<Rightarrow> ([ErrorMsg ''errors.internal_error''], None,
                         log params ''failure'' 0 (Some (text_of (PyError ''FileNotFoundError''))))
              | Some p \<Rightarrow>
                  (let hard_timeout = tp_max_distance validated * tp_timeout validated * tp_probes_per_hop validated + 60;
                       st = stream_lines resolved_ip (show_private_hops e d) (tp_probes_per_hop validated) (wp_lines p);
                       ended = terminated_by (sec hard_timeout < wp_ends_at p) (wp_cancelled p);
                       msgs = trace_messages st ended
                   in if (case quota of Some k \<Rightarrow> k < length msgs | None \<Rightarrow> False)
                      then (take (the quota) msgs, None, log params ''partial'' 0 (Some ''Cancelled by user''))
                      else (msgs, None,
                            log (trace_params_json validated) (if ended = ''completed'' then ''success'' else ''partial'') ms None))))"

section \<open>Masking lemmas\<close>

fun hop_probes :: "hop_data \<Rightarrow> probe list" where
  "hop_probes (OnePath _ _ ps _) = ps"
| "hop_probes (ManyPaths paths _) = concat (map pa_probes paths)"

definition shown_ok :: "string \<Rightarrow> bool" where
  "shown_ok ip \<longleftrightarrow> ip = HIDDEN \<or> \<not> is_ip_blocked ip \<or> ip = []"

lemma hidden_blocked: "is_ip_blocked HIDDEN"
  by code_simp

lemma mask_path_probes [simp]: "pa_probes (mask_path p) = pa_probes p"
  by (simp add: mask_path_def)

lemma mask_path_ip: "pa_ip (mask_path p) = HIDDEN \<or> pa_ip (mask_path p) = pa_ip p"
  by (simp add: mask_path_def)

lemma mask_path_shown: "shown_ok (pa_ip (mask_path p))"
  by (simp add: mask_path_def shown_ok_def)

lemma mask_shown: "list_all shown_ok (hop_ips (mask_private_hops False data))"
proof (cases data)
  case (OnePath ip hostname probes reached)
  then show ?thesis
    by (auto simp: shown_ok_def split: option.split)
next
  case (ManyPaths paths reached)
  have "shown_ok HIDDEN"
    by (simp add: shown_ok_def)
  with ManyPaths show ?thesis
    by (simp add: Let_def list_all_iff mask_path_shown del: imp_disjL)
qed

lemma mask_probes: "hop_probes (mask_private_hops sp data) = hop_probes data"
  by (cases sp; cases data) (simp_all add: Let_def comp_def)

lemma mask_keeps_unblocked:
  assumes "\<not> is_ip_blocked ip"
  shows "ip \<in> set (hop_ips (mask_private_hops sp data)) \<longleftrightarrow> ip \<in> set (hop_ips data)"
proof -
  have hidden: "ip \<noteq> HIDDEN"
    using assms hidden_blocked by blast
  then have path: "pa_ip (mask_path p) = ip \<longleftrightarrow> pa_ip p = ip" for p
    using assms by (auto simp: mask_path_def)
  show ?thesis
  proof (cases sp)
    case visible: False
    show ?thesis
    proof (cases data)
      case (OnePath i hostname probes reached)
      with visible hidden assms show ?thesis
        by (auto split: option.split)
    next
      case (ManyPaths paths reached)
      have "ip \<in> set (map pa_ip (map mask_path paths)) \<longleftrightarrow> ip \<in> set (map pa_ip paths)"
        by (simp add: image_iff) (metis path)
      moreover have "ip \<notin> set (map pa_ip (map mask_path paths))" if "list_all (\<lambda>p. pa_ip p = HIDDEN) (map mask_path paths)"
        using that hidden by (auto simp: list_all_iff)
      ultimately show ?thesis
        using visible ManyPaths hidden by (simp add: Let_def)
    qed
  qed simp
qed

lemma set_reached_ips [simp]: "hop_ips (set_reached data) = hop_ips data"
  by (cases data) auto

lemma set_reached_probes [simp]: "hop_probes (set_reached data) = hop_probes data"
  by (cases data) auto

section \<open>What the parser yields\<close>

lemma keys_set_default: "list_all is_ip (map fst m) \<Longrightarrow> is_ip k \<Longrightarrow> list_all is_ip (map fst (set_default k v m))"
  by (simp add: set_default_def)

lemma extract_keys: "list_all is_ip (map fst m) \<Longrightarrow> list_all is_ip (map fst (extract_ip_hostname_map ts m))"
  by (induction ts m rule: extract_ip_hostname_map.induct) (simp_all add: keys_set_default)

lemma keys_dict_set: "list_all P (map fst m) \<Longrightarrow> P k \<Longrightarrow> list_all P (map fst (dict_set k v m))"
  by (induction k v m rule: dict_set.induct) auto

lemma keys_update: "list_all P (map fst new) \<Longrightarrow> list_all P (map fst m) \<Longrightarrow>
    list_all P (map fst (foldl (\<lambda>m (k, v). dict_set k v m) m new))"
  by (induction new arbitrary: m) (auto simp: keys_dict_set split: prod.split)

lemma segments_keys:
  "list_all is_ip (map fst (snd (snd acc))) \<Longrightarrow> list_all is_ip (map fst (snd (snd (foldl hop_segment acc segments))))"
proof (induction segments arbitrary: acc)
  case (Cons s ss)
  have "list_all is_ip (map fst (snd (snd (hop_segment acc s))))"
    using Cons.prems by (auto simp: hop_segment_def Let_def extract_keys keys_update split: prod.split)
  then show ?case using Cons.IH by simp
qed simp

lemma assigned_ips: "pred_option is_ip current \<Longrightarrow> list_all (pred_option is_ip) (assign_probes ts n current)"
  by (induction ts n current rule: assign_probes.induct) (auto simp: list_all_iff)

lemma assigned_length [simp]: "length (assign_probes ts n current) = n"
  by (induction ts n current rule: assign_probes.induct) auto

lemma group_keys:
  "list_all is_ip (map fst m) \<Longrightarrow> is_ip (hd ips) \<Longrightarrow> list_all (pred_option is_ip \<circ> fst) aps \<Longrightarrow>
   list_all is_ip (map fst (foldl (group_step ips) m aps))"
proof (induction aps arbitrary: m)
  case (Cons ap aps)
  have "list_all is_ip (map fst (group_step ips m ap))"
    using Cons.prems by (auto simp: group_step_def Let_def keys_dict_set split: option.split)
  with Cons show ?case by simp
qed simp

lemma group_ips:
  assumes "list_all is_ip (map fst m)"
  shows "list_all is_ip (map pa_ip (group_probes_by_ip ts ps m))"
proof (cases "length m \<le> 1")
  case False
  then have "is_ip (hd (map fst m))"
    using assms by (cases m) auto
  moreover have "list_all (pred_option is_ip \<circ> fst) (zip (assign_probes ts (length ps) None) ps)"
    using assigned_ips [of None ts "length ps"] by (auto simp: list_all_iff dest: set_zip_leftD)
  ultimately have "list_all is_ip (map fst (foldl (group_step (map fst m)) [] (zip (assign_probes ts (length ps) None) ps)))"
    by (intro group_keys) simp_all
  moreover have "map pa_ip (group_probes_by_ip ts ps m) =
      map fst (foldl (group_step (map fst m)) [] (zip (assign_probes ts (length ps) None) ps))"
    using False by (simp add: group_probes_by_ip_def Let_def comp_def case_prod_unfold)
  ultimately show ?thesis by simp
qed (simp add: group_probes_by_ip_def)

lemma hop_group_ips: "list_all is_ip (hop_ips (parse_hop_group segments))"
proof -
  obtain ts ps m where acc: "foldl hop_segment ([], [], []) segments = (ts, ps, m)"
    by (metis prod_cases3)
  have keys: "list_all is_ip (map fst m)"
    using segments_keys [of "([], [], [])" segments] acc by simp
  then show ?thesis
    using group_ips [OF keys, of ts ps] by (auto simp: parse_hop_group_def acc split: list.split)
qed

lemma is_ip_nonempty: "is_ip ip \<Longrightarrow> ip \<noteq> []"
proof -
  have "\<not> is_ip []" by code_simp
  then show "is_ip ip \<Longrightarrow> ip \<noteq> []" by auto
qed

lemma mask_ips: "set (hop_ips (mask_private_hops False data)) \<subseteq> insert HIDDEN (set (hop_ips data))"
proof (cases data)
  case (ManyPaths paths reached)
  have "(\<lambda>p. pa_ip (mask_path p)) ` set paths \<subseteq> insert HIDDEN (pa_ip ` set paths)"
    using mask_path_ip by blast
  with ManyPaths show ?thesis by (simp add: Let_def)
qed (auto split: option.split)

lemma mask_hides:
  "list_all (\<lambda>ip. ip = HIDDEN \<or> \<not> is_ip_blocked ip) (hop_ips (mask_private_hops False (parse_hop_group segments)))"
proof -
  let ?data = "parse_hop_group segments"
  have "x \<noteq> []" if "x \<in> set (hop_ips ?data)" for x
    using hop_group_ips [of segments] that unfolding list_all_iff by (intro is_ip_nonempty) blast
  then have "[] \<notin> insert HIDDEN (set (hop_ips ?data))"
    unfolding HIDDEN_def by blast
  then have nonempty: "[] \<notin> set (hop_ips (mask_private_hops False ?data))"
    using mask_ips [of ?data] by blast
  show ?thesis
    unfolding list_all_iff
  proof
    fix x assume x: "x \<in> set (hop_ips (mask_private_hops False ?data))"
    then have "shown_ok x"
      using mask_shown [of ?data] unfolding list_all_iff by blast
    moreover have "x \<noteq> []"
      using x nonempty by blast
    ultimately show "x = HIDDEN \<or> \<not> is_ip_blocked x"
      unfolding shown_ok_def by blast
  qed
qed

text \<open>Grouping loses no probe.\<close>

lemma group_step_mset:
  "mset (concat (map snd (group_step ips m ap))) = add_mset (snd ap) (mset (concat (map snd m)))"
proof -
  have "mset (concat (map snd (dict_set k (dict_get k [] m @ [x]) m))) = add_mset x (mset (concat (map snd m)))" for k x
    by (induction m) (auto simp: dict_get_def)
  then show ?thesis
    by (simp add: group_step_def Let_def split: option.split)
qed

lemma group_mset:
  "mset (concat (map snd (foldl (group_step ips) m aps))) = mset (concat (map snd m)) + mset (map snd aps)"
  by (induction aps arbitrary: m) (simp_all add: group_step_mset)

lemma group_probes:
  assumes "1 < length m"
  shows "mset (concat (map pa_probes (group_probes_by_ip ts ps m))) = mset ps"
proof -
  have "map pa_probes (group_probes_by_ip ts ps m) =
      map snd (foldl (group_step (map fst m)) [] (zip (assign_probes ts (length ps) None) ps))"
    using assms by (simp add: group_probes_by_ip_def Let_def comp_def case_prod_unfold)
  then show ?thesis by (simp add: group_mset)
qed

text \<open>
  When the names are resolved the program prints \<open>hostname (address)\<close>, and the walk that assigns
  the probes sees no address: all probes are given to the first responder.
\<close>

lemma no_ip_unassigned: "list_all (\<lambda>t. \<not> is_ip t) ts \<Longrightarrow> assign_probes ts n None = replicate n None"
proof (induction ts n "None :: string option" rule: assign_probes.induct)
  case (3 t ts n)
  have "list_all (\<lambda>t. \<not> is_ip t) (skip_next p ts)" for p
    using "3.prems" by (auto simp: skip_next_def split: list.splits)
  with 3 show ?case by (cases "t = ''*''") auto
qed simp_all

lemma group_unassigned:
  "foldl (group_step ips) [(hd ips, qs)] (zip (replicate (length ps) None) ps) = [(hd ips, qs @ ps)]"
  by (induction ps arbitrary: qs) (simp_all add: group_step_def dict_get_def)

lemma dns_format_paths_vanish:
  assumes "list_all (\<lambda>t. \<not> is_ip t) ts" "1 < length m" "ps \<noteq> []"
  shows "map pa_ip (group_probes_by_ip ts ps m) = [fst (hd m)]"
proof -
  obtain q qs where ps: "ps = q # qs"
    using assms(3) by (cases ps) auto
  have "foldl (group_step (map fst m)) [] (zip (replicate (length ps) None) ps) = [(hd (map fst m), ps)]"
    using group_unassigned [of "map fst m" "[q]" qs] by (simp add: ps group_step_def dict_get_def)
  then show ?thesis
    using assms by (cases m) (auto simp: group_probes_by_ip_def no_ip_unassigned)
qed

section \<open>Streaming and batch parsing\<close>

text \<open>What a hop adds to a stream, on the hops sent, the number of the last and the flag.\<close>

definition deliver :: "string \<Rightarrow> bool \<Rightarrow> (nat \<times> hop_data) list \<times> nat \<times> bool \<Rightarrow> nat \<times> hop_data \<Rightarrow>
    (nat \<times> hop_data) list \<times> nat \<times> bool" where
  "deliver ip sp acc h =
     (case acc of (sent, last_hop, reached) \<Rightarrow>
        (let data = mask_private_hops sp (snd h); hit = (\<not> reached \<and> ip \<in> set (hop_ips data))
         in (sent @ [(fst h, if hit then set_reached data else data)], fst h, reached \<or> hit)))"

definition delivered :: "string \<Rightarrow> bool \<Rightarrow> (nat \<times> hop_data) list \<Rightarrow> (nat \<times> hop_data) list \<times> nat \<times> bool" where
  "delivered ip sp hops = foldl (deliver ip sp) ([], 0, False) hops"

definition sent_of :: "trace_stream \<Rightarrow> (nat \<times> hop_data) list \<times> nat \<times> bool" where
  "sent_of st = (ts_sent st, ts_hops_sent st, ts_reached st)"

definition open_ok :: "open_hop \<Rightarrow> bool" where
  "open_ok oh \<longleftrightarrow> (case oh of Some (n, segments) \<Rightarrow> segments \<noteq> [] | None \<Rightarrow> True)"

lemma flush_deliver:
  "open_ok (ts_open st) \<Longrightarrow> sent_of (flush_current_hop ip sp st) =
     (case ts_open st of None \<Rightarrow> sent_of st | Some (n, segments) \<Rightarrow> deliver ip sp (sent_of st) (n, parse_hop_group segments))"
  by (auto simp: flush_current_hop_def sent_of_def deliver_def open_ok_def Let_def split: option.split prod.split)

lemma flush_closed [simp]: "ts_open (flush_current_hop ip sp st) = None"
  by (simp add: flush_current_hop_def Let_def)

lemma sent_of_open [simp]: "sent_of (ts_open_update f st) = sent_of st" "sent_of (ts_probe_count_update g st) = sent_of st"
  by (simp_all add: sent_of_def)

lemma delivered_snoc: "delivered ip sp (hops @ [h]) = deliver ip sp (delivered ip sp hops) h"
  by (simp add: delivered_def)

text \<open>
  No line continues a hop that has the probes asked for; \<open>c\<close> counts the probes of the hop being
  read, if any.
\<close>

fun in_time :: "int \<Rightarrow> nat option \<Rightarrow> string list \<Rightarrow> bool" where
  "in_time k c [] = True"
| "in_time k c (raw # lines) =
     (let line = py_strip raw
      in if line = [] \<or> header_match line then in_time k c lines
         else (case hop_line_match line of
             Some (n, rest) \<Rightarrow> in_time k (Some (probe_count rest)) lines
           | None \<Rightarrow>
               (case c of
                  None \<Rightarrow> in_time k c lines
                | Some m \<Rightarrow> int m < k \<and> in_time k (Some (m + probe_count line)) lines)))"

text \<open>On such outputs the stream is, line for line, the delivery of the hops of the batch parser.\<close>

definition in_step :: "string \<Rightarrow> bool \<Rightarrow> int \<Rightarrow> nat option \<Rightarrow> (nat \<times> hop_data) list \<times> open_hop \<Rightarrow> trace_stream \<Rightarrow> bool" where
  "in_step ip sp k c b st \<longleftrightarrow> open_ok (snd b) \<and>
     (case c of
        None \<Rightarrow> snd b = None \<and> ts_open st = None \<and> sent_of st = delivered ip sp (fst b)
      | Some m \<Rightarrow> snd b \<noteq> None \<and>
          (if int m < k then ts_open st = snd b \<and> ts_probe_count st = m \<and> sent_of st = delivered ip sp (fst b)
           else ts_open st = None \<and> sent_of st = delivered ip sp (fst (flush_hop b))))"

lemma in_step_flush:
  assumes "in_step ip sp k c b st"
  shows "sent_of (flush_current_hop ip sp st) = delivered ip sp (fst (flush_hop b))"
  using assms by (cases "snd b"; cases b)
    (auto simp: in_step_def flush_deliver flush_hop_def delivered_snoc open_ok_def split: option.splits if_splits)

text \<open>A stream with an open hop, before and after the test for its last probe.\<close>

lemma in_step_full:
  assumes "sent_of st = delivered ip sp hops" "ts_open st = Some (n, segments)" "segments \<noteq> []"
  shows "in_step ip sp k (Some (ts_probe_count st)) (hops, Some (n, segments)) (flush_full ip sp k st)"
  using assms by (auto simp: in_step_def flush_full_def flush_deliver flush_hop_def delivered_snoc open_ok_def)

lemma in_step_hop:
  assumes "in_step ip sp k c b st" "py_strip raw \<noteq> []" "\<not> header_match (py_strip raw)"
    and "hop_line_match (py_strip raw) = Some (n, rest)"
  shows "in_step ip sp k (Some (probe_count rest)) (parse_line b raw) (read_stdout_line ip sp k st raw)"
  using in_step_full [of "(flush_current_hop ip sp st)\<lparr>ts_open := Some (n, [rest]), ts_probe_count := probe_count rest\<rparr>"]
    in_step_flush [OF assms(1)] assms(2-4)
  by (simp add: read_stdout_line_def parse_line_def)

lemma in_step_continued:
  assumes "in_step ip sp k (Some m) b st" "int m < k" "py_strip raw \<noteq> []" "\<not> header_match (py_strip raw)"
    and "hop_line_match (py_strip raw) = None"
  shows "in_step ip sp k (Some (m + probe_count (py_strip raw))) (parse_line b raw) (read_stdout_line ip sp k st raw)"
proof -
  obtain hops n segments where b: "b = (hops, Some (n, segments))"
    and st: "ts_open st = Some (n, segments)" "ts_probe_count st = m" "sent_of st = delivered ip sp hops"
    using assms(1,2) by (cases b) (auto simp: in_step_def)
  show ?thesis
    using in_step_full [of "st\<lparr>ts_open := Some (n, segments @ [py_strip raw]), ts_probe_count := ts_probe_count st + probe_count (py_strip raw)\<rparr>"]
      st assms(3-5) by (simp add: read_stdout_line_def parse_line_def b Let_def)
qed

lemma in_step_ignored:
  assumes "in_step ip sp k c b st" "py_strip raw = [] \<or> header_match (py_strip raw) \<or> hop_line_match (py_strip raw) = None \<and> c = None"
  shows "in_step ip sp k c (parse_line b raw) (read_stdout_line ip sp k st raw)"
  using assms by (auto simp: parse_line_def read_stdout_line_def in_step_def flush_full_def Let_def split: option.split)

lemma in_step_lines:
  "in_step ip sp k c b st \<Longrightarrow> in_time k c ls \<Longrightarrow>
   \<exists>c'. in_step ip sp k c' (foldl parse_line b ls) (foldl (read_stdout_line ip sp k) st ls)"
proof (induction ls arbitrary: c b st)
  case (Cons raw ls)
  obtain c' where "in_step ip sp k c' (parse_line b raw) (read_stdout_line ip sp k st raw)" "in_time k c' ls"
    using Cons.prems(2) in_step_ignored [OF Cons.prems(1)] in_step_hop [OF Cons.prems(1)] in_step_continued [of ip sp k _ b st raw] Cons.prems(1)
    by (fastforce simp: Let_def split: if_splits option.splits prod.splits)
  with Cons.IH show ?case
    by simp
qed auto

lemma stream_delivers:
  assumes "in_time k None lines"
  shows "sent_of (stream_lines ip sp k lines) = delivered ip sp (parse_lines lines)"
proof -
  have "in_step ip sp k None ([], None) new_stream"
    by (simp add: in_step_def new_stream_def sent_of_def delivered_def open_ok_def)
  then obtain c where "in_step ip sp k c (foldl parse_line ([], None) lines) (foldl (read_stdout_line ip sp k) new_stream lines)"
    using in_step_lines [OF _ assms] by blast
  then show ?thesis
    using in_step_flush by (simp add: stream_lines_def parse_lines_def)
qed

lemma delivered_reached:
  "snd (snd (foldl (deliver ip sp) acc hops)) \<longleftrightarrow>
     snd (snd acc) \<or> (\<exists>h \<in> set hops. ip \<in> set (hop_ips (mask_private_hops sp (snd h))))"
  by (induction hops arbitrary: acc) (auto simp: deliver_def Let_def split: prod.split)

lemma delivered_numbers: "map fst (fst (foldl (deliver ip sp) acc hops)) = map fst (fst acc) @ map fst hops"
  by (induction hops arbitrary: acc) (auto simp: deliver_def Let_def split: prod.split)

text \<open>Whatever the output, nothing sent by a masked stream is a private address.\<close>

definition masked_ok :: "nat \<times> hop_data \<Rightarrow> bool" where
  "masked_ok h \<longleftrightarrow> list_all (\<lambda>ip. ip = HIDDEN \<or> \<not> is_ip_blocked ip) (hop_ips (snd h))"

lemma flush_masked: "list_all masked_ok (ts_sent st) \<Longrightarrow> list_all masked_ok (ts_sent (flush_current_hop ip False st))"
  using mask_hides by (auto simp: flush_current_hop_def Let_def masked_ok_def split: option.split)

lemma read_masked:
  assumes "list_all masked_ok (ts_sent st)"
  shows "list_all masked_ok (ts_sent (read_stdout_line ip False k st raw))"
proof -
  have "list_all masked_ok (ts_sent (flush_full ip False k s))" if "list_all masked_ok (ts_sent s)" for s
    using that by (simp add: flush_full_def flush_masked)
  then show ?thesis
    using assms by (auto simp: read_stdout_line_def Let_def flush_masked split: option.split)
qed

lemma stream_masked: "list_all masked_ok (ts_sent (stream_lines ip False k lines))"
proof -
  have "list_all masked_ok (ts_sent st) \<Longrightarrow> list_all masked_ok (ts_sent (foldl (read_stdout_line ip False k) st lines))" for st
    by (induction lines arbitrary: st) (simp_all add: read_masked)
  from this [of new_stream] show ?thesis
    by (simp add: stream_lines_def flush_masked new_stream_def)
qed

lemma sent_hop_masked:
  "(i, data) \<in> set (ts_sent (stream_lines ip False k lines)) \<Longrightarrow>
   list_all (\<lambda>a. a = HIDDEN \<or> \<not> is_ip_blocked a) (hop_ips data)"
  using stream_masked [of ip k lines] by (auto simp: list_all_iff [of masked_ok] masked_ok_def)

section \<open>Commands\<close>

definition TRACE_OPTIONS :: "string list" where
  "TRACE_OPTIONS = [''-n'', ''-q'', ''-w'', ''-m'', ''-I'', ''-T'', ''-p'']"

lemma trace_validate_bounds:
  assumes "trace_validate params = Inr v"
  shows "1 \<le> tp_port v \<and> tp_port v \<le> 65535 \<and> 1 \<le> tp_probes_per_hop v \<and> tp_probes_per_hop v \<le> 10 \<and>
    1 \<le> tp_timeout v \<and> tp_timeout v \<le> 30 \<and> 1 \<le> tp_max_distance v \<and> tp_max_distance v \<le> 64 \<and>
    tp_protocol v \<in> {''udp'', ''icmp'', ''tcp''} \<and> tp_target v \<noteq> []"
  using assms
  by (auto simp: trace_validate_def protocol_param_def dest!: int_param_bounds target_param_sound split: json.splits if_splits)

lemma trace_args_safe:
  assumes "trace_validate params = Inr v" "\<not> is_ip_blocked ip" "\<not> py_startswith ip ''-''"
  shows "safe_command ''traceroute'' TRACE_OPTIONS (trace_args ip v)"
proof -
  have nums: "str_of_int n \<noteq> [] \<and> list_all is_digit (str_of_int n)"
    if "n = tp_port v \<or> n = tp_probes_per_hop v \<or> n = tp_timeout v \<or> n = tp_max_distance v" for n
    using that trace_validate_bounds [OF assms(1)] by (intro str_of_int_digits) auto
  show ?thesis
    using assms(2,3) nums by (simp add: safe_command_def trace_args_def TRACE_OPTIONS_def butlast_append)
qed

text \<open>Only the answers of the system to such commands matter.\<close>

lemma trace_only_safe_commands:
  assumes "\<And>args. safe_command ''traceroute'' TRACE_OPTIONS args \<Longrightarrow> os args = os' args \<and> ws args = ws' args"
  shows "trace_execute (filter_target dns to r) os params = trace_execute (filter_target dns to r) os' params \<and>
    handle_traceroute_stream e text_of (filter_target dns to r) ws quota ms sid uid ip incoming d =
      handle_traceroute_stream e text_of (filter_target dns to r) ws' quota ms sid uid ip incoming d"
proof
  have same: "os (trace_args ip v) = os' (trace_args ip v)" "ws (trace_args ip v) = ws' (trace_args ip v)"
    if "trace_validate ps = Inr v" "filter_target dns to r (tp_target v) = (ip, None)" for ps v ip
    using assms trace_args_safe [OF that(1) af.address_no_option(1,2) [OF that(2)]] by simp_all
  show "trace_execute (filter_target dns to r) os params = trace_execute (filter_target dns to r) os' params"
  proof (cases "trace_validate params")
    case (Inr v)
    then show ?thesis
      using same(1) [OF Inr] by (auto simp: trace_execute_def executor_run_def split: prod.split option.split)
  qed (simp add: trace_execute_def)
  show "handle_traceroute_stream e text_of (filter_target dns to r) ws quota ms sid uid ip incoming d =
      handle_traceroute_stream e text_of (filter_target dns to r) ws' quota ms sid uid ip incoming d"
  proof (cases "open_stream trace_validate tp_target (filter_target dns to r) incoming")
    case (Opened v j a)
    then have "ws (trace_args a v) = ws' (trace_args a v)"
      using same(2) unfolding open_stream_Opened by blast
    with Opened show ?thesis
      by (simp add: handle_traceroute_stream_def)
  qed (simp_all add: handle_traceroute_stream_def)
qed

text \<open>What the client sees of a hop: the masked data, maybe with the mark of the destination.\<close>

definition shows_hop :: "bool \<Rightarrow> nat \<times> hop_data \<Rightarrow> nat \<times> hop_data \<Rightarrow> bool" where
  "shows_hop sp sent h \<longleftrightarrow> fst sent = fst h \<and> hop_probes (snd sent) = hop_probes (snd h) \<and>
     (snd sent = mask_private_hops sp (snd h) \<or> snd sent = set_reached (mask_private_hops sp (snd h)))"

lemma reached_probes [simp]: "hop_probes (set_reached data) = hop_probes data"
  by (cases data) simp_all

lemma delivered_data:
  "list_all2 (shows_hop sp) (fst acc) hs \<Longrightarrow> list_all2 (shows_hop sp) (fst (foldl (deliver ip sp) acc hops)) (hs @ hops)"
proof (induction hops arbitrary: acc hs)
  case (Cons h hops)
  have "list_all2 (shows_hop sp) (fst (deliver ip sp acc h)) (hs @ [h])"
  proof -
    have "shows_hop sp (fst h, mask_private_hops sp (snd h)) h" "shows_hop sp (fst h, set_reached (mask_private_hops sp (snd h))) h"
      by (simp_all add: shows_hop_def mask_probes)
    with Cons.prems show ?thesis
      by (auto simp: deliver_def Let_def split: prod.splits intro!: list_all2_appendI)
  qed
  from Cons.IH [OF this] show ?case by simp
qed simp

lemma segments_probes:
  "fst (snd (foldl hop_segment acc segments)) =
     fst (snd acc) @ concat (map (\<lambda>s. parse_probes_from_tokens (py_words (py_strip s))) segments)"
  by (induction segments arbitrary: acc) (auto simp: hop_segment_def Let_def split: prod.split)

section \<open>Properties\<close>

text \<open>
  C21: with the setting off no private hop is shown.  Whatever the program prints and whoever
  runs it, when the setting says that private hops are not to be shown, every address in every
  hop sent over the stream is the placeholder or an address outside the blocked networks.
\<close>

theorem trace_private_hidden:
  assumes "\<not> show_private_hops e d"
    and "handle_traceroute_stream e text_of filter_t os quota ms sid uid ip incoming d = (msgs, x, d')"
    and "ResultMsg n data \<in> set msgs"
  shows "list_all (\<lambda>a. a = HIDDEN \<or> \<not> is_ip_blocked a) (hop_ips data)"
  using assms
  by (auto simp: handle_traceroute_stream_def Let_def trace_messages_def intro: sent_hop_masked
      split: opened.splits option.splits if_splits dest!: in_set_takeD)

text \<open>
  C23: the stream shows what the batch parser finds, as long as no line continues a hop that
  already has the probes asked for.  For the address of an accepted target and such an output,
  the hops sent are those of the batch parser in order, with all their probes, and with their
  addresses and names masked; a hop differs at most by the mark of the destination, and the
  destination is reported reached exactly when it is among the responders, whether private
  hops are shown or not.
\<close>

theorem stream_follows_batch:
  assumes "filter_target dns to r target = (ip, None)" "in_time k None lines"
  shows "list_all2 (shows_hop sp) (ts_sent (stream_lines ip sp k lines)) (parse_lines lines) \<and>
    (ts_reached (stream_lines ip sp k lines) \<longleftrightarrow> (\<exists>h \<in> set (parse_lines lines). ip \<in> set (hop_ips (snd h))))"
proof -
  have sent: "ts_sent (stream_lines ip sp k lines) = fst (delivered ip sp (parse_lines lines))"
    and reached: "ts_reached (stream_lines ip sp k lines) = snd (snd (delivered ip sp (parse_lines lines)))"
    using stream_delivers [OF assms(2), of ip sp] by (simp_all add: sent_of_def) (metis fst_conv snd_conv)+
  show ?thesis
    unfolding sent reached
    using delivered_data [of sp "([], 0, False)" "[]" ip "parse_lines lines"]
      mask_keeps_unblocked [OF af.address_no_option(1) [OF assms(1)]]
    by (simp add: delivered_def delivered_reached)
qed

text \<open>
  A line that continues a hop with all its probes is lost: the stream has sent the hop and goes
  on as if the line were none, where the batch parser finds a second responder.
\<close>

lemma late_line_dropped:
  "let lines = ['' 1  10.0.0.1  0.5 ms'', ''    10.0.0.2  0.7 ms'']
   in map (hop_ips \<circ> snd) (ts_sent (stream_lines ''8.8.8.8'' True 1 lines)) = [[''10.0.0.1'']] \<and>
      map (hop_ips \<circ> snd) (parse_lines lines) = [[''10.0.0.1'', ''10.0.0.2'']]"
  by code_simp

text \<open>
  No measurement is lost on the way to a hop.  The probes shown for a hop, over all its
  responders and after masking, are exactly the probes read from its lines; a hop without any
  shows three timeouts.
\<close>

lemma hop_probes_kept:
  "let read = concat (map (\<lambda>s. parse_probes_from_tokens (py_words (py_strip s))) segments);
       shown = mset (hop_probes (mask_private_hops sp (parse_hop_group segments)))
   in shown = mset read \<or> read = [] \<and> shown = mset (replicate 3 ProbeTimeout)"
proof -
  obtain ts ps m where acc: "foldl hop_segment ([], [], []) segments = (ts, ps, m)"
    by (metis prod_cases3)
  have ps: "ps = concat (map (\<lambda>s. parse_probes_from_tokens (py_words (py_strip s))) segments)"
    using segments_probes [of "([], [], [])" segments] acc by simp
  consider "m = []" | ip h where "m = [(ip, h)]" | "1 < length m"
    by (cases m rule: remdups_adj.cases) auto
  then show ?thesis
  proof cases
    case 3
    then have "parse_hop_group segments = ManyPaths (group_probes_by_ip ts ps m) False"
      by (cases m rule: remdups_adj.cases) (auto simp: parse_hop_group_def acc)
    then show ?thesis
      using group_probes [OF 3, of ts ps] by (simp add: mask_probes Let_def ps)
  qed (auto simp: parse_hop_group_def acc mask_probes Let_def ps)
qed

section \<open>Witnesses\<close>

definition hidden_db :: db where
  "hidden_db = empty_db\<lparr>db_settings := [\<lparr>gs_id = ''g'', gs_key = ''module.traceroute.show_private_hops'', gs_value = ''False''\<rparr>]\<rparr>"

definition trace_start :: ws_incoming where
  "trace_start = Received (JObj [(''type'', JStr ''start''), (''params'', JObj [(''target'', JStr ''8.8.8.8'')])])"

definition two_hops :: "string list" where
  "two_hops = [''traceroute to 8.8.8.8 (8.8.8.8)'', '' 1  192.168.0.1  0.5 ms'', '' 2  8.8.8.8  1.5 ms'']"

lemma two_hops_sent:
  "ts_sent (stream_lines ''8.8.8.8'' False 3 two_hops) =
     [(1, OnePath (Some HIDDEN) None [ProbeOk (Finite (1 / 2))] False), (2, OnePath (Some ''8.8.8.8'') None [ProbeOk (Finite (3 / 2))] True)]"
  by code_simp

text \<open>A hop on two lines, both within the three probes asked for.\<close>

definition split_hop :: "string list" where
  "split_hop = two_hops @ ['' 3  10.0.0.1  0.5 ms'', ''    10.0.0.2  0.7 ms'']"

lemma split_hop_in_time: "in_time 3 None split_hop"
  by code_simp

definition sample_trace :: trace_params where
  "sample_trace = \<lparr>tp_target = ''8.8.8.8'', tp_protocol = ''udp'', tp_port = 33434, tp_probes_per_hop = 3, tp_timeout = 1,
     tp_max_distance = 30, tp_dns_resolution = True\<rparr>"

lemma sample_trace_validate: "trace_validate [(''target'', JStr ''8.8.8.8'')] = Inr sample_trace"
  by code_simp

lemma sample_trace_opened:
  "open_stream trace_validate tp_target (\<lambda>t. (t, None)) trace_start =
     Opened sample_trace (JObj [(''target'', JStr ''8.8.8.8'')]) ''8.8.8.8''"
  by (simp add: open_stream_def trace_start_def dict_get_def as_object_def sample_trace_validate)
    (simp add: sample_trace_def)

definition no_dns :: dns_service where
  "no_dns = \<lparr>dns_query = \<lambda>_ _ _. NXDOMAIN, canonical_name = \<lambda>_. None\<rparr>"

lemma hidden_db_masks: "\<not> show_private_hops sample_env hidden_db"
  by code_simp

theorem trace_private_hidden_witness:
  "\<exists>msgs x d' data. handle_traceroute_stream sample_env (\<lambda>_. []) (\<lambda>t. (t, None)) (\<lambda>_. Some \<lparr>wp_lines = two_hops, wp_ends_at = 0,
       wp_cancelled = False\<rparr>) None 1 ''s'' None ''1.1.1.1'' trace_start hidden_db = (msgs, x, d') \<and>
     ResultMsg 1 data \<in> set msgs \<and> list_all (\<lambda>a. a = HIDDEN \<or> \<not> is_ip_blocked a) (hop_ips data)"
proof -
  let ?data = "OnePath (Some HIDDEN) None [ProbeOk (Finite (1 / 2))] False"
  let ?run = "handle_traceroute_stream sample_env (\<lambda>_. []) (\<lambda>t. (t, None)) (\<lambda>_. Some \<lparr>wp_lines = two_hops, wp_ends_at = 0,
       wp_cancelled = False\<rparr>) None 1 ''s'' None ''1.1.1.1'' trace_start hidden_db"
  obtain msgs x d' where run: "?run = (msgs, x, d')"
    by (metis prod_cases3)
  have "ts_sent (stream_lines ''8.8.8.8'' False (tp_probes_per_hop sample_trace) two_hops) =
      [(1, ?data), (2, OnePath (Some ''8.8.8.8'') None [ProbeOk (Finite (3 / 2))] True)]"
    using two_hops_sent by (simp add: sample_trace_def)
  then have "ResultMsg 1 ?data \<in> set (fst ?run)"
    unfolding handle_traceroute_stream_def sample_trace_opened
    by (simp add: hidden_db_masks Let_def trace_messages_def)
  with run trace_private_hidden [OF hidden_db_masks run] show ?thesis
    by auto
qed

theorem stream_follows_batch_witness:
  "ts_reached (stream_lines ''8.8.8.8'' False 3 split_hop) \<and> length (ts_sent (stream_lines ''8.8.8.8'' False 3 split_hop)) = 3"
proof -
  have "filter_target no_dns False [] ''8.8.8.8'' = (''8.8.8.8'', None)"
    by code_simp
  moreover have "\<exists>h \<in> set (parse_lines split_hop). ''8.8.8.8'' \<in> set (hop_ips (snd h))" "length (parse_lines split_hop) = 3"
    by code_simp+
  ultimately show ?thesis
    using stream_follows_batch [OF _ split_hop_in_time, of no_dns False "[]" "''8.8.8.8''" "''8.8.8.8''" False]
    by (metis list_all2_lengthD)
qed

end
