(* ===== verification/Ping.thy ===== *)
theory Ping
  imports Tool_Process Complex_Main
begin

text \<open>
  \<open>app/tools/ping.py\<close> and \<open>app/websocket/handlers/ping_ws.py\<close>: parameters and command line, the
  regular expressions on the program's output, the run over HTTP, and the streaming run as a
  machine over the interleaved events of its tasks.  Times read from the output are exact
  decimals; the rounding for display is left out.
\<close>

section \<open>Matching\<close>

text \<open>The pieces of the regular expressions: each eats a prefix and returns what follows.\<close>

definition eat :: "string \<Rightarrow> string \<Rightarrow> string option" where
  "eat p s = (if py_startswith s p then Some (drop (length p) s) else None)"

definition eat_many :: "(char \<Rightarrow> bool) \<Rightarrow> string \<Rightarrow> (string \<times> string) option" where
  "eat_many p s = (let run = takeWhile p s in if run = [] then None else Some (run, dropWhile p s))"

definition eat_spaces :: "string \<Rightarrow> string option" where
  "eat_spaces s = map_option snd (eat_many py_isspace s)"

definition then_opt :: "'a option \<Rightarrow> ('a \<Rightarrow> 'b option) \<Rightarrow> 'b option" where
  "then_opt x f = (case x of None \<Rightarrow> None | Some a \<Rightarrow> f a)"

lemma then_opt_simps [simp]: "then_opt None f = None" "then_opt (Some a) f = f a"
  by (simp_all add: then_opt_def)

text \<open>\<open>re.search\<close>, and a lazy \<open>.*?\<close> over any characters: the first suffix that matches.\<close>

fun re_search :: "(string \<Rightarrow> 'a option) \<Rightarrow> string \<Rightarrow> 'a option" where
  "re_search f [] = f []"
| "re_search f (c # cs) = (case f (c # cs) of Some a \<Rightarrow> Some a | None \<Rightarrow> re_search f cs)"

definition addr_char :: "char \<Rightarrow> bool" where
  "addr_char c = (is_digit c \<or> c = CHR ''.'' \<or> c = CHR '':'' \<or> (let n = (of_char c :: nat) in 97 \<le> n \<and> n \<le> 102))"

definition decimal_char :: "char \<Rightarrow> bool" where
  "decimal_char c = (is_digit c \<or> c = CHR ''.'')"

text \<open>\<open>float\<close> of a text of digits and points; \<open>None\<close> is \<open>ValueError\<close>.\<close>

definition decimal :: "string \<Rightarrow> rat option" where
  "decimal s =
     (case py_partition (CHR ''.'') s of (whole, _, decs) \<Rightarrow>
        if CHR ''.'' \<in> set decs \<or> whole = [] \<and> decs = [] then None
        else Some (of_nat (nat_of_digits whole) + of_nat (nat_of_digits decs) / 10 ^ length decs))"

text \<open>
  \<open>PING_LINE_RE\<close>: bytes, address, sequence number, time to live and round-trip time.  The class
  of the address contains the colon, so the address is the longest run without its last
  colon.
\<close>

record ping_reply =
  pr_bytes :: nat
  pr_from :: string
  pr_seq :: nat
  pr_ttl :: nat
  pr_time :: string

definition ping_line_match :: "string \<Rightarrow> ping_reply option" where
  "ping_line_match s =
     then_opt (eat_many is_digit s) (\<lambda>(bytes, s).
     then_opt (eat '' bytes from '' s) (\<lambda>s.
     then_opt (eat_many addr_char s) (\<lambda>(run, s).
     if last run \<noteq> CHR '':'' \<or> butlast run = [] then None
     else
     then_opt (eat_spaces s) (\<lambda>s.
     then_opt (eat ''icmp_seq='' s) (\<lambda>s.
     then_opt (eat_many is_digit s) (\<lambda>(seq, s).
     then_opt (eat_spaces s) (\<lambda>s.
     then_opt (eat ''ttl='' s) (\<lambda>s.
     then_opt (eat_many is_digit s) (\<lambda>(ttl, s).
     then_opt (eat_spaces s) (\<lambda>s.
     then_opt (eat ''time='' s) (\<lambda>s.
     then_opt (eat_many decimal_char s) (\<lambda>(time, s).
     then_opt (eat ''ms'' (py_lstrip s)) (\<lambda>s.
       Some \<lparr>pr_bytes = nat_of_digits bytes, pr_from = butlast run, pr_seq = nat_of_digits seq,
             pr_ttl = nat_of_digits ttl, pr_time = time\<rparr>)))))))))))))"

definition timeout_search :: "string \<Rightarrow> nat option" where
  "timeout_search = re_search (\<lambda>s.
     then_opt (eat ''no answer yet for icmp_seq='' s) (\<lambda>s. map_option (nat_of_digits \<circ> fst) (eat_many is_digit s)))"

definition local_error_search :: "string \<Rightarrow> string option" where
  "local_error_search = re_search (\<lambda>s.
     then_opt (eat ''ping:'' s) (\<lambda>s. then_opt (eat_spaces s) (\<lambda>s. if s = [] then None else Some s)))"

definition time_search :: "string \<Rightarrow> string option" where
  "time_search = re_search (\<lambda>s.
     then_opt (eat ''time'' s) (\<lambda>s.
     then_opt (eat_spaces s) (\<lambda>s.
     then_opt (eat_many is_digit s) (\<lambda>(_, s). eat ''ms'' s))))"

definition loss_search :: "string \<Rightarrow> string option" where
  "loss_search = re_search (\<lambda>s.
     then_opt (eat_many is_digit s) (\<lambda>(loss, s).
     then_opt (eat ''% packet loss'' s) (\<lambda>s. map_option (\<lambda>_. loss) (time_search s))))"

definition summary_search :: "string \<Rightarrow> (nat \<times> nat \<times> nat) option" where
  "summary_search = re_search (\<lambda>s.
     then_opt (eat_many is_digit s) (\<lambda>(transmitted, s).
     then_opt (eat '' packets transmitted,'' s) (\<lambda>s.
     then_opt (eat_spaces s) (\<lambda>s.
     then_opt (eat_many is_digit s) (\<lambda>(received, s).
     then_opt (eat '' received'' s) (\<lambda>s.
       map_option (\<lambda>loss. (nat_of_digits transmitted, nat_of_digits received, nat_of_digits loss))
         (loss_search s)))))))"

definition rtt_stats_search :: "string \<Rightarrow> (string \<times> string \<times> string \<times> string) option" where
  "rtt_stats_search = re_search (\<lambda>s.
     then_opt (eat ''rtt min/avg/max/mdev'' s) (\<lambda>s.
     then_opt (eat ''='' (py_lstrip s)) (\<lambda>s.
     then_opt (eat_many decimal_char (py_lstrip s)) (\<lambda>(a, s). then_opt (eat ''/'' s) (\<lambda>s.
     then_opt (eat_many decimal_char s) (\<lambda>(b, s). then_opt (eat ''/'' s) (\<lambda>s.
     then_opt (eat_many decimal_char s) (\<lambda>(c, s). then_opt (eat ''/'' s) (\<lambda>s.
     then_opt (eat_many decimal_char s) (\<lambda>(d, s).
     map_option (\<lambda>_. (a, b, c, d)) (eat ''ms'' (py_lstrip s))))))))))))"

section \<open>Parsing the output\<close>

datatype ping_line =
    PingOk nat string nat nat rat
  | PingTimeout "nat option"
  | PingError string

definition parse_ping_line :: "string \<Rightarrow> exn + ping_line option" where
  "parse_ping_line line =
     (case ping_line_match line of
        Some m \<Rightarrow>
          (case decimal (pr_time m) of
             None \<Rightarrow> Inl ValueError
           | Some rtt \<Rightarrow> Inr (Some (PingOk (pr_bytes m) (pr_from m) (pr_seq m) (pr_ttl m) rtt)))
      | None \<Rightarrow>
          (case timeout_search line of
             Some seq \<Rightarrow> Inr (Some (PingTimeout (Some seq)))
           | None \<Rightarrow>
               (case local_error_search line of
                  Some message \<Rightarrow> Inr (Some (PingError message))
                | None \<Rightarrow>
                    Inr (if py_contains (py_lower line) ''timeout'' \<or> py_contains (py_lower line) ''unreachable''
                         then Some (PingTimeout None) else None))))"

fun parse_ping_lines :: "string list \<Rightarrow> exn + ping_line list" where
  "parse_ping_lines [] = Inr []"
| "parse_ping_lines (raw # rest) =
     (let line = py_strip raw
      in if line = [] \<or> py_startswith line ''PING'' then parse_ping_lines rest
         else if py_startswith line ''---'' then Inr []
         else bind_exn (parse_ping_line line) (\<lambda>item.
              bind_exn (parse_ping_lines rest) (\<lambda>items.
                Inr (case item of Some i \<Rightarrow> i # items | None \<Rightarrow> items))))"

definition ping_parse_output :: "string \<Rightarrow> exn + ping_line list" where
  "ping_parse_output stdout = parse_ping_lines (py_splitlines stdout)"

text \<open>\<open>ps_found\<close>: whether there is a summary line; without one the times are not mentioned.\<close>

record ping_summary =
  ps_found :: bool
  ps_transmitted :: int
  ps_received :: int
  ps_lost :: int
  ps_loss_pct :: rat
  ps_rtt :: "(rat \<times> rat \<times> rat \<times> rat) option"

definition decimals :: "string \<times> string \<times> string \<times> string \<Rightarrow> (rat \<times> rat \<times> rat \<times> rat) option" where
  "decimals t = (case t of (a, b, c, d) \<Rightarrow>
     (case (decimal a, decimal b, decimal c, decimal d) of
        (Some a', Some b', Some c', Some d') \<Rightarrow> Some (a', b', c', d')
      | _ \<Rightarrow> None))"

definition parse_summary :: "string \<Rightarrow> exn + ping_summary" where
  "parse_summary stdout =
     (case summary_search stdout of
        None \<Rightarrow> Inr \<lparr>ps_found = False, ps_transmitted = 0, ps_received = 0, ps_lost = 0, ps_loss_pct = 0, ps_rtt = None\<rparr>
      | Some (transmitted, received, loss) \<Rightarrow>
          (let base = \<lparr>ps_found = True, ps_transmitted = int transmitted, ps_received = int received,
                 ps_lost = int transmitted - int received, ps_loss_pct = of_nat loss, ps_rtt = None\<rparr>
           in case rtt_stats_search stdout of
                None \<Rightarrow> Inr base
              | Some r \<Rightarrow> (case decimals r of None \<Rightarrow> Inl ValueError | Some q \<Rightarrow> Inr (base\<lparr>ps_rtt := Some q\<rparr>))))"

section \<open>Parameters and command line\<close>

record ping_params =
  pp_target :: string
  pp_count :: int
  pp_timeout :: int
  pp_packet_size :: int
  pp_df_bit :: bool
  pp_dscp :: int
  pp_max_duration :: int

definition ping_validate :: "(string \<times> json) list \<Rightarrow> exn + ping_params" where
  "ping_validate params =
     bind_exn (target_param params) (\<lambda>target.
     bind_exn (int_param ''count'' 4 0 100 params) (\<lambda>count.
     bind_exn (int_param ''timeout'' 10 1 60 params) (\<lambda>timeout.
     bind_exn (int_param ''packet_size'' 56 8 65507 params) (\<lambda>packet_size.
     bind_exn (int_param ''dscp'' 0 0 63 params) (\<lambda>dscp.
     bind_exn (int_param ''max_duration'' 30 1 300 params) (\<lambda>max_duration.
       Inr \<lparr>pp_target = target, pp_count = count, pp_timeout = timeout, pp_packet_size = packet_size,
            pp_df_bit = json_true (dict_get ''df_bit'' (JBool False) params), pp_dscp = dscp,
            pp_max_duration = max_duration\<rparr>))))))"

definition ping_args :: "string \<Rightarrow> ping_params \<Rightarrow> string list" where
  "ping_args target_ip params =
     [''ping''] @ (if pp_count params > 0 then [''-c'', str_of_int (pp_count params)] else []) @
     [''-W'', str_of_int (pp_timeout params), ''-s'', str_of_int (pp_packet_size params)] @
     (if pp_df_bit params then [''-M'', ''do''] else []) @
     (if pp_dscp params > 0 then [''-Q'', str_of_int (push_bit 2 (pp_dscp params))] else []) @
     (if pp_max_duration params > 0 \<and> pp_count params = 0 then [''-w'', str_of_int (pp_max_duration params)] else []) @
     [target_ip]"

section \<open>The run over HTTP\<close>

definition line_json :: "(rat \<Rightarrow> json) \<Rightarrow> ping_line \<Rightarrow> json" where
  "line_json num l = (case l of
     PingOk bytes from seq ttl rtt \<Rightarrow>
       JObj [(''bytes'', JInt (int bytes)), (''from'', JStr from), (''seq'', JInt (int seq)), (''ttl'', JInt (int ttl)),
             (''rtt_ms'', num rtt), (''status'', JStr ''ok'')]
   | PingTimeout (Some seq) \<Rightarrow> JObj [(''status'', JStr ''timeout''), (''seq'', JInt (int seq))]
   | PingTimeout None \<Rightarrow> JObj [(''status'', JStr ''timeout'')]
   | PingError m \<Rightarrow> JObj [(''status'', JStr ''error''), (''error_type'', JStr ''local_error''), (''message'', JStr m)])"

definition summary_json :: "(rat \<Rightarrow> json) \<Rightarrow> ping_summary \<Rightarrow> json" where
  "summary_json num s = JObj ([(''transmitted'', JInt (ps_transmitted s)), (''received'', JInt (ps_received s)),
     (''lost'', JInt (ps_lost s)), (''loss_pct'', num (ps_loss_pct s))] @
     (if \<not> ps_found s then []
      else (case ps_rtt s of
        Some (a, b, c, d) \<Rightarrow> [(''rtt_min_ms'', num a), (''rtt_avg_ms'', num b), (''rtt_max_ms'', num c), (''rtt_mdev_ms'', num d)]
      | None \<Rightarrow> [(''rtt_min_ms'', JNull), (''rtt_avg_ms'', JNull), (''rtt_max_ms'', JNull), (''rtt_mdev_ms'', JNull)])))"

text \<open>\<open>num\<close> is the JSON form of a floating-point number.\<close>

definition ping_execute ::
    "(rat \<Rightarrow> json) \<Rightarrow> (string \<Rightarrow> string \<times> string option) \<Rightarrow> (string list \<Rightarrow> process_run) \<Rightarrow> (string \<times> json) list \<Rightarrow>
     exn + tool_result" where
  "ping_execute num filter_t os params =
     bind_exn (ping_validate params) (\<lambda>validated.
       (case filter_t (pp_target validated) of
          (_, Some block_error) \<Rightarrow> Inr \<lparr>tr_success = False, tr_data = JNull, tr_error = Some block_error\<rparr>
        | (resolved_ip, None) \<Rightarrow>
            bind_exn (executor_run 90 os (ping_args resolved_ip validated) (Some (pp_max_duration validated + 10))) (\<lambda>result.
              if sr_timed_out result
              then Inr \<lparr>tr_success = False, tr_data = JNull, tr_error = Some ''errors.timeout''\<rparr>
              else bind_exn (ping_parse_output (sr_stdout result)) (\<lambda>lines.
                   bind_exn (parse_summary (sr_stdout result)) (\<lambda>summary.
                     Inr \<lparr>tr_success = (sr_exit_code result = 0 \<or> lines \<noteq> []),
                          tr_data = JObj [(''lines'', JList (map (line_json num) lines)), (''summary'', summary_json num summary),
                                          (''raw_stdout'', JStr (sr_stdout result))],
                          tr_error = None\<rparr>)))))"

section \<open>The streaming run\<close>

text \<open>
  The reader of the output, the reader of the errors and the watch for time-outs are tasks of
  one loop; a run is the sequence of what they see: a line of output, a line of errors, or
  the time since the start at which the watch looks.
\<close>

datatype ping_event = StdoutLine string | StderrLine string | Tick tstamp

definition PING_INTERVAL :: int where "PING_INTERVAL = 1"

datatype ping_out = OutResult nat ping_line | OutNotice string

text \<open>
  \<open>pg_results\<close> is \<open>results_by_seq\<close>, \<open>pg_received\<close> the set of sequence numbers already
  reported, \<open>pg_stdout\<close> the lines read, \<open>pg_error\<close> the exception that has ended the reader.
\<close>

record ping_stream =
  pg_results :: "(nat \<times> ping_line) list"
  pg_received :: "nat list"
  pg_stdout :: "string list"
  pg_sent :: "ping_out list"
  pg_error :: "exn option"

definition max_seq :: "(nat \<times> ping_line) list \<Rightarrow> nat" where
  "max_seq results = foldl max 0 (map fst results)"

definition emit :: "nat \<Rightarrow> ping_line \<Rightarrow> ping_stream \<Rightarrow> ping_stream" where
  "emit seq item st =
     st\<lparr>pg_results := dict_set seq item (pg_results st),
        pg_received := (if seq \<in> set (pg_received st) then pg_received st else seq # pg_received st),
        pg_sent := pg_sent st @ [OutResult seq item]\<rparr>"

definition ping_stdout_line :: "string \<Rightarrow> ping_stream \<Rightarrow> ping_stream" where
  "ping_stdout_line raw st =
     (let decoded = py_strip raw
      in if pg_error st \<noteq> None \<or> decoded = [] then st
         else
           (let st1 = st\<lparr>pg_stdout := pg_stdout st @ [decoded]\<rparr>
            in if py_startswith decoded ''PING'' \<or> py_startswith decoded ''---'' then st1
               else (case ping_parse_output decoded of
                   Inl x \<Rightarrow> st1\<lparr>pg_error := Some x\<rparr>
                 | Inr [] \<Rightarrow> st1
                 | Inr (PingError message # _) \<Rightarrow> st1\<lparr>pg_sent := pg_sent st1 @ [OutNotice message]\<rparr>
                 | Inr (PingOk bytes from seq ttl rtt # _) \<Rightarrow> emit seq (PingOk bytes from seq ttl rtt) st1
                 | Inr (PingTimeout (Some seq) # _) \<Rightarrow> emit seq (PingTimeout (Some seq)) st1
                 | Inr (PingTimeout None # _) \<Rightarrow>
                     (let seq = max_seq (pg_results st1) + 1 in emit seq (PingTimeout (Some seq)) st1))))"

definition ping_stderr_line :: "string \<Rightarrow> ping_stream \<Rightarrow> ping_stream" where
  "ping_stderr_line raw st =
     (let decoded = py_strip raw
      in if decoded \<noteq> [] \<and> py_contains decoded ''ping:'' then st\<lparr>pg_sent := pg_sent st @ [OutNotice decoded]\<rparr> else st)"

definition watch_seq :: "int \<Rightarrow> tstamp \<Rightarrow> ping_stream \<Rightarrow> nat \<Rightarrow> ping_stream" where
  "watch_seq per_packet_timeout now st seq =
     (if seq \<in> set (pg_received st) then st
      else if sec ((int seq - 1) * PING_INTERVAL) + sec per_packet_timeout \<le> now then emit seq (PingTimeout (Some seq)) st
      else st)"

definition watch_timeouts :: "int \<Rightarrow> int \<Rightarrow> tstamp \<Rightarrow> ping_stream \<Rightarrow> ping_stream" where
  "watch_timeouts count per_packet_timeout now st =
     (if count \<le> 0 then st else foldl (watch_seq per_packet_timeout now) st [1..<nat count + 1])"

definition ping_step :: "ping_params \<Rightarrow> ping_stream \<Rightarrow> ping_event \<Rightarrow> ping_stream" where
  "ping_step v st ev =
     (case ev of
        StdoutLine raw \<Rightarrow> ping_stdout_line raw st
      | StderrLine raw \<Rightarrow> ping_stderr_line raw st
      | Tick now \<Rightarrow> watch_timeouts (pp_count v) (pp_timeout v) now st)"

definition new_ping :: ping_stream where
  "new_ping = \<lparr>pg_results = [], pg_received = [], pg_stdout = [], pg_sent = [], pg_error = None\<rparr>"

definition use_count :: "ping_params \<Rightarrow> bool \<Rightarrow> int \<Rightarrow> ping_stream \<Rightarrow> int" where
  "use_count v timed_out real_transmitted st =
     (let n = (if real_transmitted > 0 then real_transmitted
               else if pp_count v > 0 then pp_count v else int (max_seq (pg_results st)))
      in if timed_out \<and> pp_max_duration v > 0 then min n (pp_max_duration v div PING_INTERVAL) else n)"

definition fill_seq :: "ping_stream \<Rightarrow> nat \<Rightarrow> ping_stream" where
  "fill_seq st s =
     (if s \<in> set (pg_received st) then st
      else st\<lparr>pg_results := dict_set s (PingTimeout (Some s)) (pg_results st),
             pg_sent := pg_sent st @ [OutResult s (PingTimeout (Some s))]\<rparr>)"

definition fill_missing :: "int \<Rightarrow> ping_stream \<Rightarrow> ping_stream" where
  "fill_missing n st = foldl fill_seq st [1..<nat n + 1]"

text \<open>Statistics of the round-trip times: least, mean, greatest, and the variance of two or more.\<close>

record rtt_stats =
  rs_min :: rat
  rs_avg :: rat
  rs_max :: rat
  rs_variance :: "rat option"

definition variance :: "rat list \<Rightarrow> rat" where
  "variance values =
     (if length values < 2 then 0
      else (let mean = sum_list values / of_nat (length values)
            in sum_list (map (\<lambda>x. (x - mean) ^ 2) values) / of_nat (length values)))"

definition rtts_of :: "(nat \<times> ping_line) list \<Rightarrow> rat list" where
  "rtts_of results = concat (map (\<lambda>(_, i). case i of PingOk _ _ _ _ rtt \<Rightarrow> [rtt] | _ \<Rightarrow> []) results)"

definition rtt_stats_of :: "rat list \<Rightarrow> rtt_stats option" where
  "rtt_stats_of rtts =
     (case rtts of
        [] \<Rightarrow> None
      | r # rs \<Rightarrow> Some \<lparr>rs_min = foldl min r rs, rs_avg = sum_list rtts / of_nat (length rtts), rs_max = foldl max r rs,
                      rs_variance = (if 2 \<le> length rtts then Some (variance rtts) else None)\<rparr>)"

record stream_summary =
  ss_transmitted :: int
  ss_received :: int
  ss_lost :: int
  ss_loss_pct :: rat
  ss_rtt :: "rtt_stats option"

definition build_summary :: "(nat \<times> ping_line) list \<Rightarrow> int \<Rightarrow> stream_summary" where
  "build_summary results expected_count =
     (let transmitted = max expected_count (int (max_seq results));
          received = int (length (rtts_of results));
          lost = transmitted - received
      in \<lparr>ss_transmitted = transmitted, ss_received = received, ss_lost = lost,
          ss_loss_pct = (if transmitted > 0 then of_int lost / of_int transmitted * 100 else 0),
          ss_rtt = rtt_stats_of (rtts_of results)\<rparr>)"

definition ping_summary_of :: "bool \<Rightarrow> ping_summary \<Rightarrow> int \<Rightarrow> ping_stream \<Rightarrow> stream_summary" where
  "ping_summary_of timed_out parsed n st =
     (if ps_transmitted parsed > 0 \<and> \<not> timed_out
      then \<lparr>ss_transmitted = ps_transmitted parsed, ss_received = ps_received parsed, ss_lost = ps_lost parsed,
            ss_loss_pct = ps_loss_pct parsed, ss_rtt = rtt_stats_of (rtts_of (pg_results st))\<rparr>
      else build_summary (pg_results st) n)"

text \<open>
  The end of a run: the exception of the reader surfaces, the statistics block is parsed, the
  packets nobody has heard of are reported lost, and the summary is drawn up.
\<close>

definition LF :: string where "LF = [CHR 0x0A]"

definition ping_finish :: "ping_params \<Rightarrow> bool \<Rightarrow> ping_stream \<Rightarrow> exn + ping_stream \<times> stream_summary" where
  "ping_finish v timed_out st =
     (case pg_error st of
        Some x \<Rightarrow> Inl x
      | None \<Rightarrow>
          bind_exn (parse_summary (py_join LF (pg_stdout st))) (\<lambda>parsed.
            let n = use_count v timed_out (ps_transmitted parsed) st; st1 = fill_missing n st
            in Inr (st1, ping_summary_of timed_out parsed n st1)))"

record ping_process =
  pq_events :: "ping_event list"
  pq_ends_at :: tstamp
  pq_cancelled :: bool

type_synonym ping_msg = "(ping_line, stream_summary) ws_msg"

definition out_msg :: "ping_out \<Rightarrow> ping_msg" where
  "out_msg x = (case x of OutResult seq item \<Rightarrow> ResultMsg (int seq) item | OutNotice t \<Rightarrow> NoticeMsg t)"

definition ping_params_json :: "ping_params \<Rightarrow> json" where
  "ping_params_json v = JObj [(''target'', JStr (pp_target v)), (''count'', JInt (pp_count v)), (''timeout'', JInt (pp_timeout v)),
     (''packet_size'', JInt (pp_packet_size v)), (''df_bit'', JBool (pp_df_bit v)), (''dscp'', JInt (pp_dscp v)),
     (''max_duration'', JInt (pp_max_duration v))]"

text \<open>
  The handler, with the conventions of the traceroute handler; \<open>ms\<close> is the duration it has
  measured when it logs.
\<close>

definition handle_ping_stream ::
    "env \<Rightarrow> (exn \<Rightarrow> string) \<Rightarrow> (string \<Rightarrow> string \<times> string option) \<Rightarrow> (string list \<Rightarrow> ping_process option) \<Rightarrow> nat option \<Rightarrow>
     int \<Rightarrow> string \<Rightarrow> string option \<Rightarrow> string \<Rightarrow> ws_incoming \<Rightarrow> db \<Rightarrow> ping_msg list \<times> exn option \<times> db" where
  "handle_ping_stream e text_of filter_t os quota ms session_id user_id source_ip incoming d =
     (let log = (\<lambda>params result duration err. log_tool_exec e ''ping'' params result duration err user_id session_id source_ip d);
          gone = (\<lambda>msgs. case quota of Some k \<Rightarrow> k < length msgs | None \<Rightarrow> False)
      in case open_stream ping_validate pp_target filter_t incoming of
           Refused key \<Rightarrow> ([ErrorMsg key], None, d)
         | Escaped x \<Rightarrow> ([], Some x, d)
         | Failed params x \<Rightarrow> ([ErrorMsg ''errors.internal_error''], None, log params ''failure'' 0 (Some (text_of x)))
         | Opened validated params resolved_ip \<Rightarrow>
             (case os (ping_args resolved_ip validated) of
                None \<Rightarrow> ([ErrorMsg ''errors.internal_error''], None,
                         log params ''failure'' 0 (Some (text_of (PyError ''FileNotFoundError''))))
              | Some p \<Rightarrow>
                  (let st = foldl (ping_step validated) new_ping (pq_events p);
                       timed_out = (sec (pp_max_duration validated) < pq_ends_at p);
                       early = map out_msg (pg_sent st)
                   in if gone early then (take (the quota) early, None, log params ''partial'' ms (Some ''Cancelled by user''))
                      else (case ping_finish validated timed_out st of
                          Inl x \<Rightarrow> (early @ [ErrorMsg ''errors.internal_error''], None, log params ''failure'' 0 (Some (text_of x)))
                        | Inr (st1, summary) \<Rightarrow>
                            (let msgs = map out_msg (pg_sent st1) @ [CompleteMsg summary (terminated_by timed_out (pq_cancelled p))]
                             in if gone msgs then (take (the quota) msgs, None, log params ''partial'' ms (Some ''Cancelled by user''))
                                else (msgs, None, log (ping_params_json validated) ''success'' ms None))))))"

section \<open>Commands\<close>

definition PING_OPTIONS :: "string list" where
  "PING_OPTIONS = [''-c'', ''-W'', ''-s'', ''-M'', ''do'', ''-Q'', ''-w'']"

lemma ping_validate_bounds:
  assumes "ping_validate params = Inr v"
  shows "0 \<le> pp_count v \<and> pp_count v \<le> 100 \<and> 1 \<le> pp_timeout v \<and> pp_timeout v \<le> 60 \<and>
    8 \<le> pp_packet_size v \<and> pp_packet_size v \<le> 65507 \<and> 0 \<le> pp_dscp v \<and> pp_dscp v \<le> 63 \<and>
    1 \<le> pp_max_duration v \<and> pp_max_duration v \<le> 300 \<and> pp_target v \<noteq> []"
  using assms by (auto simp: ping_validate_def dest!: int_param_bounds target_param_sound)

lemma ping_args_safe:
  assumes "ping_validate params = Inr v" "\<not> is_ip_blocked ip" "\<not> py_startswith ip ''-''"
  shows "safe_command ''ping'' PING_OPTIONS (ping_args ip v)"
proof -
  have nums: "str_of_int n \<noteq> [] \<and> list_all is_digit (str_of_int n)"
    if "n = pp_count v \<or> n = pp_timeout v \<or> n = pp_packet_size v \<or> n = push_bit 2 (pp_dscp v) \<or> n = pp_max_duration v" for n
    using that ping_validate_bounds [OF assms(1)] by (intro str_of_int_digits) (auto simp: push_bit_eq_mult)
  show ?thesis
    using assms(2,3) nums by (simp add: safe_command_def ping_args_def PING_OPTIONS_def butlast_append)
qed

text \<open>Only the answers of the system to such commands matter.\<close>

lemma ping_only_safe_commands:
  assumes "\<And>args. safe_command ''ping'' PING_OPTIONS args \<Longrightarrow> os args = os' args \<and> ws args = ws' args"
  shows "ping_execute num (filter_target dns to r) os params = ping_execute num (filter_target dns to r) os' params \<and>
    handle_ping_stream e text_of (filter_target dns to r) ws quota ms sid uid ip incoming d =
      handle_ping_stream e text_of (filter_target dns to r) ws' quota ms sid uid ip incoming d"
proof
  have same: "os (ping_args ip v) = os' (ping_args ip v)" "ws (ping_args ip v) = ws' (ping_args ip v)"
    if "ping_validate ps = Inr v" "filter_target dns to r (pp_target v) = (ip, None)" for ps v ip
    using assms ping_args_safe [OF that(1) af.address_no_option(1,2) [OF that(2)]] by simp_all
  show "ping_execute num (filter_target dns to r) os params = ping_execute num (filter_target dns to r) os' params"
  proof (cases "ping_validate params")
    case (Inr v)
    then show ?thesis
      using same(1) [OF Inr] by (auto simp: ping_execute_def executor_run_def split: prod.split option.split)
  qed (simp add: ping_execute_def)
  show "handle_ping_stream e text_of (filter_target dns to r) ws quota ms sid uid ip incoming d =
      handle_ping_stream e text_of (filter_target dns to r) ws' quota ms sid uid ip incoming d"
  proof (cases "open_stream ping_validate pp_target (filter_target dns to r) incoming")
    case (Opened v j a)
    then have "ws (ping_args a v) = ws' (ping_args a v)"
      using same(2) unfolding open_stream_Opened by blast
    with Opened show ?thesis
      by (simp add: handle_ping_stream_def)
  qed (simp_all add: handle_ping_stream_def)
qed

section \<open>The invariant of a stream\<close>

text \<open>What the client was told last about each sequence number.\<close>

fun out_result :: "ping_out \<Rightarrow> (nat \<times> ping_line) list" where
  "out_result (OutResult seq item) = [(seq, item)]"
| "out_result (OutNotice _) = []"

definition reported :: "ping_out list \<Rightarrow> nat \<Rightarrow> ping_line option" where
  "reported outs = map_of (rev (concat (map out_result outs)))"

lemma reported_snoc [simp]:
  "reported (outs @ [OutResult seq item]) = (reported outs)(seq \<mapsto> item)"
  "reported (outs @ [OutNotice t]) = reported outs"
  by (simp_all add: reported_def)

definition ping_ok :: "ping_stream \<Rightarrow> bool" where
  "ping_ok st \<longleftrightarrow> map_of (pg_results st) = reported (pg_sent st) \<and> distinct (map fst (pg_results st)) \<and>
     (\<forall>s \<in> set (pg_received st). reported (pg_sent st) s \<noteq> None)"

lemma ping_ok_new: "ping_ok new_ping"
  by (simp add: ping_ok_def new_ping_def reported_def)

lemma ping_ok_emit: "ping_ok st \<Longrightarrow> ping_ok (emit seq item st)"
  by (auto simp: ping_ok_def emit_def map_of_dict_set distinct_dict_set)

lemma ping_ok_notice: "ping_ok st \<Longrightarrow> ping_ok (st\<lparr>pg_sent := pg_sent st @ [OutNotice t]\<rparr>)"
  by (simp add: ping_ok_def)

lemma ping_ok_other [simp]:
  "ping_ok (st\<lparr>pg_stdout := ls\<rparr>) = ping_ok st" "ping_ok (st\<lparr>pg_error := x\<rparr>) = ping_ok st"
  by (simp_all add: ping_ok_def)

lemma ping_ok_stdout: "ping_ok st \<Longrightarrow> ping_ok (ping_stdout_line raw st)"
  by (auto simp: ping_stdout_line_def Let_def ping_ok_emit ping_ok_def [of "pg_sent_update _ _"] ping_ok_def [of st]
      split: sum.split list.split ping_line.split option.split)

lemma foldl_keeps: "P st \<Longrightarrow> (\<And>st x. P st \<Longrightarrow> P (f st x)) \<Longrightarrow> P (foldl f st xs)"
  by (induction xs arbitrary: st) auto

lemma ping_ok_watch: "ping_ok st \<Longrightarrow> ping_ok (watch_timeouts c t now st)"
  using foldl_keeps [of ping_ok st "watch_seq t now" "[1..<nat c + 1]"]
  by (simp add: watch_timeouts_def watch_seq_def ping_ok_emit)

lemma ping_ok_step: "ping_ok st \<Longrightarrow> ping_ok (ping_step v st ev)"
  by (cases ev) (simp_all add: ping_step_def ping_ok_stdout ping_ok_watch ping_stderr_line_def Let_def ping_ok_notice)

lemma ping_ok_run: "ping_ok (foldl (ping_step v) new_ping evs)"
  by (rule foldl_keeps) (simp_all add: ping_ok_new ping_ok_step)

lemma ping_ok_fill_seq: "ping_ok st \<Longrightarrow> ping_ok (fill_seq st s)"
  by (auto simp: ping_ok_def fill_seq_def map_of_dict_set distinct_dict_set)

lemma ping_ok_fill: "ping_ok st \<Longrightarrow> ping_ok (fill_missing n st)"
  unfolding fill_missing_def by (rule foldl_keeps) (simp_all add: ping_ok_fill_seq)

lemma fill_seq_reports: "ping_ok st \<Longrightarrow> reported (pg_sent (fill_seq st s)) s \<noteq> None"
  by (auto simp: fill_seq_def ping_ok_def)

lemma fill_keeps: "reported (pg_sent st) s \<noteq> None \<Longrightarrow> reported (pg_sent (foldl fill_seq st xs)) s \<noteq> None"
  by (rule foldl_keeps [of "\<lambda>st. reported (pg_sent st) s \<noteq> None"]) (simp_all add: fill_seq_def)

lemma fill_reports: "ping_ok st \<Longrightarrow> s \<in> set xs \<Longrightarrow> reported (pg_sent (foldl fill_seq st xs)) s \<noteq> None"
proof (induction xs arbitrary: st)
  case (Cons x xs)
  then show ?case
    using fill_keeps [OF fill_seq_reports] by (auto simp: ping_ok_fill_seq)
qed simp

text \<open>The watch reports exactly the packets whose time is over, once.\<close>

definition overdue :: "int \<Rightarrow> tstamp \<Rightarrow> nat \<Rightarrow> bool" where
  "overdue per_packet_timeout now seq \<longleftrightarrow> sec ((int seq - 1) * PING_INTERVAL) + sec per_packet_timeout \<le> now"

lemma watch_fold:
  "distinct xs \<Longrightarrow>
   pg_sent (foldl (watch_seq t now) st xs) =
     pg_sent st @ map (\<lambda>s. OutResult s (PingTimeout (Some s))) (filter (\<lambda>s. s \<notin> set (pg_received st) \<and> overdue t now s) xs) \<and>
   set (pg_received (foldl (watch_seq t now) st xs)) = set (pg_received st) \<union> {s \<in> set xs. overdue t now s}"
proof (induction xs arbitrary: st)
  case (Cons x xs)
  have "filter (\<lambda>s. s \<notin> set (pg_received (watch_seq t now st x)) \<and> overdue t now s) xs =
      filter (\<lambda>s. s \<notin> set (pg_received st) \<and> overdue t now s) xs"
    using Cons.prems by (intro filter_cong) (auto simp: watch_seq_def emit_def)
  with Cons.IH [of "watch_seq t now st x"] Cons.prems show ?case
    by (auto simp: watch_seq_def emit_def overdue_def)
qed simp

section \<open>Statistics\<close>

lemma foldl_min_le: "foldl min (a :: rat) xs \<le> a \<and> (\<forall>x \<in> set xs. foldl min a xs \<le> x)"
proof (induction xs arbitrary: a)
  case (Cons y ys)
  from Cons.IH [of "min a y"] show ?case by auto
qed simp

lemma foldl_max_ge: "a \<le> foldl max (a :: 'a::linorder) xs \<and> (\<forall>x \<in> set xs. x \<le> foldl max a xs)"
proof (induction xs arbitrary: a)
  case (Cons y ys)
  from Cons.IH [of "max a y"] show ?case by auto
qed simp

lemma sum_list_bounds: "(\<And>x. x \<in> set xs \<Longrightarrow> lo \<le> x \<and> x \<le> hi) \<Longrightarrow>
    of_nat (length xs) * lo \<le> sum_list xs \<and> sum_list xs \<le> of_nat (length xs) * (hi :: rat)"
  by (induction xs) (force simp: algebra_simps)+

lemma stats_ordered:
  assumes "rtt_stats_of rtts = Some s"
  shows "rs_min s \<le> rs_avg s \<and> rs_avg s \<le> rs_max s"
proof -
  obtain r rs where rtts: "rtts = r # rs"
    using assms by (cases rtts) (auto simp: rtt_stats_of_def)
  have s: "rs_min s = foldl min r rs" "rs_max s = foldl max r rs" "rs_avg s = sum_list rtts / of_nat (length rtts)"
    using assms by (auto simp: rtt_stats_of_def rtts)
  have "of_nat (length rtts) * rs_min s \<le> sum_list rtts \<and> sum_list rtts \<le> of_nat (length rtts) * rs_max s"
    using foldl_min_le [of r rs] foldl_max_ge [of r rs] unfolding s rtts by (intro sum_list_bounds) auto
  then show ?thesis
    by (simp add: s(3) rtts field_simps)
qed

lemma received_keys: "length (rtts_of results) \<le> length results"
  by (induction results) (auto simp: rtts_of_def split: ping_line.split)

lemma distinct_pos_le:
  assumes "distinct (xs :: nat list)" "0 \<notin> set xs" "\<forall>x \<in> set xs. x \<le> m"
  shows "length xs \<le> m"
proof -
  have "set xs \<subseteq> {1..m}"
    using assms(2,3) by (auto simp: Suc_le_eq intro: gr0I)
  then have "card (set xs) \<le> card {1..m}"
    by (intro card_mono) auto
  with assms(1) show ?thesis
    by (simp add: distinct_card)
qed

lemma received_max_seq:
  assumes "distinct (map fst results)" "0 \<notin> set (map fst results)"
  shows "length (rtts_of results) \<le> max_seq results"
proof -
  have "length (map fst results) \<le> max_seq results"
    unfolding max_seq_def using foldl_max_ge [of 0 "map fst results"] assms by (intro distinct_pos_le) blast+
  with received_keys [of results] show ?thesis by simp
qed

fun is_reply :: "ping_line option \<Rightarrow> bool" where
  "is_reply (Some (PingOk _ _ _ _ _)) = True"
| "is_reply _ = False"

lemma received_card:
  "distinct (map fst results) \<Longrightarrow> length (rtts_of results) = card {s. is_reply (map_of results s)}"
proof (induction results)
  case Nil
  then show ?case by (simp add: rtts_of_def)
next
  case (Cons kv results)
  obtain k i where kv: "kv = (k, i)" by fastforce
  have fresh: "map_of results k = None"
    using Cons.prems by (simp add: kv map_of_eq_None_iff)
  have fin: "finite {s. is_reply (map_of results s)}"
  proof (rule finite_subset)
    show "{s. is_reply (map_of results s)} \<subseteq> dom (map_of results)"
      by (auto simp: dom_def elim: is_reply.elims)
  qed (rule finite_dom_map_of)
  have set: "{s. is_reply (map_of (kv # results) s)} =
      (if is_reply (Some i) then insert k else id) {s. is_reply (map_of results s)}"
    using fresh by (auto simp: kv split: if_splits)
  have "k \<notin> {s. is_reply (map_of results s)}"
    using fresh by simp
  moreover have "length (rtts_of (kv # results)) = (if is_reply (Some i) then 1 else 0) + length (rtts_of results)"
    by (cases i) (simp_all add: kv rtts_of_def)
  ultimately show ?case
    using Cons fin unfolding set by simp
qed

section \<open>Properties\<close>

text \<open>
  Time-outs are reported on time and once.  Each look of the watch reports, in order and
  as time-outs, exactly those packets of the run that nobody has heard of and whose time is
  over: packet n, sent n - 1 intervals after the start, is due its time-out later.
\<close>

lemma ping_timeouts_exact:
  "let st' = watch_timeouts count t now st;
       due = filter (overdue t now) [1..<nat count + 1]
   in pg_sent st' = pg_sent st @ map (\<lambda>s. OutResult s (PingTimeout (Some s))) (filter (\<lambda>s. s \<notin> set (pg_received st)) due) \<and>
      set (pg_received st') = set (pg_received st) \<union> set due"
proof -
  let ?xs = "[1..<nat count + 1]"
  have filter: "filter (\<lambda>s. s \<notin> set (pg_received st)) (filter (overdue t now) ?xs) =
      filter (\<lambda>s. s \<notin> set (pg_received st) \<and> overdue t now s) ?xs"
    by (simp add: conj_commute)
  show ?thesis
    using watch_fold [of ?xs t now st] unfolding filter Let_def by (auto simp: watch_timeouts_def)
qed

text \<open>
  C24: what the client saw and what the summary says.  When a run has ended, however the
  lines, errors and looks of the watch were interleaved, the table of results is what the
  client was told last about each packet, every packet counted as sent has been reported, and
  the round-trip times of the summary are those of the table.  The counts come from one of two
  places.  A run that ended by itself and whose output closes with a statistics block takes
  all four figures from that block, whatever was reported packet by packet; a run cut off by
  its deadline, or one without a block, counts as received exactly the packets whose last
  report is a reply, and the rest of the packets as lost.
\<close>

theorem ping_stream_consistent:
  assumes "ping_finish v timed_out (foldl (ping_step v) new_ping evs) = Inr (st, sm)"
  shows "\<exists>parsed. parse_summary (py_join LF (pg_stdout (foldl (ping_step v) new_ping evs))) = Inr parsed \<and>
    (let n = use_count v timed_out (ps_transmitted parsed) (foldl (ping_step v) new_ping evs)
     in map_of (pg_results st) = reported (pg_sent st) \<and>
        list_all (\<lambda>s. reported (pg_sent st) s \<noteq> None) [1..<nat n + 1] \<and>
        ss_rtt sm = rtt_stats_of (rtts_of (pg_results st)) \<and>
        (if timed_out \<or> ps_transmitted parsed \<le> 0
         then ss_received sm = int (card {s. is_reply (reported (pg_sent st) s)}) \<and> n \<le> ss_transmitted sm \<and>
              ss_lost sm = ss_transmitted sm - ss_received sm
         else ss_transmitted sm = ps_transmitted parsed \<and> ss_received sm = ps_received parsed \<and>
              ss_lost sm = ps_lost parsed \<and> ss_loss_pct sm = ps_loss_pct parsed))"
proof -
  let ?st = "foldl (ping_step v) new_ping evs"
  obtain parsed where parsed: "parse_summary (py_join LF (pg_stdout ?st)) = Inr parsed"
    and st: "st = fill_missing (use_count v timed_out (ps_transmitted parsed) ?st) ?st"
    and sm: "sm = ping_summary_of timed_out parsed (use_count v timed_out (ps_transmitted parsed) ?st) st"
    using assms by (auto simp: ping_finish_def Let_def split: option.splits)
  let ?n = "use_count v timed_out (ps_transmitted parsed) ?st"
  have ok: "ping_ok st"
    unfolding st by (rule ping_ok_fill [OF ping_ok_run])
  then have same: "map_of (pg_results st) = reported (pg_sent st)" and dist: "distinct (map fst (pg_results st))"
    by (simp_all add: ping_ok_def)
  have "list_all (\<lambda>s. reported (pg_sent st) s \<noteq> None) [1..<nat ?n + 1]"
    using fill_reports [OF ping_ok_run] unfolding st fill_missing_def list_all_iff by blast
  moreover have "ss_received sm = int (card {s. is_reply (reported (pg_sent st) s)}) \<and> ?n \<le> ss_transmitted sm \<and>
      ss_lost sm = ss_transmitted sm - ss_received sm" if "timed_out \<or> ps_transmitted parsed \<le> 0"
    using that received_card [OF dist] unfolding sm same by (auto simp: ping_summary_of_def build_summary_def Let_def)
  moreover have "ss_rtt sm = rtt_stats_of (rtts_of (pg_results st))"
    by (simp add: sm ping_summary_of_def build_summary_def Let_def)
  moreover have "ss_transmitted sm = ps_transmitted parsed \<and> ss_received sm = ps_received parsed \<and>
      ss_lost sm = ps_lost parsed \<and> ss_loss_pct sm = ps_loss_pct parsed" if "\<not> (timed_out \<or> ps_transmitted parsed \<le> 0)"
    using that by (simp add: sm ping_summary_of_def)
  ultimately show ?thesis
    using parsed same by (simp add: Let_def)
qed

text \<open>
  The figures of a summary are possible.  With packets numbered from one, no more are
  received than sent, the rest is lost, the loss is a percentage, and the mean of the
  round-trip times lies between the least and the greatest.
\<close>

lemma ping_summary_bounds:
  assumes "distinct (map fst results)" "0 \<notin> set (map fst results)"
  shows "let s = build_summary results n
    in 0 \<le> ss_received s \<and> ss_received s \<le> ss_transmitted s \<and> ss_lost s = ss_transmitted s - ss_received s \<and>
       0 \<le> ss_loss_pct s \<and> ss_loss_pct s \<le> 100 \<and>
       pred_option (\<lambda>r. rs_min r \<le> rs_avg r \<and> rs_avg r \<le> rs_max r) (ss_rtt s)"
proof -
  let ?t = "max n (int (max_seq results))" and ?r = "int (length (rtts_of results))"
  have r: "0 \<le> ?r" "?r \<le> ?t"
    using received_max_seq [OF assms] by simp_all
  have "0 \<le> (of_int (?t - ?r) / of_int ?t * 100 :: rat) \<and> (of_int (?t - ?r) / of_int ?t * 100 :: rat) \<le> 100" if "0 < ?t"
  proof -
    have "(of_int (?t - ?r) :: rat) \<le> of_int ?t" "(0 :: rat) \<le> of_int (?t - ?r)" "(0 :: rat) < of_int ?t"
      using r that by (simp_all only: of_int_le_iff of_int_0_le_iff of_int_0_less_iff diff_le_self diff_ge_0_iff_ge)
    then show ?thesis
      by (simp add: divide_le_eq del: of_int_diff)
  qed
  then show ?thesis
    using r stats_ordered by (auto simp: build_summary_def Let_def option.pred_set)
qed

section \<open>Two defects\<close>

text \<open>
  The expression for the loss takes the digits next to the per cent sign, so a loss with
  decimals is read by its decimals alone.
\<close>

lemma fractional_loss_misread:
  "loss_search '', 66.6667% packet loss, time 2003ms'' = Some ''6667''"
  by code_simp

text \<open>
  Over HTTP a run may be asked to last up to 300 seconds, but the executor stops every run at
  90 and its output is dropped.
\<close>

lemma long_run_times_out:
  assumes "ping_validate params = Inr v" "filter_t (pp_target v) = (ip, None)" "os (ping_args ip v) = Ends out err code t" "sec 90 \<le> t"
  shows "ping_execute num filter_t os params = Inr \<lparr>tr_success = False, tr_data = JNull, tr_error = Some ''errors.timeout''\<rparr>"
proof -
  have "sec (effective_timeout 90 (Some (pp_max_duration v + 10))) \<le> sec 90"
    by (simp add: effective_timeout_def)
  with assms(4) have "\<not> t < sec (effective_timeout 90 (Some (pp_max_duration v + 10)))"
    by linarith
  with assms(1-3) show ?thesis
    by (simp add: ping_execute_def executor_run_def Let_def)
qed

section \<open>Witnesses\<close>

definition sample_ping :: ping_params where
  "sample_ping = \<lparr>pp_target = ''8.8.8.8'', pp_count = 2, pp_timeout = 10, pp_packet_size = 56, pp_df_bit = False,
     pp_dscp = 0, pp_max_duration = 30\<rparr>"

definition sample_events :: "ping_event list" where
  "sample_events = [StdoutLine ''64 bytes from 8.8.8.8: icmp_seq=1 ttl=117 time=12.3 ms'', Tick 20000000]"

lemma sample_finish: "\<not> isl (ping_finish sample_ping True (foldl (ping_step sample_ping) new_ping sample_events))"
  by code_simp

theorem ping_stream_consistent_witness:
  "\<exists>st sm. ping_finish sample_ping True (foldl (ping_step sample_ping) new_ping sample_events) = Inr (st, sm) \<and>
     ss_received sm = int (card {s. is_reply (reported (pg_sent st) s)})"
proof -
  obtain st sm where fin: "ping_finish sample_ping True (foldl (ping_step sample_ping) new_ping sample_events) = Inr (st, sm)"
    using sample_finish by (auto simp: isl_def) (metis surj_pair sum.exhaust)
  from ping_stream_consistent [OF this] fin show ?thesis
    by (auto simp: Let_def)
qed

lemma ping_summary_bounds_witness:
  "ss_lost (build_summary [(1, PingOk 64 ''8.8.8.8'' 1 117 12), (2, PingTimeout (Some 2))] 2) = 1"
proof -
  have "ss_received (build_summary [(1, PingOk 64 ''8.8.8.8'' 1 117 12), (2, PingTimeout (Some 2))] 2) = 1"
    "ss_transmitted (build_summary [(1, PingOk 64 ''8.8.8.8'' 1 117 12), (2, PingTimeout (Some 2))] 2) = 2"
    by (simp_all add: build_summary_def Let_def rtts_of_def max_seq_def)
  with ping_summary_bounds [of "[(1, PingOk 64 ''8.8.8.8'' 1 117 12), (2, PingTimeout (Some 2))]" 2] show ?thesis
    by (simp add: Let_def)
qed

end
