(* ===== verification/Dns_Tool.thy ===== *)
theory Dns_Tool
  imports Tool_Process
begin

text \<open>
  \<open>app/tools/dns_lookup.py\<close>.  The resolver library is a parameter: what a query to a name
  server for a name and a type comes to (\<open>dns_outcome\<close>), and the IDNA form of a name.
\<close>

section \<open>The resolver library\<close>

record rrset =
  rrs_type :: string
  rrs_name :: string
  rrs_ttl :: int
  rrs_items :: "string list"

record dns_response =
  rsp_answer :: "rrset list"
  rsp_authority :: "rrset list"
  rsp_additional :: "rrset list"
  rsp_ad :: bool

datatype dns_outcome = Response dns_response | NoAnswer | NoSuchDomain | QueryFailed

record dns_record =
  dr_type :: string
  dr_value :: string
  dr_ttl :: int
  dr_owner :: string

type_synonym record_map = "(string \<times> dns_record list) list"

section \<open>Parameters\<close>

definition MAX_CNAME_DEPTH :: nat where "MAX_CNAME_DEPTH = 10"

definition VALID_RECORD_TYPES :: "string list" where
  "VALID_RECORD_TYPES = [''A'', ''AAAA'', ''CNAME'', ''MX'', ''NS'', ''TXT'', ''SRV'', ''SOA'', ''PTR'', ''CAA'']"

text \<open>
  \<open>str.upper\<close> as far as the record types can tell: the small letters; no other Latin-1
  character becomes a capital of the ASCII alphabet that a valid type has.
\<close>

definition upper_char :: "char \<Rightarrow> char" where
  "upper_char c = (let n = (of_char c :: nat) in if 97 \<le> n \<and> n \<le> 122 then char_of (n - 32) else c)"

definition py_upper :: "string \<Rightarrow> string" where
  "py_upper s = map upper_char s"

record dns_params =
  dp_target :: string
  dp_record_types :: "string list"
  dp_resolver :: string
  dp_recursive :: bool

definition json_or :: "json \<Rightarrow> json \<Rightarrow> json" where
  "json_or a b = (if json_true a then a else b)"

fun all_strings :: "json list \<Rightarrow> exn + string list" where
  "all_strings [] = Inr []"
| "all_strings (JStr s # js) = bind_exn (all_strings js) (\<lambda>ss. Inr (s # ss))"
| "all_strings (_ # js) = Inl AttributeError"

definition record_types_param :: "json \<Rightarrow> exn + string list" where
  "record_types_param j =
     bind_exn
       (case j of
          JStr s \<Rightarrow> Inr [s]
        | JList js \<Rightarrow> all_strings js
        | JObj kvs \<Rightarrow> Inr (map fst kvs)
        | _ \<Rightarrow> Inl TypeError)
       (\<lambda>rts. let upper = map py_upper rts
              in if list_ex (\<lambda>rt. rt \<notin> set VALID_RECORD_TYPES) upper then Inl ValueError else Inr upper)"

definition dns_validate :: "(string \<Rightarrow> string option) \<Rightarrow> (string \<times> json) list \<Rightarrow> exn + dns_params" where
  "dns_validate idna params =
     bind_exn (json_strip (json_or (dict_get ''target'' JNull params) (json_or (dict_get ''domain'' JNull params) (JStr [])))) (\<lambda>target.
       if target = [] \<or> 255 < length target then Inl ValueError
       else (case idna target of
           None \<Rightarrow> Inl ValueError
         | Some puny \<Rightarrow>
             bind_exn (record_types_param (dict_get ''record_types'' (JList [JStr ''A'']) params)) (\<lambda>record_types.
             bind_exn (json_strip (json_or (dict_get ''resolver'' JNull params) (JStr []))) (\<lambda>resolver_ip.
               Inr \<lparr>dp_target = puny, dp_record_types = record_types,
                    dp_resolver = (if resolver_ip = ''__system__'' then [] else resolver_ip),
                    dp_recursive = json_true (dict_get ''recursive_cname'' (JBool True) params)\<rparr>))))"

section \<open>Record sets\<close>

definition records_of :: "string \<Rightarrow> rrset \<Rightarrow> dns_record list" where
  "records_of rt rrset =
     map (\<lambda>item. \<lparr>dr_type = rt, dr_value = item, dr_ttl = rrs_ttl rrset,
                  dr_owner = py_rstrip_char (CHR ''.'') (rrs_name rrset)\<rparr>) (rrs_items rrset)"

definition merge_rrsets :: "record_map \<Rightarrow> rrset list \<Rightarrow> record_map" where
  "merge_rrsets into rrsets =
     foldl (\<lambda>m rrset. dict_set (rrs_type rrset) (dict_get (rrs_type rrset) [] m @ records_of (rrs_type rrset) rrset) m) into rrsets"

definition answer_records :: "string \<Rightarrow> rrset list \<Rightarrow> dns_record list" where
  "answer_records rt answer = concat (map (records_of rt) (filter (\<lambda>r. rrs_type r = rt) answer))"

section \<open>Following aliases\<close>

text \<open>The records of one type of an alias that belong to the alias itself.\<close>

definition hop_answer :: "string \<Rightarrow> string \<Rightarrow> dns_outcome \<Rightarrow> dns_record list" where
  "hop_answer hop rt out =
     (case out of
        Response rsp \<Rightarrow>
          filter (\<lambda>r. dr_owner r = py_rstrip_char (CHR ''.'') hop) (answer_records rt (rsp_answer rsp))
      | _ \<Rightarrow> [])"

definition next_alias :: "dns_outcome \<Rightarrow> string option" where
  "next_alias out =
     (case out of
        Response rsp \<Rightarrow>
          (case rsp_answer rsp of
             first_rrset # _ \<Rightarrow>
               (case rrs_items first_rrset of item # _ \<Rightarrow> Some (py_rstrip_char (CHR ''.'') item) | [] \<Rightarrow> None)
           | [] \<Rightarrow> None)
      | _ \<Rightarrow> None)"

record alias_chain =
  ac_chain :: "string list"
  ac_records :: "(string \<times> record_map) list"
  ac_blocked :: "(string \<times> bool) list"

fun follow_aliases ::
    "(string \<Rightarrow> string \<Rightarrow> dns_outcome) \<Rightarrow> (string \<Rightarrow> string list) \<Rightarrow> string list \<Rightarrow> nat \<Rightarrow> string \<Rightarrow> string list \<Rightarrow>
     alias_chain \<Rightarrow> alias_chain" where
  "follow_aliases query host_ips record_types 0 current seen acc = acc"
| "follow_aliases query host_ips record_types (Suc n) current seen acc =
     (case next_alias (query current ''CNAME'') of
        None \<Rightarrow> acc
      | Some next_hop \<Rightarrow>
          if py_lower next_hop \<in> set seen then acc
          else follow_aliases query host_ips record_types n next_hop (py_lower next_hop # seen)
            (acc\<lparr>ac_chain := ac_chain acc @ [next_hop],
                 ac_blocked := dict_set next_hop (list_ex is_ip_blocked (host_ips next_hop)) (ac_blocked acc),
                 ac_records := dict_set next_hop
                   (foldl (\<lambda>m rt. dict_set rt (hop_answer next_hop rt (query next_hop rt)) m) [] record_types)
                   (ac_records acc)\<rparr>))"

definition follow_cname_chain ::
    "(string \<Rightarrow> string \<Rightarrow> dns_outcome) \<Rightarrow> (string \<Rightarrow> string list) \<Rightarrow> string \<Rightarrow> string list \<Rightarrow> alias_chain" where
  "follow_cname_chain query host_ips target record_types =
     follow_aliases query host_ips record_types MAX_CNAME_DEPTH target [py_lower target]
       \<lparr>ac_chain = [target], ac_records = [], ac_blocked = []\<rparr>"

section \<open>The lookup\<close>

record dns_data =
  dd_domain :: string
  dd_records :: record_map
  dd_authority :: record_map
  dd_additional :: record_map
  dd_ad :: bool
  dd_chain :: "string list option"
  dd_chain_records :: "(string \<times> record_map) list"

datatype dns_result = DnsRefused string | DnsNxdomain string | DnsDone dns_data

definition security_check :: "(string \<Rightarrow> string list) \<Rightarrow> string \<Rightarrow> string option" where
  "security_check host_ips target =
     (let ips = host_ips target
      in if ips = [] then None
         else if list_ex is_ip_blocked ips then Some ''errors.target_not_allowed'' else None)"

text \<open>One record type; \<open>None\<close> when the name does not exist, which ends the lookup.\<close>

definition query_type :: "(string \<Rightarrow> string \<Rightarrow> dns_outcome) \<Rightarrow> string \<Rightarrow> dns_data option \<Rightarrow> string \<Rightarrow> dns_data option" where
  "query_type query target acc rt =
     (case acc of
        None \<Rightarrow> None
      | Some st \<Rightarrow>
          (case query target rt of
             Response rsp \<Rightarrow>
               Some (st\<lparr>dd_records := dict_set rt (answer_records rt (rsp_answer rsp)) (dd_records st),
                        dd_ad := dd_ad st \<or> rsp_ad rsp,
                        dd_authority := merge_rrsets (dd_authority st) (rsp_authority rsp),
                        dd_additional := merge_rrsets (dd_additional st) (rsp_additional rsp)\<rparr>)
           | NoSuchDomain \<Rightarrow> None
           | _ \<Rightarrow> Some (st\<lparr>dd_records := dict_set rt [] (dd_records st)\<rparr>)))"

text \<open>
  \<open>execute\<close>: \<open>query\<close> takes the resolver of the request as its first argument, \<open>host_ips\<close> is the
  address filter's lookup through the trusted resolver.  (Every exception of a query is caught
  inside the loop, so the outer exception clauses are never reached.)
\<close>

definition dns_execute ::
    "(string \<Rightarrow> string option) \<Rightarrow> (string \<Rightarrow> string \<Rightarrow> string \<Rightarrow> dns_outcome) \<Rightarrow> (string \<Rightarrow> string list) \<Rightarrow>
     (string \<times> json) list \<Rightarrow> exn + dns_result" where
  "dns_execute idna resolve host_ips params =
     bind_exn (dns_validate idna params) (\<lambda>v.
       let target = dp_target v; query = resolve (dp_resolver v)
       in case security_check host_ips target of
            Some block_error \<Rightarrow> Inr (DnsRefused block_error)
          | None \<Rightarrow>
              (case foldl (query_type query target)
                      (Some \<lparr>dd_domain = target, dd_records = [], dd_authority = [], dd_additional = [], dd_ad = False,
                             dd_chain = None, dd_chain_records = []\<rparr>)
                      (dp_record_types v) of
                 None \<Rightarrow> Inr (DnsNxdomain target)
               | Some st \<Rightarrow>
                   Inr (DnsDone
                     (if dp_recursive v \<and> dict_get ''CNAME'' [] (dd_records st) \<noteq> []
                      then (let c = follow_cname_chain query host_ips target (dp_record_types v)
                            in st\<lparr>dd_chain := Some (ac_chain c), dd_chain_records := ac_records c\<rparr>)
                      else st))))"

section \<open>Lemmas\<close>

text \<open>A chain of aliases: distinct up to case, each the answer for the one before.\<close>

fun linked :: "(string \<Rightarrow> string \<Rightarrow> dns_outcome) \<Rightarrow> string list \<Rightarrow> bool" where
  "linked query (a # b # cs) \<longleftrightarrow> next_alias (query a ''CNAME'') = Some b \<and> linked query (b # cs)"
| "linked query _ \<longleftrightarrow> True"

lemma linked_snoc: "linked query (cs @ [a]) \<Longrightarrow> next_alias (query a ''CNAME'') = Some b \<Longrightarrow> linked query (cs @ [a, b])"
  by (induction query cs rule: linked.induct) (auto split: list.splits)

definition chain_ok :: "(string \<Rightarrow> string \<Rightarrow> dns_outcome) \<Rightarrow> string \<Rightarrow> nat \<Rightarrow> string \<Rightarrow> string list \<Rightarrow> string list \<Rightarrow> bool" where
  "chain_ok query target n current seen chain \<longleftrightarrow>
     chain \<noteq> [] \<and> hd chain = target \<and> last chain = current \<and> set seen = py_lower ` set chain \<and>
     distinct (map py_lower chain) \<and> linked query chain \<and> length chain + n \<le> Suc MAX_CNAME_DEPTH"

definition owned :: "string \<Rightarrow> record_map \<Rightarrow> bool" where
  "owned hop m \<longleftrightarrow> list_all (\<lambda>(rt, items).
     list_all (\<lambda>r. dr_type r = rt \<and> dr_owner r = py_rstrip_char (CHR ''.'') hop) items) m"

definition records_owned :: "(string \<times> record_map) list \<Rightarrow> bool" where
  "records_owned rs \<longleftrightarrow> list_all (\<lambda>(hop, m). owned hop m) rs"

lemma list_all_dict_set: "list_all P d \<Longrightarrow> P (k, v) \<Longrightarrow> list_all P (dict_set k v d)"
  by (induction d) (auto split: if_splits)

lemma hop_answer_owned:
  "list_all (\<lambda>r. dr_type r = rt \<and> dr_owner r = py_rstrip_char (CHR ''.'') hop) (hop_answer hop rt out)"
  by (auto simp: hop_answer_def answer_records_def records_of_def list_all_iff split: dns_outcome.split)

lemma hop_records_owned: "owned hop m \<Longrightarrow> owned hop (foldl (\<lambda>m rt. dict_set rt (hop_answer hop rt (f rt)) m) m rts)"
proof (induction rts arbitrary: m)
  case (Cons rt rts)
  have "owned hop (dict_set rt (hop_answer hop rt (f rt)) m)"
    using Cons.prems hop_answer_owned unfolding owned_def by (intro list_all_dict_set) auto
  with Cons.IH show ?case by simp
qed simp

lemma chain_ok_snoc:
  assumes "chain_ok query target (Suc n) current seen chain" "next_alias (query current ''CNAME'') = Some a" "py_lower a \<notin> set seen"
  shows "chain_ok query target n a (py_lower a # seen) (chain @ [a])"
proof -
  obtain cs where chain: "chain = cs @ [current]"
    using assms(1) unfolding chain_ok_def by (metis append_butlast_last_id)
  have "linked query (cs @ [current, a])"
    using assms(1,2) linked_snoc unfolding chain_ok_def chain by blast
  then show ?thesis
    using assms(1,3) by (auto simp: chain_ok_def chain hd_append split: if_splits)
qed

lemma follow_aliases_chain:
  "chain_ok query target n current seen (ac_chain acc) \<Longrightarrow>
   \<exists>m current' seen'. chain_ok query target m current' seen' (ac_chain (follow_aliases query ips rts n current seen acc))"
proof (induction query ips rts n current seen acc rule: follow_aliases.induct)
  case (2 query ips rts n current seen acc)
  show ?case
  proof (cases "next_alias (query current ''CNAME'')")
    case (Some a)
    show ?thesis
    proof (cases "py_lower a \<in> set seen")
      case False
      with Some chain_ok_snoc [OF "2.prems" Some False] "2.IH" [OF Some False] show ?thesis
        by simp
    qed (use Some "2.prems" in auto)
  qed (use "2.prems" in auto)
qed auto

lemma follow_aliases_owned:
  "records_owned (ac_records acc) \<Longrightarrow> records_owned (ac_records (follow_aliases query ips rts n current seen acc))"
proof (induction query ips rts n current seen acc rule: follow_aliases.induct)
  case (2 query ips rts n current seen acc)
  have "records_owned (dict_set a (foldl (\<lambda>m rt. dict_set rt (hop_answer a rt (query a rt)) m) [] rts) (ac_records acc))" for a
    using "2.prems" hop_records_owned [of a "[]" "query a" rts]
    unfolding records_owned_def by (intro list_all_dict_set) (auto simp: owned_def)
  with 2 show ?case
    by (auto split: option.split)
qed simp

lemma follow_aliases_unblocked:
  "(\<And>h. \<not> list_ex is_ip_blocked (ips h)) \<Longrightarrow> \<not> list_ex snd (ac_blocked acc) \<Longrightarrow>
   \<not> list_ex snd (ac_blocked (follow_aliases query ips rts n current seen acc))"
proof (induction query ips rts n current seen acc rule: follow_aliases.induct)
  case (2 query ips rts n current seen acc)
  have "\<not> list_ex snd (dict_set a (list_ex is_ip_blocked (ips a)) (ac_blocked acc))" for a
    using "2.prems" list_all_dict_set [of "Not \<circ> snd" "ac_blocked acc" a False] by (simp add: list_all_iff list_ex_iff)
  with 2 show ?case
    by (auto split: option.split)
qed simp

section \<open>Properties\<close>

text \<open>
  C25: the alias chain of a lookup is sound and bounded.  Whatever the name servers answer, it
  starts at the target, every further name is the answer of the server for the one before,
  no name comes twice, there are at most \<open>MAX_CNAME_DEPTH\<close> aliases, and the records shown for an
  alias are of the type asked for and owned by that alias.
\<close>

theorem alias_chain_sound:
  "let c = follow_cname_chain query host_ips target record_types
   in hd (ac_chain c) = target \<and> linked query (ac_chain c) \<and> distinct (map py_lower (ac_chain c)) \<and>
      length (ac_chain c) \<le> Suc MAX_CNAME_DEPTH \<and> records_owned (ac_records c)"
proof -
  let ?acc = "\<lparr>ac_chain = [target], ac_records = [], ac_blocked = []\<rparr>"
  have start: "chain_ok query target MAX_CNAME_DEPTH target [py_lower target] (ac_chain ?acc)" "records_owned (ac_records ?acc)"
    by (simp_all add: chain_ok_def records_owned_def)
  show ?thesis
    using follow_aliases_chain [OF start(1), of host_ips record_types]
      follow_aliases_owned [OF start(2), of query host_ips record_types MAX_CNAME_DEPTH target "[py_lower target]"]
    by (auto simp: follow_cname_chain_def Let_def chain_ok_def)
qed

text \<open>
  The lookup refuses no target.  The lookup through the trusted resolver already answers
  with no address at all when one of them is blocked, and the security check of the tool
  takes no address for a harmless name; so whatever the name resolves to the tool goes on to
  query the resolver of the request, and never reports a blocked target or a blocked alias.
\<close>

lemma dns_check_vacuous:
  "let host_ips = (\<lambda>h. resolve_hostname dns (timed_out h) trusted h None)
   in security_check host_ips target = None \<and>
      \<not> list_ex snd (ac_blocked (follow_cname_chain query host_ips target record_types)) \<and>
      dns_execute idna resolve host_ips params \<noteq> Inr (DnsRefused err)"
proof -
  let ?host_ips = "\<lambda>h. resolve_hostname dns (timed_out h) trusted h None"
  have unblocked: "\<not> list_ex is_ip_blocked (?host_ips h)" for h
    by (rule resolve_hostname_unblocked) (rule refl)
  then have check: "security_check ?host_ips t = None" for t
    by (simp add: security_check_def Let_def)
  have "\<not> list_ex snd (ac_blocked (follow_cname_chain query ?host_ips target record_types))"
    unfolding follow_cname_chain_def by (rule follow_aliases_unblocked) (simp_all add: unblocked)
  moreover have "dns_execute idna resolve ?host_ips params \<noteq> Inr (DnsRefused err)"
    by (cases "dns_validate idna params") (auto simp: dns_execute_def Let_def check split: option.split)
  ultimately show ?thesis
    using check by (simp add: Let_def)
qed

end
