(* ===== verification/Urls.thy ===== *)
theory Urls
  imports Ipaddress
begin

text \<open>
  \<open>urllib.parse.urlparse\<close> of the standard library and the properties \<open>hostname\<close> and \<open>port\<close> of its
  result, as the backend uses them; \<open>None\<close> is \<open>ValueError\<close>.
\<close>

record parsed_url =
  url_scheme :: string
  url_netloc :: string
  url_path :: string

definition c0_or_space :: "char \<Rightarrow> bool" where
  "c0_or_space c = ((of_char c :: nat) \<le> 32)"

definition unsafe_char :: "char \<Rightarrow> bool" where
  "unsafe_char c = ((of_char c :: nat) \<in> {9, 10, 13})"

definition ascii_letter :: "char \<Rightarrow> bool" where
  "ascii_letter c = (let n = (of_char c :: nat) in 65 \<le> n \<and> n \<le> 90 \<or> 97 \<le> n \<and> n \<le> 122)"

definition scheme_char :: "char \<Rightarrow> bool" where
  "scheme_char c = (ascii_letter c \<or> is_digit c \<or> c \<in> set ''+-.'')"

definition before :: "(char \<Rightarrow> bool) \<Rightarrow> string \<Rightarrow> string" where
  "before p s = takeWhile (\<lambda>c. \<not> p c) s"

definition split_scheme :: "string \<Rightarrow> string \<times> string" where
  "split_scheme url =
     (case py_partition (CHR '':'') url of (scheme, found, rest) \<Rightarrow>
        if found \<and> scheme \<noteq> [] \<and> ascii_letter (hd scheme) \<and> list_all scheme_char scheme
        then (py_lower scheme, rest) else ([], url))"

text \<open>\<open>rpartition(c)[2]\<close>\<close>

definition after_last :: "char \<Rightarrow> string \<Rightarrow> string" where
  "after_last c s = rev (takeWhile (\<lambda>x. x \<noteq> c) (rev s))"

definition bracketed_host_ok :: "string \<Rightarrow> bool" where
  "bracketed_host_ok host =
     (case host of
        c # cs \<Rightarrow>
          if c = CHR ''v''
          then (case py_partition (CHR ''.'') cs of (hex, found, rest) \<Rightarrow>
                  found \<and> hex \<noteq> [] \<and> list_all (\<lambda>x. hex_val x \<noteq> None) hex \<and> rest \<noteq> [] \<and> CHR 0x0A \<notin> set rest)
          else (case ip_address host of Some (IPv6Address _ _) \<Rightarrow> True | _ \<Rightarrow> False)
      | [] \<Rightarrow> False)"

definition bracketed_netloc_ok :: "string \<Rightarrow> bool" where
  "bracketed_netloc_ok netloc =
     (let hostinfo = after_last (CHR ''@'') netloc
      in case py_partition (CHR ''['') hostinfo of (before_bracket, have_open, bracketed) \<Rightarrow>
           if have_open then
             (case py_partition (CHR '']'') bracketed of (host, _, port) \<Rightarrow>
                before_bracket = [] \<and> (port = [] \<or> hd port = CHR '':'') \<and> bracketed_host_ok host)
           else bracketed_host_ok (fst (py_partition (CHR '':'') hostinfo)))"

definition netloc_ok :: "string \<Rightarrow> bool" where
  "netloc_ok netloc =
     (if CHR ''['' \<in> set netloc \<longleftrightarrow> CHR '']'' \<in> set netloc
      then CHR ''['' \<in> set netloc \<longrightarrow> bracketed_netloc_ok netloc else False)"

definition PARAM_SCHEMES :: "string list" where
  "PARAM_SCHEMES = ['''', ''ftp'', ''hdl'', ''prospero'', ''http'', ''https'', ''shttp'', ''rtsp'', ''rtsps'', ''sip'', ''sips'',
     ''mms'', ''sftp'', ''tel'']"

text \<open>\<open>_splitparams\<close>: the path without the parameters of its last segment.\<close>

definition without_params :: "string \<Rightarrow> string" where
  "without_params path =
     (let last_seg = after_last (CHR ''/'') path
      in take (length path - length last_seg) path @ before (\<lambda>c. c = CHR '';'') last_seg)"

definition urlparse :: "string \<Rightarrow> parsed_url option" where
  "urlparse url0 =
     (let url1 = filter (\<lambda>c. \<not> unsafe_char c) (dropWhile c0_or_space url0);
          (scheme, url2) = split_scheme url1;
          has_netloc = py_startswith url2 ''//'';
          netloc = (if has_netloc then before (\<lambda>c. c \<in> set ''/?#'') (drop 2 url2) else []);
          rest = (if has_netloc then drop (length netloc) (drop 2 url2) else url2);
          path = before (\<lambda>c. c = CHR ''?'') (before (\<lambda>c. c = CHR ''#'') rest)
      in if \<not> netloc_ok netloc then None
         else Some \<lparr>url_scheme = scheme, url_netloc = netloc,
                    url_path = (if scheme \<in> set PARAM_SCHEMES then without_params path else path)\<rparr>)"

text \<open>\<open>_hostinfo\<close>: the host and the port as written.\<close>

definition hostinfo :: "parsed_url \<Rightarrow> string \<times> string" where
  "hostinfo u =
     (let info = after_last (CHR ''@'') (url_netloc u)
      in case py_partition (CHR ''['') info of (_, have_open, bracketed) \<Rightarrow>
           if have_open then
             (case py_partition (CHR '']'') bracketed of (host, _, port) \<Rightarrow> (host, snd (snd (py_partition (CHR '':'') port))))
           else (case py_partition (CHR '':'') info of (host, _, port) \<Rightarrow> (host, port)))"

definition url_hostname :: "parsed_url \<Rightarrow> string option" where
  "url_hostname u =
     (let host = fst (hostinfo u)
      in if host = [] then None
         else (case py_partition (CHR ''%'') host of (name, percent, zone) \<Rightarrow>
                 Some (py_lower name @ (if percent then CHR ''%'' # zone else []))))"

text \<open>The outer option is \<open>ValueError\<close>, the inner one an absent port.\<close>

definition url_port :: "parsed_url \<Rightarrow> int option option" where
  "url_port u =
     (let port = snd (hostinfo u)
      in if port = [] then Some None
         else if list_all is_digit port \<and> nat_of_digits port \<le> 65535 then Some (Some (int (nat_of_digits port)))
         else None)"

end
