(* ===== verification/Ssl_Tool.thy ===== *)
theory Ssl_Tool
  imports Tool_Process Urls
begin

text \<open>
  \<open>app/tools/ssl_viewer.py\<close>.  Parsing certificates, the TLS handshakes, OCSP and HTTP requests
  are the parameter \<open>tls_service\<close>: what \<open>cryptography\<close>, \<open>ssl\<close> and \<open>http.client\<close> give (building an
  OCSP request from two certificates that parse does not fail).  The model keeps
  the list of hosts and ports the tool connects to and the CRL cache on disk.
\<close>

section \<open>The libraries\<close>

text \<open>
  A parsed certificate.  A name is the list of its attributes; an extension that is absent is
  \<open>None\<close>; the keys of some algorithms have no size.
\<close>

datatype key_kind = RsaKey | DsaKey | EcKey | OtherKey

record certificate =
  xc_subject :: "(string \<times> string) list"
  xc_issuer :: "(string \<times> string) list"
  xc_subject_text :: string
  xc_not_before :: tstamp
  xc_not_after :: tstamp
  xc_serial :: nat
  xc_key_kind :: key_kind
  xc_key_class :: string
  xc_key_size :: "int option"
  xc_signature :: "string option"
  xc_sha256 :: string
  xc_sha1 :: string
  xc_pem :: string
  xc_sans :: "string list option"
  xc_ekus :: "string list option"
  xc_key_usage :: "string list option"
  xc_basic :: "(bool \<times> int option) option"
  xc_aia :: "(string \<times> string) list option"
  xc_crl :: "string list list option"
  xc_ski :: "string option"
  xc_aki :: "string option option"
  xc_policies :: "string list option"

type_synonym der = string

datatype connect_result =
    SslFailed string
  | ConnectTimeout
  | ConnectRefused
  | ConnectFailed string
  | Connected "der list option" der "string option" "string option"

datatype handshake_result = HandshakeOk | HandshakeUntrusted | HandshakeOther

datatype ocsp_result = OcspGood | OcspRevoked string | OcspUnknown | OcspStatus string | OcspUnreachable | OcspBroken

record tls_service =
  sv_load :: "der \<Rightarrow> certificate option"
  sv_connect :: "string \<Rightarrow> int \<Rightarrow> string \<Rightarrow> connect_result"
  sv_handshake :: "string \<Rightarrow> int \<Rightarrow> string \<Rightarrow> handshake_result"
  sv_store :: "(certificate \<times> der) list"
  sv_ocsp :: "string option \<Rightarrow> int \<Rightarrow> string \<Rightarrow> der \<Rightarrow> der \<Rightarrow> ocsp_result"
  sv_get :: "string option \<Rightarrow> int \<Rightarrow> string \<Rightarrow> (int \<times> string) option"
  sv_crl :: "string \<Rightarrow> (nat \<times> string) list option"
  sv_cache_key :: "string \<Rightarrow> string"

type_synonym contact = "string option \<times> int"

text \<open>The CRL cache: under the hash of the address, the data and when it was written.\<close>

type_synonym crl_cache = "(string \<times> string \<times> tstamp) list"

section \<open>Parameters\<close>

definition parse_url :: "string \<Rightarrow> exn + string \<times> int" where
  "parse_url raw =
     (let stripped = py_strip raw;
          url = (if py_contains stripped ''://'' then stripped else ''https://'' @ stripped)
      in case urlparse url of
           None \<Rightarrow> Inl ValueError
         | Some parsed \<Rightarrow>
             (let hostname = (case url_hostname parsed of
                      Some h \<Rightarrow> h
                    | None \<Rightarrow> if url_path parsed \<noteq> [] then url_path parsed else url)
              in case url_port parsed of
                   None \<Rightarrow> Inl ValueError
                 | Some (Some port) \<Rightarrow> Inr (hostname, port)
                 | Some None \<Rightarrow> Inr (hostname, if url_scheme parsed = ''https'' then 443 else 80)))"

record ssl_params =
  sp_hostname :: string
  sp_port :: int
  sp_sni :: string

definition first_true :: "json list \<Rightarrow> json" where
  "first_true js = (case filter json_true js of j # _ \<Rightarrow> j | [] \<Rightarrow> JStr [])"

definition ssl_validate :: "(string \<times> json) list \<Rightarrow> exn + ssl_params" where
  "ssl_validate params =
     bind_exn (json_strip (first_true [dict_get ''url'' JNull params, dict_get ''target'' JNull params])) (\<lambda>url.
       if url = [] \<or> 2048 < length url then Inl ValueError
       else bind_exn (parse_url url) (\<lambda>(hostname, port).
            bind_exn (json_strip (first_true [dict_get ''sni'' JNull params])) (\<lambda>sni.
              Inr \<lparr>sp_hostname = hostname, sp_port = port, sp_sni = sni\<rparr>)))"

section \<open>Host names and versions\<close>

definition san_matches :: "string \<Rightarrow> string \<Rightarrow> bool" where
  "san_matches hostname_lower san =
     (let pattern = py_rstrip_char (CHR ''.'') (py_lower san)
      in if py_startswith pattern ''*.''
         then (let suffix = tl pattern
               in py_endswith hostname_lower suffix \<and>
                  CHR ''.'' \<notin> set (take (length hostname_lower - length suffix) hostname_lower))
         else hostname_lower = pattern)"

definition hostname_matches :: "string \<Rightarrow> string list \<Rightarrow> string \<Rightarrow> bool" where
  "hostname_matches hostname sans subject_cn =
     (let hostname_lower = py_rstrip_char (CHR ''.'') (py_lower hostname)
      in list_ex (san_matches hostname_lower) sans \<or>
         hostname_lower = py_rstrip_char (CHR ''.'') (py_lower subject_cn))"

text \<open>\<open>(SSL|TLS\s*v?1\.[01])\<close> at the start, whatever the case.\<close>

definition is_tls_weak :: "string \<Rightarrow> bool" where
  "is_tls_weak version =
     (let s = py_lower version
      in py_startswith s ''ssl'' \<or>
         py_startswith s ''tls'' \<and>
         (let r = py_lstrip (drop 3 s); r' = (if py_startswith r ''v'' then tl r else r)
          in py_startswith r' ''1.0'' \<or> py_startswith r' ''1.1''))"

definition normalize_key_algorithm :: "string \<Rightarrow> string" where
  "normalize_key_algorithm algo =
     dict_get algo algo [(''RSA'', ''RSA''), (''EllipticCurve'', ''EC''), (''EC'', ''EC''), (''DSA'', ''DSA''),
       (''Ed25519'', ''Ed25519''), (''Ed448'', ''Ed448'')]"

section \<open>The certificate shown\<close>

record cert_info =
  ci_pem :: string
  ci_subject :: string
  ci_issuer :: string
  ci_valid_from :: tstamp
  ci_valid_until :: tstamp
  ci_sans :: "string list"
  ci_key_algorithm :: string
  ci_key_size :: int
  ci_signature :: string
  ci_sha256 :: string
  ci_sha1 :: string
  ci_ekus :: "string list"
  ci_is_expired :: bool
  ci_is_self_signed :: bool
  ci_name_mismatch :: bool
  ci_is_weak_key :: bool
  ci_no_common_name :: bool
  ci_empty_subject :: bool
  ci_serial :: string
  ci_key_usage :: "string list"
  ci_is_ca :: bool
  ci_path_length :: "int option"
  ci_aia :: "(string \<times> string) list"
  ci_crl_urls :: "string list"
  ci_ski :: string
  ci_aki :: string
  ci_policies :: "string list"
  ci_is_trusted_root :: bool
  ci_is_untrusted :: bool
  ci_missing_issuer :: bool
  ci_missing_issuer_name :: "string option"
  ci_revocation_status :: string
  ci_revocation_detail :: string

definition common_names :: "(string \<times> string) list \<Rightarrow> string list" where
  "common_names n = map snd (filter (\<lambda>a. fst a = ''CN'') n)"

definition first_or :: "string \<Rightarrow> string list \<Rightarrow> string" where
  "first_or dflt xs = (case xs of x # _ \<Rightarrow> x | [] \<Rightarrow> dflt)"

definition KEY_USAGES :: "string list" where
  "KEY_USAGES = [''digital_signature'', ''content_commitment'', ''key_encipherment'', ''data_encipherment'',
     ''key_agreement'', ''key_cert_sign'', ''crl_sign'']"

definition key_usage_list :: "string list \<Rightarrow> string list" where
  "key_usage_list flags =
     filter (\<lambda>a. a \<in> set flags) KEY_USAGES @
     (if ''key_agreement'' \<in> set flags then filter (\<lambda>a. a \<in> set flags) [''encipher_only'', ''decipher_only''] else [])"

definition weak_key :: "key_kind \<Rightarrow> int \<Rightarrow> bool" where
  "weak_key kind bits =
     (case kind of RsaKey \<Rightarrow> bits < 2048 | DsaKey \<Rightarrow> bits < 2048 | EcKey \<Rightarrow> bits < 256 | OtherKey \<Rightarrow> False)"

definition crl_urls_of :: "certificate \<Rightarrow> string list" where
  "crl_urls_of cert = (case xc_crl cert of Some points \<Rightarrow> concat points | None \<Rightarrow> [])"

definition list_or_empty :: "'a list option \<Rightarrow> 'a list" where
  "list_or_empty x = (case x of Some xs \<Rightarrow> xs | None \<Rightarrow> [])"

text \<open>\<open>_parse_cert\<close>; \<open>None\<close> when the key has no size, which raises \<open>AttributeError\<close>.\<close>

definition parse_cert :: "tstamp \<Rightarrow> certificate \<Rightarrow> string \<Rightarrow> bool \<Rightarrow> cert_info option" where
  "parse_cert now cert hostname is_leaf =
     (case xc_key_size cert of
        None \<Rightarrow> None
      | Some key_size \<Rightarrow>
          (let cns = common_names (xc_subject cert);
               subject_cn = first_or ''Unknown'' cns;
               empty_subject = (xc_subject cert = []);
               no_common_name = (\<not> empty_subject \<and> cns = []);
               sans = list_or_empty (xc_sans cert);
               is_ca = (case xc_basic cert of Some (ca, _) \<Rightarrow> ca | None \<Rightarrow> False)
           in Some \<lparr>ci_pem = xc_pem cert,
                ci_subject = (if empty_subject then ''Empty Subject''
                              else if no_common_name then xc_subject_text cert else ''CN='' @ subject_cn),
                ci_issuer = ''CN='' @ first_or ''Unknown'' (common_names (xc_issuer cert)),
                ci_valid_from = xc_not_before cert, ci_valid_until = xc_not_after cert, ci_sans = sans,
                ci_key_algorithm = normalize_key_algorithm (xc_key_class cert), ci_key_size = key_size,
                ci_signature = (case xc_signature cert of Some s \<Rightarrow> s | None \<Rightarrow> ''Unknown''),
                ci_sha256 = xc_sha256 cert, ci_sha1 = xc_sha1 cert, ci_ekus = list_or_empty (xc_ekus cert),
                ci_is_expired = (xc_not_after cert < now),
                ci_is_self_signed = (xc_issuer cert = xc_subject cert \<and> \<not> is_ca),
                ci_name_mismatch = (is_leaf \<and> hostname \<noteq> [] \<and> \<not> hostname_matches hostname sans subject_cn),
                ci_is_weak_key = weak_key (xc_key_kind cert) key_size,
                ci_no_common_name = no_common_name, ci_empty_subject = empty_subject,
                ci_serial = map (\<lambda>c. if (of_char c :: nat) \<ge> 97 then char_of ((of_char c :: nat) - 32) else c)
                  (hex_of_int (int (xc_serial cert))),
                ci_key_usage = (case xc_key_usage cert of Some flags \<Rightarrow> key_usage_list flags | None \<Rightarrow> []),
                ci_is_ca = is_ca,
                ci_path_length = (case xc_basic cert of Some (_, p) \<Rightarrow> p | None \<Rightarrow> None),
                ci_aia = list_or_empty (xc_aia cert), ci_crl_urls = crl_urls_of cert,
                ci_ski = (case xc_ski cert of Some s \<Rightarrow> s | None \<Rightarrow> []),
                ci_aki = (case xc_aki cert of Some (Some s) \<Rightarrow> s | _ \<Rightarrow> []),
                ci_policies = list_or_empty (xc_policies cert),
                ci_is_trusted_root = False, ci_is_untrusted = False, ci_missing_issuer = False,
                ci_missing_issuer_name = None, ci_revocation_status = [], ci_revocation_detail = []\<rparr>))"

section \<open>Connecting\<close>

definition self_signed :: "certificate \<Rightarrow> bool" where
  "self_signed cert = (xc_issuer cert = xc_subject cert)"

definition check_in_trust_store :: "tls_service \<Rightarrow> der \<Rightarrow> bool" where
  "check_in_trust_store sv cert_der =
     (case sv_load sv cert_der of
        None \<Rightarrow> False
      | Some cert \<Rightarrow> list_ex (\<lambda>ca. xc_subject (fst ca) = xc_subject cert) (sv_store sv))"

definition find_root_in_store :: "tls_service \<Rightarrow> der \<Rightarrow> der option" where
  "find_root_in_store sv cert_der =
     (case sv_load sv cert_der of
        None \<Rightarrow> None
      | Some cert \<Rightarrow>
          if self_signed cert then None
          else map_option snd (find (\<lambda>ca. xc_subject (fst ca) = xc_issuer cert) (sv_store sv)))"

text \<open>The chain the server sends, and the root of the store when it is missing.\<close>

definition connect_permissive :: "tls_service \<Rightarrow> der list option \<Rightarrow> der \<Rightarrow> der \<times> der list" where
  "connect_permissive sv chain peer =
     (let full_chain = (case chain of Some c \<Rightarrow> c | None \<Rightarrow> [peer]);
          leaf = (case full_chain of c # _ \<Rightarrow> c | [] \<Rightarrow> peer);
          intermediates = tl full_chain;
          last_der = (if intermediates \<noteq> [] then last intermediates else leaf)
      in (leaf, intermediates @ (case find_root_in_store sv last_der of Some anchor \<Rightarrow> [anchor] | None \<Rightarrow> [])))"

section \<open>Revocation\<close>

text \<open>
  Where a request to an address goes: host, port and path; \<open>None\<close> when the address does not parse.
  An address without a host gives no host name to the HTTP library.
\<close>

definition http_target :: "string \<Rightarrow> (string option \<times> int \<times> string) option" where
  "http_target url =
     (case urlparse url of
        None \<Rightarrow> None
      | Some parsed \<Rightarrow>
          (case url_port parsed of
             None \<Rightarrow> None
           | Some port \<Rightarrow>
               Some (url_hostname parsed, (case port of Some n \<Rightarrow> if n = 0 then 80 else n | None \<Rightarrow> 80),
                     if url_path parsed = [] then ''/'' else url_path parsed)))"

definition get_ocsp_url :: "certificate \<Rightarrow> string option" where
  "get_ocsp_url cert = map_option snd (find (\<lambda>d. fst d = ''OCSP'') (list_or_empty (xc_aia cert)))"

text \<open>\<open>s.replace(old, new)\<close> for a non-empty text.\<close>

function py_replace :: "string \<Rightarrow> string \<Rightarrow> string \<Rightarrow> string" where
  "py_replace old new [] = []"
| "py_replace old new (c # cs) =
     (if old \<noteq> [] \<and> py_startswith (c # cs) old then new @ py_replace old new (drop (length old) (c # cs))
      else c # py_replace old new cs)"
  by pat_completeness auto
termination
  by (relation "measure (\<lambda>(old, new, s). length s)") auto

definition derive_ocsp_url :: "certificate \<Rightarrow> certificate \<Rightarrow> string option" where
  "derive_ocsp_url leaf issuer =
     (case (case xc_aia leaf of Some aia \<Rightarrow> Some aia | None \<Rightarrow> xc_aia issuer) of
        None \<Rightarrow> None
      | Some aia \<Rightarrow>
          (case find (\<lambda>d. fst d = ''caIssuers'') aia of
             Some (_, ca_issuers_url) \<Rightarrow>
               if ca_issuers_url \<noteq> [] \<and> py_contains ca_issuers_url ''.i.lencr.org''
               then Some (py_replace ''.i.lencr.org'' ''.o.lencr.org'' ca_issuers_url) else None
           | None \<Rightarrow> None))"

definition ocsp_url_of :: "certificate \<Rightarrow> certificate \<Rightarrow> string option" where
  "ocsp_url_of leaf issuer =
     (if truthy (get_ocsp_url leaf) then get_ocsp_url leaf
      else if truthy (get_ocsp_url issuer) then get_ocsp_url issuer
      else derive_ocsp_url leaf issuer)"

definition check_revocation :: "tls_service \<Rightarrow> der \<Rightarrow> der \<Rightarrow> (string \<times> string) \<times> contact list" where
  "check_revocation sv leaf_der issuer_der =
     (case (sv_load sv leaf_der, sv_load sv issuer_der) of
        (Some leaf, Some issuer) \<Rightarrow>
          (case ocsp_url_of leaf issuer of
             None \<Rightarrow> ((''unknown'', ''No OCSP responder URL found''), [])
           | Some url \<Rightarrow>
               (case http_target url of
                  None \<Rightarrow> ((''unknown'', ''OCSP check failed''), [])
                | Some (host, port, path) \<Rightarrow>
                    ((case sv_ocsp sv host port path leaf_der issuer_der of
                        OcspGood \<Rightarrow> (''good'', ''Certificate is not revoked'')
                      | OcspRevoked time \<Rightarrow> (''revoked'', ''Certificate revoked'' @ time)
                      | OcspUnknown \<Rightarrow> (''unknown'', ''OCSP status: unknown'')
                      | OcspStatus st \<Rightarrow> (''unknown'', ''OCSP responder error: '' @ st)
                      | OcspUnreachable \<Rightarrow> (''unknown'', ''OCSP responder unreachable'')
                      | OcspBroken \<Rightarrow> (''unknown'', ''OCSP check failed'')),
                     [(host, port)])))
      | _ \<Rightarrow> ((''unknown'', ''Failed to parse certificate data''), []))"

definition cache_lookup :: "tstamp \<Rightarrow> string \<Rightarrow> crl_cache \<Rightarrow> string option" where
  "cache_lookup now key cache =
     (case map_of cache key of
        Some (data, written) \<Rightarrow> if now - written < sec 86400 then Some data else None
      | None \<Rightarrow> None)"

definition fetch_crl_cached :: "tls_service \<Rightarrow> tstamp \<Rightarrow> string \<Rightarrow> crl_cache \<Rightarrow> string option \<times> contact list \<times> crl_cache" where
  "fetch_crl_cached sv now crl_url cache =
     (let key = sv_cache_key sv crl_url
      in case cache_lookup now key cache of
           Some data \<Rightarrow> (Some data, [], cache)
         | None \<Rightarrow>
             (case http_target crl_url of
                None \<Rightarrow> (None, [], cache)
              | Some (host, port, path) \<Rightarrow>
                  (case sv_get sv host port path of
                     Some (code, data) \<Rightarrow>
                       if code \<noteq> 200 \<or> sv_crl sv data = None then (None, [(host, port)], cache)
                       else (Some data, [(host, port)], dict_set key (data, now) cache)
                   | None \<Rightarrow> (None, [(host, port)], cache))))"

fun check_crl_urls :: "tls_service \<Rightarrow> tstamp \<Rightarrow> nat \<Rightarrow> string list \<Rightarrow> crl_cache \<Rightarrow> (string \<times> string) \<times> contact list \<times> crl_cache" where
  "check_crl_urls sv now serial [] cache = ((''unknown'', ''CRL check failed''), [], cache)"
| "check_crl_urls sv now serial (url # urls) cache =
     (case fetch_crl_cached sv now url cache of
        (crl_der, contacts, cache1) \<Rightarrow>
          (case (case crl_der of Some data \<Rightarrow> sv_crl sv data | None \<Rightarrow> None) of
             Some entries \<Rightarrow>
               ((case map_of entries serial of
                   Some time \<Rightarrow> (''revoked'', ''Certificate revoked'' @ time)
                 | None \<Rightarrow> (''good'', ''Certificate is not revoked (CRL)'')),
                contacts, cache1)
           | None \<Rightarrow>
               (case check_crl_urls sv now serial urls cache1 of
                  (verdict, contacts', cache2) \<Rightarrow> (verdict, contacts @ contacts', cache2))))"

definition check_crl :: "tls_service \<Rightarrow> tstamp \<Rightarrow> der \<Rightarrow> crl_cache \<Rightarrow> (string \<times> string) \<times> contact list \<times> crl_cache" where
  "check_crl sv now leaf_der cache =
     (case sv_load sv leaf_der of
        None \<Rightarrow> ((''unknown'', ''Failed to parse certificate''), [], cache)
      | Some leaf \<Rightarrow>
          if crl_urls_of leaf = [] then ((''unknown'', ''No CRL distribution points in certificate''), [], cache)
          else check_crl_urls sv now (xc_serial leaf) (crl_urls_of leaf) cache)"

text \<open>OCSP first, the revocation lists when it does not know.\<close>

definition revocation_of :: "tls_service \<Rightarrow> tstamp \<Rightarrow> der \<Rightarrow> der \<Rightarrow> crl_cache \<Rightarrow> (string \<times> string) \<times> contact list \<times> crl_cache" where
  "revocation_of sv now cert_der issuer_der cache =
     (case check_revocation sv cert_der issuer_der of
        (verdict, contacts) \<Rightarrow>
          if fst verdict = ''unknown''
          then (case check_crl sv now cert_der cache of (verdict', contacts', cache') \<Rightarrow> (verdict', contacts @ contacts', cache'))
          else (verdict, contacts, cache))"

section \<open>The run\<close>

definition missing_issuer_name :: "certificate \<Rightarrow> string" where
  "missing_issuer_name cert = (case common_names (xc_issuer cert) of cn # _ \<Rightarrow> ''CN='' @ cn | [] \<Rightarrow> ''Unknown'')"

text \<open>One certificate of the chain: left out when it cannot be read.\<close>

definition cert_entry :: "tls_service \<Rightarrow> tstamp \<Rightarrow> string \<Rightarrow> bool \<Rightarrow> nat \<Rightarrow> nat \<times> der \<Rightarrow> cert_info list" where
  "cert_entry sv now hostname chain_valid n entry =
     (case entry of (idx, der_data) \<Rightarrow>
        (case sv_load sv der_data of
           None \<Rightarrow> []
         | Some cert \<Rightarrow>
             (case parse_cert now cert hostname (idx = 0) of
                None \<Rightarrow> []
              | Some info \<Rightarrow>
                  (let is_last = (idx + 1 = n)
                   in if self_signed cert \<and> is_last
                      then (let trusted = check_in_trust_store sv der_data
                            in [info\<lparr>ci_is_trusted_root := trusted, ci_is_untrusted := \<not> trusted\<rparr>])
                      else if \<not> self_signed cert \<and> is_last \<and> \<not> chain_valid
                      then [info\<lparr>ci_missing_issuer := True, ci_missing_issuer_name := Some (missing_issuer_name cert)\<rparr>]
                      else [info]))))"

definition set_revocation :: "nat \<Rightarrow> string \<times> string \<Rightarrow> cert_info list \<Rightarrow> cert_info list" where
  "set_revocation idx verdict certs =
     (if idx < length certs
      then certs[idx := (certs ! idx)\<lparr>ci_revocation_status := fst verdict, ci_revocation_detail := snd verdict\<rparr>]
      else certs)"

text \<open>The revocation step of every certificate; the last one is only given an empty status.\<close>

fun revocation_loop ::
    "tls_service \<Rightarrow> tstamp \<Rightarrow> nat \<Rightarrow> der list \<Rightarrow> cert_info list \<Rightarrow> bool \<Rightarrow> contact list \<Rightarrow> crl_cache \<Rightarrow>
     cert_info list \<times> bool \<times> contact list \<times> crl_cache" where
  "revocation_loop sv now idx (der1 # der2 # ders) certs leaf_revoked contacts cache =
     (case revocation_of sv now der1 der2 cache of
        (verdict, new, cache') \<Rightarrow>
          revocation_loop sv now (Suc idx) (der2 # ders) (set_revocation idx verdict certs)
            (leaf_revoked \<or> fst verdict = ''revoked'' \<and> idx = 0) (contacts @ new) cache')"
| "revocation_loop sv now idx [der1] certs leaf_revoked contacts cache =
     (set_revocation idx ([], []) certs, leaf_revoked, contacts, cache)"
| "revocation_loop sv now idx [] certs leaf_revoked contacts cache = (certs, leaf_revoked, contacts, cache)"

datatype ssl_warning = WeakTls | Revoked string | Untrusted | NotChecked

definition ssl_warnings :: "string \<Rightarrow> bool \<Rightarrow> bool \<Rightarrow> cert_info list \<Rightarrow> ssl_warning list" where
  "ssl_warnings tls_version leaf_revoked chain_valid certs =
     (if tls_version \<noteq> [] \<and> is_tls_weak tls_version then [WeakTls] else []) @
     (if leaf_revoked then [Revoked (case certs of c # _ \<Rightarrow> ci_revocation_detail c | [] \<Rightarrow> [])]
      else if \<not> chain_valid then [Untrusted] else []) @
     (if \<not> leaf_revoked \<and> certs \<noteq> [] \<and> ci_revocation_status (hd certs) = [] then [NotChecked] else [])"

record ssl_report =
  sr_host :: string
  sr_port :: int
  sr_tls_version :: string
  sr_cipher :: string
  sr_certificates :: "cert_info list"
  sr_chain_valid :: bool
  sr_warnings :: "ssl_warning list"

definition ssl_message :: "string \<Rightarrow> string" where
  "ssl_message msg =
     (if py_contains (py_lower msg) ''handshake failure'' \<or> py_contains (py_lower msg) ''protocol version''
      then ''SSL handshake failed -- the server may require a TLS version or cipher not supported by this system''
      else msg)"

definition inspect_chain ::
    "tls_service \<Rightarrow> tstamp \<Rightarrow> string \<Rightarrow> int \<Rightarrow> string \<Rightarrow> der list \<Rightarrow> string \<Rightarrow> string \<Rightarrow> crl_cache \<Rightarrow>
     ssl_report \<times> contact list \<times> crl_cache" where
  "inspect_chain sv now hostname port sni all_ders tls_version cipher cache =
     (let handshake_ok = (sv_handshake sv hostname port sni = HandshakeOk);
          certs = concat (map (cert_entry sv now hostname handshake_ok (length all_ders)) (enumerate 0 all_ders))
      in case revocation_loop sv now 0 all_ders certs False [] cache of
           (certificates, leaf_revoked, contacts, cache') \<Rightarrow>
             (let chain_valid = (handshake_ok \<and> \<not> leaf_revoked)
              in (\<lparr>sr_host = hostname, sr_port = port, sr_tls_version = tls_version, sr_cipher = cipher,
                   sr_certificates = certificates, sr_chain_valid = chain_valid,
                   sr_warnings = ssl_warnings tls_version leaf_revoked chain_valid certificates\<rparr>,
                  contacts, cache')))"

text \<open>The report or an error after an attempt to connect, the connections made in order, and the cache.\<close>

definition connected_run ::
    "tls_service \<Rightarrow> tstamp \<Rightarrow> ssl_params \<Rightarrow> string \<Rightarrow> connect_result \<Rightarrow> crl_cache \<Rightarrow>
     exn + (string + ssl_report) \<times> contact list \<times> crl_cache" where
  "connected_run sv now v sni con cache =
     (let server = (Some (sp_hostname v), sp_port v)
      in case con of
           SslFailed msg \<Rightarrow> Inr (Inl (ssl_message msg), [server], cache)
         | ConnectTimeout \<Rightarrow> Inr (Inl ''errors.timeout'', [server], cache)
         | ConnectRefused \<Rightarrow> Inr (Inl ''errors.connection_refused'', [server], cache)
         | ConnectFailed msg \<Rightarrow> Inr (Inl (''Connection failed: '' @ msg), [server], cache)
         | Connected chain peer version cipher \<Rightarrow>
             (case connect_permissive sv chain peer of
                (leaf, intermediates) \<Rightarrow>
                  (case inspect_chain sv now (sp_hostname v) (sp_port v) sni (leaf # intermediates)
                          (or_default version ''Unknown'') (or_default cipher ''Unknown'') cache of
                     (report, contacts, cache') \<Rightarrow> Inr (Inr report, server # server # contacts, cache'))))"

definition ssl_execute ::
    "tls_service \<Rightarrow> tstamp \<Rightarrow> (string \<Rightarrow> string \<times> string option) \<Rightarrow> (string \<times> json) list \<Rightarrow> crl_cache \<Rightarrow>
     exn + (string + ssl_report) \<times> contact list \<times> crl_cache" where
  "ssl_execute sv now filter_t params cache =
     bind_exn (ssl_validate params) (\<lambda>v.
       let sni = (if sp_sni v = [] then sp_hostname v else sp_sni v)
       in case filter_t (sp_hostname v) of
            (_, Some block_error) \<Rightarrow> Inr (Inl block_error, [], cache)
          | (resolved_ip, None) \<Rightarrow>
              connected_run sv now v sni (sv_connect sv (sp_hostname v) (sp_port v) sni) cache)"

section \<open>Lemmas\<close>

lemma endswith_iff: "py_endswith s p \<longleftrightarrow> (\<exists>t. s = t @ p)"
proof
  assume "py_endswith s p"
  then obtain t where "rev s = rev p @ t"
    by (auto simp: py_endswith_def py_startswith_iff)
  then have "s = rev t @ p"
    by (metis rev_append rev_rev_ident)
  then show "\<exists>t. s = t @ p" by blast
qed (auto simp: py_endswith_def)

lemma set_revocation_length [simp]: "length (set_revocation idx v certs) = length certs"
  by (simp add: set_revocation_def)

lemma loop_later: "0 < idx \<Longrightarrow> fst (snd (revocation_loop sv now idx ders certs lr contacts cache)) = lr"
  by (induction sv now idx ders certs lr contacts cache rule: revocation_loop.induct) (auto split: prod.split)

text \<open>Whether the leaf is found revoked.\<close>

definition leaf_revoked :: "tls_service \<Rightarrow> tstamp \<Rightarrow> der list \<Rightarrow> crl_cache \<Rightarrow> bool" where
  "leaf_revoked sv now ders cache =
     (case ders of a # b # _ \<Rightarrow> fst (fst (revocation_of sv now a b cache)) = ''revoked'' | _ \<Rightarrow> False)"

lemma loop_leaf: "fst (snd (revocation_loop sv now 0 ders certs False contacts cache)) = leaf_revoked sv now ders cache"
proof (cases ders)
  case (Cons a rest)
  then show ?thesis
    by (cases rest) (auto simp: leaf_revoked_def loop_later split: prod.split)
qed (simp add: leaf_revoked_def)

text \<open>The addresses a chain names, and what they lead to.\<close>

text \<open>
  A certificate is asked about only together with the one that issued it, the next of the
  chain: its own lists, and the OCSP address for the pair; nothing is asked about the last one.
\<close>

definition pair_urls :: "tls_service \<Rightarrow> der \<Rightarrow> der \<Rightarrow> string set" where
  "pair_urls sv a b =
     (case sv_load sv a of
        None \<Rightarrow> {}
      | Some ca \<Rightarrow> set (crl_urls_of ca) \<union> (case sv_load sv b of None \<Rightarrow> {} | Some cb \<Rightarrow> set_option (ocsp_url_of ca cb)))"

fun chain_urls :: "tls_service \<Rightarrow> der list \<Rightarrow> string set" where
  "chain_urls sv (a # b # ders) = pair_urls sv a b \<union> chain_urls sv (b # ders)"
| "chain_urls sv _ = {}"

definition url_contacts :: "string set \<Rightarrow> contact set" where
  "url_contacts us = {(h, p). \<exists>u \<in> us. \<exists>path. http_target u = Some (h, p, path)}"

lemma url_contacts_mono: "us \<subseteq> vs \<Longrightarrow> url_contacts us \<subseteq> url_contacts vs"
  by (auto simp: url_contacts_def)

lemma fetch_contacts: "set (fst (snd (fetch_crl_cached sv now url cache))) \<subseteq> url_contacts {url}"
  by (auto simp: fetch_crl_cached_def Let_def url_contacts_def split: option.splits prod.splits if_splits)

lemma check_urls_contacts: "set (fst (snd (check_crl_urls sv now serial urls cache))) \<subseteq> url_contacts (set urls)"
proof (induction sv now serial urls cache rule: check_crl_urls.induct)
  case (2 sv now serial url urls cache)
  obtain d cs cache1 where f: "fetch_crl_cached sv now url cache = (d, cs, cache1)"
    by (metis prod_cases3)
  have here: "set cs \<subseteq> url_contacts (set (url # urls))"
    using fetch_contacts [of sv now url cache] url_contacts_mono [of "{url}" "set (url # urls)"] by (auto simp: f)
  show ?case
  proof (cases "case d of Some data \<Rightarrow> sv_crl sv data | None \<Rightarrow> None")
    case None
    then have "set (fst (snd (check_crl_urls sv now serial urls cache1))) \<subseteq> url_contacts (set (url # urls))"
      using 2 [OF f [symmetric] refl None] url_contacts_mono [of "set urls" "set (url # urls)"] by auto
    with None here show ?thesis
      by (auto simp: f split: prod.split)
  qed (use here f in auto)
qed simp

lemma revocation_contacts:
  "set (fst (snd (revocation_of sv now a b cache))) \<subseteq> url_contacts (pair_urls sv a b)"
proof -
  have ocsp: "set (snd (check_revocation sv a b)) \<subseteq> url_contacts (pair_urls sv a b)"
    by (fastforce simp: check_revocation_def pair_urls_def url_contacts_def split: option.splits prod.splits)
  have "set (fst (snd (check_crl sv now a cache))) \<subseteq> url_contacts (pair_urls sv a b)"
  proof (cases "sv_load sv a")
    case (Some ca)
    have "set (crl_urls_of ca) \<subseteq> pair_urls sv a b"
      using Some by (auto simp: pair_urls_def)
    from url_contacts_mono [OF this] check_urls_contacts [of sv now "xc_serial ca" "crl_urls_of ca" cache] Some
    show ?thesis
      by (auto simp: check_crl_def)
  qed (simp add: check_crl_def)
  with ocsp show ?thesis
    by (auto simp: revocation_of_def split: prod.split)
qed

lemma loop_contacts:
  "set (fst (snd (snd (revocation_loop sv now idx ders certs lr contacts cache)))) \<subseteq>
     set contacts \<union> url_contacts (chain_urls sv ders)"
proof (induction sv now idx ders certs lr contacts cache rule: revocation_loop.induct)
  case (1 sv now idx der1 der2 ders certs lr contacts cache)
  obtain v new cache' where r: "revocation_of sv now der1 der2 cache = (v, new, cache')"
    by (metis prod_cases3)
  have "set new \<subseteq> url_contacts (chain_urls sv (der1 # der2 # ders))"
    using revocation_contacts [of sv now der1 der2 cache] url_contacts_mono [of "pair_urls sv der1 der2" "chain_urls sv (der1 # der2 # ders)"]
    by (auto simp: r)
  moreover have "url_contacts (chain_urls sv (der2 # ders)) \<subseteq> url_contacts (chain_urls sv (der1 # der2 # ders))"
    by (rule url_contacts_mono) simp
  ultimately show ?case
    using 1 [OF r [symmetric] refl] by (auto simp: r)
qed simp_all

text \<open>
  A list fetched once is used for a day without another request.
\<close>

lemma crl_cache_hit:
  assumes "fetch_crl_cached sv now url cache = (Some data, contacts, cache')" "contacts \<noteq> []" "now \<le> t" "t < now + sec 86400"
  shows "fetch_crl_cached sv t url cache' = (Some data, [], cache')"
proof -
  have "cache' = dict_set (sv_cache_key sv url) (data, now) cache"
    using assms(1,2) by (auto simp: fetch_crl_cached_def Let_def split: option.splits prod.splits if_splits)
  with assms(3,4) show ?thesis
    by (simp add: fetch_crl_cached_def cache_lookup_def map_of_dict_set Let_def)
qed

text \<open>TLS 1.0 reports itself as \<open>TLSv1\<close>, which the expression for weak versions does not match.\<close>

lemma tls10_not_weak: "\<not> is_tls_weak ''TLSv1'' \<and> is_tls_weak ''TLSv1.1'' \<and> is_tls_weak ''SSLv3'' \<and> \<not> is_tls_weak ''TLSv1.2''"
  by code_simp

text \<open>A wildcard also covers the empty label.\<close>

lemma empty_label_matches: "hostname_matches ''.example.com'' [''*.example.com''] []"
  by code_simp

text \<open>
  The filter sees only the target: whatever address a server puts into its certificate, the
  tool connects to.
\<close>

lemma certificate_chooses_contact:
  assumes "sv_load sv a = Some ca" "sv_load sv b = Some cb" "xc_aia ca = Some [(''OCSP'', url)]" "url \<noteq> []"
    and "http_target url = Some (h, p, path)"
  shows "(h, p) \<in> set (fst (snd (inspect_chain sv now hostname port sni [a, b] version cipher cache)))"
proof -
  have "ocsp_url_of ca cb = Some url"
    using assms(3,4) by (simp add: ocsp_url_of_def get_ocsp_url_def list_or_empty_def)
  then have "(h, p) \<in> set (snd (check_revocation sv a b))"
    using assms by (simp add: check_revocation_def)
  then have "(h, p) \<in> set (fst (snd (revocation_of sv now a b cache)))"
    by (auto simp: revocation_of_def split: prod.split)
  then show ?thesis
    by (auto simp: inspect_chain_def Let_def split: prod.split)
qed

lemma inspect_contacts:
  "set (fst (snd (inspect_chain sv now h p sni ders ver ci cache))) \<subseteq> url_contacts (chain_urls sv ders)"
proof -
  obtain certs lr cs cache' where loop:
    "revocation_loop sv now 0 ders (concat (map (cert_entry sv now h (sv_handshake sv h p sni = HandshakeOk) (length ders))
       (enumerate 0 ders))) False [] cache = (certs, lr, cs, cache')"
    by (metis prod_cases4)
  have "set cs \<subseteq> url_contacts (chain_urls sv ders)"
    using loop_contacts [of sv now 0 ders "concat (map (cert_entry sv now h (sv_handshake sv h p sni = HandshakeOk)
       (length ders)) (enumerate 0 ders))" False "[]" cache]
    by (simp add: loop)
  then show ?thesis
    by (simp add: inspect_chain_def loop Let_def)
qed

text \<open>The chain a server presents, and the one inspected.\<close>

definition presented :: "connect_result \<Rightarrow> der list" where
  "presented con =
     (case con of
        Connected (Some (c # cs)) peer version cipher \<Rightarrow> c # cs
      | Connected _ peer version cipher \<Rightarrow> [peer]
      | _ \<Rightarrow> [])"

definition inspected :: "tls_service \<Rightarrow> connect_result \<Rightarrow> der list" where
  "inspected sv con =
     (case con of
        Connected chain peer version cipher \<Rightarrow> fst (connect_permissive sv chain peer) # snd (connect_permissive sv chain peer)
      | _ \<Rightarrow> [])"

text \<open>What is inspected is what is presented, at most completed by a root of the trust store.\<close>

lemma root_in_store: "find_root_in_store sv d = Some anchor \<Longrightarrow> \<exists>ca. (ca, anchor) \<in> set (sv_store sv)"
  by (auto simp: find_root_in_store_def find_Some_iff set_conv_nth split: option.splits if_splits)

lemma inspected_presented:
  "inspected sv con = presented con \<or> (\<exists>ca anchor. (ca, anchor) \<in> set (sv_store sv) \<and> inspected sv con = presented con @ [anchor])"
  by (auto simp: inspected_def presented_def connect_permissive_def Let_def
      split: connect_result.splits option.splits list.splits dest!: root_in_store)

lemma connected_contacts:
  assumes "connected_run sv now v sni con cache = Inr (result, contacts, cache')"
  shows "hd contacts = (Some (sp_hostname v), sp_port v) \<and>
    set contacts \<subseteq> insert (Some (sp_hostname v), sp_port v) (url_contacts (chain_urls sv (inspected sv con)))"
proof (cases con)
  case (Connected chain peer version cipher)
  obtain leaf rest where c: "connect_permissive sv chain peer = (leaf, rest)"
    by fastforce
  obtain report cs c' where i: "inspect_chain sv now (sp_hostname v) (sp_port v) sni (leaf # rest)
      (or_default version ''Unknown'') (or_default cipher ''Unknown'') cache = (report, cs, c')"
    by (metis prod_cases3)
  have "set cs \<subseteq> url_contacts (chain_urls sv (leaf # rest))"
    using inspect_contacts [of sv now "sp_hostname v" "sp_port v" sni "leaf # rest"] i by (metis fst_conv snd_conv)
  moreover have "contacts = (Some (sp_hostname v), sp_port v) # (Some (sp_hostname v), sp_port v) # cs"
    using assms by (simp add: connected_run_def Connected c i Let_def)
  ultimately show ?thesis
    by (auto simp: inspected_def Connected c)
qed (use assms in \<open>auto simp: connected_run_def Let_def\<close>)

text \<open>What a name of a certificate covers, on names in lower case without trailing dots.\<close>

definition name_form :: "string \<Rightarrow> string" where
  "name_form s = py_rstrip_char (CHR ''.'') (py_lower s)"

definition covers :: "string \<Rightarrow> string \<Rightarrow> bool" where
  "covers pattern h \<longleftrightarrow>
     (case pattern of
        c # d # rest \<Rightarrow>
          if c = CHR ''*'' \<and> d = CHR ''.'' then (\<exists>label. CHR ''.'' \<notin> set label \<and> h = label @ d # rest) else h = pattern
      | _ \<Rightarrow> h = pattern)"

section \<open>Properties\<close>

text \<open>
  A host name is accepted for a certificate exactly as its names say.  Up to case and
  trailing dots, the host is the common name, is one of the alternative names, or is an
  alternative name \<open>*.rest\<close> with the star replaced by one label without a dot.
\<close>

lemma hostname_matches_iff:
  "hostname_matches hostname sans cn \<longleftrightarrow>
     name_form hostname = name_form cn \<or> list_ex (\<lambda>san. covers (name_form san) (name_form hostname)) sans"
proof -
  have "san_matches h = (\<lambda>san. covers (name_form san) h)" for h
    by (auto simp: fun_eq_iff san_matches_def covers_def name_form_def Let_def endswith_iff split: list.splits)
  then show ?thesis
    by (auto simp: hostname_matches_def Let_def name_form_def)
qed

text \<open>
  The verdict on a chain is sound.  The report calls the chain valid exactly when the
  validating handshake succeeded and the leaf was not found revoked, and exactly then it has
  no warning of the error kind; a revoked leaf is always reported as such.
\<close>

lemma ssl_verdict_sound:
  "let (report, contacts, cache') = inspect_chain sv now hostname port sni ders version cipher cache;
       revoked = leaf_revoked sv now ders cache
   in sr_chain_valid report = (sv_handshake sv hostname port sni = HandshakeOk \<and> \<not> revoked) \<and>
      sr_chain_valid report = list_all (\<lambda>w. w = WeakTls \<or> w = NotChecked) (sr_warnings report) \<and>
      revoked = list_ex (\<lambda>w. case w of Revoked _ \<Rightarrow> True | _ \<Rightarrow> False) (sr_warnings report)"
proof -
  obtain certs lr contacts cache' where loop:
    "revocation_loop sv now 0 ders (concat (map (cert_entry sv now hostname (sv_handshake sv hostname port sni = HandshakeOk)
       (length ders)) (enumerate 0 ders))) False [] cache = (certs, lr, contacts, cache')"
    by (metis prod_cases4)
  have "lr = leaf_revoked sv now ders cache"
    using loop_leaf [of sv now ders] loop by (metis fst_conv snd_conv)
  then show ?thesis
    by (auto simp: inspect_chain_def loop ssl_warnings_def Let_def)
qed

text \<open>
  C26: every connection has a reason.  When the filter blocks the host of the request, nothing
  is contacted.  Otherwise the first connection goes to the host and port of the request, and
  every other one either there again or to an address named by the certificates of the chain
  the server of this very request presented: for two neighbours of it, a revocation list the
  first one names or the OCSP responder of the pair.  The chain followed is the presented one,
  at most completed by a root of the trust store.
\<close>

theorem ssl_contacts_traced:
  assumes "ssl_execute sv now filter_t params cache = Inr (result, contacts, cache')"
  shows "\<exists>v. ssl_validate params = Inr v \<and>
    (let con = sv_connect sv (sp_hostname v) (sp_port v) (if sp_sni v = [] then sp_hostname v else sp_sni v);
         server = (Some (sp_hostname v), sp_port v)
     in if snd (filter_t (sp_hostname v)) \<noteq> None then contacts = []
        else hd contacts = server \<and>
             set contacts \<subseteq> insert server (url_contacts (chain_urls sv (inspected sv con))) \<and>
             (inspected sv con = presented con \<or>
              (\<exists>ca anchor. (ca, anchor) \<in> set (sv_store sv) \<and> inspected sv con = presented con @ [anchor])))"
proof -
  obtain v where v: "ssl_validate params = Inr v"
    using assms by (auto simp: ssl_execute_def)
  let ?sni = "if sp_sni v = [] then sp_hostname v else sp_sni v"
  obtain ip err where f: "filter_t (sp_hostname v) = (ip, err)"
    by fastforce
  show ?thesis
  proof (cases err)
    case (Some e)
    with assms v f show ?thesis
      by (simp add: ssl_execute_def Let_def)
  next
    case None
    have "connected_run sv now v ?sni (sv_connect sv (sp_hostname v) (sp_port v) ?sni) cache = Inr (result, contacts, cache')"
      using assms by (simp add: ssl_execute_def v f None Let_def)
    from connected_contacts [OF this] v f None inspected_presented show ?thesis
      by (simp add: Let_def)
  qed
qed

section \<open>Witness\<close>

text \<open>
  A server whose certificate names an OCSP responder inside the network, and its issuer: the
  responder is asked.
\<close>

definition plain_cert :: "(string \<times> string) list \<Rightarrow> (string \<times> string) list \<Rightarrow> (string \<times> string) list option \<Rightarrow> certificate" where
  "plain_cert subject issuer aia =
     \<lparr>xc_subject = subject, xc_issuer = issuer, xc_subject_text = [], xc_not_before = 0, xc_not_after = 1000,
      xc_serial = 1, xc_key_kind = RsaKey, xc_key_class = ''RSA'', xc_key_size = Some 2048, xc_signature = None,
      xc_sha256 = [], xc_sha1 = [], xc_pem = [], xc_sans = None, xc_ekus = None, xc_key_usage = None, xc_basic = None,
      xc_aia = aia, xc_crl = None, xc_ski = None, xc_aki = None, xc_policies = None\<rparr>"

definition inner_service :: tls_service where
  "inner_service = \<lparr>
     sv_load = map_of [(''leaf'', plain_cert [(''CN'', ''example.com'')] [(''CN'', ''ca'')] (Some [(''OCSP'', ''http://10.0.0.7/x'')])),
                       (''ca'', plain_cert [(''CN'', ''ca'')] [(''CN'', ''ca'')] None)],
     sv_connect = \<lambda>_ _ _. Connected (Some [''leaf'', ''ca'']) ''leaf'' None None,
     sv_handshake = \<lambda>_ _ _. HandshakeOther, sv_store = [], sv_ocsp = \<lambda>_ _ _ _ _. OcspGood, sv_get = \<lambda>_ _ _. None,
     sv_crl = \<lambda>_. None, sv_cache_key = \<lambda>u. u\<rparr>"

lemma inner_params:
  "ssl_validate [(''url'', JStr ''Example.com'')] = Inr \<lparr>sp_hostname = ''example.com'', sp_port = 443, sp_sni = []\<rparr>"
  by code_simp

lemma inner_chain: "connect_permissive inner_service (Some [''leaf'', ''ca'']) ''leaf'' = (''leaf'', [''ca''])"
  by code_simp

lemma inner_url: "http_target ''http://10.0.0.7/x'' = Some (Some ''10.0.0.7'', 80, ''/x'')"
  by code_simp

lemma inner_run:
  "\<exists>result cs cache'. (Some ''10.0.0.7'', 80) \<in> set cs \<and>
     ssl_execute inner_service 0 (\<lambda>h. (h, None)) [(''url'', JStr ''Example.com'')] [] =
       Inr (result, (Some ''example.com'', 443) # (Some ''example.com'', 443) # cs, cache')"
proof -
  obtain report cs c' where i: "inspect_chain inner_service 0 ''example.com'' 443 ''example.com'' [''leaf'', ''ca'']
      ''Unknown'' ''Unknown'' [] = (report, cs, c')"
    by (metis prod_cases3)
  have "(Some ''10.0.0.7'', 80) \<in> set (fst (snd (inspect_chain inner_service 0 ''example.com'' 443 ''example.com'' [''leaf'', ''ca'']
      ''Unknown'' ''Unknown'' [])))"
    by (rule certificate_chooses_contact [OF _ _ _ _ inner_url])
      (simp_all add: inner_service_def, simp_all add: plain_cert_def)
  then have "(Some ''10.0.0.7'', 80) \<in> set cs"
    by (simp add: i)
  moreover have "sv_connect inner_service h p s = Connected (Some [''leaf'', ''ca'']) ''leaf'' None None" for h p s
    by (simp add: inner_service_def)
  ultimately show ?thesis
    by (auto simp: ssl_execute_def inner_params connected_run_def inner_chain i Let_def)
qed

theorem ssl_contacts_traced_witness:
  "(Some ''10.0.0.7'', 80) \<in> url_contacts (chain_urls inner_service [''leaf'', ''ca''])"
proof -
  obtain result cs cache' where asked: "(Some ''10.0.0.7'', 80) \<in> set cs"
    and run: "ssl_execute inner_service 0 (\<lambda>h. (h, None)) [(''url'', JStr ''Example.com'')] [] =
       Inr (result, (Some ''example.com'', 443) # (Some ''example.com'', 443) # cs, cache')"
    using inner_run by metis
  have con: "sv_connect inner_service h p s = Connected (Some [''leaf'', ''ca'']) ''leaf'' None None" for h p s
    by (simp add: inner_service_def)
  have chain: "inspected inner_service (Connected (Some [''leaf'', ''ca'']) ''leaf'' None None) = [''leaf'', ''ca'']"
    by (simp add: inspected_def inner_chain)
  have "set cs \<subseteq> insert (Some ''example.com'', 443) (url_contacts (chain_urls inner_service [''leaf'', ''ca'']))"
    using ssl_contacts_traced [OF run] by (simp add: inner_params con chain Let_def del: chain_urls.simps)
  with asked show ?thesis
    by auto
qed

end
