(* ===== verification/Tool_Definitions.thy ===== *)
theory Tool_Definitions
  imports Ping Traceroute Dns_Tool Ssl_Tool
begin

text \<open>
  The \<open>ToolDefinition\<close> of each tool (\<open>app/tools/base.py\<close> and \<open>get_definition\<close> of the four
  tools): what the interface is told about the parameters, its JSON form and its database row,
  and that the two network tools enforce what they declare.
\<close>

section \<open>Definitions\<close>

record tool_parameter =
  tpm_name :: string
  tpm_type :: string
  tpm_label_key :: string
  tpm_description_key :: string
  tpm_required :: bool
  tpm_default :: json
  tpm_constraints :: "(string \<times> json) list"

record tool_definition =
  td_name :: string
  td_display_name_key :: string
  td_description_key :: string
  td_category :: string
  td_version :: string
  td_parameters :: "tool_parameter list"
  td_requires_privileges :: "string list"

text \<open>The text keys of a parameter share the stem \<open>tools.<tool>.param_<key>\<close>.\<close>

definition parameter :: "string \<Rightarrow> string \<Rightarrow> string \<Rightarrow> string \<Rightarrow> bool \<Rightarrow> json \<Rightarrow> (string \<times> json) list \<Rightarrow> tool_parameter" where
  "parameter tool key name type required default_value constraints =
     (let stem = ''tools.'' @ tool @ ''.param_'' @ key
      in \<lparr>tpm_name = name, tpm_type = type, tpm_label_key = stem @ ''_label'', tpm_description_key = stem @ ''_desc'',
          tpm_required = required, tpm_default = default_value, tpm_constraints = constraints\<rparr>)"

definition int_range :: "int \<Rightarrow> int \<Rightarrow> (string \<times> json) list" where
  "int_range lo hi = [(''min'', JInt lo), (''max'', JInt hi)]"

definition ping_definition :: tool_definition where
  "ping_definition =
     \<lparr>td_name = ''ping'', td_display_name_key = ''tools.ping.name'', td_description_key = ''tools.ping.description'',
      td_category = ''network'', td_version = ''1.0.0'',
      td_parameters =
        [parameter ''ping'' ''target'' ''target'' ''string'' True JNull [(''max_length'', JInt 255)],
         parameter ''ping'' ''count'' ''count'' ''integer'' False (JInt 4) (int_range 0 100),
         parameter ''ping'' ''timeout'' ''timeout'' ''integer'' False (JInt 10) (int_range 1 60),
         parameter ''ping'' ''packet_size'' ''packet_size'' ''integer'' False (JInt 56) (int_range 8 65507),
         parameter ''ping'' ''df_bit'' ''df_bit'' ''boolean'' False (JBool False) [],
         parameter ''ping'' ''dscp'' ''dscp'' ''integer'' False (JInt 0) (int_range 0 63),
         parameter ''ping'' ''max_duration'' ''max_duration'' ''integer'' False (JInt 30) (int_range 1 300)],
      td_requires_privileges = [''NET_RAW'']\<rparr>"

definition traceroute_definition :: tool_definition where
  "traceroute_definition =
     \<lparr>td_name = ''traceroute'', td_display_name_key = ''tools.traceroute.name'',
      td_description_key = ''tools.traceroute.description'', td_category = ''network'', td_version = ''1.0.0'',
      td_parameters =
        [parameter ''traceroute'' ''target'' ''target'' ''string'' True JNull [(''max_length'', JInt 255)],
         parameter ''traceroute'' ''protocol'' ''protocol'' ''enum'' False (JStr ''udp'')
           [(''options'', JList [JStr ''udp'', JStr ''icmp'', JStr ''tcp''])],
         parameter ''traceroute'' ''port'' ''port'' ''integer'' False (JInt 33434) (int_range 1 65535),
         parameter ''traceroute'' ''probes'' ''probes_per_hop'' ''integer'' False (JInt 3) (int_range 1 10),
         parameter ''traceroute'' ''timeout'' ''timeout'' ''integer'' False (JInt 1) (int_range 1 30),
         parameter ''traceroute'' ''max_distance'' ''max_distance'' ''integer'' False (JInt 30) (int_range 1 64),
         parameter ''traceroute'' ''dns_resolution'' ''dns_resolution'' ''boolean'' False (JBool True) []],
      td_requires_privileges = [''NET_RAW'']\<rparr>"

definition dns_lookup_definition :: tool_definition where
  "dns_lookup_definition =
     \<lparr>td_name = ''dns_lookup'', td_display_name_key = ''tools.dns_lookup.name'',
      td_description_key = ''tools.dns_lookup.description'', td_category = ''dns'', td_version = ''1.0.0'',
      td_parameters =
        [parameter ''dns_lookup'' ''target'' ''target'' ''string'' True JNull [(''max_length'', JInt 255)],
         parameter ''dns_lookup'' ''record_types'' ''record_types'' ''string'' False (JList [JStr ''A'']) [],
         parameter ''dns_lookup'' ''resolver'' ''resolver'' ''string'' False (JStr []) [],
         parameter ''dns_lookup'' ''recursive_cname'' ''recursive_cname'' ''boolean'' False (JBool True) []],
      td_requires_privileges = []\<rparr>"

definition ssl_viewer_definition :: tool_definition where
  "ssl_viewer_definition =
     \<lparr>td_name = ''ssl_viewer'', td_display_name_key = ''tools.ssl_viewer.name'',
      td_description_key = ''tools.ssl_viewer.description'', td_category = ''security'', td_version = ''1.0.0'',
      td_parameters =
        [parameter ''ssl_viewer'' ''url'' ''url'' ''string'' True JNull [(''max_length'', JInt 2048)],
         parameter ''ssl_viewer'' ''sni'' ''sni'' ''string'' False (JStr []) []],
      td_requires_privileges = []\<rparr>"

section \<open>Their two forms\<close>

definition parameter_json :: "tool_parameter \<Rightarrow> json" where
  "parameter_json p =
     JObj [(''name'', JStr (tpm_name p)), (''type'', JStr (tpm_type p)), (''label_key'', JStr (tpm_label_key p)),
           (''description_key'', JStr (tpm_description_key p)), (''required'', JBool (tpm_required p)),
           (''default'', tpm_default p), (''constraints'', JObj (tpm_constraints p))]"

definition to_api_definition :: "tool_definition \<Rightarrow> json" where
  "to_api_definition d =
     JObj [(''name'', JStr (td_name d)), (''display_name_key'', JStr (td_display_name_key d)),
           (''description_key'', JStr (td_description_key d)), (''category'', JStr (td_category d)),
           (''version'', JStr (td_version d)), (''parameters'', JList (map parameter_json (td_parameters d))),
           (''enabled'', JBool True)]"

definition to_db_model :: "string \<Rightarrow> tool_definition \<Rightarrow> tool_module" where
  "to_db_model i d =
     \<lparr>tm_id = i, tm_name = td_name d, tm_display_name_key = td_display_name_key d,
      tm_description_key = td_description_key d, tm_enabled = True, tm_version = td_version d\<rparr>"

section \<open>What a declaration says of a body\<close>

text \<open>
  A body is well typed when every declared parameter it gives has a value of the declared type.
  It meets a declaration when each value, or its declared default, lies in the declared range or
  among the declared options, and a required text is not blank.  (The declared \<open>max_length\<close> of
  the target is not among it: the two network tools do not look at it.)
\<close>

definition value_typed :: "string \<Rightarrow> json \<Rightarrow> bool" where
  "value_typed type v =
     (if type = ''integer'' then (case v of JInt _ \<Rightarrow> True | _ \<Rightarrow> False)
      else if type = ''boolean'' then (case v of JBool _ \<Rightarrow> True | _ \<Rightarrow> False)
      else (case v of JStr _ \<Rightarrow> True | _ \<Rightarrow> False))"

definition given_typed :: "string \<Rightarrow> json option \<Rightarrow> bool" where
  "given_typed type given = (case given of Some v \<Rightarrow> value_typed type v | None \<Rightarrow> True)"

definition body_typed :: "tool_definition \<Rightarrow> (string \<times> json) list \<Rightarrow> bool" where
  "body_typed d params =
     list_all (\<lambda>p. given_typed (tpm_type p) (map_of params (tpm_name p))) (td_parameters d)"

definition value_meets :: "tool_parameter \<Rightarrow> json \<Rightarrow> bool" where
  "value_meets p v =
     (if tpm_type p = ''integer''
      then (case (v, map_of (tpm_constraints p) ''min'', map_of (tpm_constraints p) ''max'') of
              (JInt i, Some (JInt lo), Some (JInt hi)) \<Rightarrow> lo \<le> i \<and> i \<le> hi
            | _ \<Rightarrow> False)
      else if tpm_type p = ''enum''
      then (case map_of (tpm_constraints p) ''options'' of Some (JList options) \<Rightarrow> v \<in> set options | _ \<Rightarrow> False)
      else tpm_required p \<longrightarrow> (case v of JStr s \<Rightarrow> py_strip s \<noteq> [] | _ \<Rightarrow> False))"

definition body_meets :: "tool_definition \<Rightarrow> (string \<times> json) list \<Rightarrow> bool" where
  "body_meets d params = list_all (\<lambda>p. value_meets p (dict_get (tpm_name p) (tpm_default p) params)) (td_parameters d)"

definition accepts_body :: "((string \<times> json) list \<Rightarrow> exn + 'v) \<Rightarrow> (string \<times> json) list \<Rightarrow> bool" where
  "accepts_body validate params = (case validate params of Inr _ \<Rightarrow> True | Inl _ \<Rightarrow> False)"

section \<open>Lemmas\<close>

lemma accepts_bind:
  "accepts_body (\<lambda>ps. bind_exn (f ps) (g ps)) params \<longleftrightarrow> (\<exists>a. f params = Inr a \<and> accepts_body (\<lambda>ps. g ps a) params)"
  by (cases "f params") (auto simp: accepts_body_def)

lemma accepts_int:
  assumes "given_typed ''integer'' (map_of params key)"
  shows "(\<exists>n. int_param key dflt lo hi params = Inr n) \<longleftrightarrow>
    value_meets (parameter tool k key ''integer'' False (JInt dflt) (int_range lo hi)) (dict_get key (JInt dflt) params)"
proof -
  obtain i where "dict_get key (JInt dflt) params = JInt i"
    using assms by (auto simp: dict_get_def given_typed_def value_typed_def split: option.splits json.splits)
  then show ?thesis
    by (auto simp: int_param_def json_int_def value_meets_def parameter_def int_range_def Let_def)
qed

lemma py_strip_Nil: "py_strip [] = []"
  by code_simp

lemma accepts_target:
  assumes "given_typed ''string'' (map_of params ''target'')"
  shows "(\<exists>t. target_param params = Inr t) \<longleftrightarrow>
    value_meets (parameter tool ''target'' ''target'' ''string'' True JNull cs) (dict_get ''target'' JNull params)"
  using assms
  by (auto simp: target_param_def json_strip_def value_meets_def given_typed_def value_typed_def parameter_def Let_def dict_get_def py_strip_Nil
      split: option.splits json.splits)

lemma accepts_protocol:
  assumes "given_typed ''enum'' (map_of params ''protocol'')"
  shows "(\<exists>p. protocol_param params = Inr p) \<longleftrightarrow>
    value_meets (parameter tool k ''protocol'' ''enum'' False (JStr ''udp'')
        [(''options'', JList [JStr ''udp'', JStr ''icmp'', JStr ''tcp''])]) (dict_get ''protocol'' (JStr ''udp'') params)"
  using assms
  by (auto simp: protocol_param_def value_meets_def given_typed_def value_typed_def parameter_def Let_def dict_get_def
      split: option.splits json.splits)

lemma meets_boolean: "value_meets (parameter tool k name ''boolean'' False dflt cs) v"
  by (simp add: value_meets_def parameter_def Let_def)

lemma parameter_fields [simp]:
  "tpm_name (parameter tool k name type required dflt cs) = name"
  "tpm_type (parameter tool k name type required dflt cs) = type"
  "tpm_default (parameter tool k name type required dflt cs) = dflt"
  by (simp_all add: parameter_def Let_def)

lemma accepts_Inr_iff: "accepts_body validate params \<longleftrightarrow> (\<exists>v. validate params = Inr v)"
  by (auto simp: accepts_body_def split: sum.split)

lemma ping_enforces: "body_typed ping_definition params \<Longrightarrow> accepts_body ping_validate params \<longleftrightarrow> body_meets ping_definition params"
  unfolding accepts_Inr_iff
  by (auto simp: body_typed_def body_meets_def ping_definition_def ping_validate_def meets_boolean
      accepts_target [symmetric] accepts_int [symmetric])

lemma traceroute_enforces:
  "body_typed traceroute_definition params \<Longrightarrow> accepts_body trace_validate params \<longleftrightarrow> body_meets traceroute_definition params"
  unfolding accepts_Inr_iff
  by (auto simp: body_typed_def body_meets_def traceroute_definition_def trace_validate_def meets_boolean
      accepts_target [symmetric] accepts_int [symmetric] accepts_protocol [symmetric])

section \<open>Property\<close>

text \<open>
  C31: ping and traceroute enforce exactly what they declare.  A body whose values have the
  declared types is accepted by the validation of the tool if and only if the target is not
  blank and every value, given or default, lies in the range or among the options that the
  definition of the tool announces to the interface.
\<close>

theorem declared_parameters_enforced:
  assumes "body_typed ping_definition ping_body" "body_typed traceroute_definition trace_body"
  shows "accepts_body ping_validate ping_body = body_meets ping_definition ping_body \<and>
    accepts_body trace_validate trace_body = body_meets traceroute_definition trace_body"
  using ping_enforces [OF assms(1)] traceroute_enforces [OF assms(2)] by simp

theorem declared_parameters_enforced_witness:
  "\<not> accepts_body ping_validate [(''target'', JStr ''a.b''), (''count'', JInt 101)] \<and>
   accepts_body trace_validate [(''target'', JStr ''a.b''), (''protocol'', JStr ''tcp'')]"
proof -
  have "body_typed ping_definition [(''target'', JStr ''a.b''), (''count'', JInt 101)]"
    "body_typed traceroute_definition [(''target'', JStr ''a.b''), (''protocol'', JStr ''tcp'')]"
    by code_simp+
  moreover have "\<not> body_meets ping_definition [(''target'', JStr ''a.b''), (''count'', JInt 101)]"
    "body_meets traceroute_definition [(''target'', JStr ''a.b''), (''protocol'', JStr ''tcp'')]"
    by code_simp+
  ultimately show ?thesis
    using declared_parameters_enforced by blast
qed

end
