(* ===== verification/Startup.thy ===== *)
theory Startup
  imports Tool_Definitions Admin_Users
begin

text \<open>
  \<open>lifespan\<close> and the health endpoints of \<open>app/main.py\<close>, \<open>app/redis/connection.py\<close> and
  \<open>app/cli/create_admin.py\<close>: which services a process starts with, the rows it seeds, the
  nightly jobs, and the first administrator.
\<close>

section \<open>Redis\<close>

text \<open>
  The module keeps one client.  Creating it may fail on the address, and the first \<open>ping\<close> may
  fail when the client is already kept; \<open>None\<close> is success.
\<close>

definition init_redis :: "exn option \<Rightarrow> exn option \<Rightarrow> bool \<Rightarrow> (exn + unit) \<times> bool" where
  "init_redis from_url ping client =
     (case from_url of
        Some x \<Rightarrow> (Inl x, client)
      | None \<Rightarrow> ((case ping of Some x \<Rightarrow> Inl x | None \<Rightarrow> Inr ()), True))"

definition get_redis :: "bool \<Rightarrow> exn + unit" where
  "get_redis client = (if \<not> client then Inl (PyError ''RuntimeError'') else Inr ())"

definition close_redis :: "bool \<Rightarrow> bool" where
  "close_redis client = False"

section \<open>The database\<close>

datatype db_engine = Primary | Sqlite

text \<open>
  Outside development a database that cannot be reached ends the start; in development SQLite
  takes its place, and failing that the process goes on without a database.
\<close>

definition open_database :: "string \<Rightarrow> exn option \<Rightarrow> exn option \<Rightarrow> exn + db_engine \<times> bool" where
  "open_database environment primary fallback =
     (case primary of
        None \<Rightarrow> Inr (Primary, True)
      | Some x \<Rightarrow>
          if environment \<noteq> ''development'' then Inl x
          else (case fallback of None \<Rightarrow> Inr (Sqlite, True) | Some _ \<Rightarrow> Inr (Primary, False)))"

section \<open>The registry\<close>

definition TOOL_DEFINITIONS :: "tool_definition list" where
  "TOOL_DEFINITIONS = [ping_definition, traceroute_definition, dns_lookup_definition, ssl_viewer_definition]"

fun register_all :: "tool list \<Rightarrow> registry \<Rightarrow> exn + registry" where
  "register_all [] reg = Inr reg"
| "register_all (t # ts) reg = bind_exn (register t reg) (register_all ts)"

definition build_registry :: "(string \<Rightarrow> json \<Rightarrow> exn + tool_result) \<Rightarrow> exn + registry" where
  "build_registry execute =
     register_all (map (\<lambda>d. \<lparr>to_name = td_name d, to_execute = execute (td_name d)\<rparr>) TOOL_DEFINITIONS) []"

section \<open>Seeding\<close>

text \<open>
  Every table is seeded the same way: for each wanted key the row is looked up, and added when
  there is none; two rows with the key make the lookup raise.
\<close>

definition ensure_row :: "('a \<Rightarrow> bool) \<Rightarrow> 'a \<Rightarrow> 'a list \<Rightarrow> exn + 'a list" where
  "ensure_row p row rows =
     (case scalar_one_or_none (filter p rows) of
        Inl x \<Rightarrow> Inl x
      | Inr None \<Rightarrow> Inr (rows @ [row])
      | Inr (Some _) \<Rightarrow> Inr rows)"

fun ensure_rows :: "('a \<Rightarrow> 'k) \<Rightarrow> ('w \<Rightarrow> 'k) \<Rightarrow> ('w \<Rightarrow> 'a) \<Rightarrow> 'w list \<Rightarrow> 'a list \<Rightarrow> exn + 'a list" where
  "ensure_rows key wanted mk [] rows = Inr rows"
| "ensure_rows key wanted mk (w # ws) rows =
     bind_exn (ensure_row (\<lambda>r. key r = wanted w) (mk w) rows) (ensure_rows key wanted mk ws)"

definition seed_tools :: "env \<Rightarrow> tool_module list \<Rightarrow> exn + tool_module list" where
  "seed_tools e =
     ensure_rows tm_name td_name (\<lambda>d. to_db_model (e_fresh e (''tool_id:'' @ td_name d)) d) TOOL_DEFINITIONS"

definition tool_id_of :: "tool_module list \<Rightarrow> string \<Rightarrow> string" where
  "tool_id_of tools name = (case find (\<lambda>t. tm_name t = name) tools of Some t \<Rightarrow> tm_id t | None \<Rightarrow> [])"

definition ALL_ROLES :: "string list" where
  "ALL_ROLES = [ROLE_VISITOR, ROLE_AUTHENTICATED, ROLE_ADMINISTRATOR]"

definition seed_permissions :: "env \<Rightarrow> string list \<Rightarrow> role_tool_permission list \<Rightarrow> exn + role_tool_permission list" where
  "seed_permissions e tool_ids =
     ensure_rows (\<lambda>p. (rp_role p, rp_tool_id p)) (\<lambda>w. w)
       (\<lambda>(role, tool_id). \<lparr>rp_id = e_fresh e (''permission_id:'' @ role @ '':'' @ tool_id), rp_role = role,
          rp_tool_id = tool_id, rp_allowed = True\<rparr>)
       (List.product ALL_ROLES tool_ids)"

definition STARTUP_LIMITS :: "(string \<times> int \<times> int \<times> int) list" where
  "STARTUP_LIMITS =
     [(ROLE_VISITOR, 1, 200, 3600), (ROLE_AUTHENTICATED, 1, 500, 3600), (ROLE_ADMINISTRATOR, 0, 3600, 3600)]"

definition seed_limits :: "env \<Rightarrow> rate_limit_config list \<Rightarrow> exn + rate_limit_config list" where
  "seed_limits e =
     ensure_rows (\<lambda>c. (rc_role c, rc_tool_id c)) (\<lambda>w. (fst w, None))
       (\<lambda>(role, soft, hard, window). \<lparr>rc_id = e_fresh e (''limit_id:'' @ role), rc_role = role, rc_tool_id = None,
          rc_soft_limit = soft, rc_hard_limit = hard, rc_window_seconds = window\<rparr>)
       STARTUP_LIMITS"

definition DEFAULT_DNS_SERVERS :: "(string \<times> string) list" where
  "DEFAULT_DNS_SERVERS =
     [(''8.8.8.8'', ''Google DNS''), (''1.1.1.1'', ''Cloudflare DNS''), (''9.9.9.9'', ''Quad9 DNS''),
      (''208.67.222.222'', ''OpenDNS'')]"

text \<open>The presets are added together, to a tool that has none.\<close>

definition seed_presets :: "env \<Rightarrow> string \<Rightarrow> dns_server_preset list \<Rightarrow> dns_server_preset list" where
  "seed_presets e dns_tool_id presets =
     (if dns_tool_id \<noteq> [] \<and> length (filter (\<lambda>p. dp_tool_module_id p = dns_tool_id) presets) = 0
      then presets @ map (\<lambda>(idx, ip, desc). \<lparr>dp_id = e_fresh e (''preset_id:'' @ ip), dp_tool_module_id = dns_tool_id,
             dp_ip_address = ip, dp_description = desc, dp_sort_order = int idx\<rparr>) (enumerate 0 DEFAULT_DNS_SERVERS)
      else presets)"

definition DEFAULT_SETTINGS :: "(string \<times> string) list" where
  "DEFAULT_SETTINGS =
     [(''log_retention_days'', ''90''), (''session_duration_hours'', ''24''), (''max_concurrent_sessions'', ''10''),
      (''visitor_ip_soft_limit'', ''5''), (''visitor_ip_hard_limit'', ''500'')]"

definition seed_settings :: "env \<Rightarrow> global_setting list \<Rightarrow> exn + global_setting list" where
  "seed_settings e =
     ensure_rows gs_key fst (\<lambda>(key, val). \<lparr>gs_id = e_fresh e (''setting_id:'' @ key), gs_key = key, gs_value = val\<rparr>)
       DEFAULT_SETTINGS"

text \<open>One transaction: an exception anywhere leaves the database as it was.\<close>

definition seed :: "env \<Rightarrow> db \<Rightarrow> exn + db" where
  "seed e d =
     bind_exn (seed_tools e (db_tools d)) (\<lambda>tools.
     (let tool_ids = map (\<lambda>t. tool_id_of tools (td_name t)) TOOL_DEFINITIONS
      in bind_exn (seed_permissions e tool_ids (db_permissions d)) (\<lambda>permissions.
         bind_exn (seed_limits e (db_rate_limits d)) (\<lambda>limits.
         bind_exn (seed_settings e (db_settings d)) (\<lambda>settings.
           Inr (d\<lparr>db_tools := tools, db_permissions := permissions, db_rate_limits := limits,
                  db_presets := seed_presets e (tool_id_of tools ''dns_lookup'') (db_presets d),
                  db_settings := settings\<rparr>))))))"

definition seed_or_keep :: "env \<Rightarrow> db \<Rightarrow> db" where
  "seed_or_keep e d = (case seed e d of Inl _ \<Rightarrow> d | Inr d' \<Rightarrow> d')"

section \<open>Starting\<close>

datatype job = CleanupLogs | CleanupUnverifiedAccounts | CleanupAnonymousSessions | CleanupOrphanPreferences

text \<open>The jobs with the hour and minute of the day they run at.\<close>

definition JOBS :: "(nat \<times> nat \<times> job) list" where
  "JOBS = [(3, 0, CleanupLogs), (3, 30, CleanupUnverifiedAccounts), (3, 35, CleanupAnonymousSessions),
     (3, 40, CleanupOrphanPreferences)]"

record app_state =
  ap_registry :: registry
  ap_engine :: db_engine
  ap_db_available :: bool
  ap_redis :: bool
  ap_connections :: ws_manager

text \<open>
  \<open>lifespan\<close> up to its \<open>yield\<close>.  Each engine has a database of its own; only the one in use is
  seeded.
\<close>

definition lifespan_start ::
    "string \<Rightarrow> exn option \<times> exn option \<Rightarrow> exn option \<Rightarrow> exn option \<Rightarrow> (string \<Rightarrow> json \<Rightarrow> exn + tool_result) \<Rightarrow> env \<Rightarrow>
     (db_engine \<Rightarrow> db) \<Rightarrow> exn + app_state \<times> (db_engine \<Rightarrow> db)" where
  "lifespan_start environment redis primary fallback execute e dbs =
     (let client = snd (init_redis (fst redis) (snd redis) False)
      in bind_exn (open_database environment primary fallback) (\<lambda>(used, available).
         bind_exn (build_registry execute) (\<lambda>reg.
           Inr (\<lparr>ap_registry = reg, ap_engine = used, ap_db_available = available, ap_redis = client,
                 ap_connections = \<lparr>wm_connections = [], wm_open = [], wm_sent = []\<rparr>\<rparr>,
                if available then dbs(used := seed_or_keep e (dbs used)) else dbs))))"

text \<open>
  A job commits its work or has no effect.  In a process started without a database the session
  factory the jobs name was never imported, so they do nothing for the life of the process.
\<close>

definition run_job :: "app_state \<Rightarrow> tstamp \<Rightarrow> job \<Rightarrow> db \<Rightarrow> db" where
  "run_job app now j d =
     (if \<not> ap_db_available app then d
      else (case j of
          CleanupLogs \<Rightarrow> cleanup_logs now d
        | CleanupUnverifiedAccounts \<Rightarrow>
            (case cleanup_unverified_accounts now 7 d of Inl _ \<Rightarrow> d | Inr (_, d') \<Rightarrow> d')
        | CleanupAnonymousSessions \<Rightarrow> snd (cleanup_expired_anonymous_sessions now d)
        | CleanupOrphanPreferences \<Rightarrow> snd (cleanup_orphan_preferences d)))"

text \<open>One night, with the instant at which each job runs.\<close>

definition run_night :: "app_state \<Rightarrow> tstamp \<Rightarrow> db \<Rightarrow> db" where
  "run_night app midnight d =
     foldl (\<lambda>d (hour, minute, j). run_job app (midnight + sec (int (60 * (60 * hour + minute)))) j d) d JOBS"

section \<open>Health\<close>

text \<open>Redis is asked through the client the process keeps.\<close>

definition health_full :: "string \<Rightarrow> request \<Rightarrow> bool \<Rightarrow> bool \<Rightarrow> bool \<Rightarrow> exn + (string \<times> string) list" where
  "health_full configured_token r db_answers client redis_answers =
     (if configured_token = [] then Inl (AppError 503 ''SERVICE_UNAVAILABLE'' ''errors.not_configured'')
      else if or_default (header ''x-health-token'' r) [] \<noteq> configured_token
      then Inl (AppError 401 ''UNAUTHORIZED'' ''errors.unauthorized'')
      else Inr [(''database'', if db_answers then ''ok'' else ''unavailable''),
                (''redis'', if get_redis client = Inr () \<and> redis_answers then ''ok'' else ''unavailable'')])"

section \<open>The first administrator\<close>

text \<open>The command with its exit code.\<close>

definition create_admin ::
    "auth_cfg \<Rightarrow> env \<Rightarrow> string \<Rightarrow> string \<Rightarrow> string \<Rightarrow> string \<Rightarrow> db \<Rightarrow> (exn + int) \<times> db" where
  "create_admin c e email password first_name last_name d =
     (if \<not> fst (validate_password_strength c password) then (Inr 1, d)
      else (case user_by_email d (py_lower (py_strip email)) of
          Inl x \<Rightarrow> (Inl x, d)
        | Inr (Some _) \<Rightarrow> (Inr 1, d)
        | Inr None \<Rightarrow>
            (Inr 0, d\<lparr>db_users := db_users d @
               [\<lparr>u_id = e_fresh e ''user_id'', u_email = py_lower (py_strip email), u_password_hash = ac_hash_password c password,
                 u_role = ROLE_ADMINISTRATOR, u_status = ''active'', u_failed_login_attempts = 0, u_locked_until = None,
                 u_admin_notes = None, u_first_name = Some (py_strip first_name), u_last_name = Some (py_strip last_name),
                 u_email_verified_at = Some (e_now e), u_created_at = e_now e, u_updated_at = e_now e\<rparr>]\<rparr>)))"

section \<open>The contract of a seeded table\<close>

definition once :: "('a \<Rightarrow> 'k) \<Rightarrow> 'k \<Rightarrow> 'a list \<Rightarrow> bool" where
  "once key k rows \<longleftrightarrow> length (filter (\<lambda>r. key r = k) rows) = 1"

text \<open>A row that is there already is left alone, whatever would have been added.\<close>

lemma ensure_rows_idle: "list_all (\<lambda>w. once key (wanted w) rows) ws \<Longrightarrow> ensure_rows key wanted mk ws rows = Inr rows"
proof (induction ws)
  case (Cons w ws)
  then obtain r where "filter (\<lambda>r. key r = wanted w) rows = [r]"
    by (auto simp: once_def length_Suc_conv)
  with Cons show ?case
    by (simp add: ensure_row_def)
qed simp

text \<open>The rows are made with the keys they are looked up by.\<close>

locale seeded_table =
  fixes key :: "'a \<Rightarrow> 'k" and wanted :: "'w \<Rightarrow> 'k" and mk :: "'w \<Rightarrow> 'a"
  assumes key_mk: "key (mk w) = wanted w"
begin

lemma ensure_row_iff:
  "ensure_row (\<lambda>r. key r = wanted w) (mk w) rows = Inr rows' \<longleftrightarrow>
     filter (\<lambda>r. key r = wanted w) rows = [] \<and> rows' = rows @ [mk w] \<or> once key (wanted w) rows \<and> rows' = rows"
  by (auto simp: ensure_row_def once_def scalar_Inr_iff length_Suc_conv split: sum.splits option.splits)

lemma once_row:
  "ensure_row (\<lambda>r. key r = wanted w) (mk w) rows = Inr rows' \<Longrightarrow> once key (wanted w) rows' \<and> (once key k rows \<longrightarrow> once key k rows')"
  by (auto simp: ensure_row_iff once_def key_mk)

lemma rows_kept: "ensure_rows key wanted mk ws rows = Inr rows' \<Longrightarrow> \<exists>new. rows' = rows @ new \<and> set new \<subseteq> mk ` set ws"
proof (induction ws arbitrary: rows)
  case (Cons w ws)
  then obtain rows1 where step: "ensure_row (\<lambda>r. key r = wanted w) (mk w) rows = Inr rows1"
    and rest: "ensure_rows key wanted mk ws rows1 = Inr rows'"
    by auto
  from Cons.IH [OF rest] obtain new where "rows' = rows1 @ new" "set new \<subseteq> mk ` set ws"
    by blast
  with step show ?case
    by (auto simp: ensure_row_iff)
qed simp

lemma rows_once:
  "ensure_rows key wanted mk ws rows = Inr rows' \<Longrightarrow>
   list_all (\<lambda>w. once key (wanted w) rows') ws \<and> (once key k rows \<longrightarrow> once key k rows')"
proof (induction ws arbitrary: rows k)
  case (Cons w ws)
  then obtain rows1 where step: "ensure_row (\<lambda>r. key r = wanted w) (mk w) rows = Inr rows1"
    and rest: "ensure_rows key wanted mk ws rows1 = Inr rows'"
    by auto
  show ?case
    using once_row [OF step] Cons.IH [OF rest, of k] Cons.IH [OF rest, of "wanted w"] by auto
qed simp

lemma rows_idempotent: "ensure_rows key wanted mk ws rows = Inr rows' \<Longrightarrow> ensure_rows key wanted mk' ws rows' = Inr rows'"
  using rows_once ensure_rows_idle by blast

lemma rows_total: "distinct (map key rows) \<Longrightarrow> \<exists>rows'. ensure_rows key wanted mk ws rows = Inr rows' \<and> distinct (map key rows')"
proof (induction ws arbitrary: rows)
  case (Cons w ws)
  have "\<exists>rows1. ensure_row (\<lambda>r. key r = wanted w) (mk w) rows = Inr rows1 \<and> distinct (map key rows1)"
  proof (cases "filter (\<lambda>r. key r = wanted w) rows")
    case Nil
    then have "wanted w \<notin> key ` set rows"
      by (auto simp: filter_empty_conv)
    with Nil Cons.prems show ?thesis
      by (simp add: ensure_row_def key_mk)
  next
    case (Cons r rs)
    then have "scalar_one_or_none (filter (\<lambda>r. key r = wanted w) rows) = Inr (Some r)"
      using scalar_one_or_none_filter [OF \<open>distinct (map key rows)\<close>, of "wanted w"]
      by (cases rs) auto
    with Cons.prems show ?thesis
      by (simp add: ensure_row_def)
  qed
  with Cons.IH show ?case
    by auto
qed simp

end

text \<open>The four tables of the seed keep it.\<close>

interpretation st: seeded_table tm_name td_name "\<lambda>d. to_db_model (e_fresh e (''tool_id:'' @ td_name d)) d" for e
  by unfold_locales (simp add: to_db_model_def)

interpretation sp: seeded_table "\<lambda>p. (rp_role p, rp_tool_id p)" "\<lambda>w. w"
  "\<lambda>(role, tool_id). \<lparr>rp_id = e_fresh e (''permission_id:'' @ role @ '':'' @ tool_id), rp_role = role,
      rp_tool_id = tool_id, rp_allowed = True\<rparr>" for e
  by unfold_locales auto

interpretation sl: seeded_table "\<lambda>c. (rc_role c, rc_tool_id c)" "\<lambda>w. (fst w, None)"
  "\<lambda>(role, soft, hard, window). \<lparr>rc_id = e_fresh e (''limit_id:'' @ role), rc_role = role, rc_tool_id = None,
      rc_soft_limit = soft, rc_hard_limit = hard, rc_window_seconds = window\<rparr>" for e
  by unfold_locales auto

interpretation sg: seeded_table gs_key fst
  "\<lambda>(key, val). \<lparr>gs_id = e_fresh e (''setting_id:'' @ key), gs_key = key, gs_value = val\<rparr>" for e
  by unfold_locales auto

section \<open>Lemmas\<close>

text \<open>The keys of the four tables are unique; of the limits the database itself does not demand it.\<close>

definition seed_wf :: "db \<Rightarrow> bool" where
  "seed_wf d \<longleftrightarrow> distinct (map tm_name (db_tools d)) \<and> distinct (map (\<lambda>p. (rp_role p, rp_tool_id p)) (db_permissions d)) \<and>
     distinct (map (\<lambda>c. (rc_role c, rc_tool_id c)) (db_rate_limits d)) \<and> distinct (map gs_key (db_settings d))"

definition seeded :: "db \<Rightarrow> bool" where
  "seeded d \<longleftrightarrow>
     list_all (\<lambda>t. once tm_name (td_name t) (db_tools d)) TOOL_DEFINITIONS \<and>
     list_all (\<lambda>w. once (\<lambda>p. (rp_role p, rp_tool_id p)) w (db_permissions d))
       (List.product ALL_ROLES (map (\<lambda>t. tool_id_of (db_tools d) (td_name t)) TOOL_DEFINITIONS)) \<and>
     list_all (\<lambda>w. once (\<lambda>c. (rc_role c, rc_tool_id c)) (fst w, None) (db_rate_limits d)) STARTUP_LIMITS \<and>
     list_all (\<lambda>w. once gs_key (fst w) (db_settings d)) DEFAULT_SETTINGS"

text \<open>What a seed adds comes after the rows that were there.\<close>

definition extends :: "db \<Rightarrow> db \<Rightarrow> bool" where
  "extends d d' \<longleftrightarrow> (\<exists>ts ps ls rs gs. d' = d\<lparr>db_tools := db_tools d @ ts, db_permissions := db_permissions d @ ps,
     db_rate_limits := db_rate_limits d @ ls, db_presets := db_presets d @ rs, db_settings := db_settings d @ gs\<rparr>)"

lemma seed_Inr:
  assumes "seed e d = Inr d'"
  shows "seed_tools e (db_tools d) = Inr (db_tools d')"
    and "seed_permissions e (map (\<lambda>t. tool_id_of (db_tools d') (td_name t)) TOOL_DEFINITIONS) (db_permissions d) =
      Inr (db_permissions d')"
    and "seed_limits e (db_rate_limits d) = Inr (db_rate_limits d')"
    and "seed_settings e (db_settings d) = Inr (db_settings d')"
    and "db_presets d' = seed_presets e (tool_id_of (db_tools d') ''dns_lookup'') (db_presets d)"
    and "d' = d\<lparr>db_tools := db_tools d', db_permissions := db_permissions d', db_rate_limits := db_rate_limits d',
      db_presets := db_presets d', db_settings := db_settings d'\<rparr>"
  using assms by (auto simp: seed_def Let_def)

lemma seed_total:
  assumes "seed_wf d"
  shows "\<exists>d'. seed e d = Inr d' \<and> seed_wf d'"
proof -
  note keys = assms [unfolded seed_wf_def]
  obtain tools where tools: "seed_tools e (db_tools d) = Inr tools" "distinct (map tm_name tools)"
    unfolding seed_tools_def using st.rows_total [OF conjunct1 [OF keys]] by blast
  obtain ps where ps: "seed_permissions e (map (\<lambda>t. tool_id_of tools (td_name t)) TOOL_DEFINITIONS) (db_permissions d) = Inr ps"
      "distinct (map (\<lambda>p. (rp_role p, rp_tool_id p)) ps)"
    unfolding seed_permissions_def using sp.rows_total [OF conjunct1 [OF conjunct2 [OF keys]]] by blast
  obtain ls where ls: "seed_limits e (db_rate_limits d) = Inr ls" "distinct (map (\<lambda>c. (rc_role c, rc_tool_id c)) ls)"
    unfolding seed_limits_def using sl.rows_total [OF conjunct1 [OF conjunct2 [OF conjunct2 [OF keys]]]] by blast
  obtain gs where gs: "seed_settings e (db_settings d) = Inr gs" "distinct (map gs_key gs)"
    unfolding seed_settings_def using sg.rows_total [OF conjunct2 [OF conjunct2 [OF conjunct2 [OF keys]]]] by blast
  show ?thesis
    using tools ps ls gs by (simp add: seed_def Let_def seed_wf_def)
qed

lemma seed_extends:
  assumes "seed e d = Inr d'"
  shows "extends d d'"
proof -
  note parts = seed_Inr [OF assms]
  obtain ts where ts: "db_tools d' = db_tools d @ ts"
    using st.rows_kept [OF parts(1) [unfolded seed_tools_def]] by blast
  obtain ps where ps: "db_permissions d' = db_permissions d @ ps"
    using sp.rows_kept [OF parts(2) [unfolded seed_permissions_def]] by blast
  obtain ls where ls: "db_rate_limits d' = db_rate_limits d @ ls"
    using sl.rows_kept [OF parts(3) [unfolded seed_limits_def]] by blast
  obtain gs where gs: "db_settings d' = db_settings d @ gs"
    using sg.rows_kept [OF parts(4) [unfolded seed_settings_def]] by blast
  obtain rs where rs: "db_presets d' = db_presets d @ rs"
    using parts(5) by (auto simp: seed_presets_def split: if_splits)
  show ?thesis
    using parts(6) unfolding extends_def ts ps ls gs rs by blast
qed

lemma seed_seeded:
  assumes "seed e d = Inr d'"
  shows "seeded d'"
proof -
  note parts = seed_Inr [OF assms]
  show ?thesis
    unfolding seeded_def
    using st.rows_once [OF parts(1) [unfolded seed_tools_def]] sp.rows_once [OF parts(2) [unfolded seed_permissions_def]]
      sl.rows_once [OF parts(3) [unfolded seed_limits_def]] sg.rows_once [OF parts(4) [unfolded seed_settings_def]]
    by blast
qed

lemma presets_settled: "seed_presets e' i (seed_presets e i ps) = seed_presets e i ps"
  by (auto simp: seed_presets_def DEFAULT_DNS_SERVERS_def)

lemma seed_idle:
  assumes "seed e d = Inr d'"
  shows "seed e' d' = Inr d'"
proof -
  note parts = seed_Inr [OF assms]
  have "seed_tools e' (db_tools d') = Inr (db_tools d')"
    unfolding seed_tools_def by (rule st.rows_idempotent [OF parts(1) [unfolded seed_tools_def]])
  moreover have "seed_permissions e' (map (\<lambda>t. tool_id_of (db_tools d') (td_name t)) TOOL_DEFINITIONS) (db_permissions d') =
      Inr (db_permissions d')"
    unfolding seed_permissions_def by (rule sp.rows_idempotent [OF parts(2) [unfolded seed_permissions_def]])
  moreover have "seed_limits e' (db_rate_limits d') = Inr (db_rate_limits d')"
    unfolding seed_limits_def by (rule sl.rows_idempotent [OF parts(3) [unfolded seed_limits_def]])
  moreover have "seed_settings e' (db_settings d') = Inr (db_settings d')"
    unfolding seed_settings_def by (rule sg.rows_idempotent [OF parts(4) [unfolded seed_settings_def]])
  ultimately show ?thesis
    using presets_settled parts(5) by (simp add: seed_def Let_def)
qed

lemma tool_names: "map td_name TOOL_DEFINITIONS = [''ping'', ''traceroute'', ''dns_lookup'', ''ssl_viewer'']"
  by (simp add: TOOL_DEFINITIONS_def ping_definition_def traceroute_definition_def dns_lookup_definition_def
      ssl_viewer_definition_def)

lemma build_registry_names:
  "\<exists>reg. build_registry execute = Inr reg \<and> list_names reg = map td_name TOOL_DEFINITIONS \<and>
     map to_name (list_available reg) = list_names reg"
  by (simp add: build_registry_def TOOL_DEFINITIONS_def register_def list_names_def list_available_def ping_definition_def
      traceroute_definition_def dns_lookup_definition_def ssl_viewer_definition_def)

text \<open>On an empty database every row is one of the seed, hence enabled and allowed.\<close>

lemma seeded_empty:
  assumes "seed e empty_db = Inr d"
  shows "list_all tm_enabled (db_tools d)" "list_all rp_allowed (db_permissions d)"
proof -
  note parts = seed_Inr [OF assms]
  show "list_all tm_enabled (db_tools d)"
    using st.rows_kept [OF parts(1) [unfolded seed_tools_def]] by (auto simp: list_all_iff empty_db_def to_db_model_def)
  show "list_all rp_allowed (db_permissions d)"
    using sp.rows_kept [OF parts(2) [unfolded seed_permissions_def]] by (fastforce simp: list_all_iff empty_db_def)
qed

lemma onceE:
  assumes "once key k rows"
  obtains r where "filter (\<lambda>r. key r = k) rows = [r]" "r \<in> set rows" "key r = k"
proof -
  obtain r where r: "filter (\<lambda>r. key r = k) rows = [r]"
    using assms by (auto simp: once_def length_Suc_conv)
  then have "r \<in> set (filter (\<lambda>r. key r = k) rows)"
    by simp
  then have "r \<in> set rows \<and> key r = k"
    by (simp only: set_filter mem_Collect_eq)
  with r that show thesis by blast
qed

lemma find_filter: "filter p xs = x # ys \<Longrightarrow> find p xs = Some x"
  by (induction xs) (auto split: if_splits)

lemma seeded_tool_usable:
  assumes "seed e empty_db = Inr d" "name \<in> set (map td_name TOOL_DEFINITIONS)" "request_role r \<in> set ALL_ROLES"
  shows "name \<in> set (enabled_tools d)" "name \<in> set (allowed_tools d (request_role r))" "check_tool_access e' name r d = Inr d"
proof -
  have "once tm_name name (db_tools d)"
    using seed_seeded [OF assms(1)] assms(2) by (auto simp: seeded_def list_all_iff)
  then obtain t where t: "filter (\<lambda>t. tm_name t = name) (db_tools d) = [t]" "t \<in> set (db_tools d)" "tm_name t = name"
    by (rule onceE)
  then have i: "tool_id_of (db_tools d) name = tm_id t"
    using find_filter [OF t(1)] by (simp add: tool_id_of_def)
  have "once (\<lambda>p. (rp_role p, rp_tool_id p)) (request_role r, tm_id t) (db_permissions d)"
    using seed_seeded [OF assms(1)] assms(2,3) by (auto simp: seeded_def list_all_iff simp flip: i)
  then obtain p where p: "filter (\<lambda>p. (rp_role p, rp_tool_id p) = (request_role r, tm_id t)) (db_permissions d) = [p]"
      "p \<in> set (db_permissions d)" "(rp_role p, rp_tool_id p) = (request_role r, tm_id t)"
    by (rule onceE)
  have on: "tm_enabled t" "rp_allowed p"
    using seeded_empty [OF assms(1)] t(2) p(2) by (auto simp: list_all_iff)
  show "name \<in> set (enabled_tools d)"
    using t on(1) by (auto simp: enabled_tools_def)
  show "name \<in> set (allowed_tools d (request_role r))"
    using t p on(2) by (auto simp: allowed_tools_def)
  show "check_tool_access e' name r d = Inr d"
    using t(1) p(1) on by (simp add: check_tool_access_def permission_row_def)
qed

text \<open>Outside development a process never runs on another database than the configured one.\<close>

lemma production_fails_fast:
  assumes "lifespan_start environment redis primary fallback execute e dbs = Inr (app, dbs')" "environment \<noteq> ''development''"
  shows "primary = None \<and> ap_engine app = Primary \<and> ap_db_available app \<and> dbs' Sqlite = dbs Sqlite"
  using assms by (auto simp: lifespan_start_def open_database_def Let_def split: option.splits if_splits)

text \<open>After a night no preference is left that neither a user nor a session reaches.\<close>

lemma night_leaves_no_orphan: "ap_db_available app \<Longrightarrow> \<not> list_ex orphan_preference (db_preferences (run_night app t d))"
  by (simp add: run_night_def JOBS_def run_job_def cleanup_orphan_preferences_def list_ex_iff)

text \<open>The address of the administrator is stored in the form the login looks up.\<close>

lemma isspace_lower: "py_isspace (lower_char c) = py_isspace c"
proof (cases "lower_char c = c")
  case False
  then have n: "65 \<le> (of_char c :: nat) \<and> (of_char c :: nat) \<le> 90 \<or> 192 \<le> (of_char c :: nat) \<and> (of_char c :: nat) \<le> 222"
    by (auto simp: lower_char_def Let_def split: if_splits)
  then have "(of_char (char_of ((of_char c :: nat) + 32) :: char) :: nat) = of_char c + 32"
    by (auto simp: of_char_mod_256)
  moreover have "lower_char c = char_of ((of_char c :: nat) + 32)"
    using False by (auto simp: lower_char_def Let_def split: if_splits)
  ultimately show ?thesis
    using n by (auto simp: py_isspace_def Let_def)
qed simp

lemma strip_lower: "py_strip (py_lower s) = py_lower (py_strip s)"
proof -
  have drop: "dropWhile py_isspace (map lower_char t) = map lower_char (dropWhile py_isspace t)" for t
    by (induction t) (simp_all add: isspace_lower)
  show ?thesis
    by (simp add: py_strip_def py_lstrip_def py_rstrip_def py_lower_def drop rev_map)
qed

section \<open>Properties\<close>

text \<open>
  C27: a start completes the configuration and respects what is there.  On a database whose
  keys are unique the seed succeeds, keeps the keys unique and every row as it was, leaves
  exactly one row for each tool, for each role and tool, for the global limit of each role
  and for each setting, and any later start changes nothing.
\<close>

theorem startup_seed_sound:
  assumes "seed_wf d"
  shows "\<exists>d'. seed e d = Inr d' \<and> seed_wf d' \<and> extends d d' \<and> seeded d' \<and> seed e' d' = Inr d'"
  using seed_total [OF assms, of e] seed_extends seed_seeded seed_idle by blast

text \<open>
  A fresh installation works.  After the first start on an empty database everyone, signed
  in or not, is offered all four tools in the order of the registry, and may run each of them.
\<close>

lemma fresh_install_usable:
  assumes "lifespan_start environment redis None fallback execute e (\<lambda>_. empty_db) = Inr (app, dbs)"
    and "request_role r \<in> set ALL_ROLES"
  shows "list_tools (ap_registry app) r (dbs Primary) = list_names (ap_registry app) \<and>
    list_names (ap_registry app) = [''ping'', ''traceroute'', ''dns_lookup'', ''ssl_viewer''] \<and>
    list_all (\<lambda>name. check_tool_access e' name r (dbs Primary) = Inr (dbs Primary)) (list_names (ap_registry app))"
proof -
  have "seed_wf empty_db"
    by (simp add: seed_wf_def empty_db_def)
  then obtain d where d: "seed e empty_db = Inr d"
    using seed_total by blast
  obtain reg where reg: "build_registry execute = Inr reg" "list_names reg = map td_name TOOL_DEFINITIONS"
    "map to_name (list_available reg) = list_names reg"
    using build_registry_names by blast
  have start: "dbs Primary = d" "ap_registry app = reg"
    using assms(1) d reg(1) by (auto simp: lifespan_start_def open_database_def seed_or_keep_def Let_def)
  have usable: "name \<in> set (enabled_tools d)" "name \<in> set (allowed_tools d (request_role r))"
      "check_tool_access e' name r d = Inr d"
    if "name \<in> set (list_names reg)" for name
    using seeded_tool_usable [OF d _ assms(2)] that reg(2) by auto
  have "list_tools reg r d = map to_name (list_available reg)"
  proof -
    have "to_name t \<in> set (list_names reg)" if "t \<in> set (list_available reg)" for t
      using that reg(3) by (metis image_eqI set_map)
    then show ?thesis
      using usable(1,2) by (auto simp: list_tools_def intro!: arg_cong [where f = "map to_name"] filter_True)
  qed
  then have "list_tools reg r d = list_names reg"
    by (simp add: reg(3))
  moreover have "list_names reg = [''ping'', ''traceroute'', ''dns_lookup'', ''ssl_viewer'']"
    by (simp only: reg(2) tool_names)
  ultimately show ?thesis
    using usable(3) by (simp only: start list_all_iff) blast
qed

text \<open>
  The command line makes an administrator who can sign in.  After \<open>create_admin\<close> has
  reported success, the address and password it was given open a session for a verified
  administrator, from any client address that is not held back.
\<close>

lemma created_admin_signs_in:
  assumes "create_admin c e email password first_name last_name (w_db w) = (Inr 0, d)"
    and "ac_verify c password (ac_hash_password c password)" "\<not> check_ip_bruteforce c e' w ip"
    and "e_fresh e' ''session_id'' \<notin> set (map s_id (db_sessions (w_db w)))"
    and "e_hash e' (e_fresh e' ''session_token'') \<notin> set (map s_token_hash (db_sessions (w_db w)))"
  shows "\<exists>view token th sid w' d'. login c e' (w\<lparr>w_db := d\<rparr>) email password ip ua = (Inr (LoginOk view token th sid), w', d') \<and>
    vw_role view = ROLE_ADMINISTRATOR \<and> vw_email_verified view \<and> vw_email view = normalize_email email"
proof -
  let ?admin = "\<lparr>u_id = e_fresh e ''user_id'', u_email = normalize_email email, u_password_hash = ac_hash_password c password,
     u_role = ROLE_ADMINISTRATOR, u_status = ''active'', u_failed_login_attempts = 0, u_locked_until = None,
     u_admin_notes = None, u_first_name = Some (py_strip first_name), u_last_name = Some (py_strip last_name),
     u_email_verified_at = Some (e_now e), u_created_at = e_now e, u_updated_at = e_now e\<rparr>"
  have norm: "py_lower (py_strip email) = normalize_email email"
    by (simp add: normalize_email_def strip_lower)
  have none: "filter (\<lambda>u. u_email u = normalize_email email) (db_users (w_db w)) = []"
    and d: "d = w_db w\<lparr>db_users := db_users (w_db w) @ [?admin]\<rparr>"
    using assms(1) by (auto simp: create_admin_def norm user_by_email_def scalar_Inr_iff split: if_splits sum.splits option.splits)
  have lookup: "user_by_email d (normalize_email email) = Inr (Some ?admin)"
    by (simp add: user_by_email_def d none)
  have open_door: "check_brute_force_lock (e_now e') ?admin = (False, None)"
    by (simp add: check_brute_force_lock_def)
  have rows: "?admin \<in> set (db_users d)" "db_sessions d = db_sessions (w_db w)"
    by (simp_all add: d)
  have same: "save_user (e_now e') (\<lambda>u. u\<lparr>u_failed_login_attempts := 0, u_locked_until := None\<rparr>) ?admin = ?admin"
    by (simp add: save_user_def)
  obtain loc token th sid w' d' where "login c e' (w\<lparr>w_db := d\<rparr>) email password ip ua =
      (Inr (LoginOk (view_user loc ?admin) token th sid), w', d')"
    using login_opens [of "w\<lparr>w_db := d\<rparr>" email ?admin e' c password ip ua] assms(2-5)
    by (auto simp: lookup open_door same rows)
  moreover have "vw_role (view_user loc ?admin) = ROLE_ADMINISTRATOR" "vw_email_verified (view_user loc ?admin)"
    "vw_email (view_user loc ?admin) = normalize_email email"
    by (simp_all add: view_user_def)
  ultimately show ?thesis
    by blast
qed

section \<open>Witnesses\<close>

theorem startup_seed_sound_witness: "\<exists>d'. seed sample_env empty_db = Inr d' \<and> seeded d'"
proof -
  have "seed_wf empty_db"
    by (simp add: seed_wf_def empty_db_def)
  from startup_seed_sound [OF this, of sample_env sample_env] show ?thesis
    by blast
qed

definition lenient_cfg :: auth_cfg where
  "lenient_cfg = sample_cfg\<lparr>ac_verify := \<lambda>p h. h = ''hash''\<rparr>"

lemma created_admin_signs_in_witness:
  "\<exists>d view token th sid w' d'. create_admin lenient_cfg sample_env '' Root@Example.org'' ''Abcdefg1'' ''A'' ''B'' empty_db = (Inr 0, d) \<and>
     login lenient_cfg sample_env ((sample_world empty_db)\<lparr>w_db := d\<rparr>) '' Root@Example.org'' ''Abcdefg1'' ''1.2.3.4'' None =
       (Inr (LoginOk view token th sid), w', d') \<and> vw_email view = normalize_email '' Root@Example.org''"
proof -
  let ?pair = "create_admin lenient_cfg sample_env '' Root@Example.org'' ''Abcdefg1'' ''A'' ''B'' (w_db (sample_world empty_db))"
  have "fst ?pair = Inr 0"
    by code_simp
  then obtain d where made: "?pair = (Inr 0, d)"
    by (metis prod.collapse)
  have "ac_verify lenient_cfg ''Abcdefg1'' (ac_hash_password lenient_cfg ''Abcdefg1'')"
    "\<not> check_ip_bruteforce lenient_cfg sample_env (sample_world empty_db) ''1.2.3.4''"
    by code_simp+
  moreover have "w_db (sample_world empty_db) = empty_db" "db_sessions empty_db = []"
    by (simp_all add: sample_world_def empty_db_def)
  ultimately show ?thesis
    using created_admin_signs_in [OF made, of sample_env "''1.2.3.4''" None] made by auto
qed

definition visitor_request :: request where
  "visitor_request = \<lparr>rq_type = ''http'', rq_method = ''GET'', rq_path = ''/'', rq_scheme = ''https'', rq_client = None,
     rq_headers = [], rq_cookies = [], rq_state = no_state\<rparr>"

lemma fresh_install_usable_witness:
  "\<exists>app dbs. lifespan_start ''production'' (None, None) None None (\<lambda>_ _. Inl ValueError) sample_env (\<lambda>_. empty_db) = Inr (app, dbs) \<and>
     list_tools (ap_registry app) visitor_request (dbs Primary) = [''ping'', ''traceroute'', ''dns_lookup'', ''ssl_viewer'']"
proof -
  let ?start = "lifespan_start ''production'' (None, None) None None (\<lambda>_ _. Inl ValueError) sample_env (\<lambda>_. empty_db)"
  obtain reg where "build_registry (\<lambda>_ _. Inl ValueError) = Inr reg"
    using build_registry_names by blast
  then obtain app dbs where start: "?start = Inr (app, dbs)"
    by (auto simp: lifespan_start_def open_database_def Let_def)
  moreover have "request_role visitor_request \<in> set ALL_ROLES"
    by (simp add: request_role_def visitor_request_def no_state_def or_default_def ALL_ROLES_def)
  ultimately show ?thesis
    using fresh_install_usable [OF start] by auto
qed

end
