(* ===== verification/Config.thy ===== *)
theory Config
  imports Startup
begin

text \<open>
  \<open>app/config.py\<close>: the settings a process is started with and their validators.  \<open>quote\<close> of
  \<open>urllib.parse\<close> is modelled on the characters below 256 the strings of the model have; SHA-256
  is a parameter.
\<close>

section \<open>Quoting\<close>

definition unreserved :: "char \<Rightarrow> bool" where
  "unreserved c = (ascii_letter c \<or> is_digit c \<or> c \<in> set ''_.-~'')"

definition utf8_char :: "char \<Rightarrow> nat list" where
  "utf8_char c = (let n = (of_char c :: nat) in if n < 128 then [n] else [192 + n div 64, 128 + n mod 64])"

definition utf8 :: "string \<Rightarrow> nat list" where
  "utf8 s = concat (map utf8_char s)"

definition hex_upper :: "nat \<Rightarrow> char" where
  "hex_upper n = (if n < 10 then char_of (48 + n) else char_of (55 + n))"

definition quote_byte :: "nat \<Rightarrow> string" where
  "quote_byte b = (if unreserved (char_of b) then [char_of b] else [CHR ''%'', hex_upper (b div 16), hex_upper (b mod 16)])"

text \<open>\<open>quote(s, safe='')\<close>\<close>

definition quote :: "string \<Rightarrow> string" where
  "quote s = concat (map quote_byte (utf8 s))"

text \<open>
  What a reader of the address does: \<open>unquote\<close> takes the bytes back and reads them as UTF-8;
  \<open>None\<close> when they are malformed or a character is outside the model.
\<close>

fun unquote_to_bytes :: "string \<Rightarrow> nat list" where
  "unquote_to_bytes (p # a # b # cs) =
     (if p = CHR ''%'' \<and> hex_val a \<noteq> None \<and> hex_val b \<noteq> None
      then nat (the (hex_val a) * 16 + the (hex_val b)) # unquote_to_bytes cs
      else utf8_char p @ unquote_to_bytes (a # b # cs))"
| "unquote_to_bytes (p # cs) = utf8_char p @ unquote_to_bytes cs"
| "unquote_to_bytes [] = []"

fun utf8_decode :: "nat list \<Rightarrow> string option" where
  "utf8_decode [] = Some []"
| "utf8_decode (b # bs) =
     (if b < 128 then map_option ((#) (char_of b)) (utf8_decode bs)
      else (case bs of
          b2 # bs' \<Rightarrow>
            if 194 \<le> b \<and> b \<le> 195 \<and> 128 \<le> b2 \<and> b2 < 192
            then map_option ((#) (char_of ((b - 192) * 64 + (b2 - 128)))) (utf8_decode bs') else None
        | [] \<Rightarrow> None))"

definition unquote :: "string \<Rightarrow> string option" where
  "unquote s = utf8_decode (unquote_to_bytes s)"

text \<open>\<open>username\<close> and \<open>password\<close> of a parsed address.\<close>

definition url_userinfo :: "parsed_url \<Rightarrow> (string \<times> string option) option" where
  "url_userinfo u =
     (if CHR ''@'' \<notin> set (url_netloc u) then None
      else (let userinfo = take (length (url_netloc u) - length (after_last (CHR ''@'') (url_netloc u)) - 1) (url_netloc u)
            in case py_partition (CHR '':'') userinfo of
                 (username, have_password, password) \<Rightarrow> Some (username, if have_password then Some password else None)))"

section \<open>Settings\<close>

record config =
  cs_database_url :: string
  cs_database_url_set :: bool
  cs_postgres_user :: string
  cs_postgres_password :: string
  cs_postgres_host :: string
  cs_postgres_port :: int
  cs_postgres_db :: string
  cs_secret_key :: string
  cs_environment :: string
  cs_cors_origins :: string
  cs_health_full_token :: string

definition postgres_url :: "config \<Rightarrow> string" where
  "postgres_url c =
     ''postgresql+asyncpg://'' @ quote (cs_postgres_user c) @ '':'' @ quote (cs_postgres_password c) @ ''@'' @
     quote (cs_postgres_host c) @ '':'' @ str_of_int (cs_postgres_port c) @ ''/'' @ quote (cs_postgres_db c)"

text \<open>An address given explicitly is kept; without a password the default, SQLite, stays.\<close>

definition assemble_database_url :: "config \<Rightarrow> config" where
  "assemble_database_url c =
     (if cs_database_url_set c then c
      else if cs_postgres_password c \<noteq> [] then c\<lparr>cs_database_url := postgres_url c\<rparr>
      else c)"

definition KNOWN_DEFAULT_KEY_HASHES :: "string list" where
  "KNOWN_DEFAULT_KEY_HASHES =
     [''f1b26d32000838014dae4c8fd56073c2e9de9ba0f4d7c6190097feb2171ac5f1'',
      ''19cd1e7f65109ed570df433a76166522c7d03377a1fcc6f3153f28085d90efe5'',
      ''a268e47c2aabfd8c9e6eac615564d426d33f08bcd7fd2789315517676987a97f'',
      ''e2186dbdb1bb4193608605e84f33208765b5693b55edd4f730a719a100eeea6f'',
      ''057ba03d6c44104863dc7361fe4578965d1887360f90a0895882e58a6248fc86'',
      ''ba01338ba5fa0c1584a6d41f93fe550b1d715a8de2da10d6c673131a85658394'']"

definition validate_secret_key :: "(string \<Rightarrow> string) \<Rightarrow> config \<Rightarrow> exn + config" where
  "validate_secret_key sha256 c =
     (if cs_environment c = ''development'' then Inr c
      else if sha256 (cs_secret_key c) \<in> set KNOWN_DEFAULT_KEY_HASHES then Inl ValueError
      else if length (cs_secret_key c) < 32 then Inl ValueError
      else if length (remdups (cs_secret_key c)) < 20 then Inl ValueError
      else Inr c)"

definition validate_health_token :: "config \<Rightarrow> exn + config" where
  "validate_health_token c =
     (if cs_environment c = ''development'' then Inr c
      else if cs_health_full_token c = [] then Inr c
      else if length (cs_health_full_token c) < 32 then Inl ValueError
      else Inr c)"

definition validate_environment :: "string \<Rightarrow> exn + string" where
  "validate_environment v =
     (if v \<notin> set [''development'', ''staging'', ''production''] then Inl ValueError else Inr v)"

subsection \<open>Allowed origins\<close>

text \<open>An entry as it is kept: as written, or in the form browsers send, which is then deduplicated.\<close>

datatype cors_entry = AsWritten string | Normalized string

definition default_port :: "string \<Rightarrow> int option \<Rightarrow> bool" where
  "default_port scheme port = (scheme = ''https'' \<and> port = Some 443 \<or> scheme = ''http'' \<and> port = Some 80)"

definition render_origin :: "string \<Rightarrow> string \<Rightarrow> int option \<Rightarrow> string" where
  "render_origin scheme host port =
     scheme @ ''://'' @ host @
     (if default_port scheme port then [] else case port of Some n \<Rightarrow> CHR '':'' # str_of_int n | None \<Rightarrow> [])"

definition normalize_origin :: "string \<Rightarrow> exn + cors_entry" where
  "normalize_origin raw =
     (case urlparse raw of
        None \<Rightarrow> Inl ValueError
      | Some parsed \<Rightarrow>
          (let scheme = py_lower (url_scheme parsed);
               host = py_lower (or_default (url_hostname parsed) [])
           in if scheme = [] \<or> host = [] then Inr (AsWritten raw)
              else (case url_port parsed of
                  None \<Rightarrow> Inl ValueError
                | Some port \<Rightarrow> Inr (Normalized (render_origin scheme host port)))))"

fun normalize_entries :: "string list \<Rightarrow> string list \<Rightarrow> exn + string list" where
  "normalize_entries seen [] = Inr []"
| "normalize_entries seen (raw0 # raws) =
     (let raw = py_strip raw0
      in if raw = [] then normalize_entries seen raws
         else bind_exn (normalize_origin raw) (\<lambda>entry. case entry of
             AsWritten r \<Rightarrow> bind_exn (normalize_entries seen raws) (\<lambda>origins. Inr (r # origins))
           | Normalized origin \<Rightarrow>
               if origin \<in> set seen then normalize_entries seen raws
               else bind_exn (normalize_entries (origin # seen) raws) (\<lambda>origins. Inr (origin # origins))))"

definition normalize_cors_origins :: "string \<Rightarrow> exn + string" where
  "normalize_cors_origins v =
     bind_exn (normalize_entries [] (py_split CHR '','' v)) (\<lambda>origins. Inr (py_join '','' origins))"

text \<open>
  The validators of the fields run before those of the model, which run in the order in which
  they are declared.
\<close>

definition load_settings :: "(string \<Rightarrow> string) \<Rightarrow> config \<Rightarrow> exn + config" where
  "load_settings sha256 c =
     bind_exn (validate_environment (cs_environment c)) (\<lambda>environment.
     bind_exn (normalize_cors_origins (cs_cors_origins c)) (\<lambda>origins.
     bind_exn (validate_secret_key sha256
         (assemble_database_url (c\<lparr>cs_environment := environment, cs_cors_origins := origins\<rparr>)))
       validate_health_token))"

section \<open>Quoting is undone by unquoting\<close>

lemma hex_val_upper: "n < 16 \<Longrightarrow> hex_val (hex_upper n) = Some (int n)"
  by (auto simp: hex_val_def hex_upper_def int_of_char_of Let_def)

lemma unreserved_upper: "n < 16 \<Longrightarrow> unreserved (hex_upper n)"
  by (auto simp: unreserved_def hex_upper_def ascii_letter_def is_digit_def Let_def)

lemma unreserved_code: "unreserved c \<Longrightarrow> (of_char c :: nat) < 128 \<and> 45 \<le> (of_char c :: nat) \<and> c \<noteq> CHR ''%''"
  by (auto simp: unreserved_def ascii_letter_def is_digit_def Let_def)

lemma unquote_plain: "p \<noteq> CHR ''%'' \<Longrightarrow> unquote_to_bytes (p # cs) = utf8_char p @ unquote_to_bytes cs"
  by (cases cs rule: unquote_to_bytes.cases) auto

lemma unquote_quote_byte:
  assumes "b < 256"
  shows "unquote_to_bytes (quote_byte b @ cs) = b # unquote_to_bytes cs"
proof (cases "unreserved (char_of b)")
  case True
  have "of_char (char_of b :: char) = b"
    using assms by (simp add: of_char_mod_256)
  with True unreserved_code [OF True] show ?thesis
    by (simp add: quote_byte_def unquote_plain utf8_char_def)
next
  case False
  have "b div 16 < 16" "b mod 16 < 16"
    using assms by auto
  with False show ?thesis
    by (simp add: quote_byte_def hex_val_upper nat_add_distrib nat_mult_distrib)
qed

lemma utf8_bytes: "list_all (\<lambda>b. b < 256) (utf8 s)"
proof -
  have "list_all (\<lambda>b. b < 256) (utf8_char c)" for c
  proof -
    have "(of_char c :: nat) < 64 * 64"
      by (rule less_trans [OF nat_of_char_less_256]) simp
    then have "(of_char c :: nat) div 64 < 64" "(of_char c :: nat) mod 64 < 128"
      by (auto simp: less_mult_imp_div_less intro: less_trans [of _ 64])
    then show ?thesis
      by (simp add: utf8_char_def Let_def)
  qed
  then show ?thesis
    by (induction s) (auto simp: utf8_def)
qed

lemma unquote_to_bytes_quote: "unquote_to_bytes (quote s) = utf8 s"
proof -
  have "list_all (\<lambda>b. b < 256) bs \<Longrightarrow> unquote_to_bytes (concat (map quote_byte bs)) = bs" for bs
    by (induction bs) (simp_all add: unquote_quote_byte)
  from this [OF utf8_bytes] show ?thesis
    by (simp add: quote_def)
qed

lemma decode_char: "utf8_decode (utf8_char c @ bs) = map_option ((#) c) (utf8_decode bs)"
proof (cases "(of_char c :: nat) < 128")
  case False
  define n where "n = (of_char c :: nat)"
  have n: "128 \<le> n" "n < 256"
    using False nat_of_char_less_256 [of c] by (simp_all add: n_def)
  then have "n div 64 = 2 \<or> n div 64 = 3"
    by auto
  then have b: "194 \<le> 192 + n div 64" "192 + n div 64 \<le> 195" "\<not> 192 + n div 64 < 128"
    by auto
  have "(n div 64) * 64 + n mod 64 = n"
    by simp
  then have "char_of (n div 64 * 64 + n mod 64) = c"
    by (simp add: n_def)
  then show ?thesis
    using b n(1) by (simp add: utf8_char_def flip: n_def)
qed (simp add: utf8_char_def)

lemma utf8_decode_utf8: "utf8_decode (utf8 s) = Some s"
  by (induction s) (simp_all add: utf8_def decode_char)

lemma unquote_quote: "unquote (quote s) = Some s"
  by (simp add: unquote_def unquote_to_bytes_quote utf8_decode_utf8)

text \<open>Nothing that delimits the parts of an address is left in a quoted text.\<close>

definition quoted_char :: "char \<Rightarrow> bool" where
  "quoted_char c = (unreserved c \<or> c = CHR ''%'')"

lemma quote_chars: "list_all quoted_char (quote s)"
proof -
  have "list_all quoted_char (quote_byte b)" if "b < 256" for b
    using that unreserved_upper [of "b div 16"] unreserved_upper [of "b mod 16"]
    by (auto simp: quote_byte_def quoted_char_def)
  moreover have "list_all (\<lambda>b. b < 256) bs \<Longrightarrow> (\<And>b. b < 256 \<Longrightarrow> list_all quoted_char (quote_byte b)) \<Longrightarrow>
      list_all quoted_char (concat (map quote_byte bs))" for bs
    by (induction bs) auto
  ultimately show ?thesis
    using utf8_bytes unfolding quote_def by blast
qed

section \<open>Parsing what was put together\<close>

lemma partition_found: "c \<notin> set a \<Longrightarrow> py_partition c (a @ c # b) = (a, True, b)"
  by (induction a) auto

lemma partition_none: "c \<notin> set a \<Longrightarrow> py_partition c a = (a, False, [])"
  by (induction a) auto

lemma takeWhile_other: "c \<notin> set b \<Longrightarrow> takeWhile (\<lambda>x. x \<noteq> c) (b @ a) = b @ takeWhile (\<lambda>x. x \<noteq> c) a"
  by (induction b) auto

lemma after_last_found: "c \<notin> set b \<Longrightarrow> after_last c (a @ c # b) = b"
  using takeWhile_other [of c "rev b" "c # rev a"] by (simp add: after_last_def)

lemma after_last_none: "c \<notin> set b \<Longrightarrow> after_last c b = b"
proof -
  assume "c \<notin> set b"
  then have "takeWhile (\<lambda>x. x \<noteq> c) (rev b) = rev b"
    by auto
  then show ?thesis
    by (simp only: after_last_def rev_rev_ident)
qed

lemma take_after_last: "take (length s - length (after_last c s)) s @ after_last c s = s"
proof -
  have "s = rev (dropWhile (\<lambda>x. x \<noteq> c) (rev s)) @ after_last c s"
    by (metis after_last_def rev_append rev_rev_ident takeWhile_dropWhile_id)
  then obtain t where "s = t @ after_last c s"
    by blast
  then show ?thesis
    by (metis append_eq_conv_conj append_take_drop_id diff_diff_cancel length_append le_add2 diff_add_inverse2)
qed

lemma before_stop: "list_all (\<lambda>c. \<not> p c) s \<Longrightarrow> t = [] \<or> p (hd t) \<Longrightarrow> before p (s @ t) = s"
  unfolding before_def by (induction s) (auto simp: takeWhile_eq_Nil_iff)

lemma before_all: "list_all (\<lambda>c. \<not> p c) s \<Longrightarrow> before p s = s"
  using before_stop [of p s "[]"] by simp

lemma before_char: "x \<notin> set s \<Longrightarrow> before (\<lambda>c. c = x) s = s"
  by (rule before_all) (auto simp: list_all_iff)

lemma without_params_id: "CHR '';'' \<notin> set path \<Longrightarrow> without_params path = path"
proof -
  assume "CHR '';'' \<notin> set path"
  moreover have "set (after_last (CHR ''/'') path) \<subseteq> set path"
    by (metis take_after_last set_append Un_upper2)
  ultimately have "before (\<lambda>c. c = CHR '';'') (after_last (CHR ''/'') path) = after_last (CHR ''/'') path"
    by (intro before_char) blast
  then show ?thesis
    by (simp add: without_params_def Let_def take_after_last)
qed

text \<open>Characters that neither end a part of an address nor are dropped from it.\<close>

definition netloc_char :: "char \<Rightarrow> bool" where
  "netloc_char c = (c \<notin> set ''/?#[]'' \<and> \<not> unsafe_char c)"

definition path_char :: "char \<Rightarrow> bool" where
  "path_char c = (c \<notin> set ''?#;'' \<and> \<not> unsafe_char c)"

lemma scheme_char_code: "scheme_char c \<Longrightarrow> 43 \<le> (of_char c :: nat) \<and> c \<noteq> CHR '':''"
  by (auto simp: scheme_char_def ascii_letter_def is_digit_def Let_def)

lemma urlparse_parts:
  assumes "s \<noteq> []" "ascii_letter (hd s)" "list_all scheme_char s"
    and "list_all netloc_char n" "path = [] \<or> hd path = CHR ''/''" "list_all path_char path"
  shows "urlparse (s @ ''://'' @ n @ path) = Some \<lparr>url_scheme = py_lower s, url_netloc = n, url_path = path\<rparr>"
proof -
  have safe_scheme: "\<not> unsafe_char c \<and> \<not> c0_or_space c \<and> c \<noteq> CHR '':''" if "c \<in> set s" for c
    using assms(3) that scheme_char_code [of c] by (auto simp: list_all_iff unsafe_char_def c0_or_space_def)
  have delims: "\<not> unsafe_char (CHR '':'')" "\<not> unsafe_char (CHR ''/'')"
    by (simp_all add: unsafe_char_def)
  have kept: "filter (\<lambda>c. \<not> unsafe_char c) (s @ ''://'' @ n @ path) = s @ ''://'' @ n @ path"
    using safe_scheme assms(4,6) delims by (auto simp: filter_id_conv list_all_iff netloc_char_def path_char_def)
  have lead: "dropWhile c0_or_space (s @ ''://'' @ n @ path) = s @ ''://'' @ n @ path"
    using assms(1) safe_scheme by (cases s) auto
  have scheme: "split_scheme (s @ ''://'' @ n @ path) = (py_lower s, ''//'' @ n @ path)"
  proof -
    have "CHR '':'' \<notin> set s"
      using safe_scheme by blast
    from partition_found [OF this, of "''//'' @ n @ path"] show ?thesis
      using assms(1-3) by (simp add: split_scheme_def)
  qed
  have netloc: "before (\<lambda>c. c \<in> set ''/?#'') (n @ path) = n"
    using assms(4,5) by (intro before_stop) (auto simp: list_all_iff netloc_char_def)
  have no_brackets: "CHR ''['' \<notin> set n" "CHR '']'' \<notin> set n"
    using assms(4) by (auto simp: list_all_iff netloc_char_def)
  have ends: "CHR ''?'' \<notin> set path" "CHR ''#'' \<notin> set path" "CHR '';'' \<notin> set path"
    using assms(6) by (auto simp: list_all_iff path_char_def)
  show ?thesis
    unfolding urlparse_def lead kept Let_def
    using scheme netloc no_brackets by (simp add: netloc_ok_def without_params_id before_char ends)
qed

lemma quoted_char_plain: "quoted_char c \<Longrightarrow> netloc_char c \<and> path_char c \<and> c \<noteq> CHR '':'' \<and> c \<noteq> CHR ''@''"
  by (auto simp: quoted_char_def unreserved_def netloc_char_def path_char_def unsafe_char_def ascii_letter_def is_digit_def Let_def)

lemma quote_plain: "c \<in> set (quote s) \<Longrightarrow> netloc_char c \<and> path_char c \<and> c \<noteq> CHR '':'' \<and> c \<noteq> CHR ''@''"
  using quote_chars [of s] quoted_char_plain by (auto simp: list_all_iff)

lemma quote_parts: "list_all netloc_char (quote s)" "list_all path_char (quote s)"
    "CHR '':'' \<notin> set (quote s)" "CHR ''@'' \<notin> set (quote s)"
  using quote_plain unfolding list_all_iff by blast+

lemma digit_plain: "is_digit c \<Longrightarrow> netloc_char c \<and> c \<noteq> CHR '':'' \<and> c \<noteq> CHR ''@''"
  by (auto simp: netloc_char_def unsafe_char_def is_digit_def Let_def)

lemma no_bracket: "\<forall>c \<in> set s. netloc_char c \<Longrightarrow> CHR ''['' \<notin> set s"
  by (induction s) (auto simp: netloc_char_def)

lemma hostinfo_eq:
  assumes "\<forall>c \<in> set h. netloc_char c \<and> c \<noteq> CHR '':'' \<and> c \<noteq> CHR ''@''" "\<forall>c \<in> set port. netloc_char c \<and> c \<noteq> CHR ''@''"
    and "url_netloc u = userinfo @ CHR ''@'' # h @ CHR '':'' # port \<or> url_netloc u = h @ CHR '':'' # port"
  shows "hostinfo u = (h, port)"
proof -
  have "CHR ''@'' \<notin> set (h @ CHR '':'' # port)"
    using assms(1,2) by auto
  then have info: "after_last (CHR ''@'') (url_netloc u) = h @ CHR '':'' # port"
    using assms(3) by (elim disjE) (simp_all only: after_last_found after_last_none not_False_eq_True)
  have "CHR ''['' \<notin> set h" "CHR ''['' \<notin> set port" "CHR '':'' \<notin> set h"
    using no_bracket [of h] no_bracket [of port] assms(1,2) by auto
  then have "CHR ''['' \<notin> set (h @ CHR '':'' # port)" "CHR '':'' \<notin> set h"
    by simp_all
  then show ?thesis
    unfolding hostinfo_def info Let_def
    using partition_none [of "CHR ''[''" "h @ CHR '':'' # port"] partition_found [of "CHR '':''" h port] by simp
qed

lemma port_text:
  assumes "0 \<le> n" "n \<le> 65535"
  shows "str_of_int n \<noteq> []" "list_all is_digit (str_of_int n)" "nat_of_digits (str_of_int n) = nat n"
  using assms str_of_nat_digits by (simp_all add: str_of_int_def)

lemma url_port_eq:
  assumes "0 \<le> n" "n \<le> 65535" "hostinfo u = (h, str_of_int n)"
  shows "url_port u = Some (Some n)"
  using assms port_text [OF assms(1,2)] by (simp add: url_port_def)

section \<open>The list of origins\<close>

definition origin_text :: "cors_entry \<Rightarrow> string" where
  "origin_text en = (case en of AsWritten s \<Rightarrow> s | Normalized s \<Rightarrow> s)"

definition keeps_entry :: "string \<Rightarrow> string \<Rightarrow> bool" where
  "keeps_entry raw origin \<longleftrightarrow>
     py_strip raw \<noteq> [] \<and> (\<exists>en. normalize_origin (py_strip raw) = Inr en \<and> origin_text en = origin)"

lemma entries_kept:
  "normalize_entries seen raws = Inr os \<Longrightarrow>
   origin \<in> set os \<or> origin \<in> set seen \<longleftrightarrow> origin \<in> set seen \<or> (\<exists>raw \<in> set raws. keeps_entry raw origin)"
proof (induction raws arbitrary: seen os)
  case (Cons raw raws)
  show ?case
  proof (cases "py_strip raw = []")
    case True
    with Cons show ?thesis
      by (simp add: keeps_entry_def)
  next
    case False
    with Cons.prems obtain en where en: "normalize_origin (py_strip raw) = Inr en"
      by (auto simp: Let_def)
    have here: "keeps_entry raw o' \<longleftrightarrow> origin_text en = o'" for o'
      using False en by (simp add: keeps_entry_def)
    show ?thesis
    proof (cases en)
      case (AsWritten r)
      then obtain os' where os': "normalize_entries seen raws = Inr os'" "os = r # os'"
        using Cons.prems False en by auto
      from Cons.IH [OF os'(1)] show ?thesis
        using here AsWritten by (auto simp: os'(2) origin_text_def)
    next
      case (Normalized r)
      show ?thesis
      proof (cases "r \<in> set seen")
        case True
        then have "normalize_entries seen raws = Inr os"
          using Cons.prems False en Normalized by simp
        from Cons.IH [OF this] show ?thesis
          using here Normalized True by (auto simp: origin_text_def)
      next
        case new: False
        then obtain os' where os': "normalize_entries (r # seen) raws = Inr os'" "os = r # os'"
          using Cons.prems False en Normalized by auto
        from Cons.IH [OF os'(1)] show ?thesis
          using here Normalized by (auto simp: os'(2) origin_text_def)
      qed
    qed
  qed
qed simp

text \<open>No entry contains a comma, so the joined list is taken apart as it was put together.\<close>

lemma partition_set: "py_partition c s = (a, f, b) \<Longrightarrow> set a \<subseteq> set s \<and> set b \<subseteq> set s"
  by (induction s arbitrary: a f b) (auto split: if_splits prod.splits)

lemma after_last_set: "set (after_last c s) \<subseteq> set s"
  by (metis take_after_last set_append Un_upper2)

lemma before_set: "set (before p s) \<subseteq> set s"
  by (auto simp: before_def dest: set_takeWhileD)

lemma hostinfo_set: "set (fst (hostinfo u)) \<subseteq> set (url_netloc u)"
proof -
  let ?info = "after_last (CHR ''@'') (url_netloc u)"
  obtain a f b where ab: "py_partition (CHR ''['') ?info = (a, f, b)"
    by (metis prod_cases3)
  obtain h g r where hr: "py_partition (CHR '']'') b = (h, g, r)"
    by (metis prod_cases3)
  obtain h' g' r' where hr': "py_partition (CHR '':'') ?info = (h', g', r')"
    by (metis prod_cases3)
  have "fst (hostinfo u) = (if f then h else h')"
    by (simp add: hostinfo_def Let_def ab hr hr')
  then show ?thesis
    using partition_set [OF ab] partition_set [OF hr] partition_set [OF hr'] after_last_set [of "CHR ''@''" "url_netloc u"]
    by (auto split: if_splits)
qed

lemma lower_comma: "lower_char c = CHR '','' \<longleftrightarrow> c = CHR '',''"
proof (cases "lower_char c = c")
  case False
  then have n: "65 \<le> (of_char c :: nat) \<and> (of_char c :: nat) \<le> 90 \<or> 192 \<le> (of_char c :: nat) \<and> (of_char c :: nat) \<le> 222"
    by (auto simp: lower_char_def Let_def split: if_splits)
  then have "(of_char (char_of ((of_char c :: nat) + 32) :: char) :: nat) = of_char c + 32"
    by (auto simp: of_char_mod_256)
  moreover have "lower_char c = char_of ((of_char c :: nat) + 32)"
    using False by (auto simp: lower_char_def Let_def split: if_splits)
  ultimately have "(of_char (lower_char c) :: nat) \<noteq> 44" "(of_char c :: nat) \<noteq> 44"
    using n by auto
  then show ?thesis by auto
qed simp

lemma py_lower_comma: "CHR '','' \<in> set (py_lower s) \<longleftrightarrow> CHR '','' \<in> set s"
proof -
  have "CHR '','' = lower_char c \<longleftrightarrow> CHR '','' = c" for c
    using lower_comma [of c] by metis
  then show ?thesis
    by (simp add: py_lower_def image_iff)
qed

lemma hostname_comma:
  assumes "url_hostname u = Some h" "CHR '','' \<notin> set (url_netloc u)"
  shows "CHR '','' \<notin> set h"
proof -
  obtain name p zone where z: "py_partition (CHR ''%'') (fst (hostinfo u)) = (name, p, zone)"
    by (metis prod_cases3)
  have "h = py_lower name @ (if p then CHR ''%'' # zone else [])"
    using assms(1) by (auto simp: url_hostname_def Let_def z split: if_splits)
  then show ?thesis
    using partition_set [OF z] hostinfo_set [of u] assms(2) by (auto simp: py_lower_comma)
qed

lemma urlparse_comma:
  assumes "urlparse raw = Some u" "CHR '','' \<notin> set raw"
  shows "CHR '','' \<notin> set (url_scheme u)" "CHR '','' \<notin> set (url_netloc u)"
proof -
  let ?url = "filter (\<lambda>c. \<not> unsafe_char c) (dropWhile c0_or_space raw)"
  have url: "CHR '','' \<notin> set ?url"
    using assms(2) by (auto dest: set_dropWhileD)
  obtain a f b where ab: "py_partition (CHR '':'') ?url = (a, f, b)"
    by (metis prod_cases3)
  obtain scheme rest where sr: "split_scheme ?url = (scheme, rest)"
    by fastforce
  have "scheme = [] \<or> scheme = py_lower a" "rest = ?url \<or> rest = b"
    using sr by (auto simp: split_scheme_def ab split: if_splits)
  then have parts: "CHR '','' \<notin> set scheme" "CHR '','' \<notin> set rest"
    using url partition_set [OF ab] by (auto simp: py_lower_comma)
  have u: "url_scheme u = scheme" "url_netloc u = (if py_startswith rest ''//'' then before (\<lambda>c. c \<in> set ''/?#'') (drop 2 rest) else [])"
    using assms(1) by (auto simp: urlparse_def sr Let_def split: if_splits)
  show "CHR '','' \<notin> set (url_scheme u)"
    using parts(1) u(1) by simp
  have "set (before p (drop 2 rest)) \<subseteq> set rest" for p
    using before_set [of p "drop 2 rest"] set_drop_subset [of 2 rest] by blast
  then show "CHR '','' \<notin> set (url_netloc u)"
    using parts(2) u(2) by auto
qed

lemma digits_comma: "list_all is_digit s \<Longrightarrow> CHR '','' \<notin> set s"
  by (induction s) (auto simp: is_digit_def)

lemma str_of_int_comma: "CHR '','' \<notin> set (str_of_int n)"
  using digits_comma [OF str_of_nat_digits] by (simp add: str_of_int_def)

lemma entry_comma:
  assumes "normalize_origin raw = Inr en" "CHR '','' \<notin> set raw"
  shows "CHR '','' \<notin> set (origin_text en)"
proof (cases en)
  case (AsWritten s)
  then show ?thesis
    using assms by (auto simp: normalize_origin_def origin_text_def Let_def split: option.splits if_splits)
next
  case (Normalized s)
  then obtain u port where u: "urlparse raw = Some u"
    and s: "s = render_origin (py_lower (url_scheme u)) (py_lower (or_default (url_hostname u) [])) port"
    using assms(1) by (auto simp: normalize_origin_def Let_def split: option.splits if_splits)
  have "CHR '','' \<notin> set (or_default (url_hostname u) [])"
    using hostname_comma [OF _ urlparse_comma(2) [OF u assms(2)]] by (cases "url_hostname u") (auto simp: or_default_def)
  then show ?thesis
    using urlparse_comma(1) [OF u assms(2)] str_of_int_comma Normalized
    by (auto simp: origin_text_def s render_origin_def py_lower_comma split: option.splits)
qed

lemma join_split: "os \<noteq> [] \<Longrightarrow> \<forall>o' \<in> set os. c \<notin> set o' \<Longrightarrow> py_split c (py_join [c] os) = os"
proof (induction "[c]" os rule: py_join.induct)
  case (3 p q ps)
  then show ?case
    by (simp add: py_split_append)
qed (simp_all add: py_split_no_sep)

text \<open>The origins let through are the kept forms of the entries, and nothing else.\<close>

lemma allowed_origins:
  assumes "normalize_cors_origins v = Inr v'" "origin \<noteq> []"
  shows "is_allowed_origin \<lparr>wsc_require_origin = b, wsc_cors_origins = v', wsc_storage = st\<rparr> (Some origin) \<longleftrightarrow>
    (\<exists>raw \<in> set (py_split CHR '','' v). \<exists>kept. keeps_entry raw kept \<and> py_strip kept = origin)"
proof -
  obtain os where os: "normalize_entries [] (py_split CHR '','' v) = Inr os" "v' = py_join '','' os"
    using assms(1) by (auto simp: normalize_cors_origins_def)
  have kept: "o' \<in> set os \<longleftrightarrow> (\<exists>raw \<in> set (py_split CHR '','' v). keeps_entry raw o')" for o'
    using entries_kept [OF os(1), of o'] by simp
  have "CHR '','' \<notin> set o'" if member: "o' \<in> set os" for o'
  proof -
    from member kept obtain raw where here: "raw \<in> set (py_split CHR '','' v)" "keeps_entry raw o'"
      by metis
    then obtain en where raw: "normalize_origin (py_strip raw) = Inr en" "origin_text en = o'"
      unfolding keeps_entry_def by metis
    have "CHR '','' \<notin> set (py_strip raw)"
      using py_split_parts_no_sep [OF here(1)] py_strip_subset [of raw] by blast
    from entry_comma [OF raw(1) this] show ?thesis
      by (simp add: raw(2))
  qed
  then have split: "origin \<in> py_strip ` set (py_split CHR '','' v') \<longleftrightarrow> origin \<in> py_strip ` set os"
    using join_split [of os "CHR '',''"] assms(2) by (cases "os = []") (auto simp: os(2) py_strip_Nil)
  have "is_allowed_origin \<lparr>wsc_require_origin = b, wsc_cors_origins = v', wsc_storage = st\<rparr> (Some origin) \<longleftrightarrow>
      origin \<in> py_strip ` set (py_split CHR '','' v')"
    using assms(2) by (auto simp: is_allowed_origin_def)
  also have "\<dots> \<longleftrightarrow> (\<exists>o' \<in> set os. py_strip o' = origin)"
    unfolding split by auto
  also have "\<dots> \<longleftrightarrow> (\<exists>raw \<in> set (py_split CHR '','' v). \<exists>o'. keeps_entry raw o' \<and> py_strip o' = origin)"
    unfolding Bex_def kept by metis
  finally show ?thesis .
qed

subsection \<open>Origins as browsers see them\<close>

text \<open>
  An origin is a scheme, a host and a port; a browser writes it in lower case and leaves out the
  port its scheme implies.
\<close>

type_synonym web_origin = "string \<times> string \<times> int"

definition implied_port :: "string \<Rightarrow> int" where
  "implied_port scheme = (if scheme = ''https'' then 443 else 80)"

definition host_char :: "char \<Rightarrow> bool" where
  "host_char c = (ascii_letter c \<or> is_digit c \<or> c \<in> set ''-.'')"

fun serialize_origin :: "web_origin \<Rightarrow> string" where
  "serialize_origin (scheme, host, port) =
     scheme @ ''://'' @ host @ (if port = implied_port scheme then [] else CHR '':'' # str_of_int port)"

fun origin_ok :: "web_origin \<Rightarrow> bool" where
  "origin_ok (scheme, host, port) \<longleftrightarrow>
     scheme \<in> {''http'', ''https''} \<and> host \<noteq> [] \<and> list_all host_char host \<and> py_lower host = host \<and> 0 \<le> port \<and> port \<le> 65535"

text \<open>How an operator may write it: in any case, with or without the implied port and a last slash.\<close>

inductive written_as :: "web_origin \<Rightarrow> string \<Rightarrow> bool" where
  "py_lower scheme \<in> {''http'', ''https''} \<Longrightarrow> host \<noteq> [] \<Longrightarrow> list_all host_char host \<Longrightarrow> 0 \<le> port \<Longrightarrow> port \<le> 65535 \<Longrightarrow>
   port_part = CHR '':'' # str_of_int port \<or> port_part = [] \<and> port = implied_port (py_lower scheme) \<Longrightarrow>
   slash = [] \<or> slash = ''/'' \<Longrightarrow>
   written_as (py_lower scheme, py_lower host, port) (scheme @ ''://'' @ host @ port_part @ slash)"

inductive_cases written_asE: "written_as t raw"

lemma host_char_plain: "host_char c \<Longrightarrow> netloc_char c \<and> c \<noteq> CHR '':'' \<and> c \<noteq> CHR ''@'' \<and> c \<noteq> CHR ''%''"
  by (auto simp: host_char_def netloc_char_def unsafe_char_def ascii_letter_def is_digit_def Let_def)

lemma hostinfo_no_port:
  assumes "\<forall>c \<in> set h. netloc_char c \<and> c \<noteq> CHR '':'' \<and> c \<noteq> CHR ''@''" "url_netloc u = h"
  shows "hostinfo u = (h, [])"
proof -
  have "CHR ''['' \<notin> set h" "CHR '':'' \<notin> set h" "CHR ''@'' \<notin> set h"
    using no_bracket [of h] assms(1) by auto
  then show ?thesis
    unfolding hostinfo_def assms(2) Let_def by (simp add: after_last_none partition_none)
qed

lemma letter_lower: "ascii_letter (lower_char c) \<Longrightarrow> ascii_letter c"
proof (cases "lower_char c = c")
  case False
  then have "192 \<le> (of_char c :: nat) \<and> (of_char c :: nat) \<le> 222 \<or> 65 \<le> (of_char c :: nat) \<and> (of_char c :: nat) \<le> 90"
    and "lower_char c = char_of ((of_char c :: nat) + 32)"
    by (auto simp: lower_char_def Let_def split: if_splits)
  then show "ascii_letter (lower_char c) \<Longrightarrow> ascii_letter c"
    by (auto simp: ascii_letter_def of_char_mod_256)
qed simp

lemma lower_web:
  assumes "py_lower scheme \<in> {''http'', ''https''}"
  shows "scheme \<noteq> []" "ascii_letter (hd scheme)" "list_all scheme_char scheme"
proof -
  have "list_all ascii_letter ''http''" "list_all ascii_letter ''https''"
    by (simp_all add: ascii_letter_def)
  then have "list_all ascii_letter (py_lower scheme)"
    using assms by (elim insertE) (simp_all only: empty_iff)
  then have letters: "list_all ascii_letter scheme"
    using letter_lower by (auto simp: py_lower_def list_all_iff)
  then show "list_all scheme_char scheme"
    by (auto simp: scheme_char_def list_all_iff)
  show nonempty: "scheme \<noteq> []"
    using assms by (auto simp: py_lower_def)
  show "ascii_letter (hd scheme)"
    using letters nonempty by (cases scheme) simp_all
qed

lemma netloc_read:
  assumes netloc: "url_netloc u = host @ port_part"
    and plain: "\<forall>c \<in> set host. netloc_char c \<and> c \<noteq> CHR '':'' \<and> c \<noteq> CHR ''@''" "CHR ''%'' \<notin> set host" and "host \<noteq> []"
    and digits: "\<forall>c \<in> set (str_of_int p). netloc_char c \<and> c \<noteq> CHR ''@''"
    and port: "0 \<le> p" "p \<le> 65535" "port_part = CHR '':'' # str_of_int p \<or> port_part = [] \<and> p = implied_port s"
  shows "url_hostname u = Some (py_lower host)" "url_port u = Some (Some p) \<or> url_port u = Some None \<and> p = implied_port s"
proof -
  have info: "hostinfo u = (host, if port_part = [] then [] else str_of_int p)"
    using port(3)
  proof
    assume "port_part = CHR '':'' # str_of_int p"
    then show ?thesis
      using hostinfo_eq [OF plain(1) digits, of u] netloc by simp
  next
    assume "port_part = [] \<and> p = implied_port s"
    then show ?thesis
      using hostinfo_no_port [OF plain(1), of u] netloc by simp
  qed
  then show "url_hostname u = Some (py_lower host)"
    using assms(4) partition_none [OF plain(2)] by (simp add: url_hostname_def)
  show "url_port u = Some (Some p) \<or> url_port u = Some None \<and> p = implied_port s"
    using port(3)
  proof
    assume "port_part = CHR '':'' # str_of_int p"
    then show ?thesis
      using url_port_eq [OF port(1,2), of u host] info by simp
  next
    assume "port_part = [] \<and> p = implied_port s"
    then show ?thesis
      using info by (simp add: url_port_def)
  qed
qed

lemma written_parsed:
  assumes "written_as (s, h, p) raw"
  shows "\<exists>u. urlparse raw = Some u \<and> url_scheme u = s \<and> url_hostname u = Some h \<and>
    (url_port u = Some (Some p) \<or> url_port u = Some None \<and> p = implied_port s)"
proof -
  obtain scheme host port port_part slash where eq: "(s, h, p) = (py_lower scheme, py_lower host, port)"
    and raw: "raw = scheme @ ''://'' @ host @ port_part @ slash" and web: "py_lower scheme \<in> {''http'', ''https''}"
    and host: "host \<noteq> []" "list_all host_char host" and port0: "0 \<le> port" "port \<le> 65535"
      "port_part = CHR '':'' # str_of_int port \<or> port_part = [] \<and> port = implied_port (py_lower scheme)"
    and slash: "slash = [] \<or> slash = ''/''"
    using assms by (rule written_as.cases)
  have s: "s = py_lower scheme" and h: "h = py_lower host" and p: "port = p"
    using eq by simp_all
  note port = port0 [unfolded p]
  have plain: "\<forall>c \<in> set host. netloc_char c \<and> c \<noteq> CHR '':'' \<and> c \<noteq> CHR ''@''" "CHR ''%'' \<notin> set host"
    using host(2) host_char_plain by (auto simp: list_all_iff)
  have digits: "\<forall>c \<in> set (str_of_int p). netloc_char c \<and> c \<noteq> CHR ''@''"
    using port_text(2) [OF port(1,2)] digit_plain by (auto simp: list_all_iff)
  have delims: "netloc_char (CHR '':'')" "path_char (CHR ''/'')"
    by (simp_all add: netloc_char_def path_char_def unsafe_char_def)
  have "list_all netloc_char port_part"
    using port(3) digits delims by (elim disjE conjE) (simp_all add: list_all_iff)
  moreover have "list_all netloc_char host"
    using plain by (simp add: list_all_iff)
  ultimately have "list_all netloc_char (host @ port_part)"
    by simp
  moreover have "list_all path_char slash"
    using slash by (elim disjE) (simp_all add: delims)
  moreover have "slash = [] \<or> hd slash = CHR ''/''"
    using slash by (elim disjE) simp_all
  ultimately have parsed: "urlparse raw = Some \<lparr>url_scheme = py_lower scheme, url_netloc = host @ port_part, url_path = slash\<rparr>"
    (is "_ = Some ?u")
    using urlparse_parts [OF lower_web [OF web], of "host @ port_part" slash] by (simp only: raw append_assoc)
  have "url_hostname ?u = Some (py_lower host)" "url_port ?u = Some (Some p) \<or> url_port ?u = Some None \<and> p = implied_port s"
    using netloc_read [OF _ plain host(1) digits port(1,2), of ?u port_part s] port(3) by (simp_all add: s)
  then show ?thesis
    using parsed s h by auto
qed

lemma serialized_written: "origin_ok t \<Longrightarrow> written_as t (serialize_origin t)"
proof -
  assume ok: "origin_ok t"
  obtain scheme host port where t: "t = (scheme, host, port)"
    by (metis prod_cases3)
  have lower: "py_lower scheme = scheme"
  proof -
    have "py_lower ''http'' = ''http''" "py_lower ''https'' = ''https''"
      by code_simp+
    then show ?thesis
      using ok by (auto simp: t)
  qed
  have "written_as (py_lower scheme, py_lower host, port)
      (scheme @ ''://'' @ host @ (if port = implied_port (py_lower scheme) then [] else CHR '':'' # str_of_int port) @ [])"
    by (rule written_as.intros) (use ok lower in \<open>auto simp: t\<close>)
  then show ?thesis
    using ok lower by (simp add: t)
qed

lemma serialize_origin_inject:
  assumes "origin_ok t" "origin_ok t'" "serialize_origin t = serialize_origin t'"
  shows "t = t'"
proof -
  obtain s h p s' h' p' where t: "t = (s, h, p)" "t' = (s', h', p')"
    by (metis prod_cases3)
  show ?thesis
    using written_parsed [of s h p "serialize_origin t"] written_parsed [of s' h' p' "serialize_origin t"]
      serialized_written [OF assms(1)] serialized_written [OF assms(2)] assms(3) t by auto
qed

lemma host_char_lower: "host_char c \<Longrightarrow> host_char (lower_char c)"
proof (cases "lower_char c = c")
  case False
  then have n: "192 \<le> (of_char c :: nat) \<and> (of_char c :: nat) \<le> 222 \<or> 65 \<le> (of_char c :: nat) \<and> (of_char c :: nat) \<le> 90"
    and lower: "lower_char c = char_of ((of_char c :: nat) + 32)"
    by (auto simp: lower_char_def Let_def split: if_splits)
  assume "host_char c"
  then have "(of_char c :: nat) < 128"
    by (auto simp: host_char_def ascii_letter_def is_digit_def Let_def)
  with n lower show ?thesis
    by (auto simp: host_char_def ascii_letter_def of_char_mod_256)
qed simp

lemma normalize_written:
  assumes "written_as t raw"
  shows "normalize_origin raw = Inr (Normalized (serialize_origin t))" "origin_ok t"
proof -
  obtain s h p where t: "t = (s, h, p)"
    by (metis prod_cases3)
  obtain scheme host port port_part slash where eq: "(s, h, p) = (py_lower scheme, py_lower host, port)"
    and web: "py_lower scheme \<in> {''http'', ''https''}"
    and host: "host \<noteq> []" "list_all host_char host" and port: "0 \<le> port" "port \<le> 65535"
    using assms unfolding t by (rule written_as.cases)
  have s: "s = py_lower scheme" "h = py_lower host" "port = p" "s \<in> {''http'', ''https''}"
    using eq web by simp_all
  then have "list_all host_char h" "h \<noteq> []" "s \<noteq> []"
    using host s host_char_lower by (auto simp: py_lower_def list_all_iff)
  then show ok: "origin_ok t"
    using s port by (simp add: t)
  obtain u where u: "urlparse raw = Some u" "url_scheme u = s" "url_hostname u = Some h"
      "url_port u = Some (Some p) \<or> url_port u = Some None \<and> p = implied_port s"
    using written_parsed assms unfolding t by metis
  have lower: "py_lower s = s" "py_lower h = h"
    by (simp_all add: s)
  have "normalize_origin raw = Inr (Normalized (render_origin s h (the (url_port u))))"
    using u \<open>h \<noteq> []\<close> \<open>s \<noteq> []\<close> lower by (auto simp: normalize_origin_def or_default_def)
  moreover have "render_origin s h (the (url_port u)) = serialize_origin t"
    using u(4) s(4) by (elim disjE insertE) (auto simp: render_origin_def default_port_def t implied_port_def)
  ultimately show "normalize_origin raw = Inr (Normalized (serialize_origin t))"
    by simp
qed

lemma strip_plain: "list_all (\<lambda>c. \<not> py_isspace c) s \<Longrightarrow> py_strip s = s"
proof -
  assume "list_all (\<lambda>c. \<not> py_isspace c) s"
  then have "dropWhile py_isspace s = s" "dropWhile py_isspace (rev s) = rev s"
    by (simp_all add: list_all_iff dropWhile_eq_self_iff hd_rev) (metis last_in_set)
  then show ?thesis
    by (simp add: py_strip_def py_rstrip_def py_lstrip_def)
qed

lemma serialized_plain:
  assumes "origin_ok t"
  shows "serialize_origin t \<noteq> []" "py_strip (serialize_origin t) = serialize_origin t"
proof -
  obtain s h p where t: "t = (s, h, p)"
    by (metis prod_cases3)
  have host: "\<not> py_isspace c" if "host_char c" for c
    using that by (auto simp: host_char_def ascii_letter_def is_digit_def py_isspace_def Let_def)
  have digit: "\<not> py_isspace c" if "is_digit c" for c
    using that by (auto simp: is_digit_def py_isspace_def Let_def)
  have "list_all (\<lambda>c. \<not> py_isspace c) ''http''" "list_all (\<lambda>c. \<not> py_isspace c) ''https''"
    "list_all (\<lambda>c. \<not> py_isspace c) ''://''" "\<not> py_isspace (CHR '':'')"
    by (simp_all add: py_isspace_def)
  moreover have "list_all (\<lambda>c. \<not> py_isspace c) h"
    using assms host by (simp add: t list_all_iff)
  moreover have "list_all (\<lambda>c. \<not> py_isspace c) (str_of_int p)"
    using port_text(2) [of p] assms digit by (simp add: t list_all_iff)
  ultimately have "list_all (\<lambda>c. \<not> py_isspace c) (serialize_origin t)"
    using assms by (auto simp: t)
  then show "py_strip (serialize_origin t) = serialize_origin t"
    by (rule strip_plain)
qed (cases t rule: serialize_origin.cases, simp)

lemma keeps_written:
  assumes "written_as t' (py_strip raw)"
  shows "keeps_entry raw origin \<longleftrightarrow> origin = serialize_origin t'"
proof -
  have "py_strip raw \<noteq> []"
    using assms by (auto elim: written_asE)
  then show ?thesis
    by (auto simp: keeps_entry_def normalize_written(1) [OF assms] origin_text_def)
qed

lemma loaded_origins: "load_settings sha256 c = Inr c' \<Longrightarrow> normalize_cors_origins (cs_cors_origins c) = Inr (cs_cors_origins c')"
  by (auto simp: load_settings_def assemble_database_url_def validate_secret_key_def validate_health_token_def split: if_splits)

section \<open>Properties\<close>

text \<open>
  C28: the origins an operator lists are the ones let through.  When every entry is the address
  of a web origin (in any case, with or without the implied port and a last slash), a browser
  page is allowed exactly if some entry names its scheme, host and port, whatever the spelling;
  no other site gets in and no listed one is locked out.
\<close>

theorem cors_browser_origin:
  assumes "load_settings sha256 c = Inr c'" "origin_ok t"
    and "\<forall>raw \<in> set (py_split CHR '','' (cs_cors_origins c)). py_strip raw \<noteq> [] \<longrightarrow> (\<exists>t'. written_as t' (py_strip raw))"
  shows "is_allowed_origin \<lparr>wsc_require_origin = b, wsc_cors_origins = cs_cors_origins c', wsc_storage = st\<rparr> (Some (serialize_origin t)) \<longleftrightarrow>
    (\<exists>raw \<in> set (py_split CHR '','' (cs_cors_origins c)). written_as t (py_strip raw))"
proof -
  have "(\<exists>o'. keeps_entry raw o' \<and> py_strip o' = serialize_origin t) \<longleftrightarrow> written_as t (py_strip raw)"
    if "raw \<in> set (py_split CHR '','' (cs_cors_origins c))" for raw
  proof (cases "py_strip raw = []")
    case True
    then have "\<not> written_as t (py_strip raw)"
      by (auto elim: written_asE)
    with True show ?thesis
      by (simp add: keeps_entry_def)
  next
    case False
    then obtain t' where t': "written_as t' (py_strip raw)"
      using assms(3) \<open>raw \<in> _\<close> by blast
    have same: "written_as t (py_strip raw) \<longleftrightarrow> serialize_origin t' = serialize_origin t"
      using t' normalize_written [OF t'] normalize_written(1) [of t "py_strip raw"] serialize_origin_inject [OF _ assms(2), of t']
      by auto
    show ?thesis
      unfolding keeps_written [OF t'] same using serialized_plain(2) [OF normalize_written(2) [OF t']] by simp
  qed
  then show ?thesis
    unfolding allowed_origins [OF loaded_origins [OF assms(1)] serialized_plain(1) [OF assms(2)]] by blast
qed

text \<open>
  The parts of the database address survive being put together.  Whatever characters the
  user name, the password, the host and the database name have, a reader that splits the
  assembled address at its delimiters and unquotes the parts gets them back with the port: no
  credential can move the connection to another host or database.
\<close>

lemma database_url_roundtrip:
  assumes "\<not> cs_database_url_set c" "cs_postgres_password c \<noteq> []" "0 \<le> cs_postgres_port c" "cs_postgres_port c \<le> 65535"
  shows "\<exists>u name password. urlparse (cs_database_url (assemble_database_url c)) = Some u \<and>
    url_scheme u = ''postgresql+asyncpg'' \<and> url_userinfo u = Some (name, Some password) \<and>
    unquote name = Some (cs_postgres_user c) \<and> unquote password = Some (cs_postgres_password c) \<and>
    unquote (fst (hostinfo u)) = Some (cs_postgres_host c) \<and> url_port u = Some (Some (cs_postgres_port c)) \<and>
    unquote (tl (url_path u)) = Some (cs_postgres_db c)"
proof -
  let ?U = "quote (cs_postgres_user c)" and ?P = "quote (cs_postgres_password c)" and ?H = "quote (cs_postgres_host c)"
    and ?D = "quote (cs_postgres_db c)" and ?port = "str_of_int (cs_postgres_port c)"
  let ?netloc = "(?U @ CHR '':'' # ?P) @ CHR ''@'' # ?H @ CHR '':'' # ?port"
  let ?u = "\<lparr>url_scheme = ''postgresql+asyncpg'', url_netloc = ?netloc, url_path = CHR ''/'' # ?D\<rparr>"
  have digits: "\<forall>c \<in> set ?port. netloc_char c \<and> c \<noteq> CHR '':'' \<and> c \<noteq> CHR ''@''"
    using port_text(2) [OF assms(3,4)] digit_plain by (auto simp: list_all_iff)
  have delims: "netloc_char (CHR '':'')" "netloc_char (CHR ''@'')" "path_char (CHR ''/'')"
    by (simp_all add: netloc_char_def path_char_def unsafe_char_def)
  have scheme: "list_all scheme_char ''postgresql+asyncpg''" "ascii_letter (hd ''postgresql+asyncpg'')"
      "py_lower ''postgresql+asyncpg'' = ''postgresql+asyncpg''"
    by code_simp+
  have netloc: "list_all netloc_char ?netloc" and path: "list_all path_char (CHR ''/'' # ?D)"
  proof -
    have "list_all netloc_char ?port"
      using digits by (simp add: list_all_iff)
    then show "list_all netloc_char ?netloc" "list_all path_char (CHR ''/'' # ?D)"
      using delims by (simp_all add: quote_parts)
  qed
  have "cs_database_url (assemble_database_url c) = ''postgresql+asyncpg'' @ ''://'' @ ?netloc @ CHR ''/'' # ?D"
    using assms(1,2) by (simp add: assemble_database_url_def postgres_url_def)
  then have parsed: "urlparse (cs_database_url (assemble_database_url c)) = Some ?u"
    using urlparse_parts [OF _ scheme(2,1) netloc _ path] by (simp add: scheme(3))
  have info: "hostinfo ?u = (?H, ?port)"
    by (rule hostinfo_eq [of _ _ _ "?U @ CHR '':'' # ?P"]) (use digits quote_plain in auto)
  have "CHR ''@'' \<notin> set (?H @ CHR '':'' # ?port)" "CHR '':'' \<notin> set ?U"
    using digits by (auto simp: quote_parts)
  then have user: "url_userinfo ?u = Some (?U, Some ?P)"
    using after_last_found [of "CHR ''@''" "?H @ CHR '':'' # ?port" "?U @ CHR '':'' # ?P"]
      partition_found [of "CHR '':''" ?U ?P] by (simp add: url_userinfo_def Let_def)
  show ?thesis
  proof (intro exI conjI)
    show "urlparse (cs_database_url (assemble_database_url c)) = Some ?u" "url_userinfo ?u = Some (?U, Some ?P)"
      by (fact parsed, fact user)
    show "url_port ?u = Some (Some (cs_postgres_port c))"
      by (rule url_port_eq [OF assms(3,4) info])
    show "unquote (fst (hostinfo ?u)) = Some (cs_postgres_host c)"
      by (simp only: info fst_conv unquote_quote)
  qed (simp_all add: unquote_quote)
qed

text \<open>A deployment in production, with an address written by hand.\<close>

definition deployment :: config where
  "deployment = \<lparr>cs_database_url = ''sqlite'', cs_database_url_set = False, cs_postgres_user = ''sakn'',
     cs_postgres_password = ''p@:/%'', cs_postgres_host = ''postgres'', cs_postgres_port = 5432, cs_postgres_db = ''sakn'',
     cs_secret_key = ''abcdefghijklmnopqrstuvwxyz0123456789'', cs_environment = ''production'',
     cs_cors_origins = '' HTTPS://Sakn.example:443/ '', cs_health_full_token = []\<rparr>"

lemma deployment_entry:
  "py_split CHR '','' (cs_cors_origins deployment) = ['' HTTPS://Sakn.example:443/ '']"
  "py_strip '' HTTPS://Sakn.example:443/ '' = ''HTTPS://Sakn.example:443/''"
  "written_as (''https'', ''sakn.example'', 443) ''HTTPS://Sakn.example:443/''"
proof -
  show "py_split CHR '','' (cs_cors_origins deployment) = ['' HTTPS://Sakn.example:443/ '']"
    "py_strip '' HTTPS://Sakn.example:443/ '' = ''HTTPS://Sakn.example:443/''"
    by (simp_all add: deployment_def py_strip_def py_rstrip_def py_lstrip_def py_isspace_def)
  have lower: "py_lower ''HTTPS'' = ''https''" "py_lower ''Sakn.example'' = ''sakn.example''"
    by code_simp+
  have digits: "CHR '':'' # str_of_int 443 = '':443''"
    by code_simp
  have "written_as (py_lower ''HTTPS'', py_lower ''Sakn.example'', 443)
      (''HTTPS'' @ ''://'' @ ''Sakn.example'' @ (CHR '':'' # str_of_int 443) @ ''/'')"
    by (rule written_as.intros) (simp_all add: lower host_char_def ascii_letter_def)
  then show "written_as (''https'', ''sakn.example'', 443) ''HTTPS://Sakn.example:443/''"
    unfolding lower digits by simp
qed

lemma deployment_loads: "\<exists>c'. load_settings (\<lambda>s. s) deployment = Inr c'"
proof -
  have "normalize_cors_origins (cs_cors_origins deployment) = Inr ''https://sakn.example''"
    unfolding normalize_cors_origins_def deployment_entry(1)
    using normalize_written(1) [OF deployment_entry(3)] by (simp add: deployment_entry(2) implied_port_def)
  moreover have "length (remdups ''abcdefghijklmnopqrstuvwxyz0123456789'') = 36"
    by code_simp
  ultimately show ?thesis
    by (simp add: load_settings_def validate_environment_def assemble_database_url_def validate_secret_key_def
        validate_health_token_def KNOWN_DEFAULT_KEY_HASHES_def deployment_def)
qed

theorem cors_browser_origin_witness:
  "\<exists>c'. load_settings (\<lambda>s. s) deployment = Inr c' \<and>
    is_allowed_origin \<lparr>wsc_require_origin = True, wsc_cors_origins = cs_cors_origins c', wsc_storage = ''redis''\<rparr>
      (Some ''https://sakn.example'')"
proof -
  obtain c' where loads: "load_settings (\<lambda>s. s) deployment = Inr c'"
    using deployment_loads by blast
  have "origin_ok (''https'', ''sakn.example'', 443)"
    by (rule normalize_written(2) [OF deployment_entry(3)])
  from cors_browser_origin [OF loads this, of True "''redis''"] have
    "is_allowed_origin \<lparr>wsc_require_origin = True, wsc_cors_origins = cs_cors_origins c', wsc_storage = ''redis''\<rparr>
      (Some ''https://sakn.example'')"
    using deployment_entry(3) unfolding deployment_entry(1) by (auto simp: deployment_entry(2) implied_port_def)
  with loads show ?thesis by blast
qed

lemma database_url_roundtrip_witness:
  "\<exists>u name password. urlparse (cs_database_url (assemble_database_url deployment)) = Some u \<and>
    url_userinfo u = Some (name, Some password) \<and> unquote password = Some ''p@:/%'' \<and>
    unquote (fst (hostinfo u)) = Some ''postgres'' \<and> url_port u = Some (Some 5432)"
  using database_url_roundtrip [of deployment] by (auto simp: deployment_def)

end
