(* ===== verification/User_Table.thy ===== *)
theory User_Table
  imports Account Startup
begin

text \<open>
  The table of users as a state machine: every endpoint, job and command of the backend that
  writes a row of it, one step each, and what all of them together keep of the rows.
\<close>

section \<open>The steps\<close>

datatype user_op =
    Register env register_body request
  | Login env string string request
  | Logout env request
  | VerifyEmail env string
  | ResendVerification env request
  | RequestReset env string request
  | ResetPassword env string string string request
  | UpdateProfile env "string option" "string option" request
  | DeleteAccount string request
  | BlockUser env string request
  | UnblockUser env string request
  | LockUser env string request
  | UnlockUser env string request
  | PromoteUser env string request
  | DemoteUser env string request
  | AdminVerifyEmail env string request
  | UpdateNotes env string "string option" request
  | DeleteUser env string request
  | CleanupUnverified tstamp int
  | CreateAdmin env string string string string

definition on_db :: "(db \<Rightarrow> 'a \<times> db) \<Rightarrow> world \<Rightarrow> world" where
  "on_db f w = w\<lparr>w_db := snd (f (w_db w))\<rparr>"

fun run_op :: "auth_cfg \<Rightarrow> user_op \<Rightarrow> world \<Rightarrow> world" where
  "run_op c (Register e body r) w = snd (register_endpoint c e body r w)"
| "run_op c (Login e email password r) w = snd (login_endpoint c e email password r w)"
| "run_op c (Logout e r) w = snd (logout_endpoint e r w)"
| "run_op c (VerifyEmail e token) w = snd (verify_email_endpoint e token w)"
| "run_op c (ResendVerification e r) w = snd (resend_verification_endpoint c e r w)"
| "run_op c (RequestReset e email r) w = snd (request_password_reset_endpoint c e email r w)"
| "run_op c (ResetPassword e token password confirm r) w = snd (reset_password_endpoint c e token password confirm r w)"
| "run_op c (UpdateProfile e first_name last_name r) w = on_db (update_profile_endpoint e first_name last_name r) w"
| "run_op c (DeleteAccount password r) w = on_db (delete_account_endpoint c password r) w"
| "run_op c (BlockUser e i r) w = on_db (block_user e i r) w"
| "run_op c (UnblockUser e i r) w = on_db (unblock_user e i r) w"
| "run_op c (LockUser e i r) w = on_db (lock_user e i r) w"
| "run_op c (UnlockUser e i r) w = on_db (unlock_user e i r) w"
| "run_op c (PromoteUser e i r) w = on_db (promote_user e i r) w"
| "run_op c (DemoteUser e i r) w = on_db (demote_user e i r) w"
| "run_op c (AdminVerifyEmail e i r) w = on_db (admin_verify_email e i r) w"
| "run_op c (UpdateNotes e i notes r) w = on_db (update_notes e i notes r) w"
| "run_op c (DeleteUser e i r) w = on_db (delete_user e i r) w"
| "run_op c (CleanupUnverified now days) w =
     w\<lparr>w_db := (case cleanup_unverified_accounts now days (w_db w) of Inl _ \<Rightarrow> w_db w | Inr (_, d) \<Rightarrow> d)\<rparr>"
| "run_op c (CreateAdmin e email password first_name last_name) w =
     on_db (create_admin c e email password first_name last_name) w"

text \<open>The identifiers drawn for new rows are new.\<close>

fun fresh_id :: "user_op \<Rightarrow> world \<Rightarrow> bool" where
  "fresh_id (Register e body r) w \<longleftrightarrow> e_fresh e ''user_id'' \<notin> set (map u_id (db_users (w_db w)))"
| "fresh_id (CreateAdmin e email password first_name last_name) w \<longleftrightarrow>
     e_fresh e ''user_id'' \<notin> set (map u_id (db_users (w_db w)))"
| "fresh_id _ w \<longleftrightarrow> True"

inductive user_reachable :: "auth_cfg \<Rightarrow> world \<Rightarrow> world \<Rightarrow> bool" for c w where
  start: "user_reachable c w w"
| step: "user_reachable c w w1 \<Longrightarrow> fresh_id op w1 \<Longrightarrow> user_reachable c w (run_op c op w1)"

section \<open>What a row promises\<close>

text \<open>
  The texts of the columns are those of the enumerations, the failure count is a natural
  number, an account is only locked for a time after five failures, and addresses are kept in
  the one form that is looked up.
\<close>

definition USER_STATUSES :: "string list" where
  "USER_STATUSES = [''pending'', ''active'', ''blocked'', ''locked'']"

definition user_ok :: "user \<Rightarrow> bool" where
  "user_ok u \<longleftrightarrow> u_role u \<in> set [ROLE_AUTHENTICATED, ROLE_ADMINISTRATOR] \<and> u_status u \<in> set USER_STATUSES \<and>
     0 \<le> u_failed_login_attempts u \<and> (u_locked_until u \<noteq> None \<longrightarrow> 5 \<le> u_failed_login_attempts u) \<and>
     normalize_email (u_email u) = u_email u"

definition users_typed :: "db \<Rightarrow> bool" where
  "users_typed d \<longleftrightarrow> users_wf d \<and> list_all user_ok (db_users d)"

text \<open>
  How a step may change the table: rows edited in place with their key kept, rows removed, one
  row added; only the users of \<open>P\<close> may come out as administrators.
\<close>

definition edit_ok :: "(string \<Rightarrow> bool) \<Rightarrow> user \<Rightarrow> user \<Rightarrow> bool" where
  "edit_ok P u v \<longleftrightarrow> u_id v = u_id u \<and> u_email v = u_email u \<and> (user_ok u \<longrightarrow> user_ok v) \<and>
     (u_role v = u_role u \<or> u_role v = ROLE_AUTHENTICATED \<or> P (u_id u))"

inductive users_change :: "(string \<Rightarrow> bool) \<Rightarrow> user list \<Rightarrow> user list \<Rightarrow> bool" for P us where
  keep: "users_change P us us"
| edit: "(\<And>u. u \<in> set us \<Longrightarrow> u_id u = i \<Longrightarrow> edit_ok P u (f u)) \<Longrightarrow>
    users_change P us (update_where (\<lambda>u. u_id u = i) (save_user now f) us)"
| remove: "users_change P us (filter p us)"
| add: "user_ok u \<Longrightarrow> u_id u \<notin> set (map u_id us) \<Longrightarrow> u_email u \<notin> set (map u_email us) \<Longrightarrow>
    u_role u = ROLE_AUTHENTICATED \<or> P (u_id u) \<Longrightarrow> users_change P us (us @ [u])"

lemma edit_save: "edit_ok P u (f u) \<Longrightarrow> edit_ok P u (save_user now f u)"
  by (auto simp: save_user_def edit_ok_def user_ok_def)

lemma map_update_where_on:
  "(\<And>x. x \<in> set xs \<Longrightarrow> p x \<Longrightarrow> g (f x) = g x) \<Longrightarrow> map g (update_where p f xs) = map g xs"
  by (auto simp: update_where_def)

lemma change_keeps_typed:
  assumes "users_change P (db_users d) (db_users d')" "users_typed d"
  shows "users_typed d'"
  using assms(1)
proof cases
  case keep
  with assms(2) show ?thesis
    by (simp add: users_typed_def users_wf_def)
next
  case (edit i f now)
  have saved: "edit_ok P u (save_user now f u)" if "u \<in> set (db_users d)" "u_id u = i" for u
    by (rule edit_save [of P u f now, OF edit(2)]) (use that in auto)
  then have "map u_id (db_users d') = map u_id (db_users d)" "map u_email (db_users d') = map u_email (db_users d)"
    unfolding edit(1) by (auto intro!: map_update_where_on simp: edit_ok_def)
  moreover have "list_all user_ok (db_users d')"
    using saved assms(2) unfolding edit(1) list_all_update_where by (auto simp: users_typed_def list_all_iff edit_ok_def)
  ultimately show ?thesis
    using assms(2) by (simp add: users_typed_def users_wf_def)
next
  case (remove p)
  with assms(2) show ?thesis
    by (auto simp: users_typed_def users_wf_def list_all_iff intro: distinct_map_filter)
next
  case (add u)
  with assms(2) show ?thesis
    by (simp add: users_typed_def users_wf_def)
qed

lemma change_keeps_roles:
  assumes "users_change P us us'" "u \<in> set us'" "u_role u = ROLE_ADMINISTRATOR"
  shows "(\<exists>v \<in> set us. u_id v = u_id u \<and> u_role v = ROLE_ADMINISTRATOR) \<or> P (u_id u)"
  using assms(1)
proof cases
  case (edit i f now)
  have differ: "ROLE_AUTHENTICATED \<noteq> ROLE_ADMINISTRATOR"
    by (simp add: roles)
  consider "u \<in> set us" | v where "v \<in> set us" "u_id v = i" "u = save_user now f v"
    using assms(2) by (auto simp: edit(1) set_update_where)
  then show ?thesis
  proof cases
    case (2 v)
    then have "edit_ok P v u"
      using edit_save [of P v f now, OF edit(2)] by auto
    then show ?thesis
      using 2(1) assms(3) differ by (auto simp: edit_ok_def)
  qed (use assms in auto)
qed (use assms in \<open>auto simp: roles\<close>)

section \<open>Every step is such a change\<close>

fun may_promote :: "user_op \<Rightarrow> string \<Rightarrow> bool" where
  "may_promote (PromoteUser e i r) j \<longleftrightarrow> j = i \<and> st_role (rq_state r) = Some ROLE_ADMINISTRATOR"
| "may_promote (CreateAdmin e email password first_name last_name) j \<longleftrightarrow> True"
| "may_promote _ j \<longleftrightarrow> False"

lemma change_update:
  assumes "db_users d1 = us" "\<And>u. u \<in> set us \<Longrightarrow> u_id u = i \<Longrightarrow> edit_ok P u (f u)"
  shows "users_change P us (db_users (update_user now i f d1))"
  using users_change.edit [of us i P f now] assms by (simp add: update_user_def)

subsection \<open>Administration\<close>

lemma route_change:
  assumes "\<And>user. st_role (rq_state r) = Some ROLE_ADMINISTRATOR \<Longrightarrow>
      users_change P (db_users d) (db_users (snd (body user d)))"
  shows "users_change P (db_users d) (db_users (snd (admin_route e r (with_user i body) d)))"
  using assms by (simp add: admin_route_eq with_user_def users_change.keep split: sum.split option.split)

lemma committed_change:
  assumes "users_change P (db_users d) (db_users d1)"
  shows "users_change P (db_users d) (db_users (snd (committed answer d (log_admin_action e a act t i old new d1))))"
  using committed_users [of answer d e a act t i old new d1] assms users_change.keep by (elim insertE) simp_all

lemma status_edit: "s \<in> set USER_STATUSES \<Longrightarrow> edit_ok P u (u_status_update (\<lambda>_. s) u)"
  by (simp add: edit_ok_def user_ok_def)

lemma status_change:
  assumes "new_status \<in> set USER_STATUSES"
  shows "users_change P (db_users d) (db_users (snd (admin_route e r (change_user_status e i new_status action r) d)))"
  unfolding change_user_status_def
proof (rule route_change)
  fix user
  have d1: "users_change P (db_users d) (db_users (if new_status \<noteq> [] then update_user now i (u_status_update (\<lambda>_. new_status)) d else d))"
    for now
    using status_edit [OF assms] by (simp add: change_update users_change.keep)
  show "users_change P (db_users d) (db_users (snd
      (if truthy (st_user_id (rq_state r)) \<and> st_user_id (rq_state r) = Some i then (Inl (HTTPException 400), d)
       else (let old_status = u_status user;
                 d1 = (if new_status \<noteq> [] then update_user (e_now e) i (u_status_update (\<lambda>_. new_status)) d else d)
             in committed (action_message_key action) d
                  (log_admin_action e (admin_of r) action ''user'' i [(''status'', JStr old_status)]
                     [(''status'', JStr (if new_status \<noteq> [] then new_status else old_status))] d1)))))"
  proof (cases "truthy (st_user_id (rq_state r)) \<and> st_user_id (rq_state r) = Some i")
    case True
    show ?thesis
      unfolding if_P [OF True] by (simp add: users_change.keep)
  next
    case False
    show ?thesis
      unfolding Let_def if_not_P [OF False] by (rule committed_change [OF d1])
  qed
qed

lemma delete_rows_change:
  assumes "delete_users p d1 = Inr d2" "db_users d1 = us"
  shows "users_change P us (db_users d2)"
  unfolding delete_users_rows [OF assms(1)] assms(2) by (rule users_change.remove)

lemma delete_change: "users_change P (db_users d) (db_users (snd (delete_user e i r d)))"
  unfolding delete_user_def
proof (rule route_change)
  fix user
  have "users_change P (db_users d) (db_users (snd (case log_admin_action e a act t j old new (forget_in_logs i d) of
      Inl x \<Rightarrow> (Inl x, d) | Inr d2 \<Rightarrow> committed () d (delete_users (\<lambda>u. u_id u = i) d2))))" for a act t j old new
    by (auto simp: committed_def users_change.keep split: sum.split dest!: log_admin_users intro: delete_rows_change)
  then show "users_change P (db_users d) (db_users (snd (delete_loaded e i r user d)))"
    by (simp add: delete_loaded_def users_change.keep split: sum.split)
qed

lemmas admin_changes = status_change delete_change

lemma admin_step:
  shows "users_change P (db_users d) (db_users (snd (block_user e i r d)))"
    "users_change P (db_users d) (db_users (snd (unblock_user e i r d)))"
    "users_change P (db_users d) (db_users (snd (lock_user e i r d)))"
    "users_change P (db_users d) (db_users (snd (unlock_user e i r d)))"
    "users_change P (db_users d) (db_users (snd (demote_user e i r d)))"
    "users_change P (db_users d) (db_users (snd (admin_verify_email e i r d)))"
    "users_change P (db_users d) (db_users (snd (update_notes e i notes r d)))"
    "users_change (may_promote (PromoteUser e i r)) (db_users d) (db_users (snd (promote_user e i r d)))"
proof -
  show "users_change P (db_users d) (db_users (snd (block_user e i r d)))"
    "users_change P (db_users d) (db_users (snd (unblock_user e i r d)))"
    "users_change P (db_users d) (db_users (snd (lock_user e i r d)))"
    "users_change P (db_users d) (db_users (snd (unlock_user e i r d)))"
    by (simp_all add: block_user_def unblock_user_def lock_user_def unlock_user_def status_change USER_STATUSES_def)
  show "users_change P (db_users d) (db_users (snd (demote_user e i r d)))"
    unfolding demote_user_def
  proof (rule route_change)
    fix user
    show "users_change P (db_users d) (db_users (snd
       (case (if u_role user = ROLE_ADMINISTRATOR then ensure_not_last_admin d i else Inr ()) of
          Inl x \<Rightarrow> (Inl x, d)
        | Inr _ \<Rightarrow>
            committed ROLE_AUTHENTICATED d
              (log_admin_action e (admin_of r) ''user.demote'' ''user'' i
                 [(''role'', JStr (u_role user))] [(''role'', JStr ROLE_AUTHENTICATED)]
                 (update_user (e_now e) i (u_role_update (\<lambda>_. ROLE_AUTHENTICATED)) d)))))"
      by (auto simp: users_change.keep edit_ok_def user_ok_def split: sum.split intro!: committed_change change_update)
  qed
  show "users_change P (db_users d) (db_users (snd (admin_verify_email e i r d)))"
    unfolding admin_verify_email_def
    by (rule route_change, rule committed_change, rule change_update)
      (auto simp: edit_ok_def user_ok_def USER_STATUSES_def)
  show "users_change P (db_users d) (db_users (snd (update_notes e i notes r d)))"
    unfolding update_notes_def Let_def
    by (rule route_change, rule committed_change, rule change_update) (auto simp: edit_ok_def user_ok_def)
  show "users_change (may_promote (PromoteUser e i r)) (db_users d) (db_users (snd (promote_user e i r d)))"
    unfolding promote_user_def
    by (rule route_change, rule committed_change, rule change_update) (auto simp: edit_ok_def user_ok_def)
qed

subsection \<open>Registration and login\<close>

lemma limited_db: "limited e key limit_name w = (res, w1) \<Longrightarrow> w_db w1 = w_db w"
  by (auto simp: limited_def split: prod.splits)

lemma send_email_db [simp]: "w_db (send_email c to subject url w) = w_db w"
  by (simp add: send_email_def)

lemma normalize_email_idem: "normalize_email (normalize_email s) = normalize_email s"
  by (simp add: normalize_email_def strip_lower)

lemma scalar_none: "scalar_one_or_none xs = Inr None \<longleftrightarrow> xs = []"
  by (cases xs rule: scalar_one_or_none.cases) auto

lemma session_create_users: "session_create e (d, r) u ip ua = (res, d', r') \<Longrightarrow> db_users d' = db_users d"
  by (auto simp: session_create_def insert_session_def Let_def split: sum.splits if_splits)

lemma revoke_all_users: "revoke_all_for_user e (d, r) u x = (n, d', r') \<Longrightarrow> db_users d' = db_users d"
  by (auto simp: revoke_all_for_user_def Let_def)

text \<open>A service leaves the same kind of change whether its endpoint answers or raises.\<close>

definition svc_change :: "(string \<Rightarrow> bool) \<Rightarrow> world \<Rightarrow> 'a svc \<Rightarrow> bool" where
  "svc_change P w res \<longleftrightarrow> users_change P (db_users (w_db w)) (db_users (w_db (fst (snd res)))) \<and>
     users_change P (db_users (w_db w)) (db_users (snd (snd res)))"

lemma svc_change_keep [simp]: "db_users (w_db w') = db_users (w_db w) \<Longrightarrow> db_users d = db_users (w_db w) \<Longrightarrow> svc_change P w (res, w', d)"
  by (simp add: svc_change_def users_change.keep)

lemma register_change:
  assumes "e_fresh e ''user_id'' \<notin> set (map u_id (db_users (w_db w)))"
  shows "svc_change P w (register_user c e w email password confirm first_name last_name ip)"
proof -
  let ?email = "normalize_email email"
  have added: "users_change P (db_users (w_db w)) (db_users (w_db w) @ [new_user c e ?email password first_name last_name])"
    if "?email \<notin> u_email ` set (db_users (w_db w))" for password
    using that assms
    by (intro users_change.add) (simp_all add: new_user_def user_ok_def normalize_email_idem USER_STATUSES_def)
  show ?thesis
    unfolding register_user_def Let_def
    by (auto split: prod.split sum.split simp: svc_change_def users_change.keep added)
qed

lemma verify_change: "svc_change P w (verify_email e w token)"
proof -
  have active: "edit_ok P u (u\<lparr>u_status := ''active'', u_email_verified_at := Some t\<rparr>)" for u t
    by (simp add: edit_ok_def user_ok_def USER_STATUSES_def)
  show ?thesis
    unfolding verify_email_def Let_def
    by (auto split: sum.split option.split simp: svc_change_def users_change.keep active intro!: change_update)
qed

lemma resend_change: "svc_change P w (resend_verification c e w user_id ip)"
  unfolding resend_verification_def Let_def by (auto split: sum.split option.split)

lemma request_reset_change: "svc_change P w (request_password_reset c e w email ip)"
  unfolding request_password_reset_def Let_def by (auto split: sum.split option.split)

lemma reset_change: "svc_change P w (reset_password c e w token password confirm ip)"
proof -
  have reset: "edit_ok P u (u\<lparr>u_password_hash := h, u_failed_login_attempts := 0, u_locked_until := None\<rparr>)" for u h
    by (simp add: edit_ok_def user_ok_def)
  show ?thesis
    unfolding reset_password_def Let_def
    by (auto split: prod.split sum.split option.split simp: svc_change_def users_change.keep reset
        intro!: change_update dest!: revoke_all_users)
qed

lemma denied_change:
  assumes "users_typed (w_db w)" "user \<in> set (db_users (w_db w))"
  shows "svc_change P w (login_denied c e w user ip)"
proof -
  have "edit_ok P u (u\<lparr>u_failed_login_attempts := u_failed_login_attempts user + 1,
      u_locked_until := (case brute_force_duration (u_failed_login_attempts user + 1) of
          Some duration \<Rightarrow> Some (e_now e + sec duration) | None \<Rightarrow> u_locked_until u)\<rparr>)"
    if "u \<in> set (db_users (w_db w))" "u_id u = u_id user" for u
  proof -
    have "u = user"
      using assms that by (auto simp: users_typed_def users_wf_def distinct_map dest: inj_onD)
    then show ?thesis
      by (auto simp: edit_ok_def user_ok_def lock_duration_flat)
  qed
  then show ?thesis
    by (simp add: login_denied_def Let_def svc_change_def change_update)
qed

lemma accepted_change: "svc_change P w (login_accepted c e w user ip ua)"
proof -
  have reset: "edit_ok P u (u\<lparr>u_failed_login_attempts := 0, u_locked_until := None\<rparr>)" for u
    by (simp add: edit_ok_def user_ok_def)
  show ?thesis
    unfolding login_accepted_def Let_def
    by (auto split: prod.split sum.split simp: svc_change_def users_change.keep reset
        intro!: change_update dest!: session_create_users)
qed

lemma login_change:
  assumes "users_typed (w_db w)"
  shows "svc_change P w (login c e w email password ip ua)"
proof -
  have found: "user \<in> set (db_users (w_db w))" if "user_by_email (w_db w) x = Inr (Some user)" for x user
    using that assms find_Some_in [of "\<lambda>u. u_email u = x" "db_users (w_db w)" user]
    by (simp add: users_typed_def user_by_email_eq)
  show ?thesis
    unfolding login_def Let_def
    using denied_change [OF assms found] accepted_change
    by (auto split: prod.split sum.split option.split)
qed

subsection \<open>Endpoints\<close>

lemma endpoint_result:
  assumes "svc_change P w1 s" "w_db w1 = w_db w"
  shows "users_change P (db_users (w_db w)) (db_users (w_db (fst (snd s))))"
    "users_change P (db_users (w_db w)) (db_users (w_db (rolled_back (fst (snd s)) (snd (snd s)))))"
  using assms by (simp_all add: svc_change_def rolled_back_def)

lemma limited_result: "w_db (snd (limited e key limit_name w)) = w_db w"
  using limited_db [of e key limit_name w] by (metis prod.collapse)

lemma public_step:
  "e_fresh e ''user_id'' \<notin> set (map u_id (db_users (w_db w))) \<Longrightarrow>
    users_change P (db_users (w_db w)) (db_users (w_db (snd (register_endpoint c e body r w))))"
  "users_typed (w_db w) \<Longrightarrow>
    users_change P (db_users (w_db w)) (db_users (w_db (snd (login_endpoint c e email password r w))))"
  "users_change P (db_users (w_db w)) (db_users (w_db (snd (logout_endpoint e r w))))"
  "users_change P (db_users (w_db w)) (db_users (w_db (snd (verify_email_endpoint e token w))))"
  "users_change P (db_users (w_db w)) (db_users (w_db (snd (resend_verification_endpoint c e r w))))"
  "users_change P (db_users (w_db w)) (db_users (w_db (snd (request_password_reset_endpoint c e email r w))))"
  "users_change P (db_users (w_db w)) (db_users (w_db (snd (reset_password_endpoint c e token password confirm r w))))"
proof -
  show "e_fresh e ''user_id'' \<notin> set (map u_id (db_users (w_db w))) \<Longrightarrow>
    users_change P (db_users (w_db w)) (db_users (w_db (snd (register_endpoint c e body r w))))"
    by (auto simp: register_endpoint_def split_beta limited_result users_change.keep
        intro!: endpoint_result register_change split: sum.split)
  show "users_typed (w_db w) \<Longrightarrow>
    users_change P (db_users (w_db w)) (db_users (w_db (snd (login_endpoint c e email password r w))))"
    by (auto simp: login_endpoint_def split_beta limited_result users_change.keep Let_def
        intro!: endpoint_result login_change split: sum.split login_result.split)
  show "users_change P (db_users (w_db w)) (db_users (w_db (snd (logout_endpoint e r w))))"
    by (auto simp: logout_endpoint_def logout_def rolled_back_def users_change.keep Let_def
        split: sum.split option.split)
  show "users_change P (db_users (w_db w)) (db_users (w_db (snd (verify_email_endpoint e token w))))"
    by (auto simp: verify_email_endpoint_def split_beta intro!: endpoint_result verify_change split: sum.split)
  show "users_change P (db_users (w_db w)) (db_users (w_db (snd (resend_verification_endpoint c e r w))))"
    by (auto simp: resend_verification_endpoint_def split_beta limited_result users_change.keep
        intro!: endpoint_result resend_change split: sum.split option.split)
  show "users_change P (db_users (w_db w)) (db_users (w_db (snd (request_password_reset_endpoint c e email r w))))"
    by (auto simp: request_password_reset_endpoint_def split_beta limited_result users_change.keep
        intro!: endpoint_result request_reset_change split: sum.split)
  show "users_change P (db_users (w_db w)) (db_users (w_db (snd (reset_password_endpoint c e token password confirm r w))))"
    by (auto simp: reset_password_endpoint_def split_beta intro!: endpoint_result reset_change split: sum.split)
qed

lemma update_name_edit:
  assumes "update_name first_name (\<lambda>n. u_first_name_update (\<lambda>_. n)) = Inr f"
    and "update_name last_name (\<lambda>n. u_last_name_update (\<lambda>_. n)) = Inr g"
  shows "edit_ok P u ((g \<circ> f) u)"
  using assms by (auto simp: update_name_def edit_ok_def user_ok_def Let_def split: option.splits if_splits)

lemma clear_log_rows: "clear_log_user i t (Inr d) = Inr d' \<Longrightarrow> db_users d' = db_users d"
  by (auto simp: clear_log_user_def split: if_splits)

lemma profile_change: "users_change P (db_users d) (db_users (snd (update_profile_endpoint e first_name last_name r d)))"
  unfolding update_profile_endpoint_def
  by (simp add: users_change.keep split: sum.split option.split)
    (blast intro: change_update [OF refl] update_name_edit)

lemma clear_logs_rows:
  "fold (clear_log_user i) ts (Inr d) = Inr d' \<Longrightarrow> db_users d' = db_users d"
proof (induction ts arbitrary: d)
  case (Cons t ts)
  have "fold (clear_log_user i) ts (Inl x) = Inl x" for x
    by (induction ts) (simp_all add: clear_log_user_def)
  with Cons show ?case
    by (cases "clear_log_user i t (Inr d)") (auto dest: clear_log_rows)
qed simp

lemma delete_account_change: "users_change P (db_users d) (db_users (snd (delete_account_endpoint c password r d)))"
proof -
  have step: "users_change P (db_users d) (db_users d3)"
    if "fold (clear_log_user i) ts (Inr d1) = Inr d2" "db_users d1 = db_users d" "delete_users p d2 = Inr d3"
    for i ts d1 d2 d3 p
    by (rule delete_rows_change [OF that(3)]) (use clear_logs_rows [OF that(1)] that(2) in simp)
  show ?thesis
    unfolding delete_account_endpoint_def Let_def
    by (simp add: users_change.keep del: fold_simps fold.simps split: sum.split option.split)
      (intro allI impI, erule (1) step [rotated 2], simp)
qed

lemma cleanup_change: "cleanup_unverified_accounts now days d = Inr (n, d') \<Longrightarrow> users_change P (db_users d) (db_users d')"
  by (auto simp: cleanup_unverified_accounts_def Let_def split: sum.splits intro: delete_rows_change)

lemma create_admin_change:
  assumes "e_fresh e ''user_id'' \<notin> set (map u_id (db_users d))"
  shows "users_change (\<lambda>_. True) (db_users d) (db_users (snd (create_admin c e email password first_name last_name d)))"
proof -
  have plain: "normalize_email (py_lower (py_strip email)) = py_lower (py_strip email)"
    by (simp add: normalize_email_def strip_lower)
  have "py_lower (py_strip email) \<notin> u_email ` set (db_users d)"
    if "user_by_email d (py_lower (py_strip email)) = Inr None"
    using that by (auto simp: user_by_email_def scalar_none filter_empty_conv)
  then show ?thesis
    unfolding create_admin_def using assms
    by (auto simp: users_change.keep user_ok_def USER_STATUSES_def plain split: sum.split option.split intro!: users_change.add)
qed

lemmas own_step = profile_change delete_account_change cleanup_change create_admin_change

text \<open>The row of the command line, and the rows of a promotion.\<close>

lemma created_row:
  assumes "u \<in> set (db_users (snd (create_admin c e email password first_name last_name d)))" "u \<notin> set (db_users d)"
  shows "u_id u = e_fresh e ''user_id'' \<and> u_email u = py_lower (py_strip email) \<and>
    u_email u \<notin> set (map u_email (db_users d)) \<and> u_password_hash u = ac_hash_password c password"
  using assms
  by (auto simp: create_admin_def user_by_email_def scalar_Inr_iff filter_empty_conv split: if_splits sum.splits option.splits)

lemma promoted_commit:
  "map u_id (db_users (snd (committed answer d (log_admin_action e a act t j old new (update_user now i (u_role_update g) d))))) =
     map u_id (db_users d)"
proof -
  have "map u_id (db_users (update_user now i (u_role_update g) d)) = map u_id (db_users d)"
    by (simp add: update_user_def map_update_where save_user_def)
  then show ?thesis
    using committed_users [of answer d e a act t j old new "update_user now i (u_role_update g) d"] by (elim insertE) simp_all
qed

lemma promoted_ids: "map u_id (db_users (snd (promote_user e i r d))) = map u_id (db_users d)"
  by (simp add: promote_user_def admin_route_eq with_user_def promoted_commit split: sum.split option.split)

lemma op_change:
  assumes "users_typed (w_db w)" "fresh_id op w"
  shows "users_change (may_promote op) (db_users (w_db w)) (db_users (w_db (run_op c op w)))"
proof (cases op)
  case (PromoteUser e i r)
  then show ?thesis
    using admin_step(8) [of e i r "w_db w"] by (simp add: on_db_def)
next
  case (CreateAdmin e email password first_name last_name)
  have "may_promote op = (\<lambda>_. True)"
    by (simp add: CreateAdmin fun_eq_iff)
  then show ?thesis
    using create_admin_change assms(2) by (simp add: CreateAdmin on_db_def)
qed (use assms in \<open>auto simp: on_db_def public_step admin_step delete_change own_step users_change.keep split: sum.split\<close>)

section \<open>A concrete table\<close>

text \<open>An administrator and a plain user.\<close>

definition two_users :: world where
  "two_users = sample_world (empty_db\<lparr>db_users := [sample_admin ''a'', sample_user]\<rparr>)"

lemma two_users_typed: "users_typed (w_db two_users)"
proof -
  have "normalize_email ''a'' = ''a''"
    by code_simp
  then show ?thesis
    using sample_email
    by (simp add: users_typed_def users_wf_def two_users_def sample_world_def sample_admin_def sample_user_def user_ok_def
        USER_STATUSES_def)
qed

lemma promoted_row:
  "db_users (w_db (run_op sample_cfg (PromoteUser sample_env (u_id sample_user) (admin_request ''a'')) two_users)) =
     [sample_admin ''a'', (sample_user\<lparr>u_role := ROLE_ADMINISTRATOR, u_updated_at := e_now sample_env\<rparr>)]"
proof -
  have "users_wf (w_db two_users)"
    using two_users_typed by (simp add: users_typed_def)
  then show ?thesis
    by (simp add: on_db_def promote_user_def admin_route_eq with_user_eq)
      (simp add: two_users_def sample_world_def sample_admin_def sample_user_def sample_env_def committed_def
        log_admin_action_def admin_of_def update_user_def update_where_def save_user_def roles)
qed

section \<open>Properties\<close>

text \<open>
  C9: the rows of the user table are well typed in every reachable state.  Whatever sequence
  of requests, jobs and commands runs, each role and status is one of the enumeration, failure
  counts are natural numbers, an account is locked for a time only after five failures, and
  identifiers and normalised addresses are unique.
\<close>

theorem user_rows_typed:
  assumes "user_reachable c w w'" "users_typed (w_db w)"
  shows "users_typed (w_db w')"
  using assms(1)
proof induction
  case (step w1 op)
  then show ?case
    using change_keeps_typed [OF op_change] by blast
qed (rule assms(2))

theorem user_rows_typed_witness:
  "users_typed (w_db (run_op sample_cfg (PromoteUser sample_env (u_id sample_user) (admin_request ''a'')) two_users))"
proof -
  have "user_reachable sample_cfg two_users
      (run_op sample_cfg (PromoteUser sample_env (u_id sample_user) (admin_request ''a'')) two_users)"
    by (rule user_reachable.step [OF user_reachable.start]) simp
  from user_rows_typed [OF this two_users_typed] show ?thesis .
qed

text \<open>
  C3: nobody makes himself an administrator.  After any step, a user with that role had it
  before, or is the existing user named in a promotion an administrator requested, or is the
  one row the command line has just added, with an identifier and an address no row had, and
  the address and the password given to the command.
\<close>

theorem no_privilege_escalation:
  assumes "users_typed (w_db w)" "fresh_id op w" "u \<in> set (db_users (w_db (run_op c op w)))" "u_role u = ROLE_ADMINISTRATOR"
  shows "(\<exists>v \<in> set (db_users (w_db w)). u_id v = u_id u \<and> u_role v = ROLE_ADMINISTRATOR) \<or>
    (\<exists>e r. op = PromoteUser e (u_id u) r \<and> st_role (rq_state r) = Some ROLE_ADMINISTRATOR \<and>
       u_id u \<in> set (map u_id (db_users (w_db w)))) \<or>
    (\<exists>e email password first_name last_name. op = CreateAdmin e email password first_name last_name \<and>
       u_id u = e_fresh e ''user_id'' \<and> u_id u \<notin> set (map u_id (db_users (w_db w))) \<and>
       u_email u = py_lower (py_strip email) \<and> u_email u \<notin> set (map u_email (db_users (w_db w))) \<and>
       u_password_hash u = ac_hash_password c password)"
proof (cases op)
  case (CreateAdmin e email password first_name last_name)
  show ?thesis
  proof (cases "u \<in> set (db_users (w_db w))")
    case True
    with assms(4) show ?thesis by blast
  next
    case False
    with created_row [of u c e email password first_name last_name "w_db w"] assms(2,3) show ?thesis
      by (auto simp: CreateAdmin on_db_def)
  qed
next
  case (PromoteUser e i r)
  then have "(\<exists>v \<in> set (db_users (w_db w)). u_id v = u_id u \<and> u_role v = ROLE_ADMINISTRATOR) \<or> may_promote op (u_id u)"
    using change_keeps_roles [OF op_change [OF assms(1,2)] assms(3,4)] by blast
  moreover have "u_id u \<in> set (map u_id (db_users (w_db w)))"
    unfolding promoted_ids [of e i r "w_db w", symmetric] using assms(3) by (simp add: PromoteUser on_db_def)
  ultimately show ?thesis
    using PromoteUser by auto
qed (use change_keeps_roles [OF op_change [OF assms(1,2)] assms(3,4)] in auto)

theorem no_privilege_escalation_witness:
  "sample_user\<lparr>u_role := ROLE_ADMINISTRATOR, u_updated_at := e_now sample_env\<rparr> \<in> set (db_users (w_db
     (run_op sample_cfg (PromoteUser sample_env (u_id sample_user) (admin_request ''a'')) two_users))) \<and>
   st_role (rq_state (admin_request ''a'')) = Some ROLE_ADMINISTRATOR"
proof -
  let ?u = "sample_user\<lparr>u_role := ROLE_ADMINISTRATOR, u_updated_at := e_now sample_env\<rparr>"
  let ?op = "PromoteUser sample_env (u_id sample_user) (admin_request ''a'')"
  have promoted: "?u \<in> set (db_users (w_db (run_op sample_cfg ?op two_users)))"
    unfolding promoted_row by simp
  have "u_role v \<noteq> ROLE_ADMINISTRATOR" if "v \<in> set (db_users (w_db two_users))" "u_id v = u_id sample_user" for v
    using that by (auto simp: two_users_def sample_world_def sample_admin_def sample_user_def roles)
  then show ?thesis
    using no_privilege_escalation [OF two_users_typed _ promoted] promoted by auto
qed

end
