(* ===== verification/Json_Read.thy ===== *)
theory Json_Read
  imports Json Ipaddress
begin

text \<open>
  \<open>json.loads\<close> of the standard library, on texts of the values of \<open>Json\<close>: \<open>None\<close> is
  \<open>JSONDecodeError\<close>, and also a number with a fraction or an exponent, an infinity or a character
  above 255, which are outside the values of the model.
\<close>

section \<open>Scanning\<close>

definition json_space :: "char \<Rightarrow> bool" where
  "json_space c = (c = CHR '' '' \<or> (of_char c :: nat) \<in> {9, 10, 13})"

definition skip_space :: "string \<Rightarrow> string" where
  "skip_space s = dropWhile json_space s"

definition unescape :: "char \<Rightarrow> char option" where
  "unescape c =
     (if c = CHR 0x22 \<or> c = CHR 0x5C \<or> c = CHR ''/'' then Some c
      else if c = CHR ''b'' then Some (char_of (8 :: nat))
      else if c = CHR ''f'' then Some (char_of (12 :: nat))
      else if c = CHR ''n'' then Some (char_of (10 :: nat))
      else if c = CHR ''r'' then Some (char_of (13 :: nat))
      else if c = CHR ''t'' then Some (char_of (9 :: nat))
      else None)"

definition hex4 :: "char \<Rightarrow> char \<Rightarrow> char \<Rightarrow> char \<Rightarrow> char option" where
  "hex4 a b c d =
     (case (hex_val a, hex_val b, hex_val c, hex_val d) of
        (Some p, Some q, Some x, Some y) \<Rightarrow>
          if p = 0 \<and> q = 0 then Some (char_of (nat (16 * x + y))) else None
      | _ \<Rightarrow> None)"

text \<open>What follows an opening quote, up to the closing one.\<close>

fun read_string :: "string \<Rightarrow> (string \<times> string) option" where
  "read_string [] = None"
| "read_string (c # cs) =
     (if c = CHR 0x22 then Some ([], cs)
      else if c = CHR 0x5C then
        (case cs of
           [] \<Rightarrow> None
         | e # es \<Rightarrow>
             if e = CHR ''u'' then
               (case es of
                  h1 # h2 # h3 # h4 # rest \<Rightarrow>
                    (case hex4 h1 h2 h3 h4 of
                       None \<Rightarrow> None
                     | Some x \<Rightarrow> map_option (apfst ((#) x)) (read_string rest))
                | _ \<Rightarrow> None)
             else
               (case unescape e of
                  None \<Rightarrow> None
                | Some x \<Rightarrow> map_option (apfst ((#) x)) (read_string es)))
      else if (of_char c :: nat) < 32 then None
      else map_option (apfst ((#) c)) (read_string cs))"

definition read_digits :: "bool \<Rightarrow> string \<Rightarrow> (json \<times> string) option" where
  "read_digits negative s =
     (let digits = (if py_startswith s ''0'' then ''0'' else takeWhile is_digit s);
          rest = drop (length digits) s;
          n = int (nat_of_digits digits)
      in if digits = [] then None
         else if rest \<noteq> [] \<and> hd rest \<in> set ''.eE'' then None
         else Some (JInt (if negative then - n else n), rest))"

definition read_int :: "string \<Rightarrow> (json \<times> string) option" where
  "read_int s = (if py_startswith s ''-'' then read_digits True (tl s) else read_digits False s)"

fun parse_value :: "nat \<Rightarrow> string \<Rightarrow> (json \<times> string) option"
  and parse_items :: "nat \<Rightarrow> string \<Rightarrow> (json list \<times> string) option"
  and parse_members :: "nat \<Rightarrow> string \<Rightarrow> ((string \<times> json) list \<times> string) option" where
  "parse_value 0 s = None"
| "parse_value (Suc n) s =
     (case s of
        [] \<Rightarrow> None
      | c # cs \<Rightarrow>
          if c = CHR 0x22 then map_option (apfst JStr) (read_string cs)
          else if c = CHR ''{'' then
            (case skip_space cs of
               [] \<Rightarrow> None
             | d # ds \<Rightarrow>
                 if d = CHR ''}'' then Some (JObj [], ds)
                 else if d = CHR 0x22
                 then map_option (apfst (\<lambda>kvs. JObj (fold (\<lambda>(k, v). dict_set k v) kvs []))) (parse_members n ds)
                 else None)
          else if c = CHR ''['' then
            (case skip_space cs of
               [] \<Rightarrow> None
             | d # ds \<Rightarrow>
                 if d = CHR '']'' then Some (JList [], ds)
                 else map_option (apfst JList) (parse_items n (d # ds)))
          else if py_startswith s ''null'' then Some (JNull, drop 4 s)
          else if py_startswith s ''true'' then Some (JBool True, drop 4 s)
          else if py_startswith s ''false'' then Some (JBool False, drop 5 s)
          else read_int s)"
| "parse_items 0 s = None"
| "parse_items (Suc n) s =
     (case parse_value n s of
        None \<Rightarrow> None
      | Some (j, rest) \<Rightarrow>
          (case skip_space rest of
             [] \<Rightarrow> None
           | c # cs \<Rightarrow>
               if c = CHR '']'' then Some ([j], cs)
               else if c = CHR '','' then map_option (apfst ((#) j)) (parse_items n (skip_space cs))
               else None))"
| "parse_members 0 s = None"
| "parse_members (Suc n) s =
     (case read_string s of
        None \<Rightarrow> None
      | Some (k, rest) \<Rightarrow>
          (case skip_space rest of
             [] \<Rightarrow> None
           | c # cs \<Rightarrow>
               if c \<noteq> CHR '':'' then None
               else
                 (case parse_value n (skip_space cs) of
                    None \<Rightarrow> None
                  | Some (j, rest2) \<Rightarrow>
                      (case skip_space rest2 of
                         [] \<Rightarrow> None
                       | d # ds \<Rightarrow>
                           if d = CHR ''}'' then Some ([(k, j)], ds)
                           else if d = CHR '','' then
                             (case skip_space ds of
                                [] \<Rightarrow> None
                              | q # qs \<Rightarrow>
                                  if q = CHR 0x22 then map_option (apfst ((#) (k, j))) (parse_members n qs) else None)
                           else None))))"

text \<open>Every step of the recursion has consumed a character, so the length is fuel enough.\<close>

definition json_loads :: "string \<Rightarrow> json option" where
  "json_loads s =
     (case parse_value (Suc (length s)) (skip_space s) of
        None \<Rightarrow> None
      | Some (j, rest) \<Rightarrow> if skip_space rest = [] then Some j else None)"

section \<open>Reading what was written\<close>

text \<open>The text of a value under any way to write characters that a reader undoes.\<close>

fun json_text :: "(char \<Rightarrow> string) \<Rightarrow> json \<Rightarrow> string" where
  "json_text esc JNull = ''null''"
| "json_text esc (JBool b) = (if b then ''true'' else ''false'')"
| "json_text esc (JInt i) = str_of_int i"
| "json_text esc (JFloat f) = json_float f"
| "json_text esc (JStr s) = [CHR 0x22] @ concat (map esc s) @ [CHR 0x22]"
| "json_text esc (JList js) = ''['' @ py_join '', '' (map (json_text esc) js) @ '']''"
| "json_text esc (JObj kvs) =
     ''{'' @ py_join '', '' (map (\<lambda>kv. ([CHR 0x22] @ concat (map esc (fst kv)) @ [CHR 0x22]) @ '': '' @ json_text esc (snd kv)) kvs) @ ''}''"

lemma json_dumps_text: "json_dumps v = json_text json_char v"
proof (induction v)
  case (JList js)
  then have "map json_dumps js = map (json_text json_char) js"
    by simp
  then show ?case
    by (simp only: json_dumps.simps json_text.simps)
next
  case (JObj kvs)
  then have "map (\<lambda>kv. json_string (fst kv) @ '': '' @ json_dumps (snd kv)) kvs =
      map (\<lambda>kv. ([CHR 0x22] @ concat (map json_char (fst kv)) @ [CHR 0x22]) @ '': '' @ json_text json_char (snd kv)) kvs"
    by (auto simp: json_string_def)
  then show ?case
    by (simp only: json_dumps.simps json_text.simps)
qed (simp_all add: json_string_def)

text \<open>Python dicts have each key once.\<close>

fun json_ok :: "json \<Rightarrow> bool" where
  "json_ok (JList js) = list_all json_ok js"
| "json_ok (JObj kvs) = (distinct (map fst kvs) \<and> list_all (\<lambda>kv. json_ok (snd kv)) kvs)"
| "json_ok (JFloat _) = False"
| "json_ok _ = True"

text \<open>A way to write the characters of a string that the reader undoes.\<close>

locale char_escape =
  fixes esc :: "char \<Rightarrow> string"
  assumes read_escaped: "read_string (esc c @ r) = map_option (apfst ((#) c)) (read_string r)"
begin

lemma read_string_text: "read_string (concat (map esc s) @ CHR 0x22 # r) = Some (s, r)"
  by (induction s) (simp_all add: read_escaped)

end

lemma hex_val_digit: "n < 16 \<Longrightarrow> hex_val (hex_digit n) = Some (int n)"
  by (auto simp: hex_val_def hex_digit_def int_of_char_of Let_def)

lemma hex4_code: "hex4 (CHR ''0'') (CHR ''0'') (hex_digit ((of_char c :: nat) div 16)) (hex_digit ((of_char c :: nat) mod 16)) = Some c"
proof -
  let ?n = "(of_char c :: nat)"
  have "?n < 16 * 16"
    by (rule less_le_trans [OF nat_of_char_less_256]) simp
  then have "?n div 16 < 16" "?n mod 16 < 16"
    by (auto simp: less_mult_imp_div_less)
  moreover have "hex_val (CHR ''0'') = Some 0"
    by (simp add: hex_val_def)
  moreover have "nat (16 * int (?n div 16) + int (?n mod 16)) = ?n"
    by (simp add: nat_add_distrib nat_mult_distrib)
  ultimately show ?thesis
    by (simp add: hex4_def hex_val_digit)
qed

lemma read_json_char: "read_string (json_char c @ r) = map_option (apfst ((#) c)) (read_string r)"
proof -
  have codes: "c = char_of n" if "(of_char c :: nat) = n" for n
    using that by auto
  let ?n = "(of_char c :: nat)"
  consider "c = CHR 0x22" | "c = CHR 0x5C" | "?n = 10" | "?n = 13" | "?n = 9" | "?n = 8" | "?n = 12"
    | "c \<notin> {CHR 0x22, CHR 0x5C}" "?n \<notin> {10, 13, 9, 8, 12}" "?n < 32 \<or> 126 < ?n"
    | "c \<notin> {CHR 0x22, CHR 0x5C}" "?n \<notin> {10, 13, 9, 8, 12}" "\<not> (?n < 32 \<or> 126 < ?n)"
    by blast
  then show ?thesis
  proof cases
    case 8
    then show ?thesis
      using hex4_code [of c] by (auto simp: json_char_def Let_def)
  qed (auto simp: json_char_def unescape_def Let_def codes [symmetric] dest: codes)
qed

subsection \<open>Numbers\<close>

text \<open>What may follow a number without changing it.\<close>

definition number_ends :: "string \<Rightarrow> bool" where
  "number_ends r \<longleftrightarrow> r = [] \<or> \<not> is_digit (hd r) \<and> hd r \<notin> set ''.eE''"

lemma takeWhile_digits: "list_all is_digit ds \<Longrightarrow> number_ends r \<Longrightarrow> takeWhile is_digit (ds @ r) = ds"
  by (induction ds) (auto simp: number_ends_def takeWhile_eq_Nil_iff)

lemma str_of_nat_head: "0 < n \<Longrightarrow> hd (str_of_nat n) \<noteq> CHR ''0''"
proof (induction n rule: str_of_nat.induct)
  case (1 n)
  have "digit_char n \<noteq> CHR ''0''" if "n < 10"
  proof
    assume "digit_char n = CHR ''0''"
    then have "(of_char (digit_char n) :: nat) = 48"
      by simp
    with that 1(2) show False
      by (simp add: digit_char_def)
  qed
  then show ?case
    using 1 by (cases "n < 10") (simp_all add: str_of_nat.simps [of n])
qed

lemma digit_no_sign: "is_digit c \<Longrightarrow> c \<noteq> CHR ''-''"
  by (auto simp: is_digit_def Let_def)

lemma read_digits_text:
  assumes "number_ends r"
  shows "read_digits negative (str_of_nat n @ r) = Some (JInt (if negative then - int n else int n), r)"
proof -
  obtain c cs where s: "str_of_nat n = c # cs"
    by (cases "str_of_nat n") auto
  have digits: "list_all is_digit (c # cs)"
    using str_of_nat_digits [of n] by (simp only: s)
  have ends: "\<not> (r \<noteq> [] \<and> hd r \<in> set ''.eE'')"
    using assms by (auto simp: number_ends_def)
  have zero: "cs = [] \<and> n = 0" if "c = CHR ''0''"
  proof -
    have "n = 0"
      using str_of_nat_head [of n] s that by auto
    then show ?thesis
      using s by (simp add: str_of_nat.simps [of 0])
  qed
  have body: "(if py_startswith (c # cs @ r) ''0'' then ''0'' else takeWhile is_digit (c # cs @ r)) = c # cs"
    using zero takeWhile_digits [OF digits assms] by auto
  have num: "nat_of_digits (c # cs) = n"
    using nat_of_digits_str_of_nat [of n] by (simp only: s)
  show ?thesis
    using ends unfolding read_digits_def s Let_def append_Cons body num by simp
qed

lemma read_int_text:
  assumes "number_ends r"
  shows "read_int (str_of_int i @ r) = Some (JInt i, r)"
proof (cases "i < 0")
  case True
  then show ?thesis
    using read_digits_text [OF assms] by (simp add: read_int_def str_of_int_def)
next
  case False
  obtain c cs where s: "str_of_nat (nat i) = c # cs"
    by (cases "str_of_nat (nat i)") auto
  have "list_all is_digit (c # cs)"
    using str_of_nat_digits [of "nat i"] by (simp only: s)
  then have "\<not> py_startswith (str_of_nat (nat i) @ r) ''-''"
    using digit_no_sign [of c] by (simp add: s)
  then show ?thesis
    using False read_digits_text [OF assms, of False "nat i"] by (simp add: read_int_def str_of_int_def)
qed

subsection \<open>Values\<close>

text \<open>Fuel for a value, and that its text is at least that long.\<close>

fun weight :: "json \<Rightarrow> nat" where
  "weight (JList js) = sum_list (map (\<lambda>j. weight j + 2) js)"
| "weight (JObj kvs) = sum_list (map (\<lambda>kv. weight (snd kv) + 2) kvs)"
| "weight _ = 0"

lemma join_length: "ps \<noteq> [] \<Longrightarrow> length (py_join '', '' ps) + 2 = sum_list (map (\<lambda>p. length p + 2) ps)"
  by (induction "'', ''" ps rule: py_join.induct) simp_all

lemma weight_length: "weight v \<le> length (json_text esc v)"
proof (induction v)
  case (JList js)
  show ?case
  proof (cases "js = []")
    case False
    have "sum_list (map (\<lambda>j. weight j + 2) js) \<le> sum_list (map (\<lambda>j. length (json_text esc j) + 2) js)"
      using JList by (intro sum_list_mono) auto
    then show ?thesis
      using join_length [of "map (json_text esc) js"] False by (simp add: comp_def)
  qed simp
next
  case (JObj kvs)
  let ?m = "\<lambda>kv. ([CHR 0x22] @ concat (map esc (fst kv)) @ [CHR 0x22]) @ '': '' @ json_text esc (snd kv)"
  show ?case
  proof (cases "kvs = []")
    case False
    have "sum_list (map (\<lambda>kv. weight (snd kv) + 2) kvs) \<le> sum_list (map (\<lambda>kv. length (?m kv) + 2) kvs)"
    proof (rule sum_list_mono)
      fix kv
      assume "kv \<in> set kvs"
      then have "weight (snd kv) \<le> length (json_text esc (snd kv))"
        using JObj [of kv "snd kv"] by (simp add: snds.intros)
      then show "weight (snd kv) + 2 \<le> length (?m kv) + 2"
        by simp
    qed
    then show ?thesis
      using join_length [of "map ?m kvs"] False by (simp add: comp_def)
  qed simp
qed simp_all

text \<open>A text of a value begins with no space and closes no bracket.\<close>

definition opens :: "char \<Rightarrow> bool" where
  "opens c \<longleftrightarrow> \<not> json_space c \<and> c \<noteq> CHR '']'' \<and> c \<noteq> CHR ''}''"

lemma digits_open: "\<exists>c cs. str_of_nat n @ r = c # cs \<and> opens c"
proof -
  obtain c cs where s: "str_of_nat n = c # cs"
    by (cases "str_of_nat n") auto
  have "list_all is_digit (c # cs)"
    using str_of_nat_digits [of n] by (simp only: s)
  then have "opens c"
    by (auto simp: is_digit_def opens_def json_space_def Let_def)
  then show ?thesis
    by (simp add: s)
qed

lemma signed_open: "\<exists>c cs. s = c # cs \<and> opens c \<Longrightarrow> \<exists>c cs. (if neg then ''-'' else []) @ s = c # cs \<and> opens c"
  by (auto simp: opens_def json_space_def)

lemma fixed_open: "\<exists>c cs. fixed_text k q @ r = c # cs \<and> opens c"
  unfolding fixed_text_def Let_def append_assoc by (rule digits_open)

lemma if_open:
  "\<exists>c cs. s = c # cs \<and> opens c \<Longrightarrow> \<exists>c cs. t = c # cs \<and> opens c \<Longrightarrow>
   \<exists>c cs. (if P then s else t) = c # cs \<and> opens c"
  by simp

lemma finite_open: "\<exists>c cs. finite_text q = c # cs \<and> opens c"
  unfolding finite_text_def Let_def
  by (intro signed_open if_open fixed_open fixed_open [where r = "[]", unfolded append_Nil2])

lemma text_opens: "\<exists>c cs. json_text esc v = c # cs \<and> opens c"
proof (cases v)
  case (JInt i)
  then show ?thesis
    using digits_open [of "nat \<bar>i\<bar>" "[]"] by (auto simp: str_of_int_def opens_def json_space_def)
next
  case (JFloat f)
  then show ?thesis
    using finite_open by (cases f) (auto simp: opens_def json_space_def)
qed (auto simp: opens_def json_space_def)

lemma skip_opens: "opens c \<Longrightarrow> skip_space (c # cs) = c # cs"
  by (simp add: opens_def skip_space_def)

lemma skip_text: "skip_space (json_text esc v @ r) = json_text esc v @ r"
  using text_opens [of esc v] skip_opens by auto

lemma number_ends_delim: "number_ends (CHR '','' # r)" "number_ends (CHR '']'' # r)" "number_ends (CHR ''}'' # r)"
  by (simp_all add: number_ends_def is_digit_def)

lemma skip_delim [simp]:
  "skip_space (CHR '','' # r) = CHR '','' # r" "skip_space (CHR '']'' # r) = CHR '']'' # r"
  "skip_space (CHR ''}'' # r) = CHR ''}'' # r" "skip_space (CHR '':'' # r) = CHR '':'' # r"
  "skip_space (CHR 0x22 # r) = CHR 0x22 # r" "skip_space (CHR '' '' # r) = skip_space r" "skip_space [] = []"
  by (simp_all add: skip_space_def json_space_def)

lemma fold_dict_set_distinct:
  "distinct (map fst (acc @ kvs)) \<Longrightarrow> fold (\<lambda>(k, v). dict_set k v) kvs acc = acc @ kvs"
proof (induction kvs arbitrary: acc)
  case (Cons kv kvs)
  then show ?case
    by (cases kv) (simp add: dict_set_new)
qed simp

text \<open>The entries of a list and the members of an object, given that their values are read.\<close>

lemma parse_items_text:
  assumes "\<And>j n r. j \<in> set js \<Longrightarrow> weight j < n \<Longrightarrow> number_ends r \<Longrightarrow> parse_value n (json_text esc j @ r) = Some (j, r)"
    and "js \<noteq> []" "sum_list (map (\<lambda>j. weight j + 2) js) \<le> m"
  shows "parse_items m (py_join '', '' (map (json_text esc) js) @ CHR '']'' # r) = Some (js, r)"
  using assms
proof (induction js arbitrary: m)
  case (Cons j js)
  obtain m' where m: "m = Suc m'"
    using Cons.prems(3) by (cases m) auto
  have read: "number_ends r' \<Longrightarrow> parse_value m' (json_text esc j @ r') = Some (j, r')" for r'
    using Cons.prems(1) [of j m' r'] Cons.prems(3) m by simp
  show ?case
  proof (cases js)
    case Nil
    then show ?thesis
      using read [OF number_ends_delim(2)] by (simp add: m)
  next
    case (Cons j2 js2)
    then have "parse_items m' (py_join '', '' (map (json_text esc) js) @ CHR '']'' # r) = Some (js, r)"
      using Cons.IH [of m'] Cons.prems(1,3) m by simp
    moreover have "skip_space (py_join '', '' (map (json_text esc) js) @ CHR '']'' # r) = py_join '', '' (map (json_text esc) js) @ CHR '']'' # r"
      using skip_text [of esc j2] Cons by (cases js2) simp_all
    ultimately show ?thesis
      using read [OF number_ends_delim(1)] Cons by (simp add: m)
  qed
qed simp

definition member_text :: "(char \<Rightarrow> string) \<Rightarrow> string \<times> json \<Rightarrow> string" where
  "member_text esc kv = ([CHR 0x22] @ concat (map esc (fst kv)) @ [CHR 0x22]) @ '': '' @ json_text esc (snd kv)"

lemma json_text_object: "json_text esc (JObj kvs) = ''{'' @ py_join '', '' (map (member_text esc) kvs) @ ''}''"
proof -
  have "(\<lambda>kv. ([CHR 0x22] @ concat (map esc (fst kv)) @ [CHR 0x22]) @ '': '' @ json_text esc (snd kv)) = member_text esc"
    by (simp add: member_text_def fun_eq_iff)
  then show ?thesis
    by (simp only: json_text.simps)
qed

lemma parse_object:
  assumes "parse_members m members = Some (kvs, r)" "distinct (map fst kvs)"
  shows "parse_value (Suc m) (CHR ''{'' # CHR 0x22 # members) = Some (JObj kvs, r)"
  using assms fold_dict_set_distinct [of "[]" kvs] by simp

context char_escape begin

lemma parse_members_text:
  assumes "\<And>kv n r. kv \<in> set kvs \<Longrightarrow> weight (snd kv) < n \<Longrightarrow> number_ends r \<Longrightarrow>
      parse_value n (json_text esc (snd kv) @ r) = Some (snd kv, r)"
    and "kvs \<noteq> []" "sum_list (map (\<lambda>kv. weight (snd kv) + 2) kvs) \<le> m"
  shows "parse_members m (tl (py_join '', '' (map (member_text esc) kvs) @ CHR ''}'' # r)) = Some (kvs, r)"
  using assms
proof (induction kvs arbitrary: m)
  case (Cons kv kvs)
  obtain k v where kv: "kv = (k, v)"
    by (cases kv)
  obtain m' where m: "m = Suc m'"
    using Cons.prems(3) by (cases m) auto
  have read: "number_ends r' \<Longrightarrow> parse_value m' (json_text esc v @ r') = Some (v, r')" for r'
    using Cons.prems(1) [of kv m' r'] Cons.prems(3) m kv by simp
  have key: "read_string (concat (map esc k) @ CHR 0x22 # r') = Some (k, r')" for r'
    by (rule read_string_text)
  show ?case
  proof (cases kvs)
    case Nil
    then show ?thesis
      using read [OF number_ends_delim(3)] by (simp add: m kv member_text_def key skip_text)
  next
    case (Cons kv2 kvs2)
    let ?rest = "py_join '', '' (map (member_text esc) kvs) @ CHR ''}'' # r"
    have IH: "parse_members m' (tl ?rest) = Some (kvs, r)"
      using Cons.IH [of m'] Cons.prems(1,3) m Cons by simp
    have rest: "?rest = CHR 0x22 # tl ?rest"
      using Cons by (cases kvs2) (simp_all add: member_text_def)
    then have "skip_space ?rest = CHR 0x22 # tl ?rest"
      by (metis skip_delim(5))
    then show ?thesis
      using read [OF number_ends_delim(1)] IH Cons by (simp add: m kv member_text_def [of esc "(k, v)"] key skip_text)
  qed
qed simp

lemma int_text_starts: "\<exists>c cs. str_of_int i = c # cs \<and> (is_digit c \<or> c = CHR ''-'')"
proof -
  obtain c cs where nat: "str_of_nat (nat \<bar>i\<bar>) = c # cs"
    by (cases "str_of_nat (nat \<bar>i\<bar>)") auto
  have "list_all is_digit (c # cs)"
    using str_of_nat_digits [of "nat \<bar>i\<bar>"] by (simp only: nat)
  then show ?thesis
    using nat by (cases "i < 0") (auto simp: str_of_int_def)
qed

lemma parse_text:
  "json_ok v \<Longrightarrow> weight v < n \<Longrightarrow> number_ends r \<Longrightarrow> parse_value n (json_text esc v @ r) = Some (v, r)"
proof (induction v arbitrary: n r)
  case (JStr t)
  then show ?case
    using read_string_text [of t r] by (cases n) simp_all
next
  case (JInt i)
  obtain c cs where s: "str_of_int i = c # cs" "is_digit c \<or> c = CHR ''-''"
    using int_text_starts by blast
  have "c \<noteq> CHR 0x22" "c \<noteq> CHR ''{''" "c \<noteq> CHR ''[''" "c \<noteq> CHR ''n''" "c \<noteq> CHR ''t''" "c \<noteq> CHR ''f''"
    using s(2) by (auto simp: is_digit_def Let_def)
  then show ?case
    using JInt read_int_text [OF JInt.prems(3), of i] by (cases n) (simp_all add: s(1))
next
  case (JList js)
  obtain m where n: "n = Suc m" "sum_list (map (\<lambda>j. weight j + 2) js) \<le> m"
    using JList.prems(2) by (cases n) auto
  show ?case
  proof (cases js)
    case (Cons j js')
    have "parse_items m (py_join '', '' (map (json_text esc) js) @ CHR '']'' # r) = Some (js, r)"
      by (rule parse_items_text) (use JList n Cons in \<open>auto simp: list_all_iff\<close>)
    moreover obtain c cs where "py_join '', '' (map (json_text esc) js) = c # cs" "opens c"
      using text_opens [of esc j] Cons by (cases js') auto
    ultimately show ?thesis
      using skip_opens [of c] by (simp add: n opens_def)
  qed (simp add: n)
next
  case (JObj kvs)
  obtain m where n: "n = Suc m" "sum_list (map (\<lambda>kv. weight (snd kv) + 2) kvs) \<le> m"
    using JObj.prems(2) by (cases n) auto
  show ?case
  proof (cases kvs)
    case (Cons kv kvs')
    have "parse_members m (tl (py_join '', '' (map (member_text esc) kvs) @ CHR ''}'' # r)) = Some (kvs, r)"
    proof (rule parse_members_text)
      fix kv n' r'
      assume "kv \<in> set kvs" "weight (snd kv) < n'" "number_ends r'"
      then show "parse_value n' (json_text esc (snd kv) @ r') = Some (snd kv, r')"
        using JObj.IH [of kv "snd kv" n' r'] JObj.prems(1) by (auto simp: list_all_iff intro: snds.intros)
    qed (use Cons n in auto)
    then have "parse_value (Suc m) (CHR ''{'' # CHR 0x22 # tl (py_join '', '' (map (member_text esc) kvs) @ CHR ''}'' # r)) = Some (JObj kvs, r)"
      using JObj.prems(1) by (intro parse_object) simp_all
    moreover have "json_text esc (JObj kvs) @ r = CHR ''{'' # CHR 0x22 # tl (py_join '', '' (map (member_text esc) kvs) @ CHR ''}'' # r)"
      unfolding json_text_object using Cons by (cases kvs') (simp_all add: member_text_def)
    ultimately show ?thesis
      by (simp only: n(1))
  qed (simp add: n)
qed (auto simp: gr0_conv_Suc)

lemma loads_text:
  assumes "json_ok v"
  shows "json_loads (json_text esc v) = Some v"
  using parse_text [OF assms, of "Suc (length (json_text esc v))" "[]"] weight_length [of v esc] skip_text [of esc v "[]"]
  by (simp add: json_loads_def number_ends_def le_imp_less_Suc)

end

text \<open>The default of \<open>json.dumps\<close>.\<close>

interpretation ascii_json: char_escape json_char
  by unfold_locales (rule read_json_char)

lemma loads_dumps: "json_ok v \<Longrightarrow> json_loads (json_dumps v) = Some v"
  unfolding json_dumps_text by (rule ascii_json.loads_text)

end
