(* ===== verification/Log_View.thy ===== *)
theory Log_View
  imports Logs Json_Read Dns_Tool
begin

text \<open>
  How the rows of the three logs are shown (\<open>_tool_execution_to_dict\<close>, \<open>_security_event_to_dict\<close>
  and \<open>_audit_log_to_dict\<close> of \<open>app/services/log_service.py\<close>): the columns that hold JSON are read
  back, and a run is summed up in a short text.
\<close>

section \<open>The three forms\<close>








text \<open>The entries of a page, each with the address of the user it names; one bad row fails the page.\<close>

fun show_entries :: "('a \<Rightarrow> exn + (string \<times> json) list) \<Rightarrow> string \<Rightarrow> ('a \<times> string option) list \<Rightarrow> exn + json list" where
  "show_entries to_dict key [] = Inr []"
| "show_entries to_dict key ((l, email) # rows) =
     bind_exn (to_dict l) (\<lambda>d.
     bind_exn (show_entries to_dict key rows) (\<lambda>entries.
       Inr (JObj (dict_set key (json_opt email) d) # entries)))"

section \<open>Lemmas\<close>



section \<open>Properties\<close>



end
