(* ===== verification/Migrations.thy ===== *)
theory Migrations
  imports Json_Read Startup
begin

text \<open>
  The two migrations of \<open>alembic/versions\<close> that rewrite rows: the hashing of the addresses left
  in the security log (\<open>8a2a49d76d6a\<close>) and the removal of duplicate permissions
  (\<open>d7091a29b949\<close>).
\<close>

section \<open>Hashing addresses\<close>

definition BATCH_SIZE :: nat where
  "BATCH_SIZE = 1000"

text \<open>\<open>details LIKE '%"email"%'\<close>\<close>

definition mentions_email :: "security_event_log \<Rightarrow> bool" where
  "mentions_email l = py_contains (ev_details l) (CHR 0x22 # ''email'' @ [CHR 0x22])"

text \<open>\<open>json.dumps\<close> with \<open>ensure_ascii=False\<close>: only what JSON requires is escaped.\<close>

definition json_char_plain :: "char \<Rightarrow> string" where
  "json_char_plain c = (if (of_char c :: nat) < 127 then json_char c else [c])"

text \<open>
  What becomes of the details of one row: \<open>None\<close> when it is passed over.  Text that is no object
  has no \<open>pop\<close> that takes these arguments.
\<close>

definition hashed_details :: "env \<Rightarrow> string \<Rightarrow> exn + string option" where
  "hashed_details e text =
     (case json_loads text of
        None \<Rightarrow> Inr None
      | Some (JObj details) \<Rightarrow>
          (case map_of details ''email'' of
             Some (JStr email) \<Rightarrow>
               if email = [] \<or> CHR ''@'' \<notin> set email then Inr None
               else Inr (Some (json_text json_char_plain
                      (JObj (dict_set ''email_hash'' (JStr (hash_email_for_log e email)) (dict_del ''email'' details)))))
           | _ \<Rightarrow> Inr None)
      | Some (JList _) \<Rightarrow> Inl (PyError ''TypeError'')
      | Some _ \<Rightarrow> Inl (PyError ''AttributeError''))"

fun hash_batch :: "env \<Rightarrow> security_event_log list \<Rightarrow> security_event_log list \<Rightarrow> exn + security_event_log list" where
  "hash_batch e [] table = Inr table"
| "hash_batch e (row # rows) table =
     bind_exn (hashed_details e (ev_details row)) (\<lambda>new. hash_batch e rows
       (case new of
          None \<Rightarrow> table
        | Some text \<Rightarrow> update_where (\<lambda>l. ev_id l = ev_id row) (ev_details_update (\<lambda>_. text)) table))"

text \<open>
  The loop over the batches.  \<open>scan\<close> is the order in which the database returns the rows of the
  query at an offset, which has no \<open>ORDER BY\<close>; every batch is committed by itself.
\<close>

function hash_loop ::
    "(nat \<Rightarrow> security_event_log list \<Rightarrow> security_event_log list) \<Rightarrow> env \<Rightarrow> nat \<Rightarrow> nat \<Rightarrow> security_event_log list \<Rightarrow>
     (exn + unit) \<times> security_event_log list" where
  "hash_loop scan e found offset table =
     (if offset < found then
        (let rows = take BATCH_SIZE (drop offset (scan offset (filter mentions_email table)))
         in if rows = [] then (Inr (), table)
            else (case hash_batch e rows table of
                Inl x \<Rightarrow> (Inl x, table)
              | Inr table' \<Rightarrow> hash_loop scan e found (offset + BATCH_SIZE) table'))
      else (Inr (), table))"
  by pat_completeness auto
termination
  by (relation "measure (\<lambda>(scan, e, found, offset, table). found - offset)") (auto simp: BATCH_SIZE_def)

declare hash_loop.simps [simp del]

definition hash_emails ::
    "(nat \<Rightarrow> security_event_log list \<Rightarrow> security_event_log list) \<Rightarrow> env \<Rightarrow> security_event_log list \<Rightarrow>
     (exn + unit) \<times> security_event_log list" where
  "hash_emails scan e table =
     (let found = length (filter mentions_email table)
      in if found = 0 then (Inr (), table) else hash_loop scan e found 0 table)"

section \<open>Removing duplicate permissions\<close>

text \<open>\<open>SELECT MIN(id) ... GROUP BY role, tool_id\<close>\<close>

definition oldest_ids :: "role_tool_permission list \<Rightarrow> string list" where
  "oldest_ids ps =
     map (\<lambda>key. Min (rp_id ` set (filter (\<lambda>p. (rp_role p, rp_tool_id p) = key) ps)))
       (remdups (map (\<lambda>p. (rp_role p, rp_tool_id p)) ps))"

definition dedup_permissions :: "role_tool_permission list \<Rightarrow> role_tool_permission list" where
  "dedup_permissions ps = filter (\<lambda>p. rp_id p \<in> set (oldest_ids ps)) ps"

section \<open>Lemmas\<close>

subsection \<open>Rows that name an address are found\<close>

interpretation plain_json: char_escape json_char_plain
proof
  fix c r
  show "read_string (json_char_plain c @ r) = map_option (apfst ((#) c)) (read_string r)"
  proof (cases "(of_char c :: nat) < 127")
    case True
    then show ?thesis
      by (simp add: json_char_plain_def read_json_char)
  next
    case False
    then have "c \<noteq> CHR 0x22" "c \<noteq> CHR 0x5C"
      by auto
    with False show ?thesis
      by (simp add: json_char_plain_def)
  qed
qed

lemma startswith_append: "py_startswith (s @ t) s"
  by (induction s) auto

lemma contains_append: "py_contains (s @ t @ u) t"
proof (induction s)
  case Nil
  then show ?case
    using startswith_append [of t u] by (cases "t @ u") auto
qed simp

lemma join_member: "p \<in> set ps \<Longrightarrow> \<exists>a b. py_join sep ps = a @ p @ b"
proof (induction sep ps rule: py_join.induct)
  case (3 sep p1 q ps)
  show ?case
  proof (cases "p = p1")
    case False
    with 3 obtain a b where "py_join sep (q # ps) = a @ p @ b"
      by auto
    then have "py_join sep (p1 # q # ps) = (p1 @ sep @ a) @ p @ b"
      by simp
    then show ?thesis by blast
  qed (auto intro: exI [of _ "[]"])
qed (auto intro: exI [of _ "[]"])

lemma object_mentions:
  assumes "map_of kvs ''email'' = Some v"
  shows "py_contains (json_dumps (JObj kvs)) (CHR 0x22 # ''email'' @ [CHR 0x22])"
proof -
  let ?key = "CHR 0x22 # ''email'' @ [CHR 0x22]"
  have "(''email'', v) \<in> set kvs"
    using assms by (rule map_of_SomeD)
  then have "member_text json_char (''email'', v) \<in> set (map (member_text json_char) kvs)"
    by simp
  then obtain a b where ab: "py_join '', '' (map (member_text json_char) kvs) = a @ member_text json_char (''email'', v) @ b"
    using join_member by meson
  have "member_text json_char (''email'', v) = ?key @ '': '' @ json_text json_char v"
    by (simp add: member_text_def json_char_def)
  then have "json_dumps (JObj kvs) = (''{'' @ a) @ ?key @ ('': '' @ json_text json_char v @ b @ ''}'')"
    unfolding json_dumps_text json_text_object ab by simp
  then show ?thesis
    by (simp only: contains_append)
qed

subsection \<open>A batch\<close>

definition hash_event :: "env \<Rightarrow> security_event_log \<Rightarrow> security_event_log" where
  "hash_event e l = (case hashed_details e (ev_details l) of Inr (Some text) \<Rightarrow> l\<lparr>ev_details := text\<rparr> | _ \<Rightarrow> l)"

lemma hash_event_id [simp]: "ev_id (hash_event e l) = ev_id l"
  by (simp add: hash_event_def split: sum.split option.split)

lemma hash_batch_rows:
  assumes "distinct (map ev_id table)" "distinct (map ev_id rows)" "set rows \<subseteq> set table"
    and "list_all (\<lambda>l. \<exists>new. hashed_details e (ev_details l) = Inr new) rows"
  shows "hash_batch e rows table =
    Inr (map (\<lambda>l. if ev_id l \<in> ev_id ` set rows then hash_event e l else l) table)"
  using assms
proof (induction rows arbitrary: table)
  case (Cons row rows)
  let ?table = "map (\<lambda>l. if ev_id l = ev_id row then hash_event e l else l) table"
  obtain new where new: "hashed_details e (ev_details row) = Inr new"
    using Cons.prems(4) by auto
  have row: "l = row" if "l \<in> set table" "ev_id l = ev_id row" for l
    using Cons.prems(1,3) that by (auto simp: distinct_map dest: inj_onD)
  have event: "hash_event e l = (case new of None \<Rightarrow> l | Some text \<Rightarrow> l\<lparr>ev_details := text\<rparr>)"
    if "l \<in> set table" "ev_id l = ev_id row" for l
    using row [OF that] new by (auto simp: hash_event_def)
  have table: "(case new of None \<Rightarrow> table
      | Some text \<Rightarrow> update_where (\<lambda>l. ev_id l = ev_id row) (ev_details_update (\<lambda>_. text)) table) = ?table"
    by (cases new) (auto simp: update_where_def event intro!: map_idI [symmetric])
  have "hash_batch e rows ?table =
      Inr (map (\<lambda>l. if ev_id l \<in> ev_id ` set rows then hash_event e l else l) ?table)"
  proof (rule Cons.IH)
    show "distinct (map ev_id ?table)"
      using Cons.prems(1) by (simp add: comp_def if_distrib cong: if_cong)
    show "set rows \<subseteq> set ?table"
      using Cons.prems(2,3) by (force simp: image_iff)
  qed (use Cons.prems in auto)
  moreover have "ev_id row \<notin> ev_id ` set rows"
    using Cons.prems(2) by auto
  ultimately show ?case
    by (auto simp: new table)
qed simp

subsection \<open>What the rows say\<close>

definition row_email :: "security_event_log \<Rightarrow> string option" where
  "row_email l =
     (case json_loads (ev_details l) of
        Some (JObj details) \<Rightarrow>
          (case map_of details ''email'' of
             Some (JStr email) \<Rightarrow> if CHR ''@'' \<in> set email then Some email else None
           | _ \<Rightarrow> None)
      | _ \<Rightarrow> None)"

text \<open>A row the backend wrote.\<close>

definition written :: "security_event_log \<Rightarrow> bool" where
  "written l \<longleftrightarrow> (\<exists>details. ev_details l = json_dumps (JObj details) \<and> json_ok (JObj details))"

text \<open>The address of a row is replaced by its hash, and nothing else of it changes.\<close>

definition email_hashed :: "env \<Rightarrow> security_event_log \<Rightarrow> security_event_log \<Rightarrow> bool" where
  "email_hashed e l l' \<longleftrightarrow>
     (case row_email l of
        None \<Rightarrow> l' = l
      | Some email \<Rightarrow>
          (\<exists>details details'. json_loads (ev_details l) = Some (JObj details) \<and> l' = l\<lparr>ev_details := ev_details l'\<rparr> \<and>
             json_loads (ev_details l') = Some (JObj details') \<and>
             map_of details' = (map_of details)(''email'' := None, ''email_hash'' \<mapsto> JStr (hash_email_for_log e email))))"

lemma dict_set_member: "kv \<in> set (dict_set k v d) \<Longrightarrow> kv = (k, v) \<or> kv \<in> set d"
  by (induction d) (auto split: if_splits)

lemma object_hashed:
  assumes read: "json_loads (ev_details l) = Some (JObj kvs)" and ok: "json_ok (JObj kvs)"
  shows "email_hashed e l (hash_event e l) \<and> row_email (hash_event e l) = None"
proof (cases "row_email l")
  case None
  then have "hash_event e l = l"
    by (auto simp: hash_event_def hashed_details_def row_email_def read split: option.splits json.splits if_splits)
  with None show ?thesis
    by (simp add: email_hashed_def)
next
  case (Some email)
  have email: "map_of kvs ''email'' = Some (JStr email)" "CHR ''@'' \<in> set email"
    using Some by (auto simp: row_email_def read split: option.splits json.splits if_splits)
  let ?kvs = "dict_set ''email_hash'' (JStr (hash_email_for_log e email)) (dict_del ''email'' kvs)"
  have "json_ok (JObj ?kvs)"
    using ok by (auto simp: distinct_dict_set dict_del_def distinct_map_filter list_all_iff dest!: dict_set_member)
  then have read_back: "json_loads (json_text json_char_plain (JObj ?kvs)) = Some (JObj ?kvs)"
    by (rule plain_json.loads_text)
  have event: "hash_event e l = l\<lparr>ev_details := json_text json_char_plain (JObj ?kvs)\<rparr>"
    using email by (auto simp: hash_event_def hashed_details_def read simp del: json_text.simps)
  show ?thesis
    using read_back Some unfolding event
    by (auto simp: email_hashed_def row_email_def read map_of_dict_set map_of_dict_del simp del: json_text.simps)
qed

lemma written_hashed:
  assumes "written l"
  shows "\<exists>new. hashed_details e (ev_details l) = Inr new" "email_hashed e l (hash_event e l)"
    "row_email (hash_event e l) = None" "row_email l \<noteq> None \<Longrightarrow> mentions_email l"
proof -
  obtain kvs where kvs: "ev_details l = json_dumps (JObj kvs)" "json_ok (JObj kvs)"
    using assms by (auto simp: written_def)
  have read: "json_loads (ev_details l) = Some (JObj kvs)"
    using loads_dumps [OF kvs(2)] by (simp only: kvs(1))
  show "\<exists>new. hashed_details e (ev_details l) = Inr new"
    by (auto simp: hashed_details_def read split: option.split json.split)
  show "row_email l \<noteq> None \<Longrightarrow> mentions_email l"
  proof -
    assume "row_email l \<noteq> None"
    then obtain v where "map_of kvs ''email'' = Some v"
      by (auto simp: row_email_def read split: option.splits)
    then show "mentions_email l"
      unfolding mentions_email_def kvs(1) by (rule object_mentions)
  qed
  show "email_hashed e l (hash_event e l)" "row_email (hash_event e l) = None"
    using object_hashed [OF read kvs(2)] by simp_all
qed

subsection \<open>The loop\<close>

lemma hash_loop_stops: "found \<le> offset \<Longrightarrow> hash_loop scan e found offset table = (Inr (), table)"
  by (subst hash_loop.simps) simp

lemma hash_loop_batch:
  assumes "offset < found" "distinct (map ev_id table)" "list_all written table"
    and "rows = take BATCH_SIZE (drop offset (scan offset (filter mentions_email table)))" "rows \<noteq> []"
    and "mset (scan offset (filter mentions_email table)) = mset (filter mentions_email table)"
  shows "hash_loop scan e found offset table = hash_loop scan e found (offset + BATCH_SIZE)
    (map (\<lambda>l. if ev_id l \<in> ev_id ` set rows then hash_event e l else l) table)"
proof -
  let ?scan = "scan offset (filter mentions_email table)"
  have "distinct (map ev_id (filter mentions_email table))"
    using assms(2) by (rule distinct_map_filter)
  moreover have "mset (map ev_id ?scan) = mset (map ev_id (filter mentions_email table))"
    by (simp add: assms(6))
  ultimately have ids: "distinct (map ev_id ?scan)"
    by (metis mset_eq_imp_distinct_iff)
  have "set ?scan = set (filter mentions_email table)"
    using assms(6) by (rule mset_eq_setD)
  then have rows: "set rows \<subseteq> set table"
    using set_take_subset [of BATCH_SIZE "drop offset ?scan"] set_drop_subset [of offset ?scan] by (auto simp: assms(4))
  have "distinct (map ev_id rows)"
    using ids by (simp add: assms(4) take_map [symmetric] drop_map [symmetric])
  moreover have "list_all (\<lambda>l. \<exists>new. hashed_details e (ev_details l) = Inr new) rows"
    using rows assms(3) written_hashed(1) by (auto simp: list_all_iff)
  ultimately have "hash_batch e rows table = Inr (map (\<lambda>l. if ev_id l \<in> ev_id ` set rows then hash_event e l else l) table)"
    by (intro hash_batch_rows [OF assms(2)] rows)
  then show ?thesis
    using assms(1,5) by (subst hash_loop.simps) (simp add: assms(4) [symmetric])
qed

subsection \<open>Permissions\<close>

definition permission_key :: "role_tool_permission \<Rightarrow> string \<times> string" where
  "permission_key p = (rp_role p, rp_tool_id p)"

lemma kept_permission:
  assumes "distinct (map rp_id ps)" "p \<in> set ps"
  shows "p \<in> set (dedup_permissions ps) \<longleftrightarrow> (\<forall>q \<in> set ps. permission_key q = permission_key p \<longrightarrow> rp_id p \<le> rp_id q)"
proof -
  let ?group = "\<lambda>key. rp_id ` set (filter (\<lambda>p. (rp_role p, rp_tool_id p) = key) ps)"
  have same: "q = p" if "q \<in> set ps" "rp_id q = rp_id p" for q
    using assms that by (auto simp: distinct_map dest: inj_onD)
  have ids: "set (oldest_ids ps) = (\<lambda>key. Min (?group key)) ` permission_key ` set ps"
    unfolding oldest_ids_def by (simp only: set_map set_remdups permission_key_def [abs_def])
  have "p \<in> set (dedup_permissions ps) \<longleftrightarrow> rp_id p \<in> set (oldest_ids ps)"
    using assms(2) by (simp add: dedup_permissions_def)
  also have "\<dots> \<longleftrightarrow> (\<exists>key \<in> permission_key ` set ps. rp_id p = Min (?group key))"
    unfolding ids image_iff by (rule refl)
  also have "\<dots> \<longleftrightarrow> rp_id p = Min (?group (permission_key p))"
  proof
    assume "\<exists>key \<in> permission_key ` set ps. rp_id p = Min (?group key)"
    then obtain q where q: "q \<in> set ps" "rp_id p = Min (?group (permission_key q))"
      by blast
    have "Min (?group (permission_key q)) \<in> ?group (permission_key q)"
      by (rule Min_in) (use q(1) in \<open>auto simp: permission_key_def\<close>)
    then obtain x where "x \<in> set ps" "permission_key x = permission_key q" "rp_id x = rp_id p"
      using q(2) by (auto simp: permission_key_def)
    then show "rp_id p = Min (?group (permission_key p))"
      using same q(2) by auto
  qed (use assms(2) in auto)
  also have "\<dots> \<longleftrightarrow> (\<forall>q \<in> set ps. permission_key q = permission_key p \<longrightarrow> rp_id p \<le> rp_id q)"
  proof -
    have group: "finite (?group (permission_key p))" "rp_id p \<in> ?group (permission_key p)"
      using assms(2) by (simp_all add: permission_key_def)
    have "rp_id p = Min (?group (permission_key p)) \<longleftrightarrow> (\<forall>i \<in> ?group (permission_key p). rp_id p \<le> i)"
    proof
      assume "rp_id p = Min (?group (permission_key p))"
      with group(1) show "\<forall>i \<in> ?group (permission_key p). rp_id p \<le> i"
        by simp
    next
      assume "\<forall>i \<in> ?group (permission_key p). rp_id p \<le> i"
      then show "rp_id p = Min (?group (permission_key p))"
        by (intro Min_eqI [symmetric] group) blast
    qed
    also have "\<dots> \<longleftrightarrow> (\<forall>q \<in> set ps. permission_key q = permission_key p \<longrightarrow> rp_id p \<le> rp_id q)"
      by (auto simp: permission_key_def)
    finally show ?thesis .
  qed
  finally show ?thesis .
qed

section \<open>Properties\<close>

text \<open>One batch reaches every row that mentions an address.\<close>

lemma hash_emails_one_batch:
  assumes "distinct (map ev_id table)" "list_all written table"
    and "\<And>k xs. mset (scan k xs) = mset xs" "length (filter mentions_email table) \<le> BATCH_SIZE"
  shows "hash_emails scan e table = (Inr (), map (\<lambda>l. if mentions_email l then hash_event e l else l) table)"
    (is "_ = (Inr (), ?result)")
proof (cases "filter mentions_email table = []")
  case True
  then have "?result = table"
    by (intro map_idI) (auto simp: filter_empty_conv)
  then show ?thesis
    using True by (simp add: hash_emails_def)
next
  case False
  let ?hits = "filter mentions_email table"
  have mset: "mset (scan 0 ?hits) = mset ?hits"
    by (rule assms(3))
  then have len: "length (scan 0 ?hits) = length ?hits" and hits: "set (scan 0 ?hits) = set ?hits"
    by (rule mset_eq_length, rule mset_eq_setD)
  have all: "scan 0 ?hits = take BATCH_SIZE (drop 0 (scan 0 ?hits))"
    using len assms(4) by simp
  have "scan 0 ?hits \<noteq> []"
    using len False by auto
  then have "hash_loop scan e (length ?hits) 0 table = hash_loop scan e (length ?hits) (0 + BATCH_SIZE)
      (map (\<lambda>l. if ev_id l \<in> ev_id ` set (scan 0 ?hits) then hash_event e l else l) table)"
    using False hash_loop_batch [of 0 "length ?hits" table "scan 0 ?hits" scan e] assms(1,2) all mset by simp
  also have "\<dots> = (Inr (), map (\<lambda>l. if ev_id l \<in> ev_id ` set ?hits then hash_event e l else l) table)"
    using assms(4) by (simp add: hash_loop_stops hits)
  also have "map (\<lambda>l. if ev_id l \<in> ev_id ` set ?hits then hash_event e l else l) table = ?result"
  proof (rule map_cong [OF refl])
    fix l
    assume "l \<in> set table"
    then have "ev_id l \<in> ev_id ` set ?hits \<longleftrightarrow> mentions_email l"
      using assms(1) by (auto simp: distinct_map dest: inj_onD)
    then show "(if ev_id l \<in> ev_id ` set ?hits then hash_event e l else l) = (if mentions_email l then hash_event e l else l)"
      by simp
  qed
  finally show ?thesis
    using False by (simp add: hash_emails_def)
qed

text \<open>
  C30: the migration leaves no address in a log of up to a batch.  Whatever order the database
  returns the rows in, when at most \<open>BATCH_SIZE\<close> rows mention an address the migration succeeds,
  every address becomes the same keyed hash the running service writes, every other row and
  every other entry of the details stays, and no row shows an address any more.
\<close>

theorem migration_hashes_emails:
  assumes "distinct (map ev_id table)" "list_all written table"
    and "\<And>k xs. mset (scan k xs) = mset xs" "length (filter mentions_email table) \<le> BATCH_SIZE"
  shows "fst (hash_emails scan e table) = Inr () \<and> list_all2 (email_hashed e) table (snd (hash_emails scan e table)) \<and>
    list_all (\<lambda>l. row_email l = None) (snd (hash_emails scan e table))"
proof -
  let ?result = "map (\<lambda>l. if mentions_email l then hash_event e l else l) table"
  have "hash_emails scan e table = (Inr (), ?result)"
    by (rule hash_emails_one_batch [OF assms])
  moreover have "email_hashed e l (if mentions_email l then hash_event e l else l) \<and>
      row_email (if mentions_email l then hash_event e l else l) = None" if "l \<in> set table" for l
  proof (cases "mentions_email l")
    case True
    then show ?thesis
      using that assms(2) written_hashed(2,3) [of l e] by (auto simp: list_all_iff)
  next
    case False
    then have "row_email l = None"
      using that assms(2) written_hashed(4) [of l] by (cases "row_email l") (auto simp: list_all_iff)
    with False show ?thesis
      by (simp add: email_hashed_def)
  qed
  ultimately show ?thesis
    by (auto simp: list_all2_conv_all_nth list_all_length)
qed

text \<open>
  Beyond one batch addresses remain.  The offset moves on although the rows of the batch no
  longer match the query: in the order of the table, of between \<open>BATCH_SIZE\<close> and twice as many
  rows with an address only the first \<open>BATCH_SIZE\<close> are rewritten, and the migration reports success.
\<close>

lemma migration_skips_rows:
  assumes "distinct (map ev_id table)" "list_all written table" "list_all (\<lambda>l. row_email l \<noteq> None) table"
    and "list_all (\<lambda>l. \<not> mentions_email (hash_event e l)) table"
    and "BATCH_SIZE < length table" "length table \<le> 2 * BATCH_SIZE"
  shows "hash_emails (\<lambda>_ xs. xs) e table = (Inr (), map (hash_event e) (take BATCH_SIZE table) @ drop BATCH_SIZE table)"
proof -
  have hits: "filter mentions_email table = table"
    using assms(2,3) written_hashed(4) by (intro filter_True) (auto simp: list_all_iff)
  let ?first = "take BATCH_SIZE table"
  let ?after = "map (hash_event e) ?first @ drop BATCH_SIZE table"
  have "map (\<lambda>l. if ev_id l \<in> ev_id ` set ?first then hash_event e l else l) table = ?after"
  proof -
    have "distinct (map ev_id (?first @ drop BATCH_SIZE table))"
      using assms(1) by simp
    then have "ev_id l \<notin> ev_id ` set ?first" if "l \<in> set (drop BATCH_SIZE table)" for l
      using that by (metis IntI empty_iff distinct_append image_eqI map_append set_map)
    then have "map (\<lambda>l. if ev_id l \<in> ev_id ` set ?first then hash_event e l else l) (?first @ drop BATCH_SIZE table) = ?after"
      unfolding map_append by (intro arg_cong2 [where f = append] map_cong map_idI) auto
    then show ?thesis by simp
  qed
  then have "hash_loop (\<lambda>_ xs. xs) e (length table) 0 table = hash_loop (\<lambda>_ xs. xs) e (length table) BATCH_SIZE ?after"
    using hash_loop_batch [of 0 "length table" table ?first "\<lambda>_ xs. xs" e] assms(1,2,5) hits by (cases table) (auto simp: BATCH_SIZE_def)
  moreover have "length (filter mentions_email ?after) \<le> BATCH_SIZE"
  proof -
    have "filter mentions_email (map (hash_event e) ?first) = []"
      using assms(4) by (auto simp: filter_empty_conv list_all_iff dest: in_set_takeD)
    then show ?thesis
      using assms(6) length_filter_le [of mentions_email "drop BATCH_SIZE table"] by simp
  qed
  then have "drop BATCH_SIZE (filter mentions_email ?after) = []"
    by simp
  then have "hash_loop (\<lambda>_ xs. xs) e (length table) BATCH_SIZE ?after = (Inr (), ?after)"
    by (subst hash_loop.simps) (simp only: Let_def take_Nil simp_thms if_True if_cancel)
  ultimately show ?thesis
    using assms(5) by (simp add: hash_emails_def hits)
qed

text \<open>
  After the duplicates are removed the permissions are unique.  No two rows are left for a
  role and a tool, so the unique constraint the migration adds holds; every role and tool that
  had a row keeps one, its oldest, unchanged and in place.
\<close>

lemma dedup_keeps_oldest:
  assumes "distinct (map rp_id ps)"
  shows "distinct (map permission_key (dedup_permissions ps)) \<and>
    permission_key ` set (dedup_permissions ps) = permission_key ` set ps \<and>
    (\<forall>p \<in> set ps. p \<in> set (dedup_permissions ps) \<longleftrightarrow>
      (\<forall>q \<in> set ps. permission_key q = permission_key p \<longrightarrow> rp_id p \<le> rp_id q))"
proof (intro conjI ballI)
  have ids: "q = p" if "p \<in> set ps" "q \<in> set ps" "rp_id q = rp_id p" for p q
    using assms that by (auto simp: distinct_map dest: inj_onD)
  have sub: "p \<in> set ps" if "p \<in> set (dedup_permissions ps)" for p
    using that by (simp add: dedup_permissions_def)
  have "inj_on permission_key (set (dedup_permissions ps))"
  proof (rule inj_onI)
    fix p q
    assume p: "p \<in> set (dedup_permissions ps)" and q: "q \<in> set (dedup_permissions ps)" and key: "permission_key p = permission_key q"
    have "rp_id p \<le> rp_id q" "rp_id q \<le> rp_id p"
      using p q kept_permission [OF assms sub [OF p]] kept_permission [OF assms sub [OF q]] sub key by simp_all
    then show "p = q"
      by (intro ids [OF sub [OF q] sub [OF p]]) (rule order_antisym)
  qed
  moreover have "distinct (dedup_permissions ps)"
    using assms by (auto simp: dedup_permissions_def distinct_map)
  ultimately show "distinct (map permission_key (dedup_permissions ps))"
    by (simp add: distinct_map)
  have "permission_key p \<in> permission_key ` set (dedup_permissions ps)" if p: "p \<in> set ps" for p
  proof -
    let ?group = "rp_id ` {q \<in> set ps. permission_key q = permission_key p}"
    have group: "finite ?group" "?group \<noteq> {}"
      using p by auto
    obtain q where q: "q \<in> set ps" "permission_key q = permission_key p" "Min ?group = rp_id q"
      using Min_in [OF group] by auto
    moreover have "rp_id q \<le> rp_id x" if "x \<in> set ps" "permission_key x = permission_key p" for x
      using Min_le [OF group(1), of "rp_id x"] that q(3) by auto
    ultimately have "q \<in> set (dedup_permissions ps)"
      using kept_permission [OF assms q(1)] by simp
    with q(2) show ?thesis
      by (intro image_eqI [of _ _ q]) simp_all
  qed
  then show "permission_key ` set (dedup_permissions ps) = permission_key ` set ps"
    using sub by blast
qed (rule kept_permission [OF assms])

section \<open>Concrete tables\<close>

definition old_event :: "nat \<Rightarrow> security_event_log" where
  "old_event i = \<lparr>ev_id = str_of_nat i, ev_event_type = ''login_failed_no_user'', ev_source_ip = ''8.8.8.8'', ev_user_id = None,
     ev_details = json_dumps (JObj [(''email'', JStr ''a@b.c'')]), ev_created_at = 0\<rparr>"

lemma old_event_details: "json_loads (ev_details (old_event i)) = Some (JObj [(''email'', JStr ''a@b.c'')])"
  unfolding old_event_def by (simp add: loads_dumps del: json_dumps.simps)

lemma old_event_facts:
  "written (old_event i)" "row_email (old_event i) = Some ''a@b.c''"
proof -
  have "json_ok (JObj [(''email'', JStr ''a@b.c'')])"
    by simp
  moreover have "ev_details (old_event i) = json_dumps (JObj [(''email'', JStr ''a@b.c'')])"
    by (simp add: old_event_def)
  ultimately show "written (old_event i)"
    unfolding written_def by blast
  show "row_email (old_event i) = Some ''a@b.c''"
    by (simp add: row_email_def old_event_details)
qed

lemma old_events_distinct: "distinct (map ev_id (map old_event [0..<n]))"
proof -
  have "inj str_of_nat"
    by (metis injI nat_of_digits_str_of_nat)
  then show ?thesis
    by (simp add: comp_def old_event_def distinct_map inj_on_def inj_def)
qed

theorem migration_hashes_emails_witness:
  "fst (hash_emails (\<lambda>_. rev) sample_env (map old_event [0..<2])) = Inr () \<and>
   list_all (\<lambda>l. row_email l = None) (snd (hash_emails (\<lambda>_. rev) sample_env (map old_event [0..<2]))) \<and>
   row_email (old_event 0) = Some ''a@b.c''"
proof -
  have "list_all written (map old_event [0..<2])"
    using old_event_facts(1) by (simp add: list_all_iff)
  moreover have "length (filter mentions_email (map old_event [0..<2])) \<le> BATCH_SIZE"
    using length_filter_le [of mentions_email "map old_event [0..<2]"] by (simp add: BATCH_SIZE_def)
  ultimately show ?thesis
    using migration_hashes_emails [where e = sample_env and scan = "\<lambda>_. rev", OF old_events_distinct _ mset_rev, of 2] old_event_facts(2) by blast
qed

text \<open>Half of a log of 1500 old rows, less the first thousand, keeps its addresses.\<close>

lemma migration_skips_rows_witness:
  "hash_emails (\<lambda>_ xs. xs) sample_env (map old_event [0..<1500]) =
     (Inr (), map (hash_event sample_env) (take 1000 (map old_event [0..<1500])) @ drop 1000 (map old_event [0..<1500])) \<and>
   row_email (old_event 1499) \<noteq> None"
proof -
  have "json_text json_char_plain (JObj [(''email_hash'', JStr ''a@b.c'')]) =
      [CHR 0x7B, CHR 0x22] @ ''email_hash'' @ [CHR 0x22] @ '': '' @ [CHR 0x22] @ ''a@b.c'' @ [CHR 0x22, CHR 0x7D]"
    by (simp add: json_char_plain_def json_char_def)
  moreover have "hash_email_for_log sample_env ''a@b.c'' = ''a@b.c''"
    using sample_email by (simp add: hash_email_for_log_def sample_env_def normalize_email_def strip_lower)
  ultimately have "\<not> mentions_email (hash_event sample_env (old_event i))" for i
    by (simp add: hash_event_def hashed_details_def old_event_details mentions_email_def dict_del_def del: json_text.simps)
  then have "list_all (\<lambda>l. \<not> mentions_email (hash_event sample_env l)) (map old_event [0..<1500])"
    by (simp add: list_all_iff)
  moreover have "list_all written (map old_event [0..<1500])" "list_all (\<lambda>l. row_email l \<noteq> None) (map old_event [0..<1500])"
    using old_event_facts by (simp_all add: list_all_iff)
  ultimately show ?thesis
    using migration_skips_rows [OF old_events_distinct, of 1500 sample_env] old_event_facts(2) [of 1499]
    by (simp add: BATCH_SIZE_def del: upt.simps)
qed

lemma dedup_keeps_oldest_witness:
  "distinct (map permission_key (dedup_permissions
     [\<lparr>rp_id = ''b'', rp_role = ''visitor'', rp_tool_id = ''t'', rp_allowed = True\<rparr>,
      \<lparr>rp_id = ''a'', rp_role = ''visitor'', rp_tool_id = ''t'', rp_allowed = False\<rparr>]))"
  by (rule conjunct1 [OF dedup_keeps_oldest]) simp

end
