(* ===== verification/Trust_Store.thy ===== *)
theory Trust_Store
  imports Ssl_Tool
begin

text \<open>
  \<open>SslViewerTool._load_system_ca_certs\<close>: the certificates of the system's trust store, read once.
  The file system and the reading of a PEM file are parameters.
\<close>

record verify_paths =
  vp_cafile :: "string option"
  vp_openssl_cafile :: "string option"
  vp_capath :: "string option"
  vp_openssl_capath :: "string option"

text \<open>\<open>fs_certs\<close> is the list of certificates of a file, \<open>None\<close> when reading or parsing it raises.\<close>

record 'c file_system =
  fs_is_file :: "string \<Rightarrow> bool"
  fs_is_dir :: "string \<Rightarrow> bool"
  fs_listdir :: "string \<Rightarrow> string list"
  fs_certs :: "string \<Rightarrow> 'c list option"

definition path_join :: "string \<Rightarrow> string \<Rightarrow> string" where
  "path_join d f =
     (if py_startswith f ''/'' then f
      else if d = [] \<or> py_endswith d ''/'' then d @ f
      else d @ ''/'' @ f)"

definition pem_files :: "verify_paths \<Rightarrow> 'c file_system \<Rightarrow> string list" where
  "pem_files p fs =
     (case find (\<lambda>c. truthy c \<and> fs_is_file fs (the c)) [vp_cafile p, vp_openssl_cafile p] of
        Some c \<Rightarrow> [the c]
      | None \<Rightarrow>
          (let capath = (if truthy (vp_capath p) then vp_capath p else vp_openssl_capath p)
           in if truthy capath \<and> fs_is_dir fs (the capath)
              then filter (fs_is_file fs) (map (path_join (the capath))
                     (filter (\<lambda>f. py_endswith f ''.pem'') (sort (fs_listdir fs (the capath)))))
              else []))"

text \<open>The certificates of one file: those whose digest has been seen are left out.\<close>

fun add_new :: "('c \<Rightarrow> string) \<Rightarrow> 'c list \<Rightarrow> string list \<times> 'c list \<Rightarrow> string list \<times> 'c list" where
  "add_new digest [] acc = acc"
| "add_new digest (ca # cas) (seen, certs) =
     (if digest ca \<in> set seen then add_new digest cas (seen, certs)
      else add_new digest cas (digest ca # seen, certs @ [ca]))"

definition add_file :: "('c \<Rightarrow> string) \<Rightarrow> 'c file_system \<Rightarrow> string \<Rightarrow> string list \<times> 'c list \<Rightarrow> string list \<times> 'c list" where
  "add_file digest fs f acc = (case fs_certs fs f of None \<Rightarrow> acc | Some cas \<Rightarrow> add_new digest cas acc)"

text \<open>The result with the cache that is left.\<close>

definition load_system_ca_certs ::
    "('c \<Rightarrow> string) \<Rightarrow> verify_paths \<Rightarrow> 'c file_system \<Rightarrow> 'c list option \<Rightarrow> 'c list \<times> 'c list option" where
  "load_system_ca_certs digest p fs cache =
     (case cache of
        Some certs \<Rightarrow> (certs, cache)
      | None \<Rightarrow> (let certs = snd (fold (add_file digest fs) (pem_files p fs) ([], [])) in (certs, Some certs)))"

lemma add_new_spec:
  "distinct (map digest certs) \<Longrightarrow> set seen = digest ` set certs \<Longrightarrow> add_new digest cas (seen, certs) = (seen', certs') \<Longrightarrow>
   distinct (map digest certs') \<and> set seen' = digest ` set certs' \<and>
   digest ` set certs' = digest ` (set certs \<union> set cas) \<and> set certs' \<subseteq> set certs \<union> set cas"
proof (induction cas arbitrary: seen certs)
  case (Cons ca cas)
  show ?case
  proof (cases "digest ca \<in> set seen")
    case True
    with Cons show ?thesis
      by (fastforce simp: insert_absorb image_Un)
  next
    case False
    then have "distinct (map digest (certs @ [ca]))" "set (digest ca # seen) = digest ` set (certs @ [ca])"
      using Cons.prems by auto
    from Cons.IH [OF this] show ?thesis
      using Cons.prems(3) False by auto
  qed
qed auto

definition file_certs :: "'c file_system \<Rightarrow> string \<Rightarrow> 'c list" where
  "file_certs fs f = or_default (fs_certs fs f) []"

lemma add_files_spec:
  "distinct (map digest (snd acc)) \<and> set (fst acc) = digest ` set (snd acc) \<Longrightarrow>
   distinct (map digest (snd (fold (add_file digest fs) files acc))) \<and>
   digest ` set (snd (fold (add_file digest fs) files acc)) = digest ` (set (snd acc) \<union> (\<Union>f \<in> set files. set (file_certs fs f))) \<and>
   set (snd (fold (add_file digest fs) files acc)) \<subseteq> set (snd acc) \<union> (\<Union>f \<in> set files. set (file_certs fs f))"
proof (induction files arbitrary: acc)
  case (Cons f files)
  obtain seen certs where acc: "acc = (seen, certs)"
    by (cases acc)
  obtain seen' certs' where new: "add_new digest (file_certs fs f) (seen, certs) = (seen', certs')"
    by fastforce
  have step: "add_file digest fs f acc = (seen', certs')"
    using new by (cases "fs_certs fs f") (auto simp: add_file_def file_certs_def or_default_def acc)
  have this_file: "distinct (map digest certs') \<and> set seen' = digest ` set certs' \<and>
      digest ` set certs' = digest ` (set certs \<union> set (file_certs fs f)) \<and> set certs' \<subseteq> set certs \<union> set (file_certs fs f)"
    by (rule add_new_spec [OF _ _ new]) (use Cons.prems in \<open>auto simp: acc\<close>)
  then have "distinct (map digest (snd (seen', certs'))) \<and> set (fst (seen', certs')) = digest ` set (snd (seen', certs'))"
    by simp
  note rest = Cons.IH [OF this]
  have first: "fold (add_file digest fs) (f # files) acc = fold (add_file digest fs) files (seen', certs')"
    by (simp add: step)
  have "digest ` (set certs' \<union> X) = digest ` (set (snd acc) \<union> (set (file_certs fs f) \<union> X))" for X
    using this_file by (simp add: acc image_Un Un_assoc)
  moreover have "set certs' \<subseteq> set (snd acc) \<union> set (file_certs fs f)"
    using this_file by (simp add: acc)
  ultimately show ?case
    using rest unfolding first snd_conv by (simp only: list.set UN_insert) blast
qed simp

text \<open>
  The store has each certificate once, only certificates of the files read, and for each of
  these one with its digest; a later call gives the same without reading anything.
\<close>

lemma trust_store_sound:
  assumes "load_system_ca_certs digest p fs None = (certs, cache)"
  shows "distinct (map digest certs) \<and> set certs \<subseteq> (\<Union>f \<in> set (pem_files p fs). set (file_certs fs f)) \<and>
    digest ` set certs = digest ` (\<Union>f \<in> set (pem_files p fs). set (file_certs fs f)) \<and>
    load_system_ca_certs digest p' fs' cache = (certs, cache)"
  using assms add_files_spec [of digest "([], [])" fs "pem_files p fs"] by (auto simp: load_system_ca_certs_def Let_def)

end
