(* ===== verification/Tool_Stream.thy ===== *)
theory Tool_Stream
  imports Ping Traceroute
begin

text \<open>
  The WebSocket endpoint as a whole (\<open>tool_stream\<close> of \<open>app/api/v1/endpoints/tools.py\<close>): the
  authorisation, the connection manager and the two handlers put together.
\<close>

section \<open>The endpoint\<close>

datatype stream_out = Closed int string | PingStream "ping_msg list" | TraceStream "trace_msg list"

text \<open>
  \<open>others\<close> is what the other connections do to the manager while the handler runs; an exception
  that leaves a handler is swallowed, and the connection is taken from the manager in any case.
\<close>

definition tool_stream ::
    "ws_settings \<Rightarrow> env \<Rightarrow> (exn \<Rightarrow> string) \<Rightarrow> (string \<Rightarrow> string \<times> string option) \<Rightarrow>
     (string list \<Rightarrow> ping_process option) \<Rightarrow> (string list \<Rightarrow> ws_process option) \<Rightarrow> nat option \<Rightarrow> int \<Rightarrow>
     nat \<Rightarrow> (ws_manager \<Rightarrow> ws_manager) \<Rightarrow> string \<Rightarrow> request \<Rightarrow> ws_incoming \<Rightarrow> world \<Rightarrow> ws_manager \<Rightarrow>
     stream_out \<times> world \<times> ws_manager" where
  "tool_stream c e text_of filter_t ping_os trace_os quota ms socket others name r incoming w m =
     (case ws_authorize c e name r w of
        (WsClose code reason, w1) \<Rightarrow> (Closed code reason, w1, m)
      | (WsAccept token user_id, w1) \<Rightarrow>
          (let m1 = others (wm_connect (e_now e) socket token user_id m);
               source_ip = client_host r
           in if name = ''ping'' then
                (case handle_ping_stream e text_of filter_t ping_os quota ms token user_id source_ip incoming (w_db w1) of
                   (msgs, _, d) \<Rightarrow> (PingStream msgs, w1\<lparr>w_db := d\<rparr>, wm_disconnect token m1))
              else
                (case handle_traceroute_stream e text_of filter_t trace_os quota ms token user_id source_ip incoming (w_db w1) of
                   (msgs, _, d) \<Rightarrow> (TraceStream msgs, w1\<lparr>w_db := d\<rparr>, wm_disconnect token m1))))"

section \<open>Who may stream\<close>

definition stream_admitted :: "ws_settings \<Rightarrow> env \<Rightarrow> string \<Rightarrow> request \<Rightarrow> world \<Rightarrow> bool" where
  "stream_admitted c e name r w \<longleftrightarrow>
     name \<in> {''ping'', ''traceroute''} \<and> is_allowed_origin c (header ''origin'' r) \<and> e_db_up e \<and>
     (\<exists>u role t. ws_user e (w_db w) (w_redis w) (read_session_from_ws e r) = Inr u \<and> ws_role (w_db w) u = Inr role \<and>
        tool_named (w_db w) name t \<and> has_permission (w_db w) role (tm_id t) True \<and>
        ws_limit_ok c e (read_session_from_ws e r) u role (client_host r) (tm_id t) w)"

lemma accepted_admitted:
  assumes "access_wf (w_db w)" "ws_authorize c e name r w = (WsAccept token u, w1)"
  shows "stream_admitted c e name r w"
  using ws_accept_policy [OF assms(1), of c e name r token u] assms(2) by (auto simp: stream_admitted_def)

text \<open>Taking a connection leaves the manager as it was found, when the token was not connected yet.\<close>

lemma connect_disconnect:
  assumes "token \<notin> set (map fst (wm_connections m))" "socket \<notin> set (wm_open m)"
  shows "wm_disconnect token (wm_connect now socket token u m) = m"
proof -
  have "map_of (wm_connections m) token = None" "token \<notin> fst ` set (wm_connections m)"
    using assms(1) by (auto simp: map_of_eq_None_iff)
  moreover from this have "filter (\<lambda>kv. fst kv \<noteq> token) (wm_connections m) = wm_connections m"
    by (intro filter_True) auto
  moreover have "filter (\<lambda>s. s \<noteq> socket) (wm_open m) = wm_open m"
    using assms(2) by (intro filter_True) auto
  ultimately show ?thesis
    by (simp add: wm_connect_def wm_disconnect_def dict_set_new dict_del_def map_add_def)
qed

section \<open>Properties\<close>

text \<open>
  C4: a stream starts programs for admitted clients only, and only harmless ones.  Unless the
  access policy and the rate limit admit the connection no answer of the system matters: nothing
  is started.  For an admitted client only the answers to commands made of the program, known
  options, plain numbers and a last word that is an unblocked address matter.
\<close>

theorem stream_confined:
  assumes "access_wf (w_db w)"
    and "stream_admitted c e name r w \<Longrightarrow>
      (\<forall>args. safe_command ''ping'' PING_OPTIONS args \<longrightarrow> ping_os args = ping_os' args) \<and>
      (\<forall>args. safe_command ''traceroute'' TRACE_OPTIONS args \<longrightarrow> trace_os args = trace_os' args)"
  shows "tool_stream c e text_of (filter_target dns to rdns) ping_os trace_os quota ms socket others name r incoming w m =
    tool_stream c e text_of (filter_target dns to rdns) ping_os' trace_os' quota ms socket others name r incoming w m"
proof (cases "ws_authorize c e name r w")
  case (Pair decision w1)
  show ?thesis
  proof (cases decision)
    case (WsAccept token u)
    have "stream_admitted c e name r w"
      using accepted_admitted [OF assms(1)] Pair WsAccept by blast
    note same = assms(2) [OF this]
    have ping: "handle_ping_stream e text_of (filter_target dns to rdns) ping_os quota ms sid uid ip incoming d =
        handle_ping_stream e text_of (filter_target dns to rdns) ping_os' quota ms sid uid ip incoming d" for sid uid ip d
      by (rule conjunct2 [OF ping_only_safe_commands [of "\<lambda>_. NoProgram" "\<lambda>_. NoProgram"]]) (simp add: same)
    have trace: "handle_traceroute_stream e text_of (filter_target dns to rdns) trace_os quota ms sid uid ip incoming d =
        handle_traceroute_stream e text_of (filter_target dns to rdns) trace_os' quota ms sid uid ip incoming d" for sid uid ip d
      by (rule conjunct2 [OF trace_only_safe_commands [of "\<lambda>_. NoProgram" "\<lambda>_. NoProgram"]]) (simp add: same)
    show ?thesis
      by (simp only: tool_stream_def Pair WsAccept prod.case ws_decision.case Let_def ping trace)
  qed (simp add: tool_stream_def Pair)
qed

theorem stream_confined_witness:
  "tool_stream ws_sample_settings sample_env (\<lambda>_. []) (filter_target no_dns False [])
     (\<lambda>args. if hd args = ''ping'' then None else Some undefined) (\<lambda>_. None) None 0 1 id ''ping'' ws_request Disconnected
     (sample_world tool_db) \<lparr>wm_connections = [], wm_open = [], wm_sent = []\<rparr> =
   tool_stream ws_sample_settings sample_env (\<lambda>_. []) (filter_target no_dns False [])
     (\<lambda>_. None) (\<lambda>_. None) None 0 1 id ''ping'' ws_request Disconnected
     (sample_world tool_db) \<lparr>wm_connections = [], wm_open = [], wm_sent = []\<rparr>"
proof (rule stream_confined)
  show "access_wf (w_db (sample_world tool_db))"
    using tool_db_wf by (simp add: sample_world_def)
qed (simp add: safe_command_def)

end
