(* ===== verification/Schema.thy ===== *)
theory Schema
  imports Models
begin

text \<open>
  The schema of the database: the statements of the revisions of \<open>alembic/versions\<close>, the tables
  that \<open>app/models\<close> declares, and what deleting a row does under the foreign keys.  The name the
  server gives to a constraint that is declared without one is a parameter.
\<close>

section \<open>Tables\<close>

datatype col_type = SaString "nat option" | SaText | SaInteger | SaBoolean | SaDateTime

datatype column = Column (co_name: string) (co_type: col_type) (co_nullable: bool)

datatype on_delete = Cascade | SetNull

datatype table_constraint =
    PrimaryKey string
  | Unique "string list"
  | ForeignKey string string string on_delete

text \<open>Constraints and indexes are kept with their names; an index is unique or not.\<close>

record table =
  tb_columns :: "column list"
  tb_constraints :: "(string \<times> table_constraint) list"
  tb_indexes :: "(string \<times> string list \<times> bool) list"

type_synonym schema = "(string \<times> table) list"
type_synonym namer = "string \<Rightarrow> table_constraint \<Rightarrow> string"

definition make_table :: "namer \<Rightarrow> string \<Rightarrow> column list \<times> table_constraint list \<Rightarrow> table" where
  "make_table auto n t = \<lparr>tb_columns = fst t, tb_constraints = map (\<lambda>k. (auto n k, k)) (snd t), tb_indexes = []\<rparr>"

text \<open>The names PostgreSQL gives, as its documentation has them.\<close>

definition postgres_name :: namer where
  "postgres_name n k = (case k of
     PrimaryKey c \<Rightarrow> n @ ''_pkey''
   | Unique cs \<Rightarrow> n @ ''_'' @ py_join ''_'' cs @ ''_key''
   | ForeignKey c _ _ _ \<Rightarrow> n @ ''_'' @ c @ ''_fkey'')"

section \<open>Statements\<close>

text \<open>
  The operations of \<open>op\<close> the revisions use.  \<open>DropConstraintIfExists\<close> is the statement
  \<open>ALTER TABLE ... DROP CONSTRAINT IF EXISTS\<close>, \<open>RewriteRows\<close> stands for statements that change
  rows only (\<open>Migrations\<close>).
\<close>

datatype ddl =
    CreateTable string "column list \<times> table_constraint list"
  | DropTable string
  | CreateIndex string string "string list" bool
  | DropIndex string string
  | CreateForeignKey string string string string on_delete
  | CreateUniqueConstraint string string "string list"
  | DropConstraint string string
  | DropConstraintIfExists string string
  | RewriteRows string

definition refers_to :: "string \<Rightarrow> table_constraint \<Rightarrow> bool" where
  "refers_to n k = (case k of ForeignKey _ t _ _ \<Rightarrow> t = n | _ \<Rightarrow> False)"

fun find_table :: "schema \<Rightarrow> string \<Rightarrow> table option" where
  "find_table [] n = None"
| "find_table ((m, t) # s) n = (if m = n then Some t else find_table s n)"

text \<open>A foreign key must name a column that is the primary key of a table.\<close>

definition target_exists :: "schema \<Rightarrow> table_constraint \<Rightarrow> bool" where
  "target_exists s k = (case k of
     ForeignKey _ t c _ \<Rightarrow> (case find_table s t of None \<Rightarrow> False | Some tb \<Rightarrow> PrimaryKey c \<in> snd ` set (tb_constraints tb))
   | _ \<Rightarrow> True)"

definition alter :: "string \<Rightarrow> (table \<Rightarrow> table) \<Rightarrow> schema \<Rightarrow> schema" where
  "alter n f s = map (\<lambda>(m, t). (m, if m = n then f t else t)) s"

definition has_columns :: "schema \<Rightarrow> string \<Rightarrow> string list \<Rightarrow> bool" where
  "has_columns s n cs = (case find_table s n of None \<Rightarrow> False | Some t \<Rightarrow> set cs \<subseteq> co_name ` set (tb_columns t))"

definition index_names :: "schema \<Rightarrow> string list" where
  "index_names s = concat (map (\<lambda>(_, t). map fst (tb_indexes t)) s)"

definition has_constraint :: "schema \<Rightarrow> string \<Rightarrow> string \<Rightarrow> bool" where
  "has_constraint s n k = (case find_table s n of None \<Rightarrow> False | Some t \<Rightarrow> k \<in> fst ` set (tb_constraints t))"

definition add_constraint :: "string \<Rightarrow> table_constraint \<Rightarrow> table \<Rightarrow> table" where
  "add_constraint i k t = t\<lparr>tb_constraints := tb_constraints t @ [(i, k)]\<rparr>"

definition drop_named :: "string \<Rightarrow> table \<Rightarrow> table" where
  "drop_named i t = t\<lparr>tb_constraints := filter (\<lambda>c. fst c \<noteq> i) (tb_constraints t)\<rparr>"

text \<open>\<open>None\<close>: the server refuses the statement, and the revision is rolled back.\<close>

fun run_ddl :: "namer \<Rightarrow> ddl \<Rightarrow> schema \<Rightarrow> schema option" where
  "run_ddl auto (CreateTable n t) s =
     (if n \<in> fst ` set s \<or> \<not> list_all (target_exists s) (snd t) then None else Some (s @ [(n, make_table auto n t)]))"
| "run_ddl auto (DropTable n) s =
     (if n \<notin> fst ` set s \<or> list_ex (\<lambda>(m, t). m \<noteq> n \<and> list_ex (\<lambda>c. refers_to n (snd c)) (tb_constraints t)) s
      then None else Some (filter (\<lambda>x. fst x \<noteq> n) s))"
| "run_ddl auto (CreateIndex i n cs unique) s =
     (if \<not> has_columns s n cs \<or> i \<in> set (index_names s) then None
      else Some (alter n (\<lambda>t. t\<lparr>tb_indexes := tb_indexes t @ [(i, cs, unique)]\<rparr>) s))"
| "run_ddl auto (DropIndex i n) s =
     (if i \<notin> set (index_names s) then None
      else Some (alter n (\<lambda>t. t\<lparr>tb_indexes := filter (\<lambda>x. fst x \<noteq> i) (tb_indexes t)\<rparr>) s))"
| "run_ddl auto (CreateForeignKey n target c rc action) s =
     (let k = ForeignKey c target rc action
      in if \<not> has_columns s n [c] \<or> \<not> target_exists s k then None else Some (alter n (add_constraint (auto n k) k) s))"
| "run_ddl auto (CreateUniqueConstraint i n cs) s =
     (if \<not> has_columns s n cs \<or> has_constraint s n i then None else Some (alter n (add_constraint i (Unique cs)) s))"
| "run_ddl auto (DropConstraint i n) s =
     (if \<not> has_constraint s n i then None else Some (alter n (drop_named i) s))"
| "run_ddl auto (DropConstraintIfExists n i) s =
     (if n \<notin> fst ` set s then None else Some (alter n (drop_named i) s))"
| "run_ddl auto (RewriteRows n) s = (if n \<notin> fst ` set s then None else Some s)"

fun run_all :: "namer \<Rightarrow> ddl list \<Rightarrow> schema \<Rightarrow> schema option" where
  "run_all auto [] s = Some s"
| "run_all auto (x # xs) s = (case run_ddl auto x s of None \<Rightarrow> None | Some s' \<Rightarrow> run_all auto xs s')"

section \<open>The first revision\<close>

definition global_settings_table :: "column list \<times> table_constraint list" where
  "global_settings_table =
    ([Column ''key'' (SaString (Some 64)) False,
      Column ''value'' (SaString (Some 1024)) False,
      Column ''id'' (SaString None) False],
     [PrimaryKey ''id'',
      Unique [''key'']])"

definition tool_modules_table :: "column list \<times> table_constraint list" where
  "tool_modules_table =
    ([Column ''name'' (SaString (Some 64)) False,
      Column ''display_name_key'' (SaString (Some 128)) False,
      Column ''description_key'' (SaString (Some 128)) False,
      Column ''enabled'' SaBoolean False,
      Column ''version'' (SaString (Some 20)) False,
      Column ''id'' (SaString None) False,
      Column ''created_at'' SaDateTime False,
      Column ''updated_at'' SaDateTime False],
     [PrimaryKey ''id'',
      Unique [''name'']])"

definition users_table :: "column list \<times> table_constraint list" where
  "users_table =
    ([Column ''email'' (SaString (Some 255)) False,
      Column ''password_hash'' (SaString (Some 255)) False,
      Column ''role'' (SaString (Some 20)) False,
      Column ''status'' (SaString (Some 20)) False,
      Column ''failed_login_attempts'' SaInteger False,
      Column ''locked_until'' SaDateTime True,
      Column ''admin_notes'' SaText True,
      Column ''first_name'' (SaString (Some 128)) True,
      Column ''last_name'' (SaString (Some 128)) True,
      Column ''email_verified_at'' SaDateTime True,
      Column ''id'' (SaString None) False,
      Column ''created_at'' SaDateTime False,
      Column ''updated_at'' SaDateTime False],
     [PrimaryKey ''id''])"

definition audit_logs_table :: "column list \<times> table_constraint list" where
  "audit_logs_table =
    ([Column ''admin_id'' (SaString None) False,
      Column ''action'' (SaString (Some 64)) False,
      Column ''entity_type'' (SaString (Some 64)) False,
      Column ''entity_id'' (SaString (Some 64)) False,
      Column ''old_value'' SaText True,
      Column ''new_value'' SaText False,
      Column ''created_at'' SaDateTime False,
      Column ''id'' (SaString None) False],
     [ForeignKey ''admin_id'' ''users'' ''id'' SetNull,
      PrimaryKey ''id''])"

definition dns_server_presets_table :: "column list \<times> table_constraint list" where
  "dns_server_presets_table =
    ([Column ''tool_module_id'' (SaString None) False,
      Column ''ip_address'' (SaString (Some 45)) False,
      Column ''description'' (SaString (Some 255)) False,
      Column ''sort_order'' SaInteger False,
      Column ''id'' (SaString None) False],
     [ForeignKey ''tool_module_id'' ''tool_modules'' ''id'' Cascade,
      PrimaryKey ''id''])"

definition email_verifications_table :: "column list \<times> table_constraint list" where
  "email_verifications_table =
    ([Column ''user_id'' (SaString None) False,
      Column ''token_hash'' (SaString (Some 64)) False,
      Column ''expires_at'' SaDateTime False,
      Column ''used'' SaBoolean False,
      Column ''created_at'' SaDateTime False,
      Column ''id'' (SaString None) False],
     [ForeignKey ''user_id'' ''users'' ''id'' Cascade,
      PrimaryKey ''id'',
      Unique [''token_hash'']])"

definition password_resets_table :: "column list \<times> table_constraint list" where
  "password_resets_table =
    ([Column ''user_id'' (SaString None) False,
      Column ''token_hash'' (SaString (Some 64)) False,
      Column ''expires_at'' SaDateTime False,
      Column ''used'' SaBoolean False,
      Column ''created_at'' SaDateTime False,
      Column ''id'' (SaString None) False],
     [ForeignKey ''user_id'' ''users'' ''id'' Cascade,
      PrimaryKey ''id'',
      Unique [''token_hash'']])"

definition rate_limit_configs_table :: "column list \<times> table_constraint list" where
  "rate_limit_configs_table =
    ([Column ''role'' (SaString (Some 20)) False,
      Column ''tool_id'' (SaString None) True,
      Column ''soft_limit'' SaInteger False,
      Column ''hard_limit'' SaInteger False,
      Column ''window_seconds'' SaInteger False,
      Column ''id'' (SaString None) False],
     [ForeignKey ''tool_id'' ''tool_modules'' ''id'' Cascade,
      PrimaryKey ''id''])"

definition role_tool_permissions_table :: "column list \<times> table_constraint list" where
  "role_tool_permissions_table =
    ([Column ''role'' (SaString (Some 20)) False,
      Column ''tool_id'' (SaString None) False,
      Column ''allowed'' SaBoolean False,
      Column ''id'' (SaString None) False],
     [ForeignKey ''tool_id'' ''tool_modules'' ''id'' Cascade,
      PrimaryKey ''id''])"

definition security_event_logs_table :: "column list \<times> table_constraint list" where
  "security_event_logs_table =
    ([Column ''event_type'' (SaString (Some 40)) False,
      Column ''source_ip'' (SaString (Some 45)) False,
      Column ''user_id'' (SaString None) True,
      Column ''details'' SaText False,
      Column ''created_at'' SaDateTime False,
      Column ''id'' (SaString None) False],
     [ForeignKey ''user_id'' ''users'' ''id'' SetNull,
      PrimaryKey ''id''])"

definition sessions_table :: "column list \<times> table_constraint list" where
  "sessions_table =
    ([Column ''user_id'' (SaString None) True,
      Column ''token_hash'' (SaString (Some 64)) False,
      Column ''ip_address'' (SaString (Some 45)) False,
      Column ''user_agent'' (SaString (Some 512)) True,
      Column ''expires_at'' SaDateTime False,
      Column ''last_activity_at'' SaDateTime False,
      Column ''created_at'' SaDateTime False,
      Column ''id'' (SaString None) False],
     [ForeignKey ''user_id'' ''users'' ''id'' Cascade,
      PrimaryKey ''id'',
      Unique [''token_hash'']])"

definition tool_execution_logs_table :: "column list \<times> table_constraint list" where
  "tool_execution_logs_table =
    ([Column ''user_id'' (SaString None) True,
      Column ''session_id'' (SaString None) True,
      Column ''source_ip'' (SaString (Some 45)) False,
      Column ''tool_name'' (SaString (Some 64)) False,
      Column ''parameters'' SaText False,
      Column ''result'' (SaString (Some 20)) False,
      Column ''duration_ms'' SaInteger False,
      Column ''error_message'' SaText True,
      Column ''created_at'' SaDateTime False,
      Column ''id'' (SaString None) False],
     [ForeignKey ''session_id'' ''sessions'' ''id'' SetNull,
      ForeignKey ''user_id'' ''users'' ''id'' SetNull,
      PrimaryKey ''id''])"

definition user_preferences_table :: "column list \<times> table_constraint list" where
  "user_preferences_table =
    ([Column ''user_id'' (SaString None) True,
      Column ''session_id'' (SaString None) True,
      Column ''key'' (SaString (Some 64)) False,
      Column ''value'' (SaString (Some 255)) False,
      Column ''id'' (SaString None) False],
     [ForeignKey ''session_id'' ''sessions'' ''id'' Cascade,
      ForeignKey ''user_id'' ''users'' ''id'' Cascade,
      PrimaryKey ''id''])"

definition initial_upgrade :: "ddl list" where
  "initial_upgrade =
    [CreateTable ''global_settings'' global_settings_table,
     CreateTable ''tool_modules'' tool_modules_table,
     CreateTable ''users'' users_table,
     CreateIndex ''ix_users_email'' ''users'' [''email''] True,
     CreateTable ''audit_logs'' audit_logs_table,
     CreateIndex ''ix_audit_logs_created_at'' ''audit_logs'' [''created_at''] False,
     CreateTable ''dns_server_presets'' dns_server_presets_table,
     CreateTable ''email_verifications'' email_verifications_table,
     CreateTable ''password_resets'' password_resets_table,
     CreateTable ''rate_limit_configs'' rate_limit_configs_table,
     CreateTable ''role_tool_permissions'' role_tool_permissions_table,
     CreateTable ''security_event_logs'' security_event_logs_table,
     CreateIndex ''ix_security_event_logs_created_at'' ''security_event_logs'' [''created_at''] False,
     CreateTable ''sessions'' sessions_table,
     CreateTable ''tool_execution_logs'' tool_execution_logs_table,
     CreateIndex ''ix_tool_execution_logs_created_at'' ''tool_execution_logs'' [''created_at''] False,
     CreateTable ''user_preferences'' user_preferences_table]"

definition initial_downgrade :: "ddl list" where
  "initial_downgrade =
    [DropTable ''user_preferences'',
     DropIndex ''ix_tool_execution_logs_created_at'' ''tool_execution_logs'',
     DropTable ''tool_execution_logs'',
     DropTable ''sessions'',
     DropIndex ''ix_security_event_logs_created_at'' ''security_event_logs'',
     DropTable ''security_event_logs'',
     DropTable ''role_tool_permissions'',
     DropTable ''rate_limit_configs'',
     DropTable ''password_resets'',
     DropTable ''email_verifications'',
     DropTable ''dns_server_presets'',
     DropIndex ''ix_audit_logs_created_at'' ''audit_logs'',
     DropTable ''audit_logs'',
     DropIndex ''ix_users_email'' ''users'',
     DropTable ''users'',
     DropTable ''tool_modules'',
     DropTable ''global_settings'']"

section \<open>The other revisions\<close>

definition unique_permission_upgrade :: "ddl list" where
  "unique_permission_upgrade =
    [RewriteRows ''role_tool_permissions'',
     CreateUniqueConstraint ''uq_role_tool_permission_role_tool'' ''role_tool_permissions'' [''role'', ''tool_id''],
     CreateIndex ''ix_role_tool_permission_role_tool'' ''role_tool_permissions'' [''role'', ''tool_id''] False]"

definition unique_permission_downgrade :: "ddl list" where
  "unique_permission_downgrade =
    [DropIndex ''ix_role_tool_permission_role_tool'' ''role_tool_permissions'',
     DropConstraint ''uq_role_tool_permission_role_tool'' ''role_tool_permissions'']"

definition hash_emails_upgrade :: "ddl list" where
  "hash_emails_upgrade = [RewriteRows ''security_event_logs'']"

definition hash_emails_downgrade :: "ddl list" where
  "hash_emails_downgrade = []"

definition set_null_upgrade :: "ddl list" where
  "set_null_upgrade =
    [DropConstraintIfExists ''user_preferences'' ''user_preferences_session_id_fkey'',
     CreateForeignKey ''user_preferences'' ''sessions'' ''session_id'' ''id'' SetNull]"

definition set_null_downgrade :: "ddl list" where
  "set_null_downgrade =
    [DropConstraintIfExists ''user_preferences'' ''user_preferences_session_id_fkey'',
     CreateForeignKey ''user_preferences'' ''sessions'' ''session_id'' ''id'' Cascade]"

record revision =
  rv_id :: string
  rv_down :: "string option"
  rv_upgrade :: "ddl list"
  rv_downgrade :: "ddl list"

text \<open>In the order of the files; the links \<open>down_revision\<close> make the chain.\<close>

definition REVISIONS :: "revision list" where
  "REVISIONS =
    [\<lparr>rv_id = ''4cf8dd599766'', rv_down = None, rv_upgrade = initial_upgrade, rv_downgrade = initial_downgrade\<rparr>,
     \<lparr>rv_id = ''55cf8e97f4da'', rv_down = Some ''8a2a49d76d6a'', rv_upgrade = set_null_upgrade,
      rv_downgrade = set_null_downgrade\<rparr>,
     \<lparr>rv_id = ''8a2a49d76d6a'', rv_down = Some ''d7091a29b949'', rv_upgrade = hash_emails_upgrade,
      rv_downgrade = hash_emails_downgrade\<rparr>,
     \<lparr>rv_id = ''d7091a29b949'', rv_down = Some ''4cf8dd599766'', rv_upgrade = unique_permission_upgrade,
      rv_downgrade = unique_permission_downgrade\<rparr>]"

text \<open>
  The state of a database is the revision recorded in it and its schema.  \<open>upgrade head\<close> follows the
  links upwards, \<open>downgrade base\<close> downwards; the bound is the number of revisions.
\<close>

fun upgrade_by :: "nat \<Rightarrow> namer \<Rightarrow> string option \<times> schema \<Rightarrow> (string option \<times> schema) option" where
  "upgrade_by 0 auto (v, s) = Some (v, s)"
| "upgrade_by (Suc n) auto (v, s) = (case find (\<lambda>r. rv_down r = v) REVISIONS of
     None \<Rightarrow> Some (v, s)
   | Some r \<Rightarrow> (case run_all auto (rv_upgrade r) s of None \<Rightarrow> None | Some s' \<Rightarrow> upgrade_by n auto (Some (rv_id r), s')))"

fun downgrade_by :: "nat \<Rightarrow> namer \<Rightarrow> string option \<times> schema \<Rightarrow> (string option \<times> schema) option" where
  "downgrade_by 0 auto (v, s) = Some (v, s)"
| "downgrade_by (Suc n) auto (v, s) = (case find (\<lambda>r. Some (rv_id r) = v) REVISIONS of
     None \<Rightarrow> Some (v, s)
   | Some r \<Rightarrow> (case run_all auto (rv_downgrade r) s of None \<Rightarrow> None | Some s' \<Rightarrow> downgrade_by n auto (rv_down r, s')))"

definition upgrade_head :: "namer \<Rightarrow> string option \<times> schema \<Rightarrow> (string option \<times> schema) option" where
  "upgrade_head = upgrade_by (length REVISIONS)"

definition downgrade_base :: "namer \<Rightarrow> string option \<times> schema \<Rightarrow> (string option \<times> schema) option" where
  "downgrade_base = downgrade_by (length REVISIONS)"

section \<open>The declared tables\<close>

text \<open>
  A column as a model declares it.  The library makes one unique index of a column that is both
  \<open>unique\<close> and \<open>index\<close>, named after table and column.
\<close>

record mapped =
  mc_column :: column
  mc_primary :: bool
  mc_references :: "(string \<times> string \<times> on_delete) option"
  mc_unique :: bool
  mc_index :: bool

definition mapped_column :: "string \<Rightarrow> col_type \<Rightarrow> bool \<Rightarrow> mapped" where
  "mapped_column n t null = \<lparr>mc_column = Column n t null, mc_primary = False, mc_references = None,
     mc_unique = False, mc_index = False\<rparr>"

definition column_constraints :: "mapped \<Rightarrow> table_constraint list" where
  "column_constraints m = (let n = co_name (mc_column m) in
     (if mc_primary m then [PrimaryKey n] else [])
     @ (case mc_references m of None \<Rightarrow> [] | Some (t, c, a) \<Rightarrow> [ForeignKey n t c a])
     @ (if mc_unique m \<and> \<not> mc_index m then [Unique [n]] else []))"

definition column_indexes :: "string \<Rightarrow> mapped \<Rightarrow> (string \<times> string list \<times> bool) list" where
  "column_indexes t m = (let n = co_name (mc_column m)
     in if mc_index m then [(''ix_'' @ t @ ''_'' @ n, [n], mc_unique m)] else [])"

definition declare_table :: "namer \<Rightarrow> string \<Rightarrow> mapped list \<Rightarrow> (string \<times> table_constraint) list \<Rightarrow> string \<times> table" where
  "declare_table auto n ms args =
     (n, \<lparr>tb_columns = map mc_column ms,
          tb_constraints = map (\<lambda>k. (auto n k, k)) (concat (map column_constraints ms)) @ args,
          tb_indexes = concat (map (column_indexes n) ms)\<rparr>)"

definition UUID7Mixin_columns :: "mapped list" where
  "UUID7Mixin_columns =
    [(mapped_column ''id'' (SaString None) False)
        \<lparr>mc_primary := True\<rparr>]"

definition TimestampMixin_columns :: "mapped list" where
  "TimestampMixin_columns =
    [mapped_column ''created_at'' SaDateTime False,
     mapped_column ''updated_at'' SaDateTime False]"

definition User_columns :: "mapped list" where
  "User_columns =
    [(mapped_column ''email'' (SaString (Some 255)) False)
        \<lparr>mc_unique := True, mc_index := True\<rparr>,
     mapped_column ''password_hash'' (SaString (Some 255)) False,
     mapped_column ''role'' (SaString (Some 20)) False,
     mapped_column ''status'' (SaString (Some 20)) False,
     mapped_column ''failed_login_attempts'' SaInteger False,
     mapped_column ''locked_until'' SaDateTime True,
     mapped_column ''admin_notes'' SaText True,
     mapped_column ''first_name'' (SaString (Some 128)) True,
     mapped_column ''last_name'' (SaString (Some 128)) True,
     mapped_column ''email_verified_at'' SaDateTime True]"

definition Session_columns :: "mapped list" where
  "Session_columns =
    [(mapped_column ''user_id'' (SaString None) True)
        \<lparr>mc_references := Some (''users'', ''id'', Cascade)\<rparr>,
     (mapped_column ''token_hash'' (SaString (Some 64)) False)
        \<lparr>mc_unique := True\<rparr>,
     mapped_column ''ip_address'' (SaString (Some 45)) False,
     mapped_column ''user_agent'' (SaString (Some 512)) True,
     mapped_column ''expires_at'' SaDateTime False,
     mapped_column ''last_activity_at'' SaDateTime False,
     mapped_column ''created_at'' SaDateTime False]"

definition ToolModule_columns :: "mapped list" where
  "ToolModule_columns =
    [(mapped_column ''name'' (SaString (Some 64)) False)
        \<lparr>mc_unique := True\<rparr>,
     mapped_column ''display_name_key'' (SaString (Some 128)) False,
     mapped_column ''description_key'' (SaString (Some 128)) False,
     mapped_column ''enabled'' SaBoolean False,
     mapped_column ''version'' (SaString (Some 20)) False]"

definition RoleToolPermission_columns :: "mapped list" where
  "RoleToolPermission_columns =
    [mapped_column ''role'' (SaString (Some 20)) False,
     (mapped_column ''tool_id'' (SaString None) False)
        \<lparr>mc_references := Some (''tool_modules'', ''id'', Cascade)\<rparr>,
     mapped_column ''allowed'' SaBoolean False]"

definition RateLimitConfig_columns :: "mapped list" where
  "RateLimitConfig_columns =
    [mapped_column ''role'' (SaString (Some 20)) False,
     (mapped_column ''tool_id'' (SaString None) True)
        \<lparr>mc_references := Some (''tool_modules'', ''id'', Cascade)\<rparr>,
     mapped_column ''soft_limit'' SaInteger False,
     mapped_column ''hard_limit'' SaInteger False,
     mapped_column ''window_seconds'' SaInteger False]"

definition DnsServerPreset_columns :: "mapped list" where
  "DnsServerPreset_columns =
    [(mapped_column ''tool_module_id'' (SaString None) False)
        \<lparr>mc_references := Some (''tool_modules'', ''id'', Cascade)\<rparr>,
     mapped_column ''ip_address'' (SaString (Some 45)) False,
     mapped_column ''description'' (SaString (Some 255)) False,
     mapped_column ''sort_order'' SaInteger False]"

definition ToolExecutionLog_columns :: "mapped list" where
  "ToolExecutionLog_columns =
    [(mapped_column ''user_id'' (SaString None) True)
        \<lparr>mc_references := Some (''users'', ''id'', SetNull)\<rparr>,
     (mapped_column ''session_id'' (SaString None) True)
        \<lparr>mc_references := Some (''sessions'', ''id'', SetNull)\<rparr>,
     mapped_column ''source_ip'' (SaString (Some 45)) False,
     mapped_column ''tool_name'' (SaString (Some 64)) False,
     mapped_column ''parameters'' SaText False,
     mapped_column ''result'' (SaString (Some 20)) False,
     mapped_column ''duration_ms'' SaInteger False,
     mapped_column ''error_message'' SaText True,
     (mapped_column ''created_at'' SaDateTime False)
        \<lparr>mc_index := True\<rparr>]"

definition SecurityEventLog_columns :: "mapped list" where
  "SecurityEventLog_columns =
    [mapped_column ''event_type'' (SaString (Some 40)) False,
     mapped_column ''source_ip'' (SaString (Some 45)) False,
     (mapped_column ''user_id'' (SaString None) True)
        \<lparr>mc_references := Some (''users'', ''id'', SetNull)\<rparr>,
     mapped_column ''details'' SaText False,
     (mapped_column ''created_at'' SaDateTime False)
        \<lparr>mc_index := True\<rparr>]"

definition AuditLog_columns :: "mapped list" where
  "AuditLog_columns =
    [(mapped_column ''admin_id'' (SaString None) False)
        \<lparr>mc_references := Some (''users'', ''id'', SetNull)\<rparr>,
     mapped_column ''action'' (SaString (Some 64)) False,
     mapped_column ''entity_type'' (SaString (Some 64)) False,
     mapped_column ''entity_id'' (SaString (Some 64)) False,
     mapped_column ''old_value'' SaText True,
     mapped_column ''new_value'' SaText False,
     (mapped_column ''created_at'' SaDateTime False)
        \<lparr>mc_index := True\<rparr>]"

definition UserPreference_columns :: "mapped list" where
  "UserPreference_columns =
    [(mapped_column ''user_id'' (SaString None) True)
        \<lparr>mc_references := Some (''users'', ''id'', Cascade)\<rparr>,
     (mapped_column ''session_id'' (SaString None) True)
        \<lparr>mc_references := Some (''sessions'', ''id'', SetNull)\<rparr>,
     mapped_column ''key'' (SaString (Some 64)) False,
     mapped_column ''value'' (SaString (Some 255)) False]"

definition EmailVerification_columns :: "mapped list" where
  "EmailVerification_columns =
    [(mapped_column ''user_id'' (SaString None) False)
        \<lparr>mc_references := Some (''users'', ''id'', Cascade)\<rparr>,
     (mapped_column ''token_hash'' (SaString (Some 64)) False)
        \<lparr>mc_unique := True\<rparr>,
     mapped_column ''expires_at'' SaDateTime False,
     mapped_column ''used'' SaBoolean False,
     mapped_column ''created_at'' SaDateTime False]"

definition PasswordReset_columns :: "mapped list" where
  "PasswordReset_columns =
    [(mapped_column ''user_id'' (SaString None) False)
        \<lparr>mc_references := Some (''users'', ''id'', Cascade)\<rparr>,
     (mapped_column ''token_hash'' (SaString (Some 64)) False)
        \<lparr>mc_unique := True\<rparr>,
     mapped_column ''expires_at'' SaDateTime False,
     mapped_column ''used'' SaBoolean False,
     mapped_column ''created_at'' SaDateTime False]"

definition GlobalSetting_columns :: "mapped list" where
  "GlobalSetting_columns =
    [(mapped_column ''key'' (SaString (Some 64)) False)
        \<lparr>mc_unique := True\<rparr>,
     mapped_column ''value'' (SaString (Some 1024)) False]"

definition RoleToolPermission_args :: "(string \<times> table_constraint) list" where
  "RoleToolPermission_args = [(''uq_role_tool_permission_role_tool'', Unique [''role'', ''tool_id''])]"

definition metadata :: "namer \<Rightarrow> schema" where
  "metadata auto =
    [declare_table auto ''users'' (User_columns @ UUID7Mixin_columns @ TimestampMixin_columns) [],
     declare_table auto ''sessions'' (Session_columns @ UUID7Mixin_columns) [],
     declare_table auto ''tool_modules'' (ToolModule_columns @ UUID7Mixin_columns @ TimestampMixin_columns) [],
     declare_table auto ''role_tool_permissions'' (RoleToolPermission_columns @ UUID7Mixin_columns)
       RoleToolPermission_args,
     declare_table auto ''rate_limit_configs'' (RateLimitConfig_columns @ UUID7Mixin_columns) [],
     declare_table auto ''dns_server_presets'' (DnsServerPreset_columns @ UUID7Mixin_columns) [],
     declare_table auto ''tool_execution_logs'' (ToolExecutionLog_columns @ UUID7Mixin_columns) [],
     declare_table auto ''security_event_logs'' (SecurityEventLog_columns @ UUID7Mixin_columns) [],
     declare_table auto ''audit_logs'' (AuditLog_columns @ UUID7Mixin_columns) [],
     declare_table auto ''user_preferences'' (UserPreference_columns @ UUID7Mixin_columns) [],
     declare_table auto ''email_verifications'' (EmailVerification_columns @ UUID7Mixin_columns) [],
     declare_table auto ''password_resets'' (PasswordReset_columns @ UUID7Mixin_columns) [],
     declare_table auto ''global_settings'' (GlobalSetting_columns @ UUID7Mixin_columns) []]"

text \<open>\<open>Base.metadata.create_all\<close>: the tables that are missing are created, the others left alone.\<close>

definition create_all :: "namer \<Rightarrow> schema \<Rightarrow> schema" where
  "create_all auto s = s @ filter (\<lambda>x. fst x \<notin> fst ` set s) (metadata auto)"

text \<open>What one schema has and another has not.\<close>

datatype item = ItTable | ItColumn column | ItConstraint table_constraint | ItIndex string "string list" bool

definition items :: "table \<Rightarrow> item list" where
  "items t = ItTable # map ItColumn (tb_columns t) @ map (\<lambda>k. ItConstraint (snd k)) (tb_constraints t)
     @ map (\<lambda>(i, cs, u). ItIndex i cs u) (tb_indexes t)"

definition items_of :: "schema \<Rightarrow> string \<Rightarrow> item list" where
  "items_of s n = (case find_table s n of None \<Rightarrow> [] | Some t \<Rightarrow> items t)"

definition surplus :: "schema \<Rightarrow> schema \<Rightarrow> (string \<times> item) list" where
  "surplus s s' = concat (map (\<lambda>(n, t). map (Pair n) (filter (\<lambda>i. i \<notin> set (items_of s' n)) (items t))) s)"

section \<open>Running the statements\<close>

lemma make_table_fields [simp]:
  "tb_columns (make_table auto n t) = fst t"
  "tb_constraints (make_table auto n t) = map (\<lambda>k. (auto n k, k)) (snd t)"
  "tb_indexes (make_table auto n t) = []"
  by (simp_all add: make_table_def)

lemma alter_simps [simp]:
  "alter n f [] = []"
  "alter n f ((m, t) # s) = (m, if m = n then f t else t) # alter n f s"
  "alter n f (s @ s') = alter n f s @ alter n f s'"
  by (simp_all add: alter_def)

lemma alter_other [simp]: "n \<notin> fst ` set s \<Longrightarrow> alter n f s = s"
  by (induction s) auto

lemma find_table_other [simp]: "n \<notin> fst ` set s \<Longrightarrow> find_table (s @ s') n = find_table s' n"
  by (induction s) auto

lemma filter_other [simp]: "n \<notin> fst ` set s \<Longrightarrow> filter (\<lambda>x. fst x \<noteq> n) s = s"
  by (induction s) auto

lemma index_names_simps [simp]:
  "index_names [] = []"
  "index_names ((m, t) # s) = map fst (tb_indexes t) @ index_names s"
  "index_names (s @ s') = index_names s @ index_names s'"
  by (simp_all add: index_names_def)

text \<open>The tables of the program, and what else a database may hold beside them.\<close>

definition TABLES :: "string list" where
  "TABLES = [''global_settings'', ''tool_modules'', ''users'', ''audit_logs'', ''dns_server_presets'',
     ''email_verifications'', ''password_resets'', ''rate_limit_configs'', ''role_tool_permissions'',
     ''security_event_logs'', ''sessions'', ''tool_execution_logs'', ''user_preferences'']"

definition INDEXES :: "string list" where
  "INDEXES = [''ix_users_email'', ''ix_audit_logs_created_at'', ''ix_security_event_logs_created_at'',
     ''ix_tool_execution_logs_created_at'', ''ix_role_tool_permission_role_tool'']"

definition separate :: "schema \<Rightarrow> bool" where
  "separate s = (list_all (\<lambda>n. n \<notin> fst ` set s) TABLES \<and> list_all (\<lambda>i. i \<notin> set (index_names s)) INDEXES
     \<and> list_all (\<lambda>n. \<not> list_ex (\<lambda>(m, t). list_ex (\<lambda>c. refers_to n (snd c)) (tb_constraints t)) s) TABLES)"

lemma separate_no_references:
  "separate s \<Longrightarrow> n \<in> set TABLES \<Longrightarrow>
    \<not> list_ex (\<lambda>(m, t). m \<noteq> n \<and> list_ex (\<lambda>c. refers_to n (snd c)) (tb_constraints t)) s"
  unfolding separate_def list_all_iff list_ex_iff by fastforce

lemma separate_tables:
  assumes "separate s"
  shows "''global_settings'' \<notin> fst ` set s" "''tool_modules'' \<notin> fst ` set s" "''users'' \<notin> fst ` set s"
    "''audit_logs'' \<notin> fst ` set s" "''dns_server_presets'' \<notin> fst ` set s" "''email_verifications'' \<notin> fst ` set s"
    "''password_resets'' \<notin> fst ` set s" "''rate_limit_configs'' \<notin> fst ` set s"
    "''role_tool_permissions'' \<notin> fst ` set s" "''security_event_logs'' \<notin> fst ` set s"
    "''sessions'' \<notin> fst ` set s" "''tool_execution_logs'' \<notin> fst ` set s" "''user_preferences'' \<notin> fst ` set s"
  using assms unfolding separate_def TABLES_def by simp_all

lemma separate_indexes:
  assumes "separate s"
  shows "''ix_users_email'' \<notin> set (index_names s)" "''ix_audit_logs_created_at'' \<notin> set (index_names s)"
    "''ix_security_event_logs_created_at'' \<notin> set (index_names s)"
    "''ix_tool_execution_logs_created_at'' \<notin> set (index_names s)"
    "''ix_role_tool_permission_role_tool'' \<notin> set (index_names s)"
  using assms unfolding separate_def INDEXES_def by simp_all

lemma table_constraints [simp]:
  "snd global_settings_table = [PrimaryKey ''id'',
      Unique [''key'']]"
  "snd tool_modules_table = [PrimaryKey ''id'',
      Unique [''name'']]"
  "snd users_table = [PrimaryKey ''id'']"
  "snd audit_logs_table = [ForeignKey ''admin_id'' ''users'' ''id'' SetNull,
      PrimaryKey ''id'']"
  "snd dns_server_presets_table = [ForeignKey ''tool_module_id'' ''tool_modules'' ''id'' Cascade,
      PrimaryKey ''id'']"
  "snd email_verifications_table = [ForeignKey ''user_id'' ''users'' ''id'' Cascade,
      PrimaryKey ''id'',
      Unique [''token_hash'']]"
  "snd password_resets_table = [ForeignKey ''user_id'' ''users'' ''id'' Cascade,
      PrimaryKey ''id'',
      Unique [''token_hash'']]"
  "snd rate_limit_configs_table = [ForeignKey ''tool_id'' ''tool_modules'' ''id'' Cascade,
      PrimaryKey ''id'']"
  "snd role_tool_permissions_table = [ForeignKey ''tool_id'' ''tool_modules'' ''id'' Cascade,
      PrimaryKey ''id'']"
  "snd security_event_logs_table = [ForeignKey ''user_id'' ''users'' ''id'' SetNull,
      PrimaryKey ''id'']"
  "snd sessions_table = [ForeignKey ''user_id'' ''users'' ''id'' Cascade,
      PrimaryKey ''id'',
      Unique [''token_hash'']]"
  "snd tool_execution_logs_table = [ForeignKey ''session_id'' ''sessions'' ''id'' SetNull,
      ForeignKey ''user_id'' ''users'' ''id'' SetNull,
      PrimaryKey ''id'']"
  "snd user_preferences_table = [ForeignKey ''session_id'' ''sessions'' ''id'' Cascade,
      ForeignKey ''user_id'' ''users'' ''id'' Cascade,
      PrimaryKey ''id'']"
  by (simp_all add: global_settings_table_def tool_modules_table_def users_table_def audit_logs_table_def dns_server_presets_table_def email_verifications_table_def password_resets_table_def rate_limit_configs_table_def role_tool_permissions_table_def security_event_logs_table_def sessions_table_def tool_execution_logs_table_def user_preferences_table_def)

lemma indexed_columns [simp]:
  "''email'' \<in> co_name ` set (fst users_table)"
  "''created_at'' \<in> co_name ` set (fst audit_logs_table)"
  "''created_at'' \<in> co_name ` set (fst security_event_logs_table)"
  "''created_at'' \<in> co_name ` set (fst tool_execution_logs_table)"
  "''role'' \<in> co_name ` set (fst role_tool_permissions_table)"
  "''tool_id'' \<in> co_name ` set (fst role_tool_permissions_table)"
  "''session_id'' \<in> co_name ` set (fst user_preferences_table)"
  by (simp_all add: users_table_def audit_logs_table_def security_event_logs_table_def
      tool_execution_logs_table_def role_tool_permissions_table_def user_preferences_table_def)

lemma refers_to_simps [simp]:
  "refers_to n (PrimaryKey c) = False"
  "refers_to n (Unique cs) = False"
  "refers_to n (ForeignKey c t rc a) = (t = n)"
  by (simp_all add: refers_to_def)

lemma target_exists_simps [simp]:
  "target_exists s (PrimaryKey c) = True"
  "target_exists s (Unique cs) = True"
  by (simp_all add: target_exists_def)

definition initial_schema :: "namer \<Rightarrow> schema" where
  "initial_schema auto =
    [(''global_settings'', make_table auto ''global_settings'' global_settings_table),
     (''tool_modules'', make_table auto ''tool_modules'' tool_modules_table),
     (''users'', (make_table auto ''users'' users_table)
        \<lparr>tb_indexes := [(''ix_users_email'', [''email''], True)]\<rparr>),
     (''audit_logs'', (make_table auto ''audit_logs'' audit_logs_table)
        \<lparr>tb_indexes := [(''ix_audit_logs_created_at'', [''created_at''], False)]\<rparr>),
     (''dns_server_presets'', make_table auto ''dns_server_presets'' dns_server_presets_table),
     (''email_verifications'', make_table auto ''email_verifications'' email_verifications_table),
     (''password_resets'', make_table auto ''password_resets'' password_resets_table),
     (''rate_limit_configs'', make_table auto ''rate_limit_configs'' rate_limit_configs_table),
     (''role_tool_permissions'', make_table auto ''role_tool_permissions'' role_tool_permissions_table),
     (''security_event_logs'', (make_table auto ''security_event_logs'' security_event_logs_table)
        \<lparr>tb_indexes := [(''ix_security_event_logs_created_at'', [''created_at''], False)]\<rparr>),
     (''sessions'', make_table auto ''sessions'' sessions_table),
     (''tool_execution_logs'', (make_table auto ''tool_execution_logs'' tool_execution_logs_table)
        \<lparr>tb_indexes := [(''ix_tool_execution_logs_created_at'', [''created_at''], False)]\<rparr>),
     (''user_preferences'', make_table auto ''user_preferences'' user_preferences_table)]"

lemma initial_runs:
  assumes "separate s"
  shows "run_all auto initial_upgrade s = Some (s @ initial_schema auto)"
  unfolding initial_upgrade_def initial_schema_def
  using separate_tables [OF assms] separate_indexes [OF assms]
  by (simp add: target_exists_def has_columns_def)

definition permission_table :: table where
  "permission_table = (make_table postgres_name ''role_tool_permissions'' role_tool_permissions_table)
     \<lparr>tb_constraints :=
        [(''role_tool_permissions_tool_id_fkey'', ForeignKey ''tool_id'' ''tool_modules'' ''id'' Cascade),
         (''role_tool_permissions_pkey'', PrimaryKey ''id''),
         (''uq_role_tool_permission_role_tool'', Unique [''role'', ''tool_id''])],
      tb_indexes := [(''ix_role_tool_permission_role_tool'', [''role'', ''tool_id''], False)]\<rparr>"

definition preference_table :: "on_delete \<Rightarrow> table" where
  "preference_table action = (make_table postgres_name ''user_preferences'' user_preferences_table)
     \<lparr>tb_constraints :=
        [(''user_preferences_user_id_fkey'', ForeignKey ''user_id'' ''users'' ''id'' Cascade),
         (''user_preferences_pkey'', PrimaryKey ''id''),
         (''user_preferences_session_id_fkey'', ForeignKey ''session_id'' ''sessions'' ''id'' action)]\<rparr>"

definition permission_schema :: schema where
  "permission_schema = alter ''role_tool_permissions'' (\<lambda>_. permission_table) (initial_schema postgres_name)"

definition head_schema :: "on_delete \<Rightarrow> schema" where
  "head_schema action = alter ''user_preferences'' (\<lambda>_. preference_table action) permission_schema"

lemma permission_runs:
  assumes "separate s"
  shows "run_all postgres_name unique_permission_upgrade (s @ initial_schema postgres_name) = Some (s @ permission_schema)"
  unfolding unique_permission_upgrade_def permission_schema_def initial_schema_def permission_table_def
  using separate_tables [OF assms] separate_indexes [OF assms]
  by (simp add: has_columns_def has_constraint_def add_constraint_def postgres_name_def)

lemma permission_reverts:
  assumes "separate s"
  shows "run_all postgres_name unique_permission_downgrade (s @ head_schema Cascade) =
    Some (s @ alter ''user_preferences'' (\<lambda>_. preference_table Cascade) (initial_schema postgres_name))"
  unfolding unique_permission_downgrade_def head_schema_def permission_schema_def initial_schema_def permission_table_def
  using separate_tables [OF assms] separate_indexes [OF assms]
  by (simp add: has_constraint_def drop_named_def postgres_name_def make_table_def preference_table_def)

lemma hash_emails_runs:
  assumes "separate s"
  shows "run_all postgres_name hash_emails_upgrade (s @ permission_schema) = Some (s @ permission_schema)"
  by (simp add: hash_emails_upgrade_def permission_schema_def initial_schema_def)

lemma set_null_runs:
  assumes "separate s"
  shows "run_all postgres_name set_null_upgrade (s @ permission_schema) = Some (s @ head_schema SetNull)"
  unfolding set_null_upgrade_def head_schema_def permission_schema_def initial_schema_def preference_table_def
  using separate_tables [OF assms]
  by (simp add: has_columns_def target_exists_def drop_named_def add_constraint_def postgres_name_def Let_def)

lemma set_null_reverts:
  assumes "separate s"
  shows "run_all postgres_name set_null_downgrade (s @ head_schema SetNull) = Some (s @ head_schema Cascade)"
  unfolding set_null_downgrade_def head_schema_def permission_schema_def initial_schema_def preference_table_def
  using separate_tables [OF assms]
  by (simp add: has_columns_def target_exists_def drop_named_def add_constraint_def postgres_name_def Let_def)

lemma initial_reverts:
  assumes "separate s"
  shows "run_all postgres_name initial_downgrade
      (s @ alter ''user_preferences'' (\<lambda>_. preference_table Cascade) (initial_schema postgres_name)) = Some s"
  unfolding initial_downgrade_def initial_schema_def preference_table_def
  using separate_tables [OF assms] separate_indexes [OF assms] separate_no_references [OF assms, unfolded TABLES_def]
  by simp

lemma reaches_head:
  assumes "separate s"
  shows "upgrade_head postgres_name (None, s) = Some (Some ''55cf8e97f4da'', s @ head_schema SetNull)"
  using initial_runs [OF assms] permission_runs [OF assms] hash_emails_runs [OF assms] set_null_runs [OF assms]
  by (simp add: upgrade_head_def REVISIONS_def eval_nat_numeral)

lemma reaches_base:
  assumes "separate s"
  shows "downgrade_base postgres_name (Some ''55cf8e97f4da'', s @ head_schema SetNull) = Some (None, s)"
  using set_null_reverts [OF assms] permission_reverts [OF assms] initial_reverts [OF assms]
  by (simp add: downgrade_base_def REVISIONS_def hash_emails_downgrade_def eval_nat_numeral)

section \<open>The schema the migrations give\<close>

lemma nothing_missing: "surplus (metadata postgres_name) (head_schema SetNull) = []"
  by code_simp

lemma one_index_more:
  "surplus (head_schema SetNull) (metadata postgres_name) =
    [(''role_tool_permissions'', ItIndex ''ix_role_tool_permission_role_tool'' [''role'', ''tool_id''] False)]"
  by code_simp

lemma all_created: "list_all (\<lambda>x. fst x \<in> fst ` set (head_schema SetNull)) (metadata postgres_name)"
  by code_simp

lemma create_all_idle: "create_all postgres_name (s @ head_schema SetNull) = s @ head_schema SetNull"
  using all_created by (simp add: create_all_def list_all_iff filter_empty_conv image_Un)

text \<open>
  C32: the migrations give the declared schema and can be taken back.  On a PostgreSQL server, next
  to whatever other tables the database holds, \<open>upgrade head\<close> gets through all four revisions;
  every column, key, constraint and index that the models declare is there, the only thing more is
  one index, which the revision that made permissions unique adds and the model does not declare,
  and creating the tables at startup changes nothing.  From there \<open>downgrade base\<close> succeeds and
  leaves exactly the schema there was before the first upgrade.
\<close>

theorem migrations_reach_models:
  assumes "separate s"
  shows "\<exists>t. upgrade_head postgres_name (None, s) = Some (Some ''55cf8e97f4da'', s @ t) \<and>
    surplus (metadata postgres_name) t = [] \<and>
    surplus t (metadata postgres_name) =
      [(''role_tool_permissions'', ItIndex ''ix_role_tool_permission_role_tool'' [''role'', ''tool_id''] False)] \<and>
    create_all postgres_name (s @ t) = s @ t \<and>
    downgrade_base postgres_name (Some ''55cf8e97f4da'', s @ t) = Some (None, s)"
  using reaches_head [OF assms] reaches_base [OF assms] nothing_missing one_index_more create_all_idle by blast

text \<open>A database with a table of its own, the one Alembic records the revision in.\<close>

definition version_schema :: schema where
  "version_schema = [(''alembic_version'', \<lparr>tb_columns = [Column ''version_num'' (SaString (Some 32)) False],
     tb_constraints = [(''alembic_version_pkc'', PrimaryKey ''version_num'')], tb_indexes = []\<rparr>)]"

lemma version_separate: "separate version_schema"
  by code_simp

theorem migrations_reach_models_witness:
  "\<exists>t. upgrade_head postgres_name (None, version_schema) = Some (Some ''55cf8e97f4da'', version_schema @ t) \<and>
     downgrade_base postgres_name (Some ''55cf8e97f4da'', version_schema @ t) = Some (None, version_schema)"
  using migrations_reach_models [OF version_separate] by blast

text \<open>A process that starts before the first migration creates the tables; the migration then fails.\<close>

lemma early_start_blocks_migration: "upgrade_head postgres_name (None, create_all postgres_name []) = None"
  by code_simp

text \<open>
  On a server that names the key otherwise the last revision leaves the old key beside the new one:
  the preferences of a session are deleted with it.
\<close>

lemma key_kept_under_other_name:
  "upgrade_head (\<lambda>n k. ''unnamed'') (None, []) = Some (v, s) \<Longrightarrow>
   find_table s ''user_preferences'' = Some t \<Longrightarrow>
   ForeignKey ''session_id'' ''sessions'' ''id'' Cascade \<in> snd ` set (tb_constraints t) \<and>
   ForeignKey ''session_id'' ''sessions'' ''id'' SetNull \<in> snd ` set (tb_constraints t)"
proof -
  have "case upgrade_head (\<lambda>n k. ''unnamed'') (None, []) of None \<Rightarrow> False
      | Some (v, s) \<Rightarrow> (case find_table s ''user_preferences'' of None \<Rightarrow> False
        | Some t \<Rightarrow> ForeignKey ''session_id'' ''sessions'' ''id'' Cascade \<in> snd ` set (tb_constraints t) \<and>
            ForeignKey ''session_id'' ''sessions'' ''id'' SetNull \<in> snd ` set (tb_constraints t))"
    by code_simp
  then show "upgrade_head (\<lambda>n k. ''unnamed'') (None, []) = Some (v, s) \<Longrightarrow>
      find_table s ''user_preferences'' = Some t \<Longrightarrow> ?thesis"
    by simp
qed

section \<open>Rows and referential actions\<close>

text \<open>
  A row as the server sees it, and the deletion of rows: the keys that refer to a deleted row
  delete their row (\<open>CASCADE\<close>) or lose the reference (\<open>SET NULL\<close>), which a column that may not be
  null refuses.  The first argument of \<open>delete_rows\<close> bounds the length of a chain of cascades.
\<close>

datatype sql_value = VNull | VStr string | VInt int | VBool bool | VTime tstamp

type_synonym row = "(string \<times> sql_value) list"

fun nullable_value :: "('a \<Rightarrow> sql_value) \<Rightarrow> 'a option \<Rightarrow> sql_value" where
  "nullable_value f None = VNull"
| "nullable_value f (Some x) = f x"

definition column_value :: "row \<Rightarrow> string \<Rightarrow> sql_value" where
  "column_value r c = (case map_of r c of None \<Rightarrow> VNull | Some v \<Rightarrow> v)"

definition clear_column :: "string \<Rightarrow> row \<Rightarrow> row" where
  "clear_column c r = map (\<lambda>(n, v). (n, if n = c then VNull else v)) r"

definition references :: "schema \<Rightarrow> string \<Rightarrow> (string \<times> string \<times> string \<times> on_delete) list" where
  "references s n = concat (map (\<lambda>(m, t). concat (map (\<lambda>k. case snd k of
       ForeignKey c target rc action \<Rightarrow> if target = n then [(m, c, rc, action)] else []
     | _ \<Rightarrow> []) (tb_constraints t))) s)"

definition nullable :: "schema \<Rightarrow> string \<Rightarrow> string \<Rightarrow> bool" where
  "nullable s m c = (case find_table s m of None \<Rightarrow> False
     | Some t \<Rightarrow> list_ex (\<lambda>x. co_name x = c \<and> co_nullable x) (tb_columns t))"

definition refers_in :: "row list \<Rightarrow> string \<Rightarrow> string \<Rightarrow> row \<Rightarrow> bool" where
  "refers_in deleted c rc r =
     (column_value r c \<noteq> VNull \<and> column_value r c \<in> set (map (\<lambda>x. column_value x rc) deleted))"

fun follow_keys ::
  "(string \<Rightarrow> (row \<Rightarrow> bool) \<Rightarrow> (string \<Rightarrow> row list) \<Rightarrow> exn + (string \<Rightarrow> row list)) \<Rightarrow> schema \<Rightarrow> row list \<Rightarrow>
   (string \<times> string \<times> string \<times> on_delete) list \<Rightarrow> (string \<Rightarrow> row list) \<Rightarrow> exn + (string \<Rightarrow> row list)" where
  "follow_keys del s deleted [] g = Inr g"
| "follow_keys del s deleted ((m, c, rc, Cascade) # ks) g =
     (case del m (refers_in deleted c rc) g of Inl x \<Rightarrow> Inl x | Inr g' \<Rightarrow> follow_keys del s deleted ks g')"
| "follow_keys del s deleted ((m, c, rc, SetNull) # ks) g =
     (if nullable s m c then follow_keys del s deleted ks
        (g(m := map (\<lambda>r. if refers_in deleted c rc r then clear_column c r else r) (g m)))
      else if list_ex (refers_in deleted c rc) (g m) then Inl IntegrityError
      else follow_keys del s deleted ks g)"

primrec delete_rows :: "nat \<Rightarrow> schema \<Rightarrow> string \<Rightarrow> (row \<Rightarrow> bool) \<Rightarrow> (string \<Rightarrow> row list) \<Rightarrow> exn + (string \<Rightarrow> row list)" where
  "delete_rows 0 s n p g = Inl (PyError ''RecursionError'')"
| "delete_rows (Suc k) s n p g =
     follow_keys (delete_rows k s) s (filter p (g n)) (references s n) (g(n := filter (\<lambda>r. \<not> p r) (g n)))"

text \<open>The rows of the records of \<open>Models\<close>, with the names the columns have.\<close>

definition global_setting_cells :: "global_setting \<Rightarrow> row" where
  "global_setting_cells r =
    [(''key'', VStr (gs_key r)), (''value'', VStr (gs_value r)), (''id'', VStr (gs_id r))]"

definition tool_module_cells :: "tool_module \<Rightarrow> row" where
  "tool_module_cells r =
    [(''name'', VStr (tm_name r)), (''display_name_key'', VStr (tm_display_name_key r)),
     (''description_key'', VStr (tm_description_key r)), (''enabled'', VBool (tm_enabled r)),
     (''version'', VStr (tm_version r)), (''id'', VStr (tm_id r))]"

definition user_cells :: "user \<Rightarrow> row" where
  "user_cells r =
    [(''email'', VStr (u_email r)), (''password_hash'', VStr (u_password_hash r)),
     (''role'', VStr (u_role r)), (''status'', VStr (u_status r)),
     (''failed_login_attempts'', VInt (u_failed_login_attempts r)),
     (''locked_until'', nullable_value VTime (u_locked_until r)),
     (''admin_notes'', nullable_value VStr (u_admin_notes r)),
     (''first_name'', nullable_value VStr (u_first_name r)),
     (''last_name'', nullable_value VStr (u_last_name r)),
     (''email_verified_at'', nullable_value VTime (u_email_verified_at r)), (''id'', VStr (u_id r)),
     (''created_at'', VTime (u_created_at r)), (''updated_at'', VTime (u_updated_at r))]"

definition audit_log_cells :: "audit_log \<Rightarrow> row" where
  "audit_log_cells r =
    [(''admin_id'', VStr (au_admin_id r)), (''action'', VStr (au_action r)),
     (''entity_type'', VStr (au_entity_type r)), (''entity_id'', VStr (au_entity_id r)),
     (''old_value'', nullable_value VStr (au_old_value r)), (''new_value'', VStr (au_new_value r)),
     (''created_at'', VTime (au_created_at r)), (''id'', VStr (au_id r))]"

definition dns_server_preset_cells :: "dns_server_preset \<Rightarrow> row" where
  "dns_server_preset_cells r =
    [(''tool_module_id'', VStr (dp_tool_module_id r)), (''ip_address'', VStr (dp_ip_address r)),
     (''description'', VStr (dp_description r)), (''sort_order'', VInt (dp_sort_order r)),
     (''id'', VStr (dp_id r))]"

definition mail_token_cells :: "mail_token \<Rightarrow> row" where
  "mail_token_cells r =
    [(''user_id'', VStr (mt_user_id r)), (''token_hash'', VStr (mt_token_hash r)),
     (''expires_at'', VTime (mt_expires_at r)), (''used'', VBool (mt_used r)),
     (''created_at'', VTime (mt_created_at r)), (''id'', VStr (mt_id r))]"

definition rate_limit_config_cells :: "rate_limit_config \<Rightarrow> row" where
  "rate_limit_config_cells r =
    [(''role'', VStr (rc_role r)), (''tool_id'', nullable_value VStr (rc_tool_id r)),
     (''soft_limit'', VInt (rc_soft_limit r)), (''hard_limit'', VInt (rc_hard_limit r)),
     (''window_seconds'', VInt (rc_window_seconds r)), (''id'', VStr (rc_id r))]"

definition role_tool_permission_cells :: "role_tool_permission \<Rightarrow> row" where
  "role_tool_permission_cells r =
    [(''role'', VStr (rp_role r)), (''tool_id'', VStr (rp_tool_id r)),
     (''allowed'', VBool (rp_allowed r)), (''id'', VStr (rp_id r))]"

definition security_event_log_cells :: "security_event_log \<Rightarrow> row" where
  "security_event_log_cells r =
    [(''event_type'', VStr (ev_event_type r)), (''source_ip'', VStr (ev_source_ip r)),
     (''user_id'', nullable_value VStr (ev_user_id r)), (''details'', VStr (ev_details r)),
     (''created_at'', VTime (ev_created_at r)), (''id'', VStr (ev_id r))]"

definition session_cells :: "session_row \<Rightarrow> row" where
  "session_cells r =
    [(''user_id'', nullable_value VStr (s_user_id r)), (''token_hash'', VStr (s_token_hash r)),
     (''ip_address'', VStr (s_ip_address r)), (''user_agent'', nullable_value VStr (s_user_agent r)),
     (''expires_at'', VTime (s_expires_at r)), (''last_activity_at'', VTime (s_last_activity_at r)),
     (''created_at'', VTime (s_created_at r)), (''id'', VStr (s_id r))]"

definition tool_execution_log_cells :: "tool_execution_log \<Rightarrow> row" where
  "tool_execution_log_cells r =
    [(''user_id'', nullable_value VStr (el_user_id r)),
     (''session_id'', nullable_value VStr (el_session_id r)), (''source_ip'', VStr (el_source_ip r)),
     (''tool_name'', VStr (el_tool_name r)), (''parameters'', VStr (el_parameters r)),
     (''result'', VStr (el_result r)), (''duration_ms'', VInt (el_duration_ms r)),
     (''error_message'', nullable_value VStr (el_error_message r)),
     (''created_at'', VTime (el_created_at r)), (''id'', VStr (el_id r))]"

definition user_preference_cells :: "user_preference \<Rightarrow> row" where
  "user_preference_cells r =
    [(''user_id'', nullable_value VStr (up_user_id r)),
     (''session_id'', nullable_value VStr (up_session_id r)), (''key'', VStr (up_key r)),
     (''value'', VStr (up_value r)), (''id'', VStr (up_id r))]"

text \<open>\<open>others\<close> are the rows of tables that are not the program's.\<close>

definition tables :: "(string \<Rightarrow> row list) \<Rightarrow> db \<Rightarrow> string \<Rightarrow> row list" where
  "tables others d n =
    (if n = ''global_settings'' then map global_setting_cells (db_settings d)
     else if n = ''tool_modules'' then map tool_module_cells (db_tools d)
     else if n = ''users'' then map user_cells (db_users d)
     else if n = ''audit_logs'' then map audit_log_cells (db_audit d)
     else if n = ''dns_server_presets'' then map dns_server_preset_cells (db_presets d)
     else if n = ''email_verifications'' then map mail_token_cells (db_verifications d)
     else if n = ''password_resets'' then map mail_token_cells (db_resets d)
     else if n = ''rate_limit_configs'' then map rate_limit_config_cells (db_rate_limits d)
     else if n = ''role_tool_permissions'' then map role_tool_permission_cells (db_permissions d)
     else if n = ''security_event_logs'' then map security_event_log_cells (db_events d)
     else if n = ''sessions'' then map session_cells (db_sessions d)
     else if n = ''tool_execution_logs'' then map tool_execution_log_cells (db_exec_logs d)
     else if n = ''user_preferences'' then map user_preference_cells (db_preferences d)
     else others n)"

section \<open>Deletions follow the schema\<close>

lemma nullable_str_eq [simp]: "nullable_value VStr x = VNull \<longleftrightarrow> x = None"
  by (cases x) auto

lemma nullable_str_in [simp]: "nullable_value VStr x \<in> VStr ` A \<longleftrightarrow> (\<exists>i \<in> A. x = Some i)"
  by (cases x) auto

lemma tables_update:
  "(tables others d)(''users'' := map user_cells us) = tables others (d\<lparr>db_users := us\<rparr>)"
  "(tables others d)(''sessions'' := map session_cells ss) = tables others (d\<lparr>db_sessions := ss\<rparr>)"
  "(tables others d)(''user_preferences'' := map user_preference_cells ps) = tables others (d\<lparr>db_preferences := ps\<rparr>)"
  "(tables others d)(''email_verifications'' := map mail_token_cells vs) = tables others (d\<lparr>db_verifications := vs\<rparr>)"
  "(tables others d)(''password_resets'' := map mail_token_cells rs) = tables others (d\<lparr>db_resets := rs\<rparr>)"
  "(tables others d)(''tool_execution_logs'' := map tool_execution_log_cells ls) = tables others (d\<lparr>db_exec_logs := ls\<rparr>)"
  "(tables others d)(''security_event_logs'' := map security_event_log_cells es) = tables others (d\<lparr>db_events := es\<rparr>)"
  by (simp_all add: tables_def fun_eq_iff)

lemma tables_rows:
  "tables others d ''users'' = map user_cells (db_users d)"
  "tables others d ''sessions'' = map session_cells (db_sessions d)"
  "tables others d ''user_preferences'' = map user_preference_cells (db_preferences d)"
  "tables others d ''email_verifications'' = map mail_token_cells (db_verifications d)"
  "tables others d ''password_resets'' = map mail_token_cells (db_resets d)"
  "tables others d ''tool_execution_logs'' = map tool_execution_log_cells (db_exec_logs d)"
  "tables others d ''security_event_logs'' = map security_event_log_cells (db_events d)"
  "tables others d ''audit_logs'' = map audit_log_cells (db_audit d)"
  by (simp_all add: tables_def)

lemma key_columns [simp]:
  "column_value (user_cells u) ''id'' = VStr (u_id u)"
  "column_value (session_cells x) ''id'' = VStr (s_id x)"
  "column_value (session_cells x) ''user_id'' = nullable_value VStr (s_user_id x)"
  "column_value (user_preference_cells w) ''user_id'' = nullable_value VStr (up_user_id w)"
  "column_value (user_preference_cells w) ''session_id'' = nullable_value VStr (up_session_id w)"
  "column_value (mail_token_cells m) ''user_id'' = VStr (mt_user_id m)"
  "column_value (tool_execution_log_cells l) ''user_id'' = nullable_value VStr (el_user_id l)"
  "column_value (tool_execution_log_cells l) ''session_id'' = nullable_value VStr (el_session_id l)"
  "column_value (security_event_log_cells v) ''user_id'' = nullable_value VStr (ev_user_id v)"
  "column_value (audit_log_cells a) ''admin_id'' = VStr (au_admin_id a)"
  by (simp_all add: column_value_def user_cells_def session_cells_def user_preference_cells_def mail_token_cells_def
      tool_execution_log_cells_def security_event_log_cells_def audit_log_cells_def)

lemma cleared_cells [simp]:
  "clear_column ''session_id'' (user_preference_cells w) = user_preference_cells (w\<lparr>up_session_id := None\<rparr>)"
  "clear_column ''session_id'' (tool_execution_log_cells l) = tool_execution_log_cells (l\<lparr>el_session_id := None\<rparr>)"
  "clear_column ''user_id'' (tool_execution_log_cells l) = tool_execution_log_cells (l\<lparr>el_user_id := None\<rparr>)"
  "clear_column ''user_id'' (security_event_log_cells v) = security_event_log_cells (v\<lparr>ev_user_id := None\<rparr>)"
  by (simp_all add: clear_column_def user_preference_cells_def tool_execution_log_cells_def security_event_log_cells_def)

lemma head_references:
  "references (head_schema SetNull) ''users'' =
    [(''audit_logs'', ''admin_id'', ''id'', SetNull), (''email_verifications'', ''user_id'', ''id'', Cascade),
     (''password_resets'', ''user_id'', ''id'', Cascade), (''security_event_logs'', ''user_id'', ''id'', SetNull),
     (''sessions'', ''user_id'', ''id'', Cascade), (''tool_execution_logs'', ''user_id'', ''id'', SetNull),
     (''user_preferences'', ''user_id'', ''id'', Cascade)]"
  "references (head_schema SetNull) ''sessions'' =
    [(''tool_execution_logs'', ''session_id'', ''id'', SetNull), (''user_preferences'', ''session_id'', ''id'', SetNull)]"
  "references (head_schema SetNull) ''email_verifications'' = []"
  "references (head_schema SetNull) ''password_resets'' = []"
  "references (head_schema SetNull) ''user_preferences'' = []"
  by code_simp+

lemma head_nullable:
  "\<not> nullable (head_schema SetNull) ''audit_logs'' ''admin_id''"
  "nullable (head_schema SetNull) ''security_event_logs'' ''user_id''"
  "nullable (head_schema SetNull) ''tool_execution_logs'' ''user_id''"
  "nullable (head_schema SetNull) ''tool_execution_logs'' ''session_id''"
  "nullable (head_schema SetNull) ''user_preferences'' ''session_id''"
  by code_simp+

lemma references_append: "references (s @ s') n = references s n @ references s' n"
  by (simp add: references_def)

lemma separate_references:
  assumes "separate s" and "n \<in> set TABLES"
  shows "references s n = []"
proof -
  have "\<not> refers_to n (snd c)" if "(m, t) \<in> set s" "c \<in> set (tb_constraints t)" for m t c
    using assms that unfolding separate_def list_all_iff list_ex_iff by fastforce
  then show ?thesis
    by (fastforce simp: references_def refers_to_def split: table_constraint.splits prod.splits)
qed

lemma nullable_append: "n \<notin> fst ` set s \<Longrightarrow> nullable (s @ s') n c = nullable s' n c"
  by (simp add: nullable_def)

definition hits :: "string list \<Rightarrow> string option \<Rightarrow> bool" where
  "hits gone r = (case r of None \<Rightarrow> False | Some i \<Rightarrow> i \<in> set gone)"

definition clears :: "string list \<Rightarrow> string option \<Rightarrow> string option" where
  "clears gone r = (case r of None \<Rightarrow> None | Some i \<Rightarrow> if i \<in> set gone then None else Some i)"

lemma clears_eq: "clears gone r = (if hits gone r then None else r)"
  by (cases r) (simp_all add: clears_def hits_def)

lemma clears_updates:
  "(if hits gone (up_session_id w) then w\<lparr>up_session_id := None\<rparr> else w) = up_session_id_update (clears gone) w"
  "(if hits gone (el_session_id l) then l\<lparr>el_session_id := None\<rparr> else l) = el_session_id_update (clears gone) l"
  "(if hits gone (el_user_id l) then l\<lparr>el_user_id := None\<rparr> else l) = el_user_id_update (clears gone) l"
  "(if hits gone (ev_user_id v) then v\<lparr>ev_user_id := None\<rparr> else v) = ev_user_id_update (clears gone) v"
  by (cases w, simp add: clears_eq) (cases l, simp add: clears_eq, cases l, simp add: clears_eq, cases v, simp add: clears_eq)

lemma refers_in_cells:
  assumes "\<And>x. x \<in> set xs \<Longrightarrow> column_value (f x) rc = VStr (g x)"
  shows "column_value r c = nullable_value VStr w \<Longrightarrow> refers_in (map f xs) c rc r = hits (map g xs) w"
    and "column_value r c = VStr i \<Longrightarrow> refers_in (map f xs) c rc r = (i \<in> set (map g xs))"
proof -
  have set_eq: "set (map (\<lambda>x. column_value x rc) (map f xs)) = VStr ` set (map g xs)"
    using assms by (auto simp: image_image)
  show "column_value r c = nullable_value VStr w \<Longrightarrow> refers_in (map f xs) c rc r = hits (map g xs) w"
    unfolding refers_in_def set_eq by (cases w) (auto simp: hits_def)
  show "column_value r c = VStr i \<Longrightarrow> refers_in (map f xs) c rc r = (i \<in> set (map g xs))"
    unfolding refers_in_def set_eq by auto
qed

lemma clear_rows:
  assumes "\<And>x. refers_in deleted c rc (f x) = h x" and "\<And>x. clear_column c (f x) = f (e x)"
    and "\<And>x. (if h x then e x else x) = u x"
  shows "map (\<lambda>r. if refers_in deleted c rc r then clear_column c r else r) (map f xs) = map f (map u xs)"
  by (simp add: assms(1,2) assms(3) [symmetric])

lemma filter_cells: "(\<And>x. q (f x) = p x) \<Longrightarrow> filter q (map f xs) = map f (filter p xs)"
  by (induction xs) auto

lemma delete_sessions_clears:
  "delete_sessions p d = (let gone = map s_id (filter p (db_sessions d)) in
     d\<lparr>db_sessions := filter (\<lambda>x. \<not> p x) (db_sessions d),
       db_exec_logs := map (el_session_id_update (clears gone)) (db_exec_logs d),
       db_preferences := map (up_session_id_update (clears gone)) (db_preferences d)\<rparr>)"
  by (cases d) (simp add: delete_sessions_def clears_def [abs_def] Let_def)

lemma db_reorder:
  "d\<lparr>db_users := a, db_preferences := b, db_verifications := c, db_resets := e, db_exec_logs := f, db_events := g\<rparr> =
   d\<lparr>db_users := a, db_verifications := c, db_resets := e, db_events := g, db_exec_logs := f, db_preferences := b\<rparr>"
  by (cases d) simp

lemma db_sessions_first:
  "d\<lparr>db_users := a, db_verifications := c, db_resets := e, db_events := g, db_sessions := h\<rparr> =
   d\<lparr>db_sessions := h, db_users := a, db_verifications := c, db_resets := e, db_events := g\<rparr>"
  by (cases d) simp

lemma delete_users_clears:
  "delete_users p d = (let gone = map u_id (filter p (db_users d));
       d' = delete_sessions (\<lambda>s. hits gone (s_user_id s)) d in
     if list_ex (\<lambda>a. au_admin_id a \<in> set gone) (db_audit d) then Inl IntegrityError
     else Inr (d'\<lparr>db_users := filter (\<lambda>u. \<not> p u) (db_users d),
       db_verifications := filter (\<lambda>x. mt_user_id x \<notin> set gone) (db_verifications d),
       db_resets := filter (\<lambda>x. mt_user_id x \<notin> set gone) (db_resets d),
       db_events := map (ev_user_id_update (clears gone)) (db_events d),
       db_exec_logs := map (el_user_id_update (clears gone)) (db_exec_logs d'),
       db_preferences := filter (\<lambda>x. \<not> hits gone (up_user_id x)) (db_preferences d')\<rparr>))"
  by (simp add: delete_users_def db_reorder clears_def [abs_def] hits_def [abs_def] Let_def del: set_map)

lemma session_deletion:
  assumes "separate s" and "\<And>x. q (session_cells x) = p x"
  shows "delete_rows (Suc k) (s @ head_schema SetNull) ''sessions'' q (tables others d) =
    Inr (tables others (delete_sessions p d))"
proof -
  have refs: "references (s @ head_schema SetNull) ''sessions'' =
      [(''tool_execution_logs'', ''session_id'', ''id'', SetNull), (''user_preferences'', ''session_id'', ''id'', SetNull)]"
    using separate_references [OF assms(1), of "''sessions''"] by (simp add: references_append head_references TABLES_def)
  have nulls: "nullable (s @ head_schema SetNull) ''tool_execution_logs'' ''session_id''"
    "nullable (s @ head_schema SetNull) ''user_preferences'' ''session_id''"
    using separate_tables [OF assms(1)] by (simp_all add: nullable_append head_nullable)
  have rows: "filter q (map session_cells ss) = map session_cells (filter p ss)"
    "filter (\<lambda>r. \<not> q r) (map session_cells ss) = map session_cells (filter (\<lambda>x. \<not> p x) ss)" for ss
    by (simp_all add: filter_cells assms(2))
  have logs: "map (\<lambda>r. if refers_in (map session_cells ss) ''session_id'' ''id'' r then clear_column ''session_id'' r else r)
      (map tool_execution_log_cells ls) =
      map tool_execution_log_cells (map (el_session_id_update (clears (map s_id ss))) ls)" for ss ls
    by (rule clear_rows [where h = "\<lambda>l. hits (map s_id ss) (el_session_id l)", OF _ _ clears_updates(2)])
      (simp_all add: refers_in_cells [where g = s_id])
  have prefs: "map (\<lambda>r. if refers_in (map session_cells ss) ''session_id'' ''id'' r then clear_column ''session_id'' r else r)
      (map user_preference_cells ws) =
      map user_preference_cells (map (up_session_id_update (clears (map s_id ss))) ws)" for ss ws
    by (rule clear_rows [where h = "\<lambda>w. hits (map s_id ss) (up_session_id w)", OF _ _ clears_updates(1)])
      (simp_all add: refers_in_cells [where g = s_id])
  show ?thesis
    by (simp add: refs nulls tables_rows rows tables_update logs prefs delete_sessions_clears Let_def del: map_map)
qed

lemma leaf_deletion:
  assumes "references s n = []"
  shows "delete_rows (Suc k) s n q g = Inr (g(n := filter (\<lambda>r. \<not> q r) (g n)))"
  by (simp add: assms)

lemma user_deletion:
  assumes "separate s" and "\<And>u. q (user_cells u) = p u"
  shows "delete_rows (Suc (Suc k)) (s @ head_schema SetNull) ''users'' q (tables others d) =
    map_sum id (tables others) (delete_users p d)"
proof -
  let ?s = "s @ head_schema SetNull"
  have none: "references s n = []" if "n \<in> set TABLES" for n
    using separate_references assms(1) that .
  have refs: "references ?s ''users'' = references (head_schema SetNull) ''users''"
    "references ?s ''email_verifications'' = []" "references ?s ''password_resets'' = []"
    "references ?s ''user_preferences'' = []"
    by (simp_all add: references_append none head_references TABLES_def)
  have nulls: "\<not> nullable ?s ''audit_logs'' ''admin_id''" "nullable ?s ''security_event_logs'' ''user_id''"
    "nullable ?s ''tool_execution_logs'' ''user_id''"
    using separate_tables [OF assms(1)] by (simp_all add: nullable_append head_nullable)
  have rows: "filter q (map user_cells us) = map user_cells (filter p us)"
    "filter (\<lambda>r. \<not> q r) (map user_cells us) = map user_cells (filter (\<lambda>u. \<not> p u) us)" for us
    by (simp_all add: filter_cells assms(2))
  have audited: "list_ex (refers_in (map user_cells us) ''admin_id'' ''id'') (map audit_log_cells as) =
      list_ex (\<lambda>a. au_admin_id a \<in> set (map u_id us)) as" for us as
    by (simp add: list_ex_iff refers_in_cells [where g = u_id])
  have leaves: "filter (\<lambda>r. \<not> refers_in (map user_cells us) ''user_id'' ''id'' r) (map mail_token_cells ms) =
      map mail_token_cells (filter (\<lambda>m. mt_user_id m \<notin> set (map u_id us)) ms)"
    "filter (\<lambda>r. \<not> refers_in (map user_cells us) ''user_id'' ''id'' r) (map user_preference_cells ws) =
      map user_preference_cells (filter (\<lambda>w. \<not> hits (map u_id us) (up_user_id w)) ws)" for us ms ws
    by (simp_all add: filter_cells refers_in_cells [where g = u_id])
  have logs: "map (\<lambda>r. if refers_in (map user_cells us) ''user_id'' ''id'' r then clear_column ''user_id'' r else r)
      (map tool_execution_log_cells ls) =
      map tool_execution_log_cells (map (el_user_id_update (clears (map u_id us))) ls)" for us ls
    by (rule clear_rows [where h = "\<lambda>l. hits (map u_id us) (el_user_id l)", OF _ _ clears_updates(3)])
      (simp_all add: refers_in_cells [where g = u_id])
  have events: "map (\<lambda>r. if refers_in (map user_cells us) ''user_id'' ''id'' r then clear_column ''user_id'' r else r)
      (map security_event_log_cells vs) =
      map security_event_log_cells (map (ev_user_id_update (clears (map u_id us))) vs)" for us vs
    by (rule clear_rows [where h = "\<lambda>v. hits (map u_id us) (ev_user_id v)", OF _ _ clears_updates(4)])
      (simp_all add: refers_in_cells [where g = u_id])
  have sessions: "delete_rows (Suc k) ?s ''sessions'' (refers_in (map user_cells us) ''user_id'' ''id'') (tables others d') =
      Inr (tables others (delete_sessions (\<lambda>x. hits (map u_id us) (s_user_id x)) d'))" for us d'
    using assms(1) by (rule session_deletion) (simp add: refers_in_cells [where g = u_id])
  show ?thesis
    by (simp add: refs head_references nulls tables_rows rows audited leaf_deletion sessions leaves logs events
        tables_update delete_users_clears delete_sessions_clears Let_def
        db_sessions_first del: map_map set_map delete_rows.simps(2) add: delete_rows.simps(2) [of "Suc k" _ "''users''"])
qed

text \<open>
  C33: deletions follow the schema.  Take the schema the migrations give, whatever other tables
  the database holds, and carry out a deletion with its foreign keys as the server does, up to any
  depth of cascades of two or more: deleting users, or sessions, gives exactly the rows that the
  deletions of the model give, and is refused in exactly the same cases.
\<close>

theorem deletions_follow_schema:
  assumes "separate s" and "upgrade_head postgres_name (None, s) = Some (v, s')"
    and "\<And>u. of_user (user_cells u) = p u" and "\<And>x. of_session (session_cells x) = p' x"
  shows "delete_rows (Suc (Suc k)) s' ''users'' of_user (tables others d) =
      map_sum id (tables others) (delete_users p d) \<and>
    delete_rows (Suc (Suc k)) s' ''sessions'' of_session (tables others d) = Inr (tables others (delete_sessions p' d))"
proof -
  have "s' = s @ head_schema SetNull"
    using reaches_head [OF assms(1)] assms(2) by simp
  with user_deletion [of s of_user p, OF assms(1,3)] session_deletion [of s of_session p', OF assms(1,4)]
  show ?thesis by simp
qed

definition signed_in_db :: db where
  "signed_in_db = empty_db\<lparr>
     db_users := [\<lparr>u_id = ''u1'', u_email = ''a@b.ch'', u_password_hash = ''h'', u_role = ROLE_AUTHENTICATED,
       u_status = ''active'', u_failed_login_attempts = 0, u_locked_until = None, u_admin_notes = None,
       u_first_name = None, u_last_name = None, u_email_verified_at = None, u_created_at = 0, u_updated_at = 0\<rparr>],
     db_sessions := [\<lparr>s_id = ''s1'', s_user_id = Some ''u1'', s_token_hash = ''t'', s_ip_address = ''192.0.2.1'',
       s_user_agent = None, s_expires_at = 1, s_last_activity_at = 0, s_created_at = 0\<rparr>],
     db_preferences := [\<lparr>up_id = ''p1'', up_user_id = Some ''u1'', up_session_id = None, up_key = ''theme'', up_value = ''dark''\<rparr>,
       \<lparr>up_id = ''p2'', up_user_id = None, up_session_id = Some ''s1'', up_key = ''theme'', up_value = ''light''\<rparr>]\<rparr>"

theorem deletions_follow_schema_witness:
  "delete_rows 3 (version_schema @ head_schema SetNull) ''users'' (\<lambda>r. column_value r ''id'' = VStr ''u1'')
     (tables (\<lambda>_. []) signed_in_db) =
   Inr (tables (\<lambda>_. []) (empty_db\<lparr>db_preferences :=
     [\<lparr>up_id = ''p2'', up_user_id = None, up_session_id = None, up_key = ''theme'', up_value = ''light''\<rparr>]\<rparr>))"
  using deletions_follow_schema [OF version_separate reaches_head [OF version_separate],
      of "\<lambda>r. column_value r ''id'' = VStr ''u1''" "\<lambda>u. u_id u = ''u1''"
        "\<lambda>r. column_value r ''id'' = VStr ''s1''" "\<lambda>x. s_id x = ''s1''" 1 "\<lambda>_. []" signed_in_db]
  by (simp add: delete_users_def delete_sessions_def signed_in_db_def empty_db_def eval_nat_numeral)

end
