(* ===== verification/Routes.thy ===== *)
theory Routes
  imports Middleware
begin

text \<open>
  The routes: the decorators of \<open>app/api/v1/endpoints\<close>, the routers of \<open>app/api/v1/router.py\<close> and
  \<open>app/main.py\<close>, and which endpoint a request gets to.  The endpoints are a parameter; a part of a
  path in braces stands for any non-empty text without a slash.  The locale \<open>layer\<close> is what a
  middleware promises the application.
\<close>

section \<open>Paths\<close>

definition is_param :: "string \<Rightarrow> bool" where
  "is_param seg = py_startswith seg ''{''"

definition segment_matches :: "string \<Rightarrow> string \<Rightarrow> bool" where
  "segment_matches t p = (if is_param t then p \<noteq> [] else p = t)"

definition segments :: "string \<Rightarrow> string list" where
  "segments p = py_split (CHR ''/'') p"

definition path_matches :: "string \<Rightarrow> string \<Rightarrow> bool" where
  "path_matches t p = list_all2 segment_matches (segments t) (segments p)"

definition path_params :: "string \<Rightarrow> string \<Rightarrow> (string \<times> string) list" where
  "path_params t p = filter (\<lambda>x. is_param (fst x)) (zip (segments t) (segments p))"

section \<open>The routes\<close>

text \<open>
  Method, path, whether the endpoint depends on \<open>get_session\<close> and on \<open>require_admin\<close>, and its name.
\<close>

record route =
  rt_method :: string
  rt_path :: string
  rt_session :: bool
  rt_admin :: bool
  rt_endpoint :: string

definition route :: "string \<Rightarrow> string \<Rightarrow> bool \<Rightarrow> bool \<Rightarrow> string \<Rightarrow> route" where
  "route m p s a n = \<lparr>rt_method = m, rt_path = p, rt_session = s, rt_admin = a, rt_endpoint = n\<rparr>"

definition with_prefix :: "string \<Rightarrow> route \<Rightarrow> route" where
  "with_prefix pre rt = rt\<lparr>rt_path := pre @ rt_path rt\<rparr>"

definition auth_register_route :: route where
  "auth_register_route = route ''POST'' ''/register'' True False ''auth.register''"

definition auth_login_route :: route where
  "auth_login_route = route ''POST'' ''/login'' True False ''auth.login''"

definition auth_logout_route :: route where
  "auth_logout_route = route ''POST'' ''/logout'' True False ''auth.logout''"

definition auth_verify_email_endpoint_route :: route where
  "auth_verify_email_endpoint_route = route ''POST'' ''/verify-email'' True False ''auth.verify_email_endpoint''"

definition auth_resend_verification_route :: route where
  "auth_resend_verification_route = route ''POST'' ''/resend-verification'' True False ''auth.resend_verification''"

definition auth_request_password_reset_route :: route where
  "auth_request_password_reset_route = route ''POST'' ''/request-password-reset'' True False ''auth.request_password_reset''"

definition auth_reset_password_route :: route where
  "auth_reset_password_route = route ''POST'' ''/reset-password'' True False ''auth.reset_password''"

definition auth_me_route :: route where
  "auth_me_route = route ''GET'' ''/me'' True False ''auth.me''"

definition auth_get_csrf_route :: route where
  "auth_get_csrf_route = route ''GET'' ''/csrf'' False False ''auth.get_csrf''"

definition auth_router :: "route list" where
  "auth_router = map (with_prefix ''/auth'')
    [auth_register_route,
     auth_login_route,
     auth_logout_route,
     auth_verify_email_endpoint_route,
     auth_resend_verification_route,
     auth_request_password_reset_route,
     auth_reset_password_route,
     auth_me_route,
     auth_get_csrf_route]"

definition account_update_profile_route :: route where
  "account_update_profile_route = route ''PUT'' ''/profile'' True False ''account.update_profile''"

definition account_delete_account_route :: route where
  "account_delete_account_route = route ''DELETE'' '''' True False ''account.delete_account''"

definition account_router :: "route list" where
  "account_router = map (with_prefix ''/account'')
    [account_update_profile_route,
     account_delete_account_route]"

definition tools_list_tools_for_role_route :: route where
  "tools_list_tools_for_role_route = route ''GET'' ''/available-for/{role}'' True False ''tools.list_tools_for_role''"

definition tools_list_tools_route :: route where
  "tools_list_tools_route = route ''GET'' '''' True False ''tools.list_tools''"

definition tools_list_tool_dns_servers_route :: route where
  "tools_list_tool_dns_servers_route = route ''GET'' ''/{tool_name}/dns-servers'' True False ''tools.list_tool_dns_servers''"

definition tools_tool_stream_route :: route where
  "tools_tool_stream_route = route ''WEBSOCKET'' ''/{tool_name}/stream'' False False ''tools.tool_stream''"

definition tools_execute_tool_route :: route where
  "tools_execute_tool_route = route ''POST'' ''/{tool_name}/execute'' True False ''tools.execute_tool''"

definition tools_router :: "route list" where
  "tools_router = map (with_prefix ''/tools'')
    [tools_list_tools_for_role_route,
     tools_list_tools_route,
     tools_list_tool_dns_servers_route,
     tools_tool_stream_route,
     tools_execute_tool_route]"

definition preferences_get_prefs_route :: route where
  "preferences_get_prefs_route = route ''GET'' '''' True False ''preferences.get_prefs''"

definition preferences_put_prefs_route :: route where
  "preferences_put_prefs_route = route ''PUT'' '''' True False ''preferences.put_prefs''"

definition preferences_router :: "route list" where
  "preferences_router = map (with_prefix ''/preferences'')
    [preferences_get_prefs_route,
     preferences_put_prefs_route]"

definition sessions_list_sessions_route :: route where
  "sessions_list_sessions_route = route ''GET'' '''' True False ''sessions.list_sessions''"

definition sessions_revoke_session_route :: route where
  "sessions_revoke_session_route = route ''DELETE'' ''/{session_id}'' True False ''sessions.revoke_session''"

definition sessions_router :: "route list" where
  "sessions_router = map (with_prefix ''/sessions'')
    [sessions_list_sessions_route,
     sessions_revoke_session_route]"

definition admin_users_list_users_route :: route where
  "admin_users_list_users_route = route ''GET'' '''' True True ''admin_users.list_users''"

definition admin_users_get_user_route :: route where
  "admin_users_get_user_route = route ''GET'' ''/{user_id}'' True True ''admin_users.get_user''"

definition admin_users_block_user_route :: route where
  "admin_users_block_user_route = route ''PUT'' ''/{user_id}/block'' True True ''admin_users.block_user''"

definition admin_users_unblock_user_route :: route where
  "admin_users_unblock_user_route = route ''PUT'' ''/{user_id}/unblock'' True True ''admin_users.unblock_user''"

definition admin_users_lock_user_route :: route where
  "admin_users_lock_user_route = route ''PUT'' ''/{user_id}/lock'' True True ''admin_users.lock_user''"

definition admin_users_unlock_user_route :: route where
  "admin_users_unlock_user_route = route ''PUT'' ''/{user_id}/unlock'' True True ''admin_users.unlock_user''"

definition admin_users_promote_user_route :: route where
  "admin_users_promote_user_route = route ''PUT'' ''/{user_id}/promote'' True True ''admin_users.promote_user''"

definition admin_users_demote_user_route :: route where
  "admin_users_demote_user_route = route ''PUT'' ''/{user_id}/demote'' True True ''admin_users.demote_user''"

definition admin_users_admin_verify_email_route :: route where
  "admin_users_admin_verify_email_route = route ''PUT'' ''/{user_id}/verify-email'' True True ''admin_users.admin_verify_email''"

definition admin_users_get_user_rate_limit_status_route :: route where
  "admin_users_get_user_rate_limit_status_route = route ''GET'' ''/{user_id}/rate-limit-status'' True True ''admin_users.get_user_rate_limit_status''"

definition admin_users_update_notes_route :: route where
  "admin_users_update_notes_route = route ''PUT'' ''/{user_id}/notes'' True True ''admin_users.update_notes''"

definition admin_users_delete_user_route :: route where
  "admin_users_delete_user_route = route ''DELETE'' ''/{user_id}'' True True ''admin_users.delete_user''"

definition admin_users_router :: "route list" where
  "admin_users_router = map (with_prefix ''/admin/users'')
    [admin_users_list_users_route,
     admin_users_get_user_route,
     admin_users_block_user_route,
     admin_users_unblock_user_route,
     admin_users_lock_user_route,
     admin_users_unlock_user_route,
     admin_users_promote_user_route,
     admin_users_demote_user_route,
     admin_users_admin_verify_email_route,
     admin_users_get_user_rate_limit_status_route,
     admin_users_update_notes_route,
     admin_users_delete_user_route]"

definition admin_tools_list_tools_route :: route where
  "admin_tools_list_tools_route = route ''GET'' ''/tools'' True True ''admin_tools.list_tools''"

definition admin_tools_update_tool_route :: route where
  "admin_tools_update_tool_route = route ''PUT'' ''/tools/{tool_name}'' True True ''admin_tools.update_tool''"

definition admin_tools_list_role_permissions_route :: route where
  "admin_tools_list_role_permissions_route = route ''GET'' ''/role-permissions'' True True ''admin_tools.list_role_permissions''"

definition admin_tools_update_role_permissions_route :: route where
  "admin_tools_update_role_permissions_route = route ''PUT'' ''/role-permissions'' True True ''admin_tools.update_role_permissions''"

definition admin_tools_router :: "route list" where
  "admin_tools_router = map (with_prefix ''/admin'')
    [admin_tools_list_tools_route,
     admin_tools_update_tool_route,
     admin_tools_list_role_permissions_route,
     admin_tools_update_role_permissions_route]"

definition admin_rate_limits_list_rate_limits_route :: route where
  "admin_rate_limits_list_rate_limits_route = route ''GET'' ''/rate-limits'' True True ''admin_rate_limits.list_rate_limits''"

definition admin_rate_limits_update_rate_limits_route :: route where
  "admin_rate_limits_update_rate_limits_route = route ''PUT'' ''/rate-limits'' True True ''admin_rate_limits.update_rate_limits''"

definition admin_rate_limits_router :: "route list" where
  "admin_rate_limits_router = map (with_prefix ''/admin'')
    [admin_rate_limits_list_rate_limits_route,
     admin_rate_limits_update_rate_limits_route]"

definition admin_modules_list_modules_route :: route where
  "admin_modules_list_modules_route = route ''GET'' '''' True True ''admin_modules.list_modules''"

definition admin_modules_update_module_route :: route where
  "admin_modules_update_module_route = route ''PUT'' ''/{module_name}'' True True ''admin_modules.update_module''"

definition admin_modules_get_module_settings_route :: route where
  "admin_modules_get_module_settings_route = route ''GET'' ''/{module_name}/settings'' True True ''admin_modules.get_module_settings''"

definition admin_modules_update_module_settings_route :: route where
  "admin_modules_update_module_settings_route = route ''PUT'' ''/{module_name}/settings'' True True ''admin_modules.update_module_settings''"

definition admin_modules_list_dns_servers_route :: route where
  "admin_modules_list_dns_servers_route = route ''GET'' ''/{tool_name}/dns-servers'' True True ''admin_modules.list_dns_servers''"

definition admin_modules_create_dns_server_route :: route where
  "admin_modules_create_dns_server_route = route ''POST'' ''/{tool_name}/dns-servers'' True True ''admin_modules.create_dns_server''"

definition admin_modules_reorder_dns_servers_route :: route where
  "admin_modules_reorder_dns_servers_route = route ''PUT'' ''/{tool_name}/dns-servers/reorder'' True True ''admin_modules.reorder_dns_servers''"

definition admin_modules_update_dns_server_route :: route where
  "admin_modules_update_dns_server_route = route ''PUT'' ''/{tool_name}/dns-servers/{preset_id}'' True True ''admin_modules.update_dns_server''"

definition admin_modules_delete_dns_server_route :: route where
  "admin_modules_delete_dns_server_route = route ''DELETE'' ''/{tool_name}/dns-servers/{preset_id}'' True True ''admin_modules.delete_dns_server''"

definition admin_modules_router :: "route list" where
  "admin_modules_router = map (with_prefix ''/admin/modules'')
    [admin_modules_list_modules_route,
     admin_modules_update_module_route,
     admin_modules_get_module_settings_route,
     admin_modules_update_module_settings_route,
     admin_modules_list_dns_servers_route,
     admin_modules_create_dns_server_route,
     admin_modules_reorder_dns_servers_route,
     admin_modules_update_dns_server_route,
     admin_modules_delete_dns_server_route]"

definition admin_logs_list_tool_executions_route :: route where
  "admin_logs_list_tool_executions_route = route ''GET'' ''/tool-executions'' True True ''admin_logs.list_tool_executions''"

definition admin_logs_list_security_events_route :: route where
  "admin_logs_list_security_events_route = route ''GET'' ''/security-events'' True True ''admin_logs.list_security_events''"

definition admin_logs_list_audit_logs_route :: route where
  "admin_logs_list_audit_logs_route = route ''GET'' ''/audit'' True True ''admin_logs.list_audit_logs''"

definition admin_logs_router :: "route list" where
  "admin_logs_router = map (with_prefix ''/admin/logs'')
    [admin_logs_list_tool_executions_route,
     admin_logs_list_security_events_route,
     admin_logs_list_audit_logs_route]"

definition admin_settings_get_settings_route :: route where
  "admin_settings_get_settings_route = route ''GET'' '''' True True ''admin_settings.get_settings''"

definition admin_settings_update_settings_route :: route where
  "admin_settings_update_settings_route = route ''PUT'' '''' True True ''admin_settings.update_settings''"

definition admin_settings_router :: "route list" where
  "admin_settings_router = map (with_prefix ''/admin/settings'')
    [admin_settings_get_settings_route,
     admin_settings_update_settings_route]"

definition public_settings_get_public_settings_route :: route where
  "public_settings_get_public_settings_route = route ''GET'' '''' True False ''public_settings.get_public_settings''"

definition public_settings_router :: "route list" where
  "public_settings_router = map (with_prefix ''/public-settings'')
    [public_settings_get_public_settings_route]"

definition v1_router :: "route list" where
  "v1_router = map (with_prefix ''/api/v1'')
    (auth_router @ account_router @ tools_router @ preferences_router @ sessions_router @ admin_users_router @
     admin_tools_router @ admin_rate_limits_router @ admin_modules_router @ admin_logs_router @
     admin_settings_router @ public_settings_router)"

definition ROUTES :: "route list" where
  "ROUTES = v1_router @
    [route ''GET'' ''/health'' False False ''main.health'',
     route ''GET'' ''/health/full'' False False ''main.health_full'']"

section \<open>Routing\<close>

text \<open>
  The first route of the method that matches; a path that only other methods have is a 405, one
  that matches with a slash more or less is redirected, any other is a 404.
\<close>

definition http_routes :: "route list" where
  "http_routes = filter (\<lambda>rt. rt_method rt \<noteq> ''WEBSOCKET'') ROUTES"

definition known_path :: "string \<Rightarrow> bool" where
  "known_path p = list_ex (\<lambda>rt. path_matches (rt_path rt) p) http_routes"

definition other_slash :: "string \<Rightarrow> string" where
  "other_slash p = (if py_endswith p ''/'' then rev (dropWhile (\<lambda>c. c = CHR ''/'') (rev p)) else p @ ''/'')"

definition find_route :: "string \<Rightarrow> string \<Rightarrow> int + route" where
  "find_route m p = (case find (\<lambda>rt. rt_method rt = m \<and> path_matches (rt_path rt) p) http_routes of
     Some rt \<Rightarrow> Inr rt
   | None \<Rightarrow> if known_path p then Inl 405 else if p \<noteq> ''/'' \<and> known_path (other_slash p) then Inl 307 else Inl 404)"

definition dispatch :: "env \<Rightarrow> (string \<Rightarrow> (string \<times> string) list \<Rightarrow> handler) \<Rightarrow> handler" where
  "dispatch e endpoints r w =
     (case find_route (rq_method r) (rq_path r) of
        Inl status \<Rightarrow> (error_response (HTTPException status), w)
      | Inr rt \<Rightarrow>
          (if rt_session rt \<and> \<not> e_db_up e
           then (error_response (AppError 503 ''DATABASE_UNAVAILABLE'' ''errors.database_unavailable''), w)
           else case (if rt_admin rt then require_admin r else Inr ()) of
                  Inl x \<Rightarrow> (error_response x, w)
                | Inr _ \<Rightarrow> endpoints (rt_endpoint rt) (path_params (rt_path rt) (rq_path r)) r w))"

section \<open>Overlapping routes\<close>

definition overlap :: "string \<Rightarrow> string \<Rightarrow> bool" where
  "overlap t u = list_all2 (\<lambda>a b. is_param a \<or> is_param b \<or> a = b) (segments t) (segments u)"

text \<open>Pairs of routes of one method that a path may match both, the earlier one first.\<close>

fun conflicts :: "route list \<Rightarrow> (route \<times> route) list" where
  "conflicts [] = []"
| "conflicts (rt # rts) =
     map (Pair rt) (filter (\<lambda>x. rt_method x = rt_method rt \<and> overlap (rt_path rt) (rt_path x)) rts) @ conflicts rts"

lemma matches_overlap: "path_matches t p \<Longrightarrow> path_matches u p \<Longrightarrow> overlap t u"
  unfolding path_matches_def overlap_def list_all2_conv_all_nth segment_matches_def by (metis (full_types))

lemma find_first:
  assumes "rt \<in> set rts" "path_matches (rt_path rt) p"
  shows "\<exists>x. find (\<lambda>x. rt_method x = rt_method rt \<and> path_matches (rt_path x) p) rts = Some x \<and>
    (x = rt \<or> (x, rt) \<in> set (conflicts rts))"
  using assms
proof (induction rts)
  case (Cons y rts)
  then show ?case
    using matches_overlap [of "rt_path y" p "rt_path rt"] by (cases "y = rt") auto
qed simp

lemma route_conflicts:
  "map (\<lambda>(x, y). (rt_endpoint x, rt_path x, rt_endpoint y, rt_path y)) (conflicts http_routes) =
    [(''tools.list_tools_for_role'', ''/api/v1/tools/available-for/{role}'',
      ''tools.list_tool_dns_servers'', ''/api/v1/tools/{tool_name}/dns-servers''),
     (''admin_modules.reorder_dns_servers'', ''/api/v1/admin/modules/{tool_name}/dns-servers/reorder'',
      ''admin_modules.update_dns_server'', ''/api/v1/admin/modules/{tool_name}/dns-servers/{preset_id}'')]"
  by code_simp

lemma admin_routes: "list_all (\<lambda>rt. rt_admin rt = py_startswith (rt_path rt) ''/api/v1/admin/'') http_routes"
  by code_simp

lemma find_route_Inr: "find_route m p = Inr rt \<Longrightarrow> rt \<in> set http_routes \<and> rt_method rt = m \<and> path_matches (rt_path rt) p"
  by (auto simp: find_route_def dest: find_Some_in split: option.splits if_splits)

lemma path_of_segments: "p = py_join ''/'' (segments p)"
  using py_join_split [of "CHR ''/''" p] by (simp add: segments_def)

lemma template_segments:
  "segments ''/api/v1/tools/available-for/{role}'' = ['''', ''api'', ''v1'', ''tools'', ''available-for'', ''{role}'']"
  "segments ''/api/v1/tools/{tool_name}/dns-servers'' = ['''', ''api'', ''v1'', ''tools'', ''{tool_name}'', ''dns-servers'']"
  "segments ''/api/v1/admin/modules/{tool_name}/dns-servers/reorder'' =
    ['''', ''api'', ''v1'', ''admin'', ''modules'', ''{tool_name}'', ''dns-servers'', ''reorder'']"
  by code_simp+

lemma literal_matches:
  "path_matches ''/api/v1/tools/available-for/{role}'' p \<Longrightarrow> path_matches ''/api/v1/tools/{tool_name}/dns-servers'' p \<Longrightarrow>
    p = ''/api/v1/tools/available-for/dns-servers''"
  "path_matches ''/api/v1/admin/modules/{tool_name}/dns-servers/reorder'' p \<Longrightarrow>
    \<exists>tool. p = ''/api/v1/admin/modules/'' @ tool @ ''/dns-servers/reorder''"
  using path_of_segments [of p]
  by (auto simp: path_matches_def template_segments list_all2_Cons1 segment_matches_def is_param_def)

section \<open>Properties\<close>

text \<open>
  C34: every endpoint is reached by its own paths.  A path that matches a route is handed, for the
  method of the route, to that route, with two exceptions: the address that ends in \<open>reorder\<close> is
  never the preset of that name, and a tool cannot be called \<open>available-for\<close>.
\<close>

theorem routes_reached:
  assumes "rt \<in> set http_routes" "path_matches (rt_path rt) p"
  shows "find_route (rt_method rt) p = Inr rt \<or>
    (rt_endpoint rt = ''admin_modules.update_dns_server'' \<and>
      (\<exists>tool. p = ''/api/v1/admin/modules/'' @ tool @ ''/dns-servers/reorder'')) \<or>
    (rt_endpoint rt = ''tools.list_tool_dns_servers'' \<and> p = ''/api/v1/tools/available-for/dns-servers'')"
proof -
  obtain x where x: "find (\<lambda>x. rt_method x = rt_method rt \<and> path_matches (rt_path x) p) http_routes = Some x"
    and or: "x = rt \<or> (x, rt) \<in> set (conflicts http_routes)"
    using find_first [OF assms] by blast
  have found: "find_route (rt_method rt) p = Inr x"
    by (simp add: find_route_def x)
  show ?thesis
  proof (cases "x = rt")
    case False
    then have "(rt_endpoint x, rt_path x, rt_endpoint rt, rt_path rt) \<in>
        set (map (\<lambda>(x, y). (rt_endpoint x, rt_path x, rt_endpoint y, rt_path y)) (conflicts http_routes))"
      using or by force
    moreover have "path_matches (rt_path x) p"
      using find_route_Inr [OF found] by simp
    ultimately show ?thesis
      using assms(2) literal_matches by (auto simp: route_conflicts)
  qed (simp add: found)
qed

theorem routes_reached_witness:
  "find_route ''PUT'' ''/api/v1/admin/users/u1/block'' = Inr (with_prefix ''/api/v1'' (with_prefix ''/admin/users'' admin_users_block_user_route))"
proof -
  let ?rt = "with_prefix ''/api/v1'' (with_prefix ''/admin/users'' admin_users_block_user_route)"
  have "?rt \<in> set http_routes"
    by code_simp
  moreover have "path_matches (rt_path ?rt) ''/api/v1/admin/users/u1/block''"
    by code_simp
  moreover have "rt_method ?rt = ''PUT''" "rt_endpoint ?rt = ''admin_users.block_user''"
    by code_simp+
  ultimately show ?thesis
    using routes_reached [of ?rt "''/api/v1/admin/users/u1/block''"] by simp
qed

text \<open>Whether the session cookie of a request is an administrator's at that moment.\<close>

definition admin_cookie :: "env \<Rightarrow> request \<Rightarrow> world \<Rightarrow> bool" where
  "admin_cookie e r w = (\<exists>token sid u row. get_session_token r = Some token \<and>
     fst (resolve_session e (w_db w, w_redis w) (e_hash e token)) = Some (sid, Some u) \<and>
     row \<in> set (db_users (w_db w)) \<and> u_id row = u \<and> u_role row = ROLE_ADMINISTRATOR)"

lemma admin_cookie_same [simp]:
  "admin_cookie e r (w\<lparr>w_limiter := l\<rparr>) = admin_cookie e r w"
  "admin_cookie e (trusted_proxy hops r) w = admin_cookie e r w"
  by (simp_all add: admin_cookie_def get_session_token_def trusted_proxy_def Let_def)

lemma dispatch_same:
  assumes "\<And>rt. rt \<in> set http_routes \<Longrightarrow> \<not> py_startswith (rt_path rt) ''/api/v1/admin/'' \<Longrightarrow>
      h (rt_endpoint rt) = h' (rt_endpoint rt)"
    and "require_admin r \<noteq> Inr ()"
  shows "dispatch e h r w = dispatch e h' r w"
proof (cases "find_route (rq_method r) (rq_path r)")
  case (Inr rt)
  then have "rt \<in> set http_routes"
    using find_route_Inr by blast
  then show ?thesis
    using assms admin_routes by (cases "require_admin r") (auto simp: dispatch_def Inr list_all_iff)
qed (simp add: dispatch_def)

section \<open>Layers\<close>

text \<open>
  A middleware as a layer around the application: \<open>hands r w r' w'\<close> are the calls it may make of
  the application for a request \<open>r\<close> in the world \<open>w\<close>, and it learns of the application what these
  calls give only.
\<close>

locale layer =
  fixes dispatch_through :: "handler \<Rightarrow> handler"
    and hands :: "request \<Rightarrow> world \<Rightarrow> request \<Rightarrow> world \<Rightarrow> bool"
  assumes only_calls: "(\<And>r' w'. hands r w r' w' \<Longrightarrow> k r' w' = k' r' w') \<Longrightarrow> dispatch_through k r w = dispatch_through k' r w"
begin

lemma indifferent:
  assumes "\<And>r' w'. hands r w r' w' \<Longrightarrow> Q r' w'" "\<And>r' w'. Q r' w' \<Longrightarrow> k r' w' = k' r' w'"
  shows "dispatch_through k r w = dispatch_through k' r w"
  using assms by (intro only_calls) blast

end

definition hands_on :: "request \<Rightarrow> world \<Rightarrow> request \<Rightarrow> world \<Rightarrow> bool" where
  "hands_on r w r' w' \<longleftrightarrow> r' = r \<and> w' = w"

definition hands_counted :: "request \<Rightarrow> world \<Rightarrow> request \<Rightarrow> world \<Rightarrow> bool" where
  "hands_counted r w r' w' \<longleftrightarrow> r' = r \<and> (\<exists>l. w' = w\<lparr>w_limiter := l\<rparr>)"

definition hands_attached :: "env \<Rightarrow> request \<Rightarrow> world \<Rightarrow> request \<Rightarrow> world \<Rightarrow> bool" where
  "hands_attached e r w r' w' \<longleftrightarrow> (\<exists>c. session_attach e r w = (r', c, w'))"

definition hands_named :: "request \<Rightarrow> world \<Rightarrow> request \<Rightarrow> world \<Rightarrow> bool" where
  "hands_named r w r' w' \<longleftrightarrow> w' = w \<and> (\<exists>i. r' = r\<lparr>rq_state := (rq_state r)\<lparr>st_request_id := i\<rparr>\<rparr>)"

interpretation headers_layer: layer "\<lambda>k r w. security_headers_dispatch environment (\<lambda>r. k r w) r" hands_on for environment
  by unfold_locales (simp add: security_headers_dispatch_def hands_on_def)

interpretation count_layer: layer "rate_limit_dispatch cfg e" hands_counted for cfg e
proof unfold_locales
  fix r w and k k' :: handler
  assume "\<And>r' w'. hands_counted r w r' w' \<Longrightarrow> k r' w' = k' r' w'"
  then have same: "k r (w\<lparr>w_limiter := l\<rparr>) = k' r (w\<lparr>w_limiter := l\<rparr>)" for l
    by (auto simp: hands_counted_def)
  show "rate_limit_dispatch cfg e k r w = rate_limit_dispatch cfg e k' r w"
    using same same [of "w_limiter w"] by (simp add: rate_limit_dispatch_def Let_def split: prod.split sum.split)
qed

interpretation session_layer: layer "session_dispatch e" "hands_attached e" for e
proof unfold_locales
  fix r w and k k' :: handler
  assume same: "\<And>r' w'. hands_attached e r w r' w' \<Longrightarrow> k r' w' = k' r' w'"
  obtain r1 c w1 where attach: "session_attach e r w = (r1, c, w1)"
    by (rule prod_cases3)
  then have "k r1 w1 = k' r1 w1"
    by (intro same) (auto simp: hands_attached_def)
  then show "session_dispatch e k r w = session_dispatch e k' r w"
    by (simp only: session_dispatch_def attach prod.case)
qed

interpretation id_layer: layer "\<lambda>k r w. request_id_dispatch new_id (\<lambda>r. k r w) r" hands_named for new_id
proof unfold_locales
  fix r w and k k' :: handler
  assume "\<And>r' w'. hands_named r w r' w' \<Longrightarrow> k r' w' = k' r' w'"
  then have "k (r\<lparr>rq_state := (rq_state r)\<lparr>st_request_id := i\<rparr>\<rparr>) w = k' (r\<lparr>rq_state := (rq_state r)\<lparr>st_request_id := i\<rparr>\<rparr>) w" for i
    by (auto simp: hands_named_def)
  then show "request_id_dispatch new_id (\<lambda>r. k r w) r = request_id_dispatch new_id (\<lambda>r. k' r w) r"
    by (simp only: request_id_dispatch_def Let_def)
qed

text \<open>Who is no administrator to the guard stays so when the request is named, and the cookie decides.\<close>

lemma named_guard: "hands_named r w r' w' \<Longrightarrow> require_admin r' = require_admin r"
  by (auto simp: hands_named_def require_admin_def)

lemma attached_guard: "hands_attached e r w r' w' \<Longrightarrow> \<not> admin_cookie e r w \<Longrightarrow> require_admin r' \<noteq> Inr ()"
  using guard_needs_admin [of e r w r'] unfolding admin_cookie_def hands_attached_def by blast

lemma counted_cookie: "hands_counted r w r' w' \<Longrightarrow> admin_cookie e r' w' = admin_cookie e r w"
  by (auto simp: hands_counted_def)

text \<open>
  C35: the administration is closed.  Through the whole stack, whatever the other middleware does,
  the outcome of a request whose cookie is not an administrator's does not depend on any endpoint
  below \<open>/api/v1/admin/\<close>: none of them runs.  In particular a request for a path that only they
  answer is settled without any endpoint.
\<close>

theorem administration_closed:
  assumes "\<And>k k' r w. k r w = k' r w \<Longrightarrow> cors k r w = cors k' r w"
    and "\<And>rt. rt \<in> set http_routes \<Longrightarrow> \<not> py_startswith (rt_path rt) ''/api/v1/admin/'' \<Longrightarrow>
      endpoints (rt_endpoint rt) = endpoints' (rt_endpoint rt)"
    and "\<not> admin_cookie e r w"
  shows "app_stack cfg e cors (dispatch e endpoints) r w = app_stack cfg e cors (dispatch e endpoints') r w"
proof -
  let ?named = "\<lambda>es r w. request_id_dispatch (e_fresh e ''request_id'') (\<lambda>r. dispatch e es r w) r"
  have closed: "dispatch e endpoints r1 w1 = dispatch e endpoints' r1 w1" if "require_admin r1 \<noteq> Inr ()" for r1 w1
    using that by (intro dispatch_same assms(2))
  have named: "?named endpoints r1 w1 = ?named endpoints' r1 w1" if "require_admin r1 \<noteq> Inr ()" for r1 w1
    by (rule id_layer.indifferent [where Q = "\<lambda>r w. require_admin r \<noteq> Inr ()"])
      (use that in \<open>auto simp: named_guard intro: closed\<close>)
  have session: "session_dispatch e (cors (?named endpoints)) r1 w1 = session_dispatch e (cors (?named endpoints')) r1 w1"
    if "\<not> admin_cookie e r1 w1" for r1 w1
    by (rule session_layer.indifferent [where Q = "\<lambda>r w. require_admin r \<noteq> Inr ()"])
      (use that attached_guard in \<open>blast intro: assms(1) named\<close>)+
  have limited: "rate_limit_dispatch cfg e (session_dispatch e (cors (?named endpoints))) r1 w1 =
      rate_limit_dispatch cfg e (session_dispatch e (cors (?named endpoints'))) r1 w1" if "\<not> admin_cookie e r1 w1" for r1 w1
    by (rule count_layer.indifferent [where Q = "\<lambda>r w. \<not> admin_cookie e r w"])
      (use that in \<open>auto simp: counted_cookie intro: session\<close>)
  show ?thesis
    unfolding app_stack_def
    by (rule headers_layer.indifferent [where Q = "\<lambda>r w. \<not> admin_cookie e r w"])
      (use assms(3) in \<open>auto simp: hands_on_def intro: limited\<close>)
qed

definition quiet_world :: world where
  "quiet_world = \<lparr>w_db = sample_db, w_redis = sample_redis, w_limiter = \<lparr>lim_redis = Map.empty, lim_mem = []\<rparr>,
     w_auth = [], w_bruteforce = Map.empty, w_mail = []\<rparr>"

definition answers :: "int \<Rightarrow> string \<Rightarrow> (string \<times> string) list \<Rightarrow> handler" where
  "answers status name params r w = (error_response (HTTPException (if py_startswith name ''admin_'' then status else 200)), w)"

lemma admin_names:
  "list_all (\<lambda>rt. py_startswith (rt_path rt) ''/api/v1/admin/'' \<or> \<not> py_startswith (rt_endpoint rt) ''admin_'') http_routes"
  by code_simp

theorem administration_closed_witness:
  "app_stack \<lparr>cfg_environment = ''production'', cfg_storage = ''redis'', cfg_trusted_hops = 1\<rparr> sample_env (\<lambda>k. k) (dispatch sample_env (answers 200)) (visitor_request ''h'') quiet_world =
   app_stack \<lparr>cfg_environment = ''production'', cfg_storage = ''redis'', cfg_trusted_hops = 1\<rparr> sample_env (\<lambda>k. k) (dispatch sample_env (answers 500)) (visitor_request ''h'') quiet_world"
proof (rule administration_closed)
  show "answers 200 (rt_endpoint rt) = answers 500 (rt_endpoint rt)"
    if "rt \<in> set http_routes" "\<not> py_startswith (rt_path rt) ''/api/v1/admin/''" for rt
    using that admin_names by (auto simp: answers_def fun_eq_iff list_all_iff)
  show "\<not> admin_cookie sample_env (visitor_request ''h'') quiet_world"
    by (simp add: admin_cookie_def get_session_token_def visitor_request_def SESSION_COOKIE_NAMES_def)
qed

end
