(* ===== verification/Mail.thy ===== *)
theory Mail
  imports Auth
begin

text \<open>
  \<open>app/services/email_service.py\<close> and the mails of \<open>app/services/auth_service.py\<close>: the pages that are
  sent, the conversation with the mail server, and what the link of a registration mail leads to.
  The mail server is a parameter: whether a command succeeds after the commands before it.
\<close>

section \<open>The pages\<close>

text \<open>The lines of a page; a line feed ends every line but the last.\<close>

definition page :: "string list \<Rightarrow> string" where
  "page ls = py_join [CHR 0x0A] ls"

definition render_verification_email :: "string \<Rightarrow> string" where
  "render_verification_email verification_url = page
    [''<html>'',
     ''<body style=\"font-family: system-ui, sans-serif; max-width: 480px; margin: 0 auto; padding: 20px;\">'',
     ''  <h1 style=\"color: #1a1a2e;\">Verify your SAKN account</h1>'',
     ''  <p>Click the link below to verify your email address:</p>'',
     ''  <p><a href=\"'' @ verification_url @ ''\" style=\"display: inline-block; padding: 10px 20px;'',
     ''        background: #2563eb; color: white; text-decoration: none; border-radius: 6px;\">'',
     ''        Verify Email</a></p>'',
     ''  <p style=\"color: #6b7280; font-size: 0.875rem;\">This link expires in 24 hours.</p>'',
     ''  <p style=\"color: #6b7280; font-size: 0.875rem;\">'',
     ''        If you did not create this account, you can ignore this email.</p>'',
     ''</body>'',
     ''</html>'']"

definition render_reset_email :: "string \<Rightarrow> string" where
  "render_reset_email reset_url = page
    [''<html>'',
     ''<body style=\"font-family: system-ui, sans-serif; max-width: 480px; margin: 0 auto; padding: 20px;\">'',
     ''  <h1 style=\"color: #1a1a2e;\">Reset your SAKN password</h1>'',
     ''  <p>Click the link below to reset your password:</p>'',
     ''  <p><a href=\"'' @ reset_url @ ''\" style=\"display: inline-block; padding: 10px 20px;'',
     ''        background: #2563eb; color: white; text-decoration: none; border-radius: 6px;\">'',
     ''        Reset Password</a></p>'',
     ''  <p style=\"color: #6b7280; font-size: 0.875rem;\">This link expires in 1 hour.</p>'',
     ''  <p style=\"color: #6b7280; font-size: 0.875rem;\">'',
     ''        If you did not request this, you can ignore this email.</p>'',
     ''</body>'',
     ''</html>'']"

section \<open>The mail server\<close>

record mail_settings =
  ms_host :: string
  ms_port :: int
  ms_username :: string
  ms_password :: string
  ms_from :: string

record mail_message =
  mm_from :: string
  mm_to :: string
  mm_subject :: string
  mm_html :: string

datatype smtp_command =
    Connect string int
  | StartTls
  | SmtpLogin string string
  | SendMail string string mail_message

text \<open>The commands are given in order until one fails; the result has those that were given.\<close>

fun give :: "(smtp_command list \<Rightarrow> smtp_command \<Rightarrow> bool) \<Rightarrow> smtp_command list \<Rightarrow> smtp_command list \<Rightarrow>
    bool \<times> smtp_command list" where
  "give server given [] = (True, given)"
| "give server given (x # xs) =
     (if server given x then give server (given @ [x]) xs else (False, given @ [x]))"

definition smtp_commands :: "mail_settings \<Rightarrow> string \<Rightarrow> string \<Rightarrow> string \<Rightarrow> smtp_command list" where
  "smtp_commands c to subject html =
     [Connect (ms_host c) (ms_port c), StartTls]
     @ (if ms_username c \<noteq> [] then [SmtpLogin (ms_username c) (ms_password c)] else [])
     @ [SendMail (ms_from c) to \<lparr>mm_from = ms_from c, mm_to = to, mm_subject = subject, mm_html = html\<rparr>]"

definition smtp_send ::
  "mail_settings \<Rightarrow> (smtp_command list \<Rightarrow> smtp_command \<Rightarrow> bool) \<Rightarrow> string \<Rightarrow> string \<Rightarrow> string \<Rightarrow>
    bool \<times> smtp_command list" where
  "smtp_send c server to subject html =
     (if ms_host c = [] then (False, []) else give server [] (smtp_commands c to subject html))"

section \<open>Lemmas\<close>

text \<open>
  Credentials and mails are sent after the server has agreed to encrypt, and the sender reports
  success exactly if the server has taken the mail.
\<close>

lemma mail_encrypted:
  assumes "smtp_send c server to subject html = (ok, given)"
  shows "x \<in> set given \<Longrightarrow> x \<noteq> Connect (ms_host c) (ms_port c) \<Longrightarrow> x \<noteq> StartTls \<Longrightarrow>
      server [Connect (ms_host c) (ms_port c)] StartTls"
    and "ok \<longleftrightarrow> ms_host c \<noteq> [] \<and> given = smtp_commands c to subject html \<and> server (butlast given) (last given)"
  using assms by (auto simp: smtp_send_def smtp_commands_def split: if_splits)

section \<open>Following the link\<close>

text \<open>What a reader of the page gets as its first link.\<close>

fun after_text :: "string \<Rightarrow> string \<Rightarrow> string option" where
  "after_text p [] = None"
| "after_text p (c # cs) = (if py_startswith (c # cs) p then Some (drop (length p) (c # cs)) else after_text p cs)"

definition first_link :: "string \<Rightarrow> string option" where
  "first_link html = map_option (takeWhile (\<lambda>c. c \<noteq> CHR 0x22)) (after_text ''<a href=\"'' html)"

lemma takeWhile_quote: "CHR 0x22 \<notin> set url \<Longrightarrow> takeWhile (\<lambda>c. c \<noteq> CHR 0x22) (url @ CHR 0x22 # rest) = url"
  by (induction url) auto

lemma link_of_page:
  assumes "CHR 0x22 \<notin> set url"
  shows "first_link (render_verification_email url) = Some url" "first_link (render_reset_email url) = Some url"
  using takeWhile_quote [OF assms]
  by (simp_all add: first_link_def render_verification_email_def render_reset_email_def page_def)

lemma new_user_id [simp]: "u_id (new_user c e email password first_name last_name) = e_fresh e ''user_id''"
  by (simp add: new_user_def)

lemma weak_password_key: "validate_password_strength c password = (False, k) \<Longrightarrow> or_default k [] \<noteq> ''auth.registration_success''"
  by (auto simp: validate_password_strength_def Let_def split: if_splits)

lemma filter_key_none [simp]: "k \<notin> f ` set xs \<Longrightarrow> filter (\<lambda>x. f x = k) xs = []"
  by (induction xs) auto

lemma update_appended:
  assumes "u_id u \<notin> set (map u_id us)"
  shows "update_where (\<lambda>x. u_id x = u_id u) f (us @ [u]) = us @ [f u]"
proof -
  have "update_where (\<lambda>x. u_id x = u_id u) f us = us"
    by (rule update_where_none) (use assms in \<open>auto simp: image_iff\<close>)
  then show ?thesis
    by (simp add: update_where_def)
qed

text \<open>What a successful registration of a new address leaves.\<close>

lemma register_success:
  assumes "register_user c e w email password confirm first_name last_name ip = (Inr ''auth.registration_success'', w1, d1)"
    and "normalize_email email \<notin> set (map u_email (db_users (w_db w)))"
  defines "user \<equiv> new_user c e (normalize_email email) password first_name last_name"
    and "mt \<equiv> mail_token_of e (e_fresh e ''user_id'') VERIFICATION_TOKEN_TTL (e_fresh e ''token'')"
  shows "w1 = send_email c (normalize_email email) ''Verify your SAKN account''
      (ac_frontend c @ ''/verify-email?token='' @ e_fresh e ''token'') (w\<lparr>w_db := d1\<rparr>)"
    and "db_users d1 = db_users (w_db w) @ [user]" "db_sessions d1 = db_sessions (w_db w)"
    and "db_verifications d1 = db_verifications (w_db w) @ [mt]"
    and "mt_token_hash mt \<notin> set (map mt_token_hash (db_verifications (w_db w)))"
  using assms(1,2) weak_password_key [of c password]
  by (auto simp: register_user_def insert_mail_token_def user_def mt_def log_security_event_def Let_def
      split: if_splits prod.splits sum.splits)

lemma verify_activates:
  assumes "filter (\<lambda>v. mt_token_hash v = e_hash e token) (db_verifications (w_db w)) = [mt]"
    and "\<not> mt_used mt" "\<not> mt_expires_at mt < e_now e"
    and "db_users (w_db w) = us @ [user]" "u_id user \<notin> set (map u_id us)" "mt_user_id mt = u_id user"
  shows "\<exists>d. verify_email e w token = (Inr (True, ''auth.email_verified''), w\<lparr>w_db := d\<rparr>, w_db w) \<and>
    db_users d = us @ [save_user (e_now e) (\<lambda>u. u\<lparr>u_status := ''active'', u_email_verified_at := Some (e_now e)\<rparr>) user] \<and>
    db_sessions d = db_sessions (w_db w)"
proof -
  have "filter (\<lambda>u. u_id u = u_id user) (db_users (w_db w)) = [user]"
    using assms(5) by (simp add: assms(4))
  then show ?thesis
    using assms by (auto simp: verify_email_def user_by_id_def update_user_def update_appended Let_def)
qed

text \<open>
  C36: registration leads to a login.  When a new address registers, one mail goes to it; the first
  link of its page carries a token, and whoever follows it within a day makes the account an
  active, verified one that then signs in with the address and the password of the registration.
\<close>

theorem registration_completes:
  assumes "register_user c e1 w email password confirm first_name last_name ip1 = (Inr ''auth.registration_success'', w1, d1)"
    and "normalize_email email \<notin> set (map u_email (db_users (w_db w)))" "ac_smtp c"
    and "e_fresh e1 ''user_id'' \<notin> set (map u_id (db_users (w_db w)))"
    and "CHR 0x22 \<notin> set (ac_frontend c)" "CHR 0x22 \<notin> set (e_fresh e1 ''token'')"
    and "e_hash e2 = e_hash e1" "e_now e2 \<le> e_now e1 + sec 86400"
    and "ac_verify c password (ac_hash_password c password)" "\<not> check_ip_bruteforce c e3 w ip3"
    and "e_fresh e3 ''session_id'' \<notin> set (map s_id (db_sessions (w_db w)))"
    and "e_hash e3 (e_fresh e3 ''session_token'') \<notin> set (map s_token_hash (db_sessions (w_db w)))"
  shows "\<exists>url token. w_mail w1 = w_mail w @ [(normalize_email email, ''Verify your SAKN account'', url)] \<and>
    first_link (render_verification_email url) = Some (ac_frontend c @ ''/verify-email?token='' @ token) \<and>
    (\<exists>w2 d2. verify_email e2 w1 token = (Inr (True, ''auth.email_verified''), w2, d2) \<and>
      (\<exists>view st th sid w3 d3. login c e3 w2 email password ip3 ua = (Inr (LoginOk view st th sid), w3, d3) \<and>
        vw_email view = normalize_email email \<and> vw_role view = ROLE_AUTHENTICATED \<and>
        vw_status view = ''active'' \<and> vw_email_verified view))"
proof -
  let ?token = "e_fresh e1 ''token''" and ?user = "new_user c e1 (normalize_email email) password first_name last_name"
  let ?url = "ac_frontend c @ ''/verify-email?token='' @ ?token"
  let ?active = "save_user (e_now e2) (\<lambda>u. u\<lparr>u_status := ''active'', u_email_verified_at := Some (e_now e2)\<rparr>) ?user"
  note reg = register_success [OF assms(1,2)]
  have mail: "w_mail w1 = w_mail w @ [(normalize_email email, ''Verify your SAKN account'', ?url)]" "w_db w1 = d1"
    by (simp_all add: reg(1) send_email_def assms(3))
  have link: "first_link (render_verification_email ?url) = Some ?url"
    using assms(5,6) by (intro link_of_page) auto
  obtain d2 where verify: "verify_email e2 w1 ?token = (Inr (True, ''auth.email_verified''), w1\<lparr>w_db := d2\<rparr>, d1)"
    and db2: "db_users d2 = db_users (w_db w) @ [?active]" "db_sessions d2 = db_sessions (w_db w)"
    using verify_activates [of e2 ?token w1 "mail_token_of e1 (e_fresh e1 ''user_id'') VERIFICATION_TOKEN_TTL ?token"
        "db_users (w_db w)" ?user] reg(2-5) assms(4,7,8) mail(2)
    by (auto simp: mail_token_of_def VERIFICATION_TOKEN_TTL_def)
  have active: "u_email ?active = normalize_email email" "u_role ?active = ROLE_AUTHENTICATED" "u_status ?active = ''active''"
    "u_email_verified_at ?active = Some (e_now e2)" "u_password_hash ?active = ac_hash_password c password"
    "u_locked_until ?active = None" "u_failed_login_attempts ?active = 0"
    by (simp_all add: save_user_def new_user_def)
  have lookup: "user_by_email d2 (normalize_email email) = Inr (Some ?active)"
    using assms(2) by (simp add: user_by_email_def db2 active)
  have lock: "check_brute_force_lock (e_now e3) ?active = (False, None)"
    by (simp add: check_brute_force_lock_def active)
  have reset: "save_user (e_now e3) (\<lambda>u. u\<lparr>u_failed_login_attempts := 0, u_locked_until := None\<rparr>) ?active = ?active"
    using active(6,7) by (simp add: save_user_def)
  have ips: "\<not> check_ip_bruteforce c e3 (w1\<lparr>w_db := d2\<rparr>) ip3"
    using assms(10) by (simp add: reg(1))
  obtain loc st th sid w3 d3 where "login c e3 (w1\<lparr>w_db := d2\<rparr>) email password ip3 ua =
      (Inr (LoginOk (view_user loc ?active) st th sid), w3, d3)"
    using login_opens [of "w1\<lparr>w_db := d2\<rparr>" email ?active e3 c password ip3 ua] assms(9,11,12) lookup ips db2 active
    by (auto simp: lock reset)
  moreover have "vw_email (view_user loc ?active) = normalize_email email" "vw_role (view_user loc ?active) = ROLE_AUTHENTICATED"
    "vw_status (view_user loc ?active) = ''active''" "vw_email_verified (view_user loc ?active)"
    by (simp_all add: view_user_def active)
  ultimately show ?thesis
    using mail(1) link verify by blast
qed

definition newcomer_cfg :: auth_cfg where
  "newcomer_cfg = sample_cfg\<lparr>ac_verify := \<lambda>p h. h = ''hash'', ac_smtp := True, ac_frontend := ''https://sakn.example.org''\<rparr>"

theorem registration_completes_witness:
  "\<exists>token w1 w2 d2 view st th sid w3 d3.
     verify_email sample_env w1 token = (Inr (True, ''auth.email_verified''), w2, d2) \<and>
     login newcomer_cfg sample_env w2 '' Ann@Example.org'' ''Abcdefg1'' ''1.2.3.4'' None = (Inr (LoginOk view st th sid), w3, d3) \<and>
     vw_status view = ''active''"
proof -
  let ?reg = "register_user newcomer_cfg sample_env (sample_world empty_db) '' Ann@Example.org'' ''Abcdefg1'' ''Abcdefg1'' ''Ann'' ''B'' ''1.2.3.4''"
  have "fst ?reg = Inr ''auth.registration_success''"
    by code_simp
  then obtain w1 d1 where reg: "?reg = (Inr ''auth.registration_success'', w1, d1)"
    by (metis prod.collapse)
  have "ac_smtp newcomer_cfg" "CHR 0x22 \<notin> set (ac_frontend newcomer_cfg)" "CHR 0x22 \<notin> set (e_fresh sample_env ''token'')"
    "ac_verify newcomer_cfg ''Abcdefg1'' (ac_hash_password newcomer_cfg ''Abcdefg1'')"
    "\<not> check_ip_bruteforce newcomer_cfg sample_env (sample_world empty_db) ''1.2.3.4''" "e_now sample_env \<le> e_now sample_env + sec 86400"
    by code_simp+
  moreover have "w_db (sample_world empty_db) = empty_db" "db_sessions empty_db = []" "db_users empty_db = []"
    by (simp_all add: sample_world_def empty_db_def)
  ultimately show ?thesis
    using registration_completes [OF reg, of sample_env sample_env "''1.2.3.4''" None] by simp blast
qed

end
