(* ===== verification/Bodies.thy ===== *)
theory Bodies
  imports Account Json
begin

text \<open>
  The bodies of the requests of users: the Pydantic classes of \<open>auth.py\<close>, \<open>account.py\<close> and
  \<open>preferences.py\<close> under \<open>app/api/v1/endpoints\<close>, the answer to a body that does not fit
  (\<open>app/api/errors.py\<close>), and the endpoints on the bodies they are sent.
\<close>

section \<open>Classes\<close>

text \<open>A field holds a string, or also null, and may have a default.\<close>

record model_field =
  mf_name :: string
  mf_nullable :: bool
  mf_default :: "json option"

definition str_field :: "string \<Rightarrow> model_field" where
  "str_field name = \<lparr>mf_name = name, mf_nullable = False, mf_default = None\<rparr>"

definition opt_field :: "string \<Rightarrow> model_field" where
  "opt_field name = \<lparr>mf_name = name, mf_nullable = True, mf_default = Some JNull\<rparr>"

definition RegisterRequest :: "model_field list" where
  "RegisterRequest = map str_field [''email'', ''password'', ''password_confirm'', ''first_name'', ''last_name''] @
     [(str_field ''locale'')\<lparr>mf_default := Some (JStr ''en-US'')\<rparr>]"

definition LoginRequest :: "model_field list" where
  "LoginRequest = map str_field [''email'', ''password'']"

definition VerifyEmailRequest :: "model_field list" where
  "VerifyEmailRequest = [str_field ''token'']"

definition PasswordResetRequest :: "model_field list" where
  "PasswordResetRequest = [str_field ''email'']"

definition ResetPasswordRequest :: "model_field list" where
  "ResetPasswordRequest = map str_field [''token'', ''password'', ''password_confirm'']"

definition ProfileUpdate :: "model_field list" where
  "ProfileUpdate = map opt_field [''first_name'', ''last_name'']"

definition DeleteAccountRequest :: "model_field list" where
  "DeleteAccountRequest = [str_field ''password'']"

definition PreferencesUpdate :: "model_field list" where
  "PreferencesUpdate = map opt_field [''language'', ''locale'', ''theme'', ''display_mode'', ''tool'']"

definition REQUEST_MODELS :: "model_field list list" where
  "REQUEST_MODELS = [RegisterRequest, LoginRequest, VerifyEmailRequest, PasswordResetRequest,
     ResetPasswordRequest, ProfileUpdate, DeleteAccountRequest, PreferencesUpdate]"

section \<open>Validation\<close>

text \<open>
  What FastAPI and Pydantic report: the body may be absent or no JSON (then the location is the
  offset of the error), and the fields of an object are reported in the order of the class.
\<close>

datatype raw_body =
    NoBody
  | NotJson string
  | ParsedBody json

definition pydantic_error :: "string list \<Rightarrow> string \<Rightarrow> string \<Rightarrow> field_error" where
  "pydantic_error loc kind msg = \<lparr>fe_loc = ''body'' # loc, fe_type = Some kind, fe_msg = Some msg\<rparr>"

definition field_type_ok :: "model_field \<Rightarrow> json \<Rightarrow> bool" where
  "field_type_ok f v = (case v of JStr _ \<Rightarrow> True | JNull \<Rightarrow> mf_nullable f | _ \<Rightarrow> False)"

definition check_field :: "(string \<times> json) list \<Rightarrow> model_field \<Rightarrow> field_error list" where
  "check_field kvs f =
     (case map_of kvs (mf_name f) of
        None \<Rightarrow> if mf_default f = None then [pydantic_error [mf_name f] ''missing'' ''Field required''] else []
      | Some v \<Rightarrow> if field_type_ok f v then []
                  else [pydantic_error [mf_name f] ''string_type'' ''Input should be a valid string''])"

fun body_errors :: "model_field list \<Rightarrow> raw_body \<Rightarrow> field_error list" where
  "body_errors flds NoBody = [pydantic_error [] ''missing'' ''Field required'']"
| "body_errors flds (ParsedBody JNull) = [pydantic_error [] ''missing'' ''Field required'']"
| "body_errors flds (NotJson pos) = [pydantic_error [pos] ''json_invalid'' ''JSON decode error'']"
| "body_errors flds (ParsedBody (JObj kvs)) = concat (map (check_field kvs) flds)"
| "body_errors flds (ParsedBody v) =
     [pydantic_error [] ''model_attributes_type'' ''Input should be a valid dictionary or object to extract fields from'']"

text \<open>The value a field has once the body is accepted.\<close>

definition field_value :: "model_field list \<Rightarrow> raw_body \<Rightarrow> string \<Rightarrow> json" where
  "field_value flds raw name =
     (case raw of
        ParsedBody (JObj kvs) \<Rightarrow>
          (case map_of kvs name of
             Some v \<Rightarrow> v
           | None \<Rightarrow> (case find (\<lambda>f. mf_name f = name) flds of
                 Some f \<Rightarrow> or_default (mf_default f) JNull
               | None \<Rightarrow> JNull))
      | _ \<Rightarrow> JNull)"

fun text_of_json :: "json \<Rightarrow> string option" where
  "text_of_json (JStr s) = Some s"
| "text_of_json v = None"

definition text_value :: "model_field list \<Rightarrow> raw_body \<Rightarrow> string \<Rightarrow> string" where
  "text_value flds raw name = or_default (text_of_json (field_value flds raw name)) []"

section \<open>The answer to a body that does not fit\<close>

definition field_errors_json :: "(string \<times> string \<times> string) list \<Rightarrow> json" where
  "field_errors_json fs = JObj (map (\<lambda>(field, key, msg). (field, JObj [(''message_key'', JStr key), (''message'', JStr msg)])) fs)"

definition pydantic_validation_handler :: "field_error list \<Rightarrow> int \<times> json" where
  "pydantic_validation_handler errors =
     (let field_errors = build_field_errors errors
      in (422, JObj [(''error'', JObj [(''code'', JStr ''VALIDATION_ERROR''), (''message_key'', JStr ''errors.validation''),
            (''message'', JStr ''Validation failed.''),
            (''details'', if field_errors \<noteq> [] then JObj [(''fields'', field_errors_json field_errors)] else JNull)])]))"

definition with_body ::
    "model_field list \<Rightarrow> raw_body \<Rightarrow> ('s \<Rightarrow> 'a \<times> 's) \<Rightarrow> 's \<Rightarrow> (int \<times> json + 'a) \<times> 's" where
  "with_body flds raw endpoint st =
     (if body_errors flds raw \<noteq> [] then (Inl (pydantic_validation_handler (body_errors flds raw)), st)
      else (case endpoint st of (x, st') \<Rightarrow> (Inr x, st')))"

section \<open>The endpoints\<close>

definition post_register ::
    "auth_cfg \<Rightarrow> env \<Rightarrow> raw_body \<Rightarrow> request \<Rightarrow> world \<Rightarrow> (int \<times> json + exn + int \<times> string) \<times> world" where
  "post_register c e raw r =
     (let body = text_value RegisterRequest raw
      in with_body RegisterRequest raw (register_endpoint c e
           \<lparr>rb_email = body ''email'', rb_password = body ''password'', rb_password_confirm = body ''password_confirm'',
            rb_first_name = body ''first_name'', rb_last_name = body ''last_name''\<rparr> r))"

definition post_login ::
    "auth_cfg \<Rightarrow> env \<Rightarrow> raw_body \<Rightarrow> request \<Rightarrow> world \<Rightarrow> (int \<times> json + exn + user_view \<times> response) \<times> world" where
  "post_login c e raw r =
     (let body = text_value LoginRequest raw
      in with_body LoginRequest raw (login_endpoint c e (body ''email'') (body ''password'') r))"

definition post_verify_email :: "env \<Rightarrow> raw_body \<Rightarrow> world \<Rightarrow> (int \<times> json + exn + string) \<times> world" where
  "post_verify_email e raw =
     with_body VerifyEmailRequest raw (verify_email_endpoint e (text_value VerifyEmailRequest raw ''token''))"

definition post_request_password_reset ::
    "auth_cfg \<Rightarrow> env \<Rightarrow> raw_body \<Rightarrow> request \<Rightarrow> world \<Rightarrow> (int \<times> json + exn + string) \<times> world" where
  "post_request_password_reset c e raw r =
     with_body PasswordResetRequest raw (request_password_reset_endpoint c e (text_value PasswordResetRequest raw ''email'') r)"

definition post_reset_password ::
    "auth_cfg \<Rightarrow> env \<Rightarrow> raw_body \<Rightarrow> request \<Rightarrow> world \<Rightarrow> (int \<times> json + exn + string) \<times> world" where
  "post_reset_password c e raw r =
     (let body = text_value ResetPasswordRequest raw
      in with_body ResetPasswordRequest raw
           (reset_password_endpoint c e (body ''token'') (body ''password'') (body ''password_confirm'') r))"

definition put_profile :: "env \<Rightarrow> raw_body \<Rightarrow> request \<Rightarrow> db \<Rightarrow> (int \<times> json + exn + user) \<times> db" where
  "put_profile e raw r =
     (let body = (\<lambda>name. text_of_json (field_value ProfileUpdate raw name))
      in with_body ProfileUpdate raw (update_profile_endpoint e (body ''first_name'') (body ''last_name'') r))"

definition delete_account :: "auth_cfg \<Rightarrow> raw_body \<Rightarrow> request \<Rightarrow> db \<Rightarrow> (int \<times> json + exn + unit) \<times> db" where
  "delete_account c raw r =
     with_body DeleteAccountRequest raw (delete_account_endpoint c (text_value DeleteAccountRequest raw ''password'') r)"

text \<open>
  Preferences allow any further key.  \<open>getattr\<close> gives such a key the attribute of the class when it
  has one of that name (\<open>model_attr\<close>: its text, unless it is None), and the value sent otherwise;
  \<open>order\<close> is the order in which a set of names is run through.
\<close>

definition preference_text :: "(string \<Rightarrow> string option) \<Rightarrow> (string \<times> json) list \<Rightarrow> string \<Rightarrow> string option" where
  "preference_text model_attr kvs name =
     (if name \<notin> mf_name ` set PreferencesUpdate \<and> model_attr name \<noteq> None then model_attr name
      else (case map_of kvs name of
              Some JNull \<Rightarrow> None
            | Some v \<Rightarrow> Some (py_str v)
            | None \<Rightarrow> None))"

definition preference_updates ::
    "(string \<Rightarrow> string option) \<Rightarrow> (string list \<Rightarrow> string list) \<Rightarrow> raw_body \<Rightarrow> (string \<times> string option) list" where
  "preference_updates model_attr order raw =
     (case raw of
        ParsedBody (JObj kvs) \<Rightarrow> map (\<lambda>name. (name, preference_text model_attr kvs name)) (order (map fst kvs))
      | _ \<Rightarrow> [])"


section \<open>Lemmas\<close>

lemma check_field_loc: "x \<in> set (check_field kvs f) \<Longrightarrow> fe_loc x = [''body'', mf_name f]"
  by (auto simp: check_field_def pydantic_error_def split: option.splits if_splits)

lemma find_concat_fields:
  assumes "distinct (map mf_name flds)"
  shows "find (\<lambda>x. take 2 (fe_loc x) = [''body'', name]) (concat (map (check_field kvs) flds)) =
    (case find (\<lambda>f. mf_name f = name) flds of
       Some f \<Rightarrow> find (\<lambda>x. True) (check_field kvs f)
     | None \<Rightarrow> None)"
  using assms
proof (induction flds)
  case (Cons f flds)
  have miss: "find (\<lambda>x. take 2 (fe_loc x) = [''body'', name]) (check_field kvs f) = None" if "mf_name f \<noteq> name"
    using that by (auto simp: find_None_iff dest: check_field_loc)
  have hit: "find (\<lambda>x. take 2 (fe_loc x) = [''body'', mf_name f]) (check_field kvs f) = find (\<lambda>x. True) (check_field kvs f)"
    by (rule find_cong) (auto dest: check_field_loc)
  have "find (\<lambda>g. mf_name g = mf_name f) flds = None"
    using Cons.prems by (auto simp: find_None_iff image_iff)
  then show ?case
    using Cons by (cases "mf_name f = name") (auto simp: find_append_prefs miss hit split: option.split)
qed simp

lemma request_models_distinct: "list_all (\<lambda>flds. distinct (map mf_name flds)) REQUEST_MODELS"
  by code_simp

lemma field_entry_text [simp]:
  "field_entry (pydantic_error loc ''missing'' msg) = (''errors.field_required'', ''This field is required.'')"
  "field_entry (pydantic_error loc ''string_type'' msg) = (''errors.invalid_type'', ''Invalid type.'')"
  by (simp_all add: field_entry_def pydantic_error_def or_default_def dict_get_def PYDANTIC_ERROR_MESSAGE_KEYS_def
      PYDANTIC_ERROR_MESSAGES_def)

lemma check_field_Nil:
  "check_field kvs f = [] \<longleftrightarrow>
     (case map_of kvs (mf_name f) of None \<Rightarrow> mf_default f \<noteq> None | Some v \<Rightarrow> field_type_ok f v)"
  by (simp add: check_field_def split: option.split)


section \<open>Properties\<close>

text \<open>
  C38: which bodies are refused, and what the answer names.  For every class of the interface a
  body is accepted exactly if it is a JSON object, no field without a default is missing and every
  field it has is of its type; nothing else is asked of a text, an e-mail address included.  For
  an object that is refused the answer names each field that is missing or ill typed, with that
  reason, and no other.
\<close>

theorem refused_bodies_named:
  assumes "flds \<in> set REQUEST_MODELS"
  shows "(body_errors flds raw = [] \<longleftrightarrow>
      (\<exists>kvs. raw = ParsedBody (JObj kvs) \<and>
        (\<forall>f \<in> set flds. case map_of kvs (mf_name f) of None \<Rightarrow> mf_default f \<noteq> None | Some v \<Rightarrow> field_type_ok f v))) \<and>
    map_of (build_field_errors (body_errors flds (ParsedBody (JObj kvs)))) name =
      (case find (\<lambda>f. mf_name f = name) flds of
         None \<Rightarrow> None
       | Some f \<Rightarrow> (case map_of kvs name of
             None \<Rightarrow> if mf_default f = None then Some (''errors.field_required'', ''This field is required.'') else None
           | Some v \<Rightarrow> if field_type_ok f v then None else Some (''errors.invalid_type'', ''Invalid type.'')))"
proof
  show "body_errors flds raw = [] \<longleftrightarrow>
      (\<exists>kvs. raw = ParsedBody (JObj kvs) \<and>
        (\<forall>f \<in> set flds. case map_of kvs (mf_name f) of None \<Rightarrow> mf_default f \<noteq> None | Some v \<Rightarrow> field_type_ok f v))"
    by (cases "(flds, raw)" rule: body_errors.cases) (simp_all add: check_field_Nil)
  have "distinct (map mf_name flds)"
    using assms request_models_distinct by (auto simp: list_all_iff)
  then show "map_of (build_field_errors (body_errors flds (ParsedBody (JObj kvs)))) name =
      (case find (\<lambda>f. mf_name f = name) flds of
         None \<Rightarrow> None
       | Some f \<Rightarrow> (case map_of kvs name of
             None \<Rightarrow> if mf_default f = None then Some (''errors.field_required'', ''This field is required.'') else None
           | Some v \<Rightarrow> if field_type_ok f v then None else Some (''errors.invalid_type'', ''Invalid type.'')))"
    by (auto simp: field_errors_first find_concat_fields check_field_def dest: find_Some_in split: option.split)
qed

theorem refused_bodies_named_witness:
  "map_of (build_field_errors (body_errors LoginRequest (ParsedBody (JObj [(''email'', JInt 1)])))) ''password'' =
     Some (''errors.field_required'', ''This field is required.'') \<and>
   map_of (build_field_errors (body_errors LoginRequest (ParsedBody (JObj [(''email'', JInt 1)])))) ''email'' =
     Some (''errors.invalid_type'', ''Invalid type.'')"
proof -
  have "LoginRequest \<in> set REQUEST_MODELS"
    by (simp add: REQUEST_MODELS_def)
  note named = refused_bodies_named [OF this, of NoBody "[(''email'', JInt 1)]", THEN conjunct2]
  show ?thesis
    using named [of "''password''"] named [of "''email''"] by (simp add: LoginRequest_def str_field_def field_type_ok_def)
qed





text \<open>
  A key that is the name of an attribute of the class is stored with the text of that attribute,
  whatever was sent, also null.
\<close>

lemma attribute_shadows_preference:
  assumes "k \<notin> mf_name ` set PreferencesUpdate" "model_attr k = Some t" "k \<in> set (order (map fst kvs))"
  shows "map_of (preference_updates model_attr order (ParsedBody (JObj kvs))) k = Some (Some t)"
  using assms by (simp add: preference_updates_def preference_text_def map_of_map_restrict)

text \<open>A body that is no JSON is answered as if the offset of the error were a field.\<close>

lemma offset_named_as_field:
  "map_of (build_field_errors (body_errors flds (NotJson pos))) pos = Some (''errors.invalid_value'', ''JSON decode error'')"
  by (simp add: field_errors_first pydantic_error_def field_entry_def or_default_def dict_get_def
      PYDANTIC_ERROR_MESSAGE_KEYS_def PYDANTIC_ERROR_MESSAGES_def)

text \<open>Registration takes any text for an e-mail address.\<close>

lemma any_text_is_an_address:
  "body_errors RegisterRequest (ParsedBody (JObj [(''email'', JStr ''notanemail''), (''password'', JStr p),
     (''password_confirm'', JStr p), (''first_name'', JStr f), (''last_name'', JStr l)])) = []"
  by (simp add: RegisterRequest_def str_field_def check_field_def field_type_ok_def)

end
