(* ===== verification/Results.thy ===== *)
theory Results
  imports Ping Traceroute Dns_Tool Ssl_Tool
begin

text \<open>
  What the tools answer and what they declare of it: \<open>get_result_schema\<close> of the four tools
  (\<open>app/tools\<close>), the JSON form of the results of the lookup and of the TLS viewer, and that the
  results meet the schemas.
\<close>

section \<open>Schemas\<close>

text \<open>
  The JSON Schemas the tools use: a type, a string out of a list, an array of one schema, an object
  with declared properties, and an object all of whose members have one schema.
\<close>

datatype js_schema =
    Type string
  | OneOf "string list"
  | Items js_schema
  | Props "(string \<times> js_schema) list"
  | Values js_schema

fun schema_dict :: "js_schema \<Rightarrow> json" where
  "schema_dict (Type t) = JObj [(''type'', JStr t)]"
| "schema_dict (OneOf vs) = JObj [(''type'', JStr ''string''), (''enum'', JList (map JStr vs))]"
| "schema_dict (Items s) = JObj [(''type'', JStr ''array''), (''items'', schema_dict s)]"
| "schema_dict (Props ps) = JObj [(''type'', JStr ''object''), (''properties'', JObj (map (\<lambda>p. (fst p, schema_dict (snd p))) ps))]"
| "schema_dict (Values s) = JObj [(''type'', JStr ''object''), (''additionalProperties'', schema_dict s)]"

text \<open>
  A number is an \<open>int\<close> or a \<open>float\<close> and no text.  Properties that are not declared, or declared and absent, are no fault.
\<close>

definition has_type :: "string \<Rightarrow> json \<Rightarrow> bool" where
  "has_type t v =
     (case v of
        JNull \<Rightarrow> t = ''null''
      | JBool _ \<Rightarrow> t = ''boolean''
      | JInt _ \<Rightarrow> t = ''integer'' \<or> t = ''number''
      | JFloat _ \<Rightarrow> t = ''number''
      | JStr s \<Rightarrow> t = ''string''
      | JList _ \<Rightarrow> t = ''array''
      | JObj _ \<Rightarrow> t = ''object'')"

fun conforms :: "js_schema \<Rightarrow> json \<Rightarrow> bool" where
  "conforms (Type t) v = has_type t v"
| "conforms (OneOf vs) v = (case v of JStr s \<Rightarrow> s \<in> set vs | _ \<Rightarrow> False)"
| "conforms (Items s) v = (case v of JList js \<Rightarrow> list_all (conforms s) js | _ \<Rightarrow> False)"
| "conforms (Props ps) v =
     (case v of
        JObj kvs \<Rightarrow> list_all (\<lambda>p. case map_of kvs (fst p) of None \<Rightarrow> True | Some x \<Rightarrow> conforms (snd p) x) ps
      | _ \<Rightarrow> False)"
| "conforms (Values s) v = (case v of JObj kvs \<Rightarrow> list_all (\<lambda>kv. conforms s (snd kv)) kvs | _ \<Rightarrow> False)"

text \<open>Whether a declared part of a value is null.\<close>

fun null_at :: "js_schema \<Rightarrow> json \<Rightarrow> bool" where
  "null_at (Items s) (JList js) = list_ex (null_at s) js"
| "null_at (Props ps) (JObj kvs) =
     list_ex (\<lambda>p. case map_of kvs (fst p) of None \<Rightarrow> False | Some x \<Rightarrow> null_at (snd p) x) ps"
| "null_at (Values s) (JObj kvs) = list_ex (\<lambda>kv. null_at s (snd kv)) kvs"
| "null_at s v = (v = JNull)"

text \<open>A value without the members that are null.\<close>

fun without_nulls :: "json \<Rightarrow> json" where
  "without_nulls (JList js) = JList (map without_nulls js)"
| "without_nulls (JObj kvs) = JObj (filter (\<lambda>kv. snd kv \<noteq> JNull) (map (\<lambda>kv. (fst kv, without_nulls (snd kv))) kvs))"
| "without_nulls v = v"

section \<open>The declared results\<close>

definition line_schema :: js_schema where
  "line_schema = Props
     [(''bytes'', Type ''integer''), (''from'', Type ''string''), (''seq'', Type ''integer''), (''ttl'', Type ''integer''),
      (''rtt_ms'', Type ''number''), (''status'', OneOf [''ok'', ''timeout''])]"

definition summary_schema :: js_schema where
  "summary_schema = Props
     [(''transmitted'', Type ''integer''), (''received'', Type ''integer''), (''lost'', Type ''integer''),
      (''loss_pct'', Type ''number''), (''rtt_min_ms'', Type ''number''), (''rtt_avg_ms'', Type ''number''),
      (''rtt_max_ms'', Type ''number''), (''rtt_mdev_ms'', Type ''number'')]"

definition ping_result_schema :: js_schema where
  "ping_result_schema = Props [(''lines'', Items line_schema), (''summary'', summary_schema)]"

definition probe_schema :: js_schema where
  "probe_schema = Props [(''rtt_ms'', Type ''number''), (''status'', OneOf [''ok'', ''timeout''])]"

definition hop_schema :: js_schema where
  "hop_schema = Props
     [(''hop'', Type ''integer''),
      (''data'', Props
        [(''ip'', Type ''string''), (''hostname'', Type ''string''), (''probes'', Items probe_schema),
         (''multipath'', Type ''boolean''), (''paths'', Type ''array''), (''reached'', Type ''boolean'')])]"

definition traceroute_result_schema :: js_schema where
  "traceroute_result_schema = Props [(''hops'', Items hop_schema)]"

definition dns_record_schema :: js_schema where
  "dns_record_schema = Props
     [(''type'', Type ''string''), (''value'', Type ''string''), (''ttl'', Type ''integer''), (''owner'', Type ''string'')]"

definition dns_result_schema :: js_schema where
  "dns_result_schema = Props
     [(''domain'', Type ''string''), (''dnssec_ad_flag'', Type ''boolean''),
      (''authority'', Values (Items dns_record_schema)),
      (''additional'', Values (Items dns_record_schema)),
      (''records'', Values (Items dns_record_schema)),
      (''cname_chain'', Items (Type ''string'')),
      (''cname_records'', Values (Values (Items (Props
         [(''type'', Type ''string''), (''value'', Type ''string''), (''ttl'', Type ''integer'')]))))]"

definition certificate_schema :: js_schema where
  "certificate_schema = Props
     [(''pem'', Type ''string''), (''subject'', Type ''string''), (''issuer'', Type ''string''),
      (''valid_from'', Type ''string''), (''valid_until'', Type ''string''), (''sans'', Items (Type ''string'')),
      (''key_algorithm'', Type ''string''), (''key_size'', Type ''integer''), (''signature_algorithm'', Type ''string''),
      (''fingerprint_sha256'', Type ''string''), (''fingerprint_sha1'', Type ''string''),
      (''extended_key_usage'', Items (Type ''string'')), (''is_expired'', Type ''boolean''),
      (''is_self_signed'', Type ''boolean''), (''name_mismatch'', Type ''boolean''), (''is_weak_key'', Type ''boolean''),
      (''is_untrusted'', Type ''boolean''), (''is_trusted_root'', Type ''boolean''), (''missing_issuer'', Type ''boolean''),
      (''missing_issuer_name'', Type ''string''), (''no_common_name'', Type ''boolean''), (''empty_subject'', Type ''boolean''),
      (''revocation_status'', Type ''string''), (''revocation_detail'', Type ''string''), (''serial_number'', Type ''string''),
      (''key_usage'', Items (Type ''string'')), (''is_ca'', Type ''boolean''), (''bc_path_length'', Type ''integer''),
      (''aia_entries'', Items (Props [(''method'', Type ''string''), (''url'', Type ''string'')])),
      (''crl_urls'', Items (Type ''string'')), (''ski'', Type ''string''), (''aki'', Type ''string''),
      (''policy_oids'', Items (Type ''string''))]"

definition ssl_result_schema :: js_schema where
  "ssl_result_schema = Props
     [(''url'', Type ''string''), (''tls_version'', Type ''string''), (''cipher_suite'', Type ''string''),
      (''certificates'', Items certificate_schema), (''chain_valid'', Type ''boolean''),
      (''warnings'', Items (Props [(''message'', Type ''string''), (''variant'', OneOf [''error'', ''warning''])]))]"

section \<open>The results\<close>

definition dns_record_json :: "dns_record \<Rightarrow> json" where
  "dns_record_json r = JObj [(''type'', JStr (dr_type r)), (''value'', JStr (dr_value r)), (''ttl'', JInt (dr_ttl r)),
     (''owner'', JStr (dr_owner r))]"

definition record_map_json :: "record_map \<Rightarrow> json" where
  "record_map_json m = JObj (map (\<lambda>(rt, rs). (rt, JList (map dns_record_json rs))) m)"

definition json_if :: "bool \<Rightarrow> json \<Rightarrow> json" where
  "json_if c v = (if c then v else JNull)"

definition dns_data_json :: "dns_data \<Rightarrow> json" where
  "dns_data_json d = JObj
     [(''domain'', JStr (dd_domain d)), (''records'', record_map_json (dd_records d)),
      (''authority'', json_if (dd_authority d \<noteq> []) (record_map_json (dd_authority d))),
      (''additional'', json_if (dd_additional d \<noteq> []) (record_map_json (dd_additional d))),
      (''dnssec_ad_flag'', JBool (dd_ad d)),
      (''cname_chain'', case dd_chain d of Some chain \<Rightarrow> JList (map JStr chain) | None \<Rightarrow> JNull),
      (''cname_records'', json_if (dd_chain_records d \<noteq> [])
         (JObj (map (\<lambda>(hop, m). (hop, record_map_json m)) (dd_chain_records d))))]"

definition json_texts :: "string list \<Rightarrow> json" where
  "json_texts ss = JList (map JStr ss)"

text \<open>\<open>isof\<close> is \<open>datetime.isoformat\<close>.\<close>

definition cert_json :: "(tstamp \<Rightarrow> string) \<Rightarrow> cert_info \<Rightarrow> json" where
  "cert_json isof c = JObj
     [(''pem'', JStr (ci_pem c)), (''subject'', JStr (ci_subject c)), (''issuer'', JStr (ci_issuer c)),
      (''valid_from'', JStr (isof (ci_valid_from c))), (''valid_until'', JStr (isof (ci_valid_until c))),
      (''sans'', json_texts (ci_sans c)), (''key_algorithm'', JStr (ci_key_algorithm c)), (''key_size'', JInt (ci_key_size c)),
      (''signature_algorithm'', JStr (ci_signature c)), (''fingerprint_sha256'', JStr (ci_sha256 c)),
      (''fingerprint_sha1'', JStr (ci_sha1 c)), (''extended_key_usage'', json_texts (ci_ekus c)),
      (''is_expired'', JBool (ci_is_expired c)), (''is_self_signed'', JBool (ci_is_self_signed c)),
      (''name_mismatch'', JBool (ci_name_mismatch c)), (''is_weak_key'', JBool (ci_is_weak_key c)),
      (''no_common_name'', JBool (ci_no_common_name c)), (''empty_subject'', JBool (ci_empty_subject c)),
      (''serial_number'', JStr (ci_serial c)), (''key_usage'', json_texts (ci_key_usage c)), (''is_ca'', JBool (ci_is_ca c)),
      (''bc_path_length'', case ci_path_length c of Some n \<Rightarrow> JInt n | None \<Rightarrow> JNull),
      (''aia_entries'', JList (map (\<lambda>(method, url). JObj [(''method'', JStr method), (''url'', JStr url)]) (ci_aia c))),
      (''crl_urls'', json_texts (ci_crl_urls c)), (''ski'', JStr (ci_ski c)), (''aki'', JStr (ci_aki c)),
      (''policy_oids'', json_texts (ci_policies c)), (''is_trusted_root'', JBool (ci_is_trusted_root c)),
      (''is_untrusted'', JBool (ci_is_untrusted c)), (''missing_issuer'', JBool (ci_missing_issuer c)),
      (''missing_issuer_name'', json_opt (ci_missing_issuer_name c)),
      (''revocation_status'', JStr (ci_revocation_status c)), (''revocation_detail'', JStr (ci_revocation_detail c))]"

fun warning_text :: "ssl_warning \<Rightarrow> string \<times> string" where
  "warning_text WeakTls = (''Connection is not secure: TLS version is outdated (less than TLS 1.2).'', ''warning'')"
| "warning_text (Revoked detail) = (''Certificate is revoked: '' @ detail, ''error'')"
| "warning_text Untrusted = (''Certificate chain is not trusted by the system CA store.'', ''error'')"
| "warning_text NotChecked = (''Certificate revocation status was not checked.'', ''warning'')"

definition warning_json :: "ssl_warning \<Rightarrow> json" where
  "warning_json w = JObj [(''message'', JStr (fst (warning_text w))), (''variant'', JStr (snd (warning_text w)))]"

definition ssl_report_json :: "(tstamp \<Rightarrow> string) \<Rightarrow> ssl_report \<Rightarrow> json" where
  "ssl_report_json isof r = JObj
     [(''url'', JStr (sr_host r @ '':'' @ str_of_int (sr_port r))), (''tls_version'', JStr (sr_tls_version r)),
      (''cipher_suite'', JStr (sr_cipher r)), (''certificates'', JList (map (cert_json isof) (sr_certificates r))),
      (''chain_valid'', JBool (sr_chain_valid r)), (''warnings'', JList (map warning_json (sr_warnings r)))]"

section \<open>Lemmas\<close>

lemma has_type_simps [simp]:
  "has_type ''string'' (JStr s)" "has_type ''boolean'' (JBool b)" "has_type ''integer'' (JInt i)"
  "has_type ''number'' (JInt i)" "has_type ''array'' (JList js)" "has_type t JNull \<longleftrightarrow> t = ''null''"
  "has_type ''number'' (JFloat f)" "\<not> has_type ''number'' (JStr s)"
  by (simp_all add: has_type_def)

lemma without_nulls_null [simp]: "without_nulls v = JNull \<longleftrightarrow> v = JNull"
  by (cases v) simp_all

lemma number_kept [simp]: "has_type ''number'' v \<Longrightarrow> without_nulls v = v"
  by (cases v) (simp_all add: has_type_def)

lemma texts_conform [simp]: "conforms (Items (Type ''string'')) (without_nulls (json_texts ss))"
  by (simp add: json_texts_def list_all_iff)

declare conforms.simps(3-5) [simp del]

lemma items_conform: "(\<And>x. x \<in> set xs \<Longrightarrow> conforms sch (without_nulls (f x))) \<Longrightarrow> conforms (Items sch) (without_nulls (JList (map f xs)))"
  by (simp add: conforms.simps list_all_iff)

lemma values_conform: "(\<And>x. x \<in> set xs \<Longrightarrow> conforms sch (without_nulls (g x))) \<Longrightarrow>
    conforms (Values sch) (without_nulls (JObj (map (\<lambda>x. (f x, g x)) xs)))"
  by (auto simp: conforms.simps list_all_iff)

text \<open>An object meets its schema if each member that is declared and not null does.\<close>

lemma props_conform:
  assumes "distinct (map fst ps)"
    and "list_all (\<lambda>kv. snd kv = JNull \<or> pred_option (\<lambda>sch. conforms sch (without_nulls (snd kv))) (map_of ps (fst kv))) kvs"
  shows "conforms (Props ps) (without_nulls (JObj kvs))"
proof -
  have "conforms (snd p) x"
    if p: "p \<in> set ps" and x: "map_of (filter (\<lambda>kv. snd kv \<noteq> JNull) (map (\<lambda>kv. (fst kv, without_nulls (snd kv))) kvs)) (fst p) = Some x" for p x
  proof -
    obtain kv where "kv \<in> set kvs" "fst kv = fst p" "x = without_nulls (snd kv)" "snd kv \<noteq> JNull"
      using map_of_SomeD [OF x] by auto
    moreover have "map_of ps (fst p) = Some (snd p)"
      using assms(1) p by (simp add: map_of_is_SomeI)
    ultimately show ?thesis
      using assms(2) by (force simp: list_all_iff)
  qed
  then show ?thesis
    by (auto simp: conforms.simps list_all_iff split: option.split)
qed

lemma record_conforms:
  "conforms dns_record_schema (without_nulls (dns_record_json r))"
  "conforms (Props [(''type'', Type ''string''), (''value'', Type ''string''), (''ttl'', Type ''integer'')])
     (without_nulls (dns_record_json r))"
  unfolding dns_record_schema_def dns_record_json_def by (rule props_conform; simp)+

lemma record_map_conforms:
  assumes "\<And>r. conforms sch (without_nulls (dns_record_json r))"
  shows "conforms (Values (Items sch)) (without_nulls (record_map_json m))"
  unfolding record_map_json_def case_prod_unfold by (intro values_conform items_conform assms)

lemma chain_conforms: "conforms (Items (Type ''string'')) (without_nulls (JList (map JStr ss)))"
  by (intro items_conform) simp

lemma dns_conforms: "conforms dns_result_schema (without_nulls (dns_data_json d))"
proof -
  have recs: "conforms (Values (Values (Items (Props [(''type'', Type ''string''), (''value'', Type ''string''), (''ttl'', Type ''integer'')]))))
      (without_nulls (JObj (map (\<lambda>(hop, m). (hop, record_map_json m)) ms)))" for ms
    unfolding case_prod_unfold by (intro values_conform record_map_conforms record_conforms)
  show ?thesis
    unfolding dns_result_schema_def dns_data_json_def
    by (rule props_conform)
      (simp_all add: json_if_def record_map_conforms record_conforms chain_conforms recs del: without_nulls.simps(1,2) split: option.split)
qed

lemma aia_conform: "conforms (Items (Props [(''method'', Type ''string''), (''url'', Type ''string'')]))
    (without_nulls (JList (map (\<lambda>(method, url). JObj [(''method'', JStr method), (''url'', JStr url)]) es)))"
  unfolding case_prod_unfold by (rule items_conform, rule props_conform) simp_all

lemma array_kept [simp]: "has_type ''array'' (without_nulls (JList js))"
  by simp

lemma opt_conforms: "json_opt t = JNull \<or> has_type ''string'' (without_nulls (json_opt t))"
  by (cases t) simp_all

lemma cert_conforms: "conforms certificate_schema (without_nulls (cert_json isof c))"
  unfolding certificate_schema_def cert_json_def
  by (rule props_conform)
    (simp_all add: aia_conform opt_conforms del: without_nulls.simps(1,2) split: option.split)

lemma warning_conforms:
  "conforms (Props [(''message'', Type ''string''), (''variant'', OneOf [''error'', ''warning''])]) (without_nulls (warning_json w))"
  unfolding warning_json_def by (rule props_conform; cases w; simp)

lemma ssl_conforms: "conforms ssl_result_schema (without_nulls (ssl_report_json isof r))"
  unfolding ssl_result_schema_def ssl_report_json_def
  by (rule props_conform)
    (simp_all add: items_conform cert_conforms warning_conforms del: without_nulls.simps(1,2))

lemma line_conforms:
  assumes "\<And>q. has_type ''number'' (num q)"
  shows "conforms line_schema (without_nulls (line_json num l)) \<longleftrightarrow> (\<forall>m. l \<noteq> PingError m)"
proof (cases l)
  case (PingOk bytes sender seq ttl rtt)
  then show ?thesis
    using assms by (simp add: line_schema_def line_json_def props_conform del: without_nulls.simps(1,2))
next
  case (PingTimeout seq)
  then show ?thesis
    by (cases seq) (simp_all add: line_schema_def line_json_def props_conform del: without_nulls.simps(1,2))
next
  case (PingError m)
  then show ?thesis
    by (simp add: line_schema_def line_json_def conforms.simps)
qed

lemma summary_conforms:
  assumes "\<And>q. has_type ''number'' (num q)"
  shows "conforms summary_schema (without_nulls (summary_json num s))"
  using assms unfolding summary_schema_def summary_json_def
  by (intro props_conform) (simp_all split: option.split prod.split)

lemma probe_conforms: "conforms probe_schema (without_nulls (probe_json p))"
  unfolding probe_schema_def by (cases p; simp add: probe_json_def props_conform del: without_nulls.simps(1,2))

lemma hop_conforms: "conforms hop_schema (without_nulls (hop_json h))"
proof -
  have probes: "conforms (Items probe_schema) (without_nulls (JList (map probe_json ps)))" for ps
    by (intro items_conform probe_conforms)
  show ?thesis
    unfolding hop_schema_def hop_json_def
    by (intro props_conform; cases "snd h")
      (simp_all add: probes opt_conforms props_conform del: without_nulls.simps(1,2))
qed

lemma trace_conforms: "conforms traceroute_result_schema (without_nulls
    (JObj [(''hops'', JList (map hop_json (parse_output stdout))), (''raw_stdout'', JStr stdout)]))"
proof -
  have "conforms (Items hop_schema) (without_nulls (JList (map hop_json (parse_output stdout))))"
    by (intro items_conform hop_conforms)
  then show ?thesis
    unfolding traceroute_result_schema_def by (intro props_conform) (simp_all del: without_nulls.simps(1,2))
qed

text \<open>A schema without the type \<open>null\<close> admits no declared null, and every other value without its nulls.\<close>

fun nullless :: "js_schema \<Rightarrow> bool" where
  "nullless (Type t) = (t \<noteq> ''null'')"
| "nullless (OneOf vs) = True"
| "nullless (Items s) = nullless s"
| "nullless (Props ps) = list_all (\<lambda>p. nullless (snd p)) ps"
| "nullless (Values s) = nullless s"

lemma null_at_null [simp]: "null_at s JNull"
  by (cases s) simp_all

lemma kept_member: "map_of kvs k = Some x \<Longrightarrow> x \<noteq> JNull \<Longrightarrow>
    map_of (filter (\<lambda>kv. snd kv \<noteq> JNull) (map (\<lambda>kv. (fst kv, without_nulls (snd kv))) kvs)) k = Some (without_nulls x)"
  by (induction kvs) (auto split: if_splits)

lemma conforms_iff: "nullless s \<Longrightarrow> conforms s (without_nulls v) \<Longrightarrow> conforms s v \<longleftrightarrow> \<not> null_at s v"
proof (induction s arbitrary: v)
  case (Type t)
  then show ?case
    by (cases v) (simp_all add: has_type_def)
next
  case (OneOf vs)
  then show ?case
    by (cases v) simp_all
next
  case (Items s)
  show ?case
  proof (cases v)
    case (JList js)
    have "conforms s j \<longleftrightarrow> \<not> null_at s j" if "j \<in> set js" for j
      using Items.prems that by (intro Items.IH) (auto simp: JList conforms.simps list_all_iff)
    then show ?thesis
      by (auto simp: JList conforms.simps list_all_iff list_ex_iff)
  qed (use Items.prems in \<open>simp_all add: conforms.simps\<close>)
next
  case (Values s)
  show ?case
  proof (cases v)
    case (JObj kvs)
    have "conforms s (snd kv) \<longleftrightarrow> \<not> null_at s (snd kv)" if "kv \<in> set kvs" for kv
    proof (cases "snd kv = JNull")
      case True
      have "\<not> conforms s JNull"
        using Values.prems(1) by (cases s) (simp_all add: conforms.simps has_type_def)
      with True show ?thesis
        by simp
    next
      case False
      then show ?thesis
        using Values.prems that False by (intro Values.IH) (force simp: JObj conforms.simps list_all_iff)+
    qed
    then show ?thesis
      by (auto simp: JObj conforms.simps list_all_iff list_ex_iff)
  qed (use Values.prems in \<open>simp_all add: conforms.simps\<close>)
next
  case (Props ps)
  show ?case
  proof (cases v)
    case (JObj kvs)
    have "conforms (snd p) x \<longleftrightarrow> \<not> null_at (snd p) x" if p: "p \<in> set ps" and x: "map_of kvs (fst p) = Some x" for p x
    proof (cases "x = JNull")
      case True
      have "nullless (snd p)"
        using Props.prems(1) p by (simp add: list_all_iff)
      then have "\<not> conforms (snd p) JNull"
        by (cases "snd p") (simp_all add: conforms.simps has_type_def)
      with True show ?thesis
        by simp
    next
      case False
      have "conforms (snd p) (without_nulls x)"
        using Props.prems(2) p kept_member [OF x False] by (force simp: JObj conforms.simps list_all_iff)
      then show ?thesis
        using Props.prems(1) p by (intro Props.IH [of p "snd p"]) (auto simp: list_all_iff snds.simps)
    qed
    then show ?thesis
      by (force simp: JObj conforms.simps list_all_iff list_ex_iff split: option.splits)
  qed (use Props.prems in \<open>simp_all add: conforms.simps\<close>)
qed

lemma tool_schemas_nullless: "nullless ping_result_schema" "nullless traceroute_result_schema"
  by code_simp+

text \<open>Whether a line of a ping is an error of the local system.\<close>

definition shown_lines :: "json \<Rightarrow> json list" where
  "shown_lines v =
     (case v of
        JObj kvs \<Rightarrow> (case map_of kvs ''lines'' of Some (JList ls) \<Rightarrow> ls | _ \<Rightarrow> [])
      | _ \<Rightarrow> [])"

definition reports_error :: "json \<Rightarrow> bool" where
  "reports_error v =
     list_ex (\<lambda>l. case l of JObj kvs \<Rightarrow> map_of kvs ''status'' = Some (JStr ''error'') | _ \<Rightarrow> False) (shown_lines v)"

lemma error_line: "(case line_json num l of JObj kvs \<Rightarrow> map_of kvs ''status'' = Some (JStr ''error'') | _ \<Rightarrow> False) \<longleftrightarrow>
    (\<exists>m. l = PingError m)"
  by (simp add: line_json_def split: ping_line.split option.split)

lemma items_conform_iff:
  "conforms (Items sch) (without_nulls (JList (map f xs))) \<longleftrightarrow> (\<forall>x \<in> set xs. conforms sch (without_nulls (f x)))"
  by (simp add: conforms.simps list_all_iff)

lemma ping_conforms:
  assumes "\<And>q. has_type ''number'' (num q)"
  defines "data ls sm out \<equiv> JObj [(''lines'', JList (map (line_json num) ls)), (''summary'', summary_json num sm), (''raw_stdout'', JStr out)]"
  shows "conforms ping_result_schema (without_nulls (data ls sm out)) \<longleftrightarrow> \<not> reports_error (data ls sm out)"
proof -
  have clean: "\<not> reports_error (data ls sm out) \<longleftrightarrow> (\<forall>l \<in> set ls. \<forall>m. l \<noteq> PingError m)"
    by (auto simp: reports_error_def shown_lines_def data_def list_ex_iff error_line)
  have "conforms ping_result_schema (without_nulls (data ls sm out)) \<Longrightarrow>
      conforms (Items line_schema) (without_nulls (JList (map (line_json num) ls)))"
    by (simp add: ping_result_schema_def data_def conforms.simps(4))
  moreover have "conforms (Items line_schema) (without_nulls (JList (map (line_json num) ls))) \<Longrightarrow>
      conforms ping_result_schema (without_nulls (data ls sm out))"
    unfolding ping_result_schema_def data_def
    by (rule props_conform) (simp_all add: summary_conforms assms(1) del: without_nulls.simps(1,2))
  ultimately show ?thesis
    unfolding clean items_conform_iff line_conforms [OF assms(1)] by blast
qed

text \<open>A local error breaks the schema also with the nulls in place: its status is no null.\<close>

lemma ping_strict:
  assumes "\<exists>ls sm out. v = JObj [(''lines'', JList (map (line_json num) ls)), (''summary'', summary_json num sm), (''raw_stdout'', JStr out)]"
    and "conforms ping_result_schema v"
  shows "\<not> reports_error v"
proof -
  obtain ls sm out where v: "v = JObj [(''lines'', JList (map (line_json num) ls)), (''summary'', summary_json num sm), (''raw_stdout'', JStr out)]"
    using assms(1) by blast
  have "\<not> conforms line_schema (line_json num (PingError m))" for m
    by (simp add: line_schema_def line_json_def conforms.simps)
  moreover have "\<forall>l \<in> set ls. conforms line_schema (line_json num l)"
    using assms(2) by (simp add: v ping_result_schema_def conforms.simps list_all_iff)
  ultimately show ?thesis
    by (auto simp: reports_error_def shown_lines_def v list_ex_iff error_line)
qed

lemma ping_data:
  assumes "ping_execute num filter_t os params = Inr r" "tr_data r \<noteq> JNull"
  shows "\<exists>ls sm out. tr_data r =
    JObj [(''lines'', JList (map (line_json num) ls)), (''summary'', summary_json num sm), (''raw_stdout'', JStr out)]"
proof -
  obtain v where v: "ping_validate params = Inr v"
    using assms(1) by (auto simp: ping_execute_def)
  obtain ip err where ip: "filter_t (pp_target v) = (ip, err)"
    by (rule prod.exhaust)
  show ?thesis
    using assms by (cases err) (auto simp: ping_execute_def v ip split: if_splits)
qed

lemma trace_data:
  assumes "trace_execute filter_t os params = Inr r" "tr_data r \<noteq> JNull"
  shows "\<exists>out. tr_data r = JObj [(''hops'', JList (map hop_json (parse_output out))), (''raw_stdout'', JStr out)]"
proof -
  obtain v where v: "trace_validate params = Inr v"
    using assms(1) by (auto simp: trace_execute_def)
  obtain ip err where ip: "filter_t (tp_target v) = (ip, err)"
    by (rule prod.exhaust)
  show ?thesis
    using assms by (cases err) (auto simp: trace_execute_def v ip Let_def split: if_splits)
qed

section \<open>Properties\<close>

text \<open>
  C39: ping and traceroute keep to the results they declare, nulls and local errors apart.  With
  the null members left out, the result of a traceroute meets the schema of the tool, its times
  as numbers, and the result of a ping does exactly if none of its lines is a local error, a status
  the schema lacks.  As they are sent they meet it exactly if, besides, nothing declared is null.
\<close>

theorem results_match_schemas:
  "(\<forall>r. ping_execute (JFloat \<circ> Finite) filter_t os params = Inr r \<and> tr_data r \<noteq> JNull \<longrightarrow>
      (conforms ping_result_schema (without_nulls (tr_data r)) \<longleftrightarrow> \<not> reports_error (tr_data r)) \<and>
      (conforms ping_result_schema (tr_data r) \<longleftrightarrow>
         \<not> reports_error (tr_data r) \<and> \<not> null_at ping_result_schema (tr_data r))) \<and>
    (\<forall>r. trace_execute filter_t os params = Inr r \<and> tr_data r \<noteq> JNull \<longrightarrow>
      conforms traceroute_result_schema (without_nulls (tr_data r)) \<and>
      (conforms traceroute_result_schema (tr_data r) \<longleftrightarrow> \<not> null_at traceroute_result_schema (tr_data r)))"
proof (intro conjI allI impI; elim conjE)
  fix r assume r: "ping_execute (JFloat \<circ> Finite) filter_t os params = Inr r" "tr_data r \<noteq> JNull"
  show part: "conforms ping_result_schema (without_nulls (tr_data r)) \<longleftrightarrow> \<not> reports_error (tr_data r)"
    using ping_data [OF r] ping_conforms [of "JFloat \<circ> Finite"] by fastforce
  show "conforms ping_result_schema (tr_data r) \<longleftrightarrow> \<not> reports_error (tr_data r) \<and> \<not> null_at ping_result_schema (tr_data r)"
    using part conforms_iff [OF tool_schemas_nullless(1), of "tr_data r"] ping_strict [OF ping_data [OF r]] by blast
next
  fix r assume r: "trace_execute filter_t os params = Inr r" "tr_data r \<noteq> JNull"
  show part: "conforms traceroute_result_schema (without_nulls (tr_data r))"
    using trace_data [OF r] trace_conforms by metis
  show "conforms traceroute_result_schema (tr_data r) \<longleftrightarrow> \<not> null_at traceroute_result_schema (tr_data r)"
    by (rule conforms_iff [OF tool_schemas_nullless(2) part])
qed

theorem results_match_schemas_witness:
  "\<exists>r. trace_execute (\<lambda>t. (t, None)) (\<lambda>_. Ends '' 1  router (10.0.0.1)  0.5 ms  * *'' [] 0 0) [(''target'', JStr ''8.8.8.8'')] = Inr r \<and>
     conforms traceroute_result_schema (without_nulls (tr_data r)) \<and> \<not> conforms traceroute_result_schema (tr_data r) \<and> tr_success r"
proof -
  let ?run = "trace_execute (\<lambda>t. (t, None)) (\<lambda>_. Ends '' 1  router (10.0.0.1)  0.5 ms  * *'' [] 0 0) [(''target'', JStr ''8.8.8.8'')]"
  have "\<not> isl ?run" "tr_data (projr ?run) \<noteq> JNull" "tr_success (projr ?run)" "null_at traceroute_result_schema (tr_data (projr ?run))"
    by code_simp+
  then obtain r where r: "?run = Inr r" "tr_data r \<noteq> JNull" "tr_success r" "null_at traceroute_result_schema (tr_data r)"
    by (metis sum.collapse(2))
  show ?thesis
    using results_match_schemas [of "\<lambda>t. (t, None)" "\<lambda>_. Ends '' 1  router (10.0.0.1)  0.5 ms  * *'' [] 0 0"] r by blast
qed

text \<open>The lookup and the inspection keep to their schemas, nulls apart, because their results are records.\<close>

lemma records_match_schemas:
  "conforms dns_result_schema (without_nulls (dns_data_json d))"
  "conforms ssl_result_schema (without_nulls (ssl_report_json isof report))"
  by (rule dns_conforms ssl_conforms)+

text \<open>A hop without an address breaks the schema.\<close>

lemma null_breaks_schema:
  "\<not> conforms hop_schema (hop_json (n, OnePath None hostname probes reached))"
  by (simp add: hop_schema_def hop_json_def conforms.simps)

end
