(* ===== verification/Browser.thy ===== *)
theory Browser
  imports Auth
begin

text \<open>
  A browser before the backend: the cookies of an answer that it keeps, the order of the two cookies
  a login may set (the endpoint in \<open>app/api/v1/endpoints/auth.py\<close>, the middleware of
  \<open>app/middleware/session.py\<close> around it), and who the next request is attached to.
\<close>

section \<open>Cookies\<close>

text \<open>
  What a browser does with \<open>Set-Cookie\<close> (RFC 6265bis): a cookie with the prefix \<open>__Host-\<close> must be
  secure and for the whole host, a secure one must come over a secure connection, one that has
  expired is removed, any other takes the place of the cookie of its name; in the order received.
\<close>

definition cookie_accepted :: "bool \<Rightarrow> cookie \<Rightarrow> bool" where
  "cookie_accepted secure c =
     ((py_startswith (ck_name c) ''__Host-'' \<longrightarrow> ck_secure c \<and> ck_path c = ''/'') \<and> (ck_secure c \<longrightarrow> secure))"

definition keep_cookie :: "bool \<Rightarrow> (string \<times> string) list \<Rightarrow> cookie \<Rightarrow> (string \<times> string) list" where
  "keep_cookie secure jar c =
     (if \<not> cookie_accepted secure c then jar
      else (case ck_max_age c of
              Some n \<Rightarrow> if n \<le> 0 then filter (\<lambda>kv. fst kv \<noteq> ck_name c) jar else dict_set (ck_name c) (ck_value c) jar
            | None \<Rightarrow> dict_set (ck_name c) (ck_value c) jar))"

definition receive :: "bool \<Rightarrow> response \<Rightarrow> (string \<times> string) list \<Rightarrow> (string \<times> string) list" where
  "receive secure resp jar = foldl (keep_cookie secure) jar (rs_cookies resp)"

section \<open>Login as the browser sees it\<close>

definition login_handler :: "auth_cfg \<Rightarrow> env \<Rightarrow> string \<Rightarrow> string \<Rightarrow> handler" where
  "login_handler c e email password r w =
     (case login_endpoint c e email password r w of
        (Inl x, w') \<Rightarrow> (error_response x, w')
      | (Inr (_, resp), w') \<Rightarrow> (resp, w'))"

section \<open>Lemmas\<close>

lemma cookie_names: "''__Host-sakn_session'' \<noteq> CSRF_COOKIE" "session_cookie_name True = ''__Host-sakn_session''"
  "py_startswith ''__Host-sakn_session'' ''__Host-''" "\<not> py_startswith CSRF_COOKIE ''__Host-''"
  by code_simp+

text \<open>
  What \<open>logout\<close> sends to delete the cookie of a session over \<open>https\<close> has no \<open>Secure\<close> flag, and a
  browser takes no \<open>__Host-\<close> cookie without it: the cookie stays until it expires.
\<close>

lemma logout_keeps_cookie: "receive True (delete_session_cookie True resp) jar = receive True resp jar"
  by (simp add: receive_def delete_session_cookie_def keep_cookie_def cookie_accepted_def cookie_names)

lemma token_in_jar:
  "map_of (rq_cookies r) ''__Host-sakn_session'' = Some t \<Longrightarrow> t \<noteq> [] \<Longrightarrow> get_session_token r = Some t"
  by (simp add: get_session_token_def SESSION_COOKIE_NAMES_def)

text \<open>The last session cookie and the CSRF cookies after it decide what the jar holds.\<close>

lemma receive_session:
  "map_of (receive True (set_session_cookie t True resp) jar) ''__Host-sakn_session'' = Some t"
  by (simp add: receive_def set_session_cookie_def keep_cookie_def cookie_accepted_def cookie_names map_of_dict_set)

lemma receive_csrf:
  "map_of (receive True (set_csrf_cookie x True resp) jar) ''__Host-sakn_session'' =
   map_of (receive True resp jar) ''__Host-sakn_session''"
  using cookie_names(1)
  by (simp add: receive_def set_csrf_cookie_def keep_cookie_def cookie_accepted_def cookie_names map_of_dict_set)

text \<open>A token that leads to no user, whatever the cache and the table say of it.\<close>

definition visitor_hash :: "db \<Rightarrow> sess_redis \<Rightarrow> string \<Rightarrow> bool" where
  "visitor_hash d r h \<longleftrightarrow> (\<forall>s \<in> set (db_sessions d). s_token_hash s = h \<longrightarrow> s_user_id s = None) \<and>
     (\<forall>rh. sr_hashes r (session_key h) = Some rh \<longrightarrow> \<not> truthy (map_of (rh_fields rh) ''user_id''))"

lemma visitor_unresolved:
  assumes "visitor_hash d r h"
  shows "\<exists>sid. fst (resolve_session e (d, r) h) \<in> {None, Some (sid, None)}"
proof -
  have cached: "\<not> truthy (map_of (hgetall now r (session_key h)) ''user_id'')" for now
    using assms by (auto simp: visitor_hash_def hgetall_def split: option.split)
  have stored: "s_user_id s = None" if "session_by_hash d h = Inr (Some s)" for s
  proof -
    have "s \<in> set (filter (\<lambda>s. s_token_hash s = h) (db_sessions d))"
      using that by (simp add: session_by_hash_def scalar_Inr_iff)
    then show ?thesis
      using assms by (simp add: visitor_hash_def)
  qed
  show ?thesis
    using cached stored by (auto simp: resolve_session_def redis_get_session_def Let_def split: option.split sum.split)
qed

lemma hashes_delete: "sr_hashes (redis_delete_session e r th) k \<in> {None, sr_hashes r k}"
  by (simp add: redis_delete_session_def Let_def)

lemma hashes_delete_fold: "sr_hashes (fold (\<lambda>th r. redis_delete_session e r th) ths r) k \<in> {None, sr_hashes r k}"
proof (induction ths arbitrary: r)
  case (Cons th ths)
  have "sr_hashes (redis_delete_session e r th) k \<in> {None, sr_hashes r k}"
    by (rule hashes_delete)
  with Cons [of "redis_delete_session e r th"] show ?case
    by (metis fold_simps(2) insert_iff singletonD)
qed simp

lemma hashes_enforce: "sr_hashes (snd (enforce_concurrent_limit e r u n)) k \<in> {None, sr_hashes r k}"
  using hashes_delete_fold by (simp add: enforce_concurrent_limit_def Let_def)

lemma visitor_hash_cong: "db_sessions d' = db_sessions d \<Longrightarrow> visitor_hash d' r h = visitor_hash d r h"
  by (simp add: visitor_hash_def)

text \<open>An anonymous session is made for nobody, and stays so when someone signs in.\<close>

lemma anonymous_hash:
  assumes "session_create e (d, r) None ip ua = (Inr (token, s), d', r')" "e_redis_up e"
  shows "visitor_hash d' r' (e_hash e token)" "e_hash e token \<in> set (map s_token_hash (db_sessions d'))"
    "db_users d' = db_users d"
proof -
  have d': "d' = d\<lparr>db_sessions := db_sessions d @ [s]\<rparr>" "s_token_hash s = e_hash e token" "s_user_id s = None"
      "e_hash e token \<notin> set (map s_token_hash (db_sessions d))"
    using assms(1) by (auto simp: session_create_def insert_session_def Let_def split: if_splits)
  obtain data ttl where r': "r' = redis_create_session e r (e_hash e token)
         ([(''session_id'', s_id s), (''user_id'', [])] @ data) ttl" "map_of data ''user_id'' = None"
    using assms(1) by (auto simp: session_create_def Let_def or_default_def split: sum.splits)
  have "map_of (rev data) ''user_id'' = None"
    using r'(2) by (simp add: map_of_eq_None_iff image_iff)
  then have "map_of (rh_fields rh) ''user_id'' = Some []" if "sr_hashes r' (session_key (e_hash e token)) = Some rh" for rh
    using that assms(2) by (auto simp: r'(1) redis_create_session_def Let_def hset_expire_def
        map_of_fold_dict_set map_of_dict_set map_add_def split: if_splits)
  moreover have "s_token_hash x \<noteq> e_hash e token" if "x \<in> set (db_sessions d)" for x
    using d'(4) that by force
  ultimately show "visitor_hash d' r' (e_hash e token)"
    using d'(1-3) by (auto simp: visitor_hash_def)
  show "e_hash e token \<in> set (map s_token_hash (db_sessions d'))" "db_users d' = db_users d"
    using d' by simp_all
qed

lemma hash_stays_anonymous:
  assumes "session_create e (d, r) (Some u) ip ua = (Inr (token, s), d', r')"
    and "visitor_hash d r h" "h \<in> set (map s_token_hash (db_sessions d))"
  shows "visitor_hash d' r' h"
proof -
  have d': "d' = d\<lparr>db_sessions := db_sessions d @ [s]\<rparr>" "s_token_hash s = e_hash e token"
      "e_hash e token \<notin> set (map s_token_hash (db_sessions d))"
    using assms(1) by (auto simp: session_create_def insert_session_def Let_def split: if_splits)
  then have other: "h \<noteq> e_hash e token"
    using assms(3) by metis
  obtain data ttl where r': "r' = redis_create_session e (if u = [] then r else snd (enforce_concurrent_limit e r u (get_max_sessions d)))
       (e_hash e token) data ttl"
    using assms(1) by (auto simp: session_create_def Let_def split: sum.splits)
  have "sr_hashes r' (session_key h) \<in> {None, sr_hashes r (session_key h)}"
    using other hashes_enforce [of e r u "get_max_sessions d" "session_key h"]
    by (auto simp: r' redis_create_session_def hset_expire_def Let_def)
  with assms(2) d'(1,2) other show ?thesis
    by (auto simp: visitor_hash_def)
qed

text \<open>What the middleware hands on: a session it found, or one it made.\<close>

lemma attach_made:
  assumes "session_attach e r w = (r1, Some token, w1)" "e_redis_up e"
  shows "visitor_hash (w_db w1) (w_redis w1) (e_hash e token)" "token = e_fresh e ''session_token''"
    "e_hash e token \<in> set (map s_token_hash (db_sessions (w_db w1)))" "db_users (w_db w1) = db_users (w_db w)"
proof -
  obtain rd s ua where made: "session_create e (w_db w, rd) None (client_host r) ua = (Inr (token, s), w_db w1, w_redis w1)"
    using assms(1) by (auto simp: session_attach_def attach_anonymous_def create_anonymous_session_def client_host_def Let_def
        split: option.splits prod.splits sum.splits if_splits)
  note anon = anonymous_hash [OF made assms(2)]
  show "visitor_hash (w_db w1) (w_redis w1) (e_hash e token)"
    "e_hash e token \<in> set (map s_token_hash (db_sessions (w_db w1)))" "db_users (w_db w1) = db_users (w_db w)"
    by (fact anon)+
  from made show "token = e_fresh e ''session_token''"
    by (auto simp: session_create_def Let_def split: sum.splits)
qed

lemma attach_found:
  assumes "session_attach e r w = (r1, None, w1)"
  shows "w_db w1 = w_db w"
  using assms by (auto simp: session_attach_def attach_anonymous_def create_anonymous_session_def Let_def
        split: option.splits prod.splits sum.splits if_splits)

lemma attach_request:
  assumes "session_attach e r w = (r1, created, w1)"
  shows "rq_scheme r1 = rq_scheme r" "rq_cookies r1 = rq_cookies r"
  using assms by (auto simp: session_attach_def attach_anonymous_def Let_def split: option.splits prod.splits)

lemma attach_user:
  assumes "get_session_token r = Some token" "fst (resolve_session e (w_db w, w_redis w) (e_hash e token)) = res"
  shows "st_user_id (rq_state (fst (session_attach e r w))) = (case res of Some (_, user_id) \<Rightarrow> user_id | None \<Rightarrow> None)"
  using assms by (auto simp: session_attach_def attach_anonymous_def anonymous_state_def Let_def
      split: option.splits prod.splits)

text \<open>What a login that succeeds sends, and what becomes of the sessions of visitors.\<close>

lemma login_answer:
  assumes "users_wf (w_db w)" "\<forall>u \<in> set (db_users (w_db w)). u_id u \<noteq> []"
    and "login_endpoint c e email password r w = (Inr (view, resp), w')" "rq_scheme r = ''https''"
  shows "resp = set_csrf_cookie (e_fresh e ''csrf'') True (set_session_cookie (e_fresh e ''session_token'') True
       \<lparr>rs_status = 200, rs_headers = [], rs_cookies = [], rs_error = None\<rparr>)"
    and "sessions_wf (w_db w) \<Longrightarrow> e_db_up e \<Longrightarrow> \<exists>sid. fst (resolve_session e (w_db w', w_redis w')
       (e_hash e (e_fresh e ''session_token''))) = Some (sid, Some (vw_id view))"
    and "visitor_hash (w_db w) (w_redis w) h \<Longrightarrow> h \<in> set (map s_token_hash (db_sessions (w_db w))) \<Longrightarrow>
       visitor_hash (w_db w') (w_redis w') h"
proof -
  obtain ac token th sid d' where log: "login c e (w\<lparr>w_auth := ac\<rparr>) email password (client_host r) (header ''user-agent'' r)
       = (Inr (LoginOk view token th sid), w', d')"
    and resp: "resp = set_csrf_cookie (e_fresh e ''csrf'') True (set_session_cookie token True
       \<lparr>rs_status = 200, rs_headers = [], rs_cookies = [], rs_error = None\<rparr>)"
    using assms(3,4) by (auto simp: login_endpoint_def limited_def Let_def
        split: prod.splits sum.splits login_result.splits if_splits)
  have wf: "users_wf (w_db (w\<lparr>w_auth := ac\<rparr>))"
    using assms(1) by simp
  obtain u s d2 where u: "u \<in> set (db_users (w_db w))" "vw_id view = u_id u"
    and create: "session_create e (update_user (e_now e) (u_id u) (\<lambda>u. u\<lparr>u_failed_login_attempts := 0, u_locked_until := None\<rparr>) (w_db w),
       w_redis w) (Some (u_id u)) (client_host r) (header ''user-agent'' r) = (Inr (token, s), d2, w_redis w')"
    and w': "w_db w' = log_security_event e ''login_success'' (client_host r) (Some (u_id u)) [] d2"
    by (rule login_steps [OF wf log]) simp
  have id: "u_id u \<noteq> []"
    using assms(2) u(1) by blast
  have token: "token = e_fresh e ''session_token''"
    using create by (auto simp: session_create_def Let_def split: sum.splits)
  show "resp = set_csrf_cookie (e_fresh e ''csrf'') True (set_session_cookie (e_fresh e ''session_token'') True
       \<lparr>rs_status = 200, rs_headers = [], rs_cookies = [], rs_error = None\<rparr>)"
    using resp token by simp
  show "\<exists>sid. fst (resolve_session e (w_db w', w_redis w') (e_hash e (e_fresh e ''session_token'')))
      = Some (sid, Some (vw_id view))" if "sessions_wf (w_db w)" "e_db_up e"
    using session_create_resolves(1) [OF create _ that(2) id] that(1)
    by (simp add: w' resolve_ignores_log u(2) sessions_wf_def token)
  show "visitor_hash (w_db w') (w_redis w') h"
    if "visitor_hash (w_db w) (w_redis w) h" "h \<in> set (map s_token_hash (db_sessions (w_db w)))"
    using hash_stays_anonymous [OF create, of h] that
    by (simp add: w' visitor_hash_cong [of "log_security_event _ _ _ _ _ _"]
        visitor_hash_cong [of "update_user _ _ _ _"])
qed

text \<open>
  C40: signing in sticks only for a browser that came with a session.  After a login over
  \<open>https\<close> that succeeds, the browser's next request belongs to the user who signed in when the
  middleware found a session for the login request, and to nobody when it had to make an
  anonymous one: the cookie of that one is set after the login's and replaces it.
\<close>

theorem login_sticks_iff:
  assumes "users_wf (w_db w)" "sessions_wf (w_db w)" "\<forall>u \<in> set (db_users (w_db w)). u_id u \<noteq> []"
    and "e_redis_up e" "e_db_up e2" "e_hash e2 = e_hash e" "rq_scheme r = ''https''"
    and "e_fresh e ''session_token'' \<noteq> []" "e_fresh e2 ''session_token'' \<noteq> []"
    and "session_attach e r w = (r1, created, w1)"
    and "login_endpoint c e2 email password r1 w1 = (Inr (view, resp), w2)"
    and "session_dispatch e (login_handler c e2 email password) r w = (answer, w3)"
    and "rq_cookies r' = receive True answer (rq_cookies r)"
  shows "st_user_id (rq_state (fst (session_attach e2 r' w3))) = (if created = None then Some (vw_id view) else None)"
proof -
  note same = attach_request [OF assms(10)]
  have users: "db_users (w_db w1) = db_users (w_db w)"
    using attach_found attach_made(4) assms(4,10) by (cases created) auto
  have wf: "users_wf (w_db w1)" "\<forall>u \<in> set (db_users (w_db w1)). u_id u \<noteq> []" "rq_scheme r1 = ''https''"
    using assms(1,3,7) users same(1) by (simp_all add: users_wf_def)
  note login = login_answer [OF wf(1,2) assms(11) wf(3)]
  let ?token = "e_fresh e2 ''session_token''"
  have w3: "w3 = w2" and jar: "map_of (rq_cookies r') ''__Host-sakn_session'' =
      Some (case created of None \<Rightarrow> ?token | Some t \<Rightarrow> if t = [] then ?token else t)"
    using assms(12) by (auto simp: assms(7,13) session_dispatch_def login_handler_def assms(10,11) Let_def login(1) same
        receive_csrf receive_session split: option.splits if_splits)
  show ?thesis
  proof (cases created)
    case None
    then have "get_session_token r' = Some ?token"
      using jar assms(9) by (intro token_in_jar) auto
    moreover have "sessions_wf (w_db w1)"
      using attach_found assms(2,10) None by simp
    ultimately show ?thesis
      using login(2) assms(5) None attach_user [of r' ?token e2 w2] by (auto simp: w3)
  next
    case (Some t)
    note made = attach_made [OF assms(10) [unfolded Some] assms(4)]
    have "get_session_token r' = Some t"
      using jar made(2) assms(8) Some by (intro token_in_jar) auto
    moreover have "visitor_hash (w_db w2) (w_redis w2) (e_hash e2 t)"
      using login(3) made(1,3) assms(6) by simp
    then obtain sid where "fst (resolve_session e2 (w_db w2, w_redis w2) (e_hash e2 t)) \<in> {None, Some (sid, None)}"
      using visitor_unresolved by blast
    ultimately show ?thesis
      using Some attach_user [of r' t e2 w2] by (auto simp: w3)
  qed
qed

theorem login_sticks_iff_witness:
  "\<exists>t r1 w1 view resp w2 answer w3.
     session_attach (sample_env\<lparr>e_fresh := \<lambda>_. ''h3''\<rparr>) (visitor_request ''ip'') (sample_world sample_db) = (r1, Some t, w1) \<and>
     login_endpoint sample_cfg sample_env ''a@b.c'' ''pw'' r1 w1 = (Inr (view, resp), w2) \<and>
     session_dispatch (sample_env\<lparr>e_fresh := \<lambda>_. ''h3''\<rparr>) (login_handler sample_cfg sample_env ''a@b.c'' ''pw'')
       (visitor_request ''ip'') (sample_world sample_db) = (answer, w3) \<and>
     st_user_id (rq_state (fst (session_attach sample_env
       ((visitor_request ''ip'')\<lparr>rq_cookies := receive True answer []\<rparr>) w3))) = None"
proof -
  let ?e = "sample_env\<lparr>e_fresh := \<lambda>_. ''h3''\<rparr>" and ?r = "visitor_request ''ip''" and ?w = "sample_world sample_db"
  obtain r1 created w1 where att: "session_attach ?e ?r ?w = (r1, created, w1)"
    by (cases "session_attach ?e ?r ?w") auto
  have created: "created = Some ''h3''" "map s_id (db_sessions (w_db w1)) = [''s1'', ''h3'']"
      "map s_token_hash (db_sessions (w_db w1)) = [''h1'', ''h3'']" "w_auth w1 = []" "w_bruteforce w1 = Map.empty"
    using att by (auto simp: session_attach_def attach_anonymous_def create_anonymous_session_def session_create_def
        insert_session_def visitor_request_def get_session_token_def SESSION_COOKIE_NAMES_def sample_world_def sample_simps Let_def)
  have users: "db_users (w_db w1) = [sample_user]"
    using attach_made(4) [OF att [unfolded created]] by (simp add: sample_world_def sample_simps)
  have find: "user_by_email (w_db w1) (normalize_email ''a@b.c'') = Inr (Some sample_user)"
    by (simp add: user_by_email_def users sample_email sample_user_def)
  have logs: "\<exists>loc st th sid w' d'. login sample_cfg sample_env (w1\<lparr>w_auth := ac\<rparr>) ''a@b.c'' ''pw'' ip ua =
    (Inr (LoginOk (view_user loc (save_user (e_now sample_env)
       (\<lambda>u. u\<lparr>u_failed_login_attempts := 0, u_locked_until := None\<rparr>) sample_user)) st th sid), w', d')" for ac ip ua
    using created(2,3,5) find by (intro login_opens)
      (simp_all add: users check_ip_bruteforce_def bf_count_def sample_cfg_def sample_simps check_brute_force_lock_def)
  have allowed: "limited sample_env key ''login'' w1 = (Inr (), w1\<lparr>w_auth := [(key, [e_now sample_env])]\<rparr>)" for key
    by (simp add: limited_def enforce_rate_limit_def auth_check_def auth_record_def prune_auth_def AUTH_LIMITS_def
        created(4) dict_get_def Let_def)
  obtain view resp w2 where log: "login_endpoint sample_cfg sample_env ''a@b.c'' ''pw'' r1 w1 = (Inr (view, resp), w2)"
    using logs [of "[(''ip:'' @ client_host r1, [e_now sample_env])]" "client_host r1" "header ''user-agent'' r1"]
    by (auto simp: login_endpoint_def allowed Let_def)
  obtain answer w3 where run: "session_dispatch ?e (login_handler sample_cfg sample_env ''a@b.c'' ''pw'') ?r ?w = (answer, w3)"
    by (rule prod.exhaust)
  let ?next = "?r\<lparr>rq_cookies := receive True answer []\<rparr>"
  have "users_wf (w_db ?w)" "sessions_wf (w_db ?w)" "\<forall>u \<in> set (db_users (w_db ?w)). u_id u \<noteq> []" "rq_scheme ?r = ''https''"
      "rq_cookies ?next = receive True answer (rq_cookies ?r)"
    by (simp_all add: users_wf_def sessions_wf_def sample_world_def sample_simps visitor_request_def)
  then have "st_user_id (rq_state (fst (session_attach sample_env ?next w3))) = None"
    using login_sticks_iff [OF _ _ _ _ _ _ _ _ _ att log run, of ?next] created(1) by (simp add: sample_env_def)
  then show ?thesis
    using att log run created(1) by blast
qed

end
