(* ===== verification/Spec2Isabelle.thy ===== *)
theory Spec2Isabelle
  imports Sakn_Prelude Ipaddress Address_Filter Rate_Store Models Rate_Service Http Sessions
    Middleware Json Auth Account Admin_Users Admin_Config Logs Tool_Access
    Tool_Process Traceroute Ping Dns_Tool Urls Ssl_Tool Tool_Definitions Startup Config
    User_Table Json_Read Log_View Migrations Trust_Store Tool_Stream Schema
    Routes Mail Bodies Results Browser
begin

text \<open>
  The backend of SAKN, the Swiss Army Knife for Network Engineers: a FastAPI application that runs
  ping, traceroute, DNS lookups and TLS inspections for visitors, users and administrators.  Paths
  below are relative to \<open>src/src/backend\<close>.

  \<^bold>\<open>The program.\<close>  \<open>app/main.py\<close> builds the application.  A request passes a stack of middlewares
  (proxy trust, security headers, rate limit, session, CORS, request identifier) and reaches an
  endpoint of \<open>app/api/v1/endpoints\<close>.  The session middleware looks the cookie up in Redis, then in
  the table of sessions, and leaves user, role and session in the state of the request; the rate
  limiter counts in Redis or in memory; the endpoints call \<open>app/services\<close>, which read and write the
  tables of \<open>app/models\<close>.  The tools (\<open>app/tools\<close>) put every target through
  \<open>app/security/address_filter.py\<close> and start a program or use a library; ping and traceroute also
  stream over a WebSocket (\<open>app/websocket\<close>).  Jobs clean the tables at night, a command creates the
  first administrator, and \<open>alembic/versions\<close> brings the schema of the database up to date.

  \<^bold>\<open>Conventions.\<close>  Times are integers, in microseconds (\<open>tstamp\<close>); strings are lists of characters
  below 256; addresses are words of 32 and 128 bits; a dictionary is an association list where its
  order shows and a map elsewhere.  A table is the list of its rows in order of insertion, \<open>db\<close>
  is the record of the thirteen tables and \<open>world\<close> adds what lives outside the database: the
  session cache, the limiter, the two stores of authentication counters and the mails sent.  An
  operation takes the state and gives the new one with its result; an exception is a value of
  \<open>exn\<close> on the left of a sum.  A service gives (\<open>svc\<close>) its result, the world and the database as
  last committed, which is what remains when a later step raises.  What a request cannot know is the
  record \<open>env\<close>: the time, whether Redis and the database answer, the hash function and fresh values.

  \<^bold>\<open>Theories.\<close>
  \<^item> \<open>Sakn_Prelude\<close>: Python's string operations, decimal numbers, time; the collections and
    simplification rules the other theories share.
  \<^item> \<open>Ipaddress\<close>, \<open>Urls\<close>, \<open>Json\<close>, \<open>Json_Read\<close>: what is used of the standard library, with the
    round trips of addresses and of JSON texts.
  \<^item> \<open>Address_Filter\<close>: \<open>app/security/address_filter.py\<close>, the block list, the resolver that walks
    aliases and \<open>filter_target\<close>; the block list as ranges of numbers.
  \<^item> \<open>Models\<close>: \<open>app/models\<close>, \<open>app/database.py\<close>; the rows, the queries, the effect of deletions.
    \<open>Schema\<close>: the statements of all revisions, the declared tables, and the same deletions read
    off the foreign keys.  \<open>Migrations\<close>: the two revisions that rewrite rows.
  \<^item> \<open>Rate_Store\<close>: \<open>app/redis/rate_limit_store.py\<close>, the Lua script on sorted sets and the store in
    memory.  \<open>Rate_Service\<close>: \<open>app/services/rate_limit_service.py\<close>, effective limits, visitors,
    counters of the authentication endpoints.
  \<^item> \<open>Http\<close>: requests, responses, cookies, CSRF, trusted proxies, headers, error bodies.
    \<open>Middleware\<close>: the session and the rate limit middleware and the whole stack (\<open>app_stack\<close>).
    \<open>Routes\<close>: the decorators and routers, which endpoint a request gets to.
  \<^item> \<open>Sessions\<close>: \<open>app/redis/session_store.py\<close>, \<open>app/services/session_service.py\<close> and the clean-up
    jobs.  \<open>Auth\<close>: \<open>app/services/auth_service.py\<close> and its endpoints.  \<open>Mail\<close>: the pages sent, the
    conversation with the mail server.  \<open>Account\<close>: preferences, own sessions, own account.
    \<open>Bodies\<close>: the Pydantic classes of the bodies, the answer to one that does not fit, and the
    endpoints of the users on the bodies as sent.  \<open>Browser\<close>: the cookies of an answer as a browser
    keeps them, and to whom the request after a login belongs.
  \<^item> \<open>Admin_Users\<close>, \<open>Admin_Config\<close>, \<open>Logs\<close>, \<open>Log_View\<close>: the administration, the three logs and how
    they are shown.  \<open>User_Table\<close>: every step that writes a user row, as one inductive relation.
  \<^item> \<open>Tool_Access\<close>: the registry, the access policy over HTTP and over a WebSocket, the connection
    manager.  \<open>Tool_Definitions\<close>: the declared parameters.  \<open>Tool_Process\<close>: reading parameters,
    running a program under a time limit, opening a stream.  \<open>Traceroute\<close>, \<open>Ping\<close>, \<open>Dns_Tool\<close>,
    \<open>Ssl_Tool\<close>: the four tools and the two stream handlers.  \<open>Trust_Store\<close>: the system's
    certificates.  \<open>Tool_Stream\<close>: the WebSocket endpoint as a whole.  \<open>Results\<close>: the schemas the tools
    declare for their results, and that the results meet them.
  \<^item> \<open>Config\<close>: \<open>app/config.py\<close>.  \<open>Startup\<close>: \<open>lifespan\<close>, seeding, jobs, health, \<open>create-admin\<close>.

  \<^bold>\<open>Interfaces.\<close>  \<open>window_limiter\<close> is the contract of a counter with a window (it admits only below
  the limit and remembers what it admitted): the bound on what any window admits is proved in it
  once, for the two limits of the Redis store and of the store in memory, for visitors by address
  and for the authentication counters.  \<open>target_guard\<close> is what a tool needs of the target filter,
  and \<open>filter_target\<close> provides it.  \<open>seeded_table\<close> is a table filled by adding rows whose key is missing
  (tools, permissions, limits, settings).  \<open>char_escape\<close> is a way to write characters in JSON texts
  that reading undoes, with and without \<open>ensure_ascii\<close>.  \<open>layer\<close> is a middleware that learns of the
  application what its calls give only; the four layers of the stack are interpretations, and what
  the whole stack keeps from the endpoints follows layer by layer.

  \<^bold>\<open>What the lemmas show.\<close>  Tools: no target in a blocked network, however the DNS answers; only
  harmless commands; private hops hidden; streamed and batch parsing agree; the stream of ping is
  consistent for every interleaving of its events; alias chains are linked and bounded; the verdict
  on a certificate chain.  Rates: both backends bound every window, agree, and the advertised delay
  suffices.  Users: sign-in, lockout, reset, revocation, no escalation of privileges through any
  step, at least one administrator after demotions and deletions, registration leads to a login, a login sticks for a
  browser that came with a session.
  Requests: the client address is not forged, refusals have no other effect, the administration is
  closed through the whole stack.  Data: types and uniqueness of user rows, the migrated schema is
  the declared one, deletions follow its foreign keys, logs show what was logged, seeding is
  idempotent.  Where the code falls short of what it means to do, a lemma states the behaviour on a
  concrete input, and the properties are stated with the conditions under which they do hold.

  \<^bold>\<open>Bounds.\<close>  The loops that walk aliases carry the bounds of the code, \<open>CNAME_MAX_HOPS\<close> and
  \<open>MAX_CNAME_DEPTH\<close>.  The loop over batches of the migration ends because the offset grows by
  \<open>BATCH_SIZE\<close> while the rows found do not.  Parsers recurse on what is left of their input.  The
  reader of JSON has the length of the text and one more as fuel, and each step consumes a
  character: \<open>json_loads\<close> reads every text that \<open>json.dumps\<close> writes.  Going up or down the revisions takes at
  most as many steps as there are revisions; the foreign keys of the schema form no chain of
  deletions longer than two.

  \<^bold>\<open>Parameters.\<close>  Code that is not in the repository is an argument: the DNS (\<open>dns_service\<close>), TLS,
  certificates and HTTP of the TLS tool (\<open>tls_service\<close>), password hashing, strength estimate and HMAC
  (\<open>auth_cfg\<close>), the external programs (their output, its timing), the file system, the mail server,
  the order of unordered queries, the names the database gives to constraints, the attributes of
  Pydantic's base class, CORS and, for the stack and the routes, the endpoints.  Witnesses instantiate them with concrete functions.

  \<^bold>\<open>Not modelled.\<close>  The web client (\<open>src/src/frontend\<close>, another language).  Of \<open>app/logs/logger.py\<close>, the
  processors it hands to structlog.  Bodies of the administration endpoints that are no objects of the
  expected types.  \<open>alembic/env.py\<close> and the creation of engines, clients and
  of the scheduler: calls of libraries with settings.  Display values of times in answers, rounding for
  display, fractions in JSON numbers, characters above 255, limits of column lengths.  A request is
  one step: requests do not interleave inside one, and a Redis call either succeeds or finds Redis
  down.  Of Starlette's router, matching segments and redirects for slashes are modelled.
\<close>

section \<open>The commands of the network tools\<close>

text \<open>
  C22: the commands the network tools run are harmless.  Only the answers of the system to
  commands made of the program, known options, plain numbers and a last word that is an
  unblocked address and no option matter: neither the runs over HTTP nor the streams of ping
  and traceroute ever start another command, whatever the parameters and the answers of the DNS.
\<close>

theorem tool_commands_safe:
  assumes "\<forall>args. safe_command ''ping'' PING_OPTIONS args \<or> safe_command ''traceroute'' TRACE_OPTIONS args \<longrightarrow>
      os args = os' args \<and> ping_ws args = ping_ws' args \<and> trace_ws args = trace_ws' args"
  shows "ping_execute num (filter_target dns to r) os params = ping_execute num (filter_target dns to r) os' params \<and>
    trace_execute (filter_target dns to r) os params = trace_execute (filter_target dns to r) os' params \<and>
    handle_ping_stream e text_of (filter_target dns to r) ping_ws quota ms sid uid ip incoming d =
      handle_ping_stream e text_of (filter_target dns to r) ping_ws' quota ms sid uid ip incoming d \<and>
    handle_traceroute_stream e text_of (filter_target dns to r) trace_ws quota ms sid uid ip incoming d =
      handle_traceroute_stream e text_of (filter_target dns to r) trace_ws' quota ms sid uid ip incoming d"
  using ping_only_safe_commands [of os os' ping_ws ping_ws'] trace_only_safe_commands [of os os' trace_ws trace_ws'] assms
  by simp

theorem tool_commands_safe_witness:
  "trace_execute (filter_target no_dns False []) (\<lambda>args. if hd args \<in> {''ping'', ''traceroute''} then NoProgram else Breaks 0)
      [(''target'', JStr ''8.8.8.8'')] =
   trace_execute (filter_target no_dns False []) (\<lambda>_. NoProgram) [(''target'', JStr ''8.8.8.8'')]"
  using tool_commands_safe [of "\<lambda>args. if hd args \<in> {''ping'', ''traceroute''} then NoProgram else Breaks 0" "\<lambda>_. NoProgram"
      "\<lambda>_. None" "\<lambda>_. None" "\<lambda>_. None" "\<lambda>_. None"]
  by (simp add: safe_command_def)

end
